(* ===== verification/Rust_Str.thy ===== *)
theory Rust_Str
  imports Prelude "HOL-Library.Char_ord" "HOL-Library.List_Lexorder"
begin

text \<open>
  The operations of Rust's \<open>str\<close> that the program calls, on UTF-8 byte strings: splitting,
  prefixes, ASCII classes, the Unicode tests \<open>char::is_control\<close> and \<open>char::is_whitespace\<close>
  read off the encoded bytes, and decimal parsing and printing of \<open>u32\<close>.
\<close>

section \<open>Splitting\<close>

fun split_once :: "char \<Rightarrow> string \<Rightarrow> (string \<times> string) option" where
  "split_once c [] = None"
| "split_once c (x # xs) =
     (if x = c then Some ([], xs)
      else map_option (\<lambda>(a, b). (x # a, b)) (split_once c xs))"

definition rsplit_once :: "char \<Rightarrow> string \<Rightarrow> (string \<times> string) option" where
  "rsplit_once c s = map_option (\<lambda>(a, b). (rev b, rev a)) (split_once c (rev s))"

fun split_all :: "char \<Rightarrow> string \<Rightarrow> string list" where
  "split_all c [] = [[]]"
| "split_all c (x # xs) =
     (if x = c then [] # split_all c xs
      else (case split_all c xs of [] \<Rightarrow> [[x]] | p # ps \<Rightarrow> (x # p) # ps))"

fun strip_prefix :: "string \<Rightarrow> string \<Rightarrow> string option" where
  "strip_prefix [] s = Some s"
| "strip_prefix (p # ps) [] = None"
| "strip_prefix (p # ps) (x # xs) = (if p = x then strip_prefix ps xs else None)"

definition starts_with :: "string \<Rightarrow> string \<Rightarrow> bool" where
  "starts_with p s = (strip_prefix p s \<noteq> None)"

text \<open>\<open>str::match_indices(w).count()\<close>: non-overlapping occurrences from the left.\<close>

fun count_matches_from :: "nat \<Rightarrow> string \<Rightarrow> string \<Rightarrow> nat" where
  "count_matches_from k w [] = 0"
| "count_matches_from (Suc k) w (x # xs) = count_matches_from k w xs"
| "count_matches_from 0 w (x # xs) =
     (if starts_with w (x # xs) then Suc (count_matches_from (length w - 1) w xs)
      else count_matches_from 0 w xs)"

fun contains_str :: "string \<Rightarrow> string \<Rightarrow> bool" where
  "contains_str w [] = (w = [])"
| "contains_str w (x # xs) = (starts_with w (x # xs) \<or> contains_str w xs)"

lemma split_once_Some_iff: "split_once c s = Some (a, b) \<longleftrightarrow> s = a @ c # b \<and> c \<notin> set a"
proof (induction s arbitrary: a)
  case Nil
  then show ?case by simp
next
  case (Cons x xs)
  show ?case
  proof (cases "x = c")
    case True
    then show ?thesis by (cases a) auto
  next
    case False
    then show ?thesis using Cons.IH by (cases a) (auto split: option.splits)
  qed
qed

lemma split_once_append [simp]: "c \<notin> set a \<Longrightarrow> split_once c (a @ c # b) = Some (a, b)"
  by (simp add: split_once_Some_iff)

lemma split_once_None_iff: "split_once c s = None \<longleftrightarrow> c \<notin> set s"
  by (induction s) auto

lemma strip_prefix_Some_iff: "strip_prefix p s = Some r \<longleftrightarrow> s = p @ r"
  by (induction p s rule: strip_prefix.induct) auto

lemma strip_prefix_append [simp]: "strip_prefix p (p @ r) = Some r"
  by (simp add: strip_prefix_Some_iff)

lemma starts_with_iff: "starts_with p s \<longleftrightarrow> (\<exists>r. s = p @ r)"
  by (auto simp: starts_with_def strip_prefix_Some_iff)

lemma split_all_nonempty [simp]: "split_all c s \<noteq> []"
  by (induction s) (auto split: list.splits)

section \<open>ASCII classes\<close>

abbreviation byte :: "char \<Rightarrow> nat" where
  "byte c \<equiv> of_char c"

definition is_ascii_digit :: "char \<Rightarrow> bool" where
  "is_ascii_digit c = (48 \<le> byte c \<and> byte c \<le> 57)"

definition is_ascii_lowercase :: "char \<Rightarrow> bool" where
  "is_ascii_lowercase c = (97 \<le> byte c \<and> byte c \<le> 122)"

definition is_ascii_uppercase :: "char \<Rightarrow> bool" where
  "is_ascii_uppercase c = (65 \<le> byte c \<and> byte c \<le> 90)"

definition is_ascii_alphanumeric :: "char \<Rightarrow> bool" where
  "is_ascii_alphanumeric c = (is_ascii_digit c \<or> is_ascii_lowercase c \<or> is_ascii_uppercase c)"

definition is_ascii_hexdigit :: "char \<Rightarrow> bool" where
  "is_ascii_hexdigit c =
     (is_ascii_digit c \<or> (97 \<le> byte c \<and> byte c \<le> 102) \<or> (65 \<le> byte c \<and> byte c \<le> 70))"

definition to_ascii_lower :: "char \<Rightarrow> char" where
  "to_ascii_lower c = (if is_ascii_uppercase c then char_of (byte c + 32) else c)"

definition to_ascii_lowercase :: "string \<Rightarrow> string" where
  "to_ascii_lowercase s = map to_ascii_lower s"

definition eq_ignore_ascii_case :: "string \<Rightarrow> string \<Rightarrow> bool" where
  "eq_ignore_ascii_case s t = (to_ascii_lowercase s = to_ascii_lowercase t)"

section \<open>Unicode classes on UTF-8 bytes\<close>

text \<open>
  \<open>s.chars().any(char::is_control)\<close>: the control characters are U+0000 to U+001F, U+007F and
  U+0080 to U+009F; the last range is encoded as the byte C2 and a byte from 80 to 9F, and
  C2 occurs in valid UTF-8 only as the first byte of such a pair.
\<close>

fun has_control :: "string \<Rightarrow> bool" where
  "has_control [] = False"
| "has_control (x # xs) =
     (byte x < 32 \<or> byte x = 127
      \<or> (byte x = 194 \<and> (case xs of [] \<Rightarrow> False | y # _ \<Rightarrow> 128 \<le> byte y \<and> byte y \<le> 159))
      \<or> has_control xs)"

text \<open>
  One leading white-space character of the encoded string: U+0009 to U+000D, U+0020, U+0085,
  U+00A0, U+1680, U+2000 to U+200A, U+2028, U+2029, U+202F, U+205F and U+3000.
\<close>

definition space1 :: "nat \<Rightarrow> bool" where
  "space1 a = ((9 \<le> a \<and> a \<le> 13) \<or> a = 32)"

definition space2 :: "nat \<Rightarrow> nat \<Rightarrow> bool" where
  "space2 a b = (a = 194 \<and> (b = 133 \<or> b = 160))"

definition space3 :: "nat \<Rightarrow> nat \<Rightarrow> nat \<Rightarrow> bool" where
  "space3 a b c =
     ((a = 225 \<and> b = 154 \<and> c = 128)
      \<or> (a = 226 \<and> b = 128 \<and> ((128 \<le> c \<and> c \<le> 138) \<or> c = 168 \<or> c = 169 \<or> c = 175))
      \<or> (a = 226 \<and> b = 129 \<and> c = 159)
      \<or> (a = 227 \<and> b = 128 \<and> c = 128))"

text \<open>\<open>str::trim_start\<close>, and \<open>s.trim().is_empty()\<close>, which holds when nothing is left of it.\<close>

fun trim_start :: "string \<Rightarrow> string" where
  "trim_start [] = []"
| "trim_start (a # s) =
     (if space1 (byte a) then trim_start s
      else case s of
        [] \<Rightarrow> a # s
      | b # s' \<Rightarrow>
          if space2 (byte a) (byte b) then trim_start s'
          else case s' of
            [] \<Rightarrow> a # s
          | c # s'' \<Rightarrow> if space3 (byte a) (byte b) (byte c) then trim_start s'' else a # s)"

fun trim_end_rev :: "string \<Rightarrow> string" where
  "trim_end_rev [] = []"
| "trim_end_rev (a # s) =
     (if space1 (byte a) then trim_end_rev s
      else case s of
        [] \<Rightarrow> a # s
      | b # s' \<Rightarrow>
          if space2 (byte b) (byte a) then trim_end_rev s'
          else case s' of
            [] \<Rightarrow> a # s
          | c # s'' \<Rightarrow> if space3 (byte c) (byte b) (byte a) then trim_end_rev s'' else a # s)"

definition trim_end :: "string \<Rightarrow> string" where
  "trim_end s = rev (trim_end_rev (rev s))"

definition trim :: "string \<Rightarrow> string" where
  "trim s = trim_end (trim_start s)"

definition is_blank :: "string \<Rightarrow> bool" where
  "is_blank s = (trim_start s = [])"

lemma is_blank_Nil [simp]: "is_blank []"
  by (simp add: is_blank_def)

lemma not_is_blank_nonempty: "\<not> is_blank s \<Longrightarrow> s \<noteq> []"
  by auto

section \<open>UTF-8 validity\<close>

definition is_cont :: "nat \<Rightarrow> bool" where
  "is_cont b = (128 \<le> b \<and> b \<le> 191)"

text \<open>\<open>std::str::from_utf8\<close>: the well-formed sequences of the Unicode standard.\<close>

fun utf8_valid :: "string \<Rightarrow> bool" where
  "utf8_valid [] = True"
| "utf8_valid (a # s) =
     (let x = byte a in
      if x < 128 then utf8_valid s
      else case s of
        [] \<Rightarrow> False
      | b # s1 \<Rightarrow>
          let y = byte b in
          if 194 \<le> x \<and> x \<le> 223 then is_cont y \<and> utf8_valid s1
          else case s1 of
            [] \<Rightarrow> False
          | c # s2 \<Rightarrow>
              let z = byte c in
              if 224 \<le> x \<and> x \<le> 239 then
                is_cont y \<and> is_cont z \<and> (x = 224 \<longrightarrow> 160 \<le> y) \<and> (x = 237 \<longrightarrow> y \<le> 159)
                \<and> utf8_valid s2
              else case s2 of
                [] \<Rightarrow> False
              | d # s3 \<Rightarrow>
                  240 \<le> x \<and> x \<le> 244 \<and> is_cont y \<and> is_cont z \<and> is_cont (byte d)
                  \<and> (x = 240 \<longrightarrow> 144 \<le> y) \<and> (x = 244 \<longrightarrow> y \<le> 143) \<and> utf8_valid s3)"

text \<open>The first \<open>n\<close> characters: a continuation byte belongs to the character before it.\<close>

fun take_chars :: "nat \<Rightarrow> string \<Rightarrow> string" where
  "take_chars n [] = []"
| "take_chars n (c # s) =
     (if is_cont (byte c) then c # take_chars n s
      else case n of 0 \<Rightarrow> [] | Suc m \<Rightarrow> c # take_chars m s)"

lemma set_take_chars: "set (take_chars n s) \<subseteq> set s"
  by (induction n s rule: take_chars.induct) (auto split: nat.splits if_splits)

lemma length_take_chars_ascii: "length (filter (\<lambda>c. \<not> is_cont (byte c)) (take_chars n s)) \<le> n"
  by (induction n s rule: take_chars.induct) (auto split: nat.splits)

section \<open>Decimal numbers\<close>

definition digit_char :: "nat \<Rightarrow> char" where
  "digit_char d = char_of (48 + d)"

definition digit_val :: "char \<Rightarrow> nat" where
  "digit_val c = byte c - 48"

fun show_nat :: "nat \<Rightarrow> string" where
  "show_nat n = (if n < 10 then [digit_char n] else show_nat (n div 10) @ [digit_char (n mod 10)])"

declare show_nat.simps [simp del]

fun digits_val :: "nat \<Rightarrow> string \<Rightarrow> nat option" where
  "digits_val acc [] = Some acc"
| "digits_val acc (c # cs) =
     (if is_ascii_digit c then digits_val (10 * acc + digit_val c) cs else None)"

text \<open>
  \<open>str::parse::<u32>\<close>: an optional plus sign, then at least one digit and digits only, with
  an error when the value does not fit (the running check of the library fails exactly
  when the value does not fit, since the prefix values only grow).
\<close>

definition parse_u32 :: "string \<Rightarrow> u32 option" where
  "parse_u32 s =
     (let body = (case s of [] \<Rightarrow> [] | c # cs \<Rightarrow> if c = CHR ''+'' then cs else s) in
      if body = [] then None
      else (case digits_val 0 body of
              None \<Rightarrow> None
            | Some n \<Rightarrow> if n < 2 ^ 32 then Some (of_nat n) else None))"

definition show_u32 :: "u32 \<Rightarrow> string" where
  "show_u32 w = show_nat (unat w)"

lemma digit_char_byte: "d < 10 \<Longrightarrow> byte (digit_char d) = 48 + d"
  by (simp add: digit_char_def)

lemma is_digit_digit_char [simp]: "d < 10 \<Longrightarrow> is_ascii_digit (digit_char d)"
  by (simp add: is_ascii_digit_def digit_char_byte)

lemma digit_val_digit_char [simp]: "d < 10 \<Longrightarrow> digit_val (digit_char d) = d"
  by (simp add: digit_val_def digit_char_byte)

lemma digit_char_digit_val [simp]: "is_ascii_digit c \<Longrightarrow> digit_char (digit_val c) = c"
  by (simp add: is_ascii_digit_def digit_char_def digit_val_def)

lemma digit_val_less [simp]: "is_ascii_digit c \<Longrightarrow> digit_val c < 10"
  by (auto simp: is_ascii_digit_def digit_val_def)

lemma digits_val_append:
  "digits_val acc (xs @ ys) =
     (case digits_val acc xs of None \<Rightarrow> None | Some m \<Rightarrow> digits_val m ys)"
  by (induction xs arbitrary: acc) auto

lemma show_nat_digits: "c \<in> set (show_nat n) \<Longrightarrow> is_ascii_digit c"
proof (induction n rule: show_nat.induct)
  case (1 n)
  then show ?case by (subst (asm) show_nat.simps) (auto split: if_splits)
qed

lemma show_nat_nonempty [simp]: "show_nat n \<noteq> []"
  by (subst show_nat.simps) simp

lemma digits_val_show_nat [simp]: "digits_val 0 (show_nat n) = Some n"
proof (induction n rule: show_nat.induct)
  case (1 n)
  show ?case
  proof (cases "n < 10")
    case True
    then show ?thesis by (subst show_nat.simps) simp
  next
    case False
    with "1.IH" have "digits_val 0 (show_nat (n div 10)) = Some (n div 10)" by simp
    then have "digits_val 0 (show_nat n) = Some (10 * (n div 10) + n mod 10)"
      using False by (subst show_nat.simps) (simp add: digits_val_append)
    then show ?thesis by simp
  qed
qed

lemma digits_val_Some_digits: "digits_val acc s = Some n \<Longrightarrow> c \<in> set s \<Longrightarrow> is_ascii_digit c"
  by (induction s arbitrary: acc) (auto split: if_splits)

lemma digits_val_lower: "digits_val acc s = Some n \<Longrightarrow> acc \<le> n"
  by (induction s arbitrary: acc) (fastforce split: if_splits)+

text \<open>Canonical digit strings are the ones \<open>show_nat\<close> prints.\<close>

definition canonical_digits :: "string \<Rightarrow> bool" where
  "canonical_digits s \<longleftrightarrow> s \<noteq> [] \<and> list_all is_ascii_digit s \<and> (1 < length s \<longrightarrow> hd s \<noteq> CHR ''0'')"

lemma digit_val_pos: "is_ascii_digit c \<Longrightarrow> c \<noteq> CHR ''0'' \<Longrightarrow> 0 < digit_val c"
proof -
  assume d: "is_ascii_digit c" and c: "c \<noteq> CHR ''0''"
  from c have "byte c \<noteq> byte CHR ''0''" by (simp only: of_char_eq_iff) simp
  with d show ?thesis by (auto simp: is_ascii_digit_def digit_val_def)
qed

lemma canonical_show_nat: "canonical_digits s \<Longrightarrow> digits_val 0 s = Some n \<Longrightarrow> show_nat n = s"
proof (induction s arbitrary: n rule: rev_induct)
  case Nil
  then show ?case by (simp add: canonical_digits_def)
next
  case (snoc c s)
  from snoc.prems obtain m where m: "digits_val 0 s = Some m" and n: "n = 10 * m + digit_val c"
    and c: "is_ascii_digit c"
    by (auto simp: digits_val_append canonical_digits_def split: option.splits)
  show ?case
  proof (cases "s = []")
    case True
    with m n c show ?thesis by (subst show_nat.simps) simp
  next
    case False
    then obtain d s' where s: "s = d # s'" by (cases s) auto
    with snoc.prems(1) False have can: "canonical_digits s" and d: "is_ascii_digit d" "d \<noteq> CHR ''0''"
      by (auto simp: canonical_digits_def)
    from m s d have "digits_val (digit_val d) s' = Some m" by simp
    then have "0 < m" using digits_val_lower digit_val_pos [OF d] by fastforce
    moreover from snoc.IH [OF can m] have "show_nat m = s" .
    ultimately show ?thesis using n c by (subst show_nat.simps) simp
  qed
qed

lemma canonical_digits_show_nat [simp]: "canonical_digits (show_nat n)"
proof (induction n rule: show_nat.induct)
  case (1 n)
  show ?case
  proof (cases "n < 10")
    case True
    then show ?thesis by (subst show_nat.simps) (simp add: canonical_digits_def)
  next
    case False
    with "1.IH" have can: "canonical_digits (show_nat (n div 10))" by simp
    have "hd (show_nat (n div 10)) \<noteq> CHR ''0''"
    proof (cases "n div 10 < 10")
      case True
      then have "show_nat (n div 10) = [digit_char (n div 10)]" by (subst show_nat.simps) simp
      moreover have "byte (digit_char (n div 10)) \<noteq> 48" using True False by (simp add: digit_char_byte)
      ultimately show ?thesis by auto
    next
      case False
      then have "1 < length (show_nat (n div 10))"
        by (subst show_nat.simps) (cases "show_nat (n div 10 div 10)", simp_all)
      with can show ?thesis by (simp add: canonical_digits_def)
    qed
    with can False show ?thesis by (subst show_nat.simps) (simp add: canonical_digits_def)
  qed
qed

lemma not_digit_plus [simp]: "\<not> is_ascii_digit CHR ''+''"
  by (simp add: is_ascii_digit_def)

lemma parse_u32_digits:
  assumes "canonical_digits s"
  shows "parse_u32 s = (case digits_val 0 s of None \<Rightarrow> None
           | Some n \<Rightarrow> if n < 2 ^ 32 then Some (of_nat n) else None)"
proof -
  obtain c cs where s: "s = c # cs" using assms by (cases s) (auto simp: canonical_digits_def)
  with assms have "c \<noteq> CHR ''+''" by (auto simp: canonical_digits_def)
  with s show ?thesis by (simp add: parse_u32_def)
qed

lemma parse_show_u32 [simp]: "parse_u32 (show_u32 w) = Some w"
proof -
  have "unat w < 2 ^ 32" using unsigned_less [of w] by simp
  then show ?thesis by (simp add: show_u32_def parse_u32_digits)
qed

lemma show_parse_u32: "canonical_digits s \<Longrightarrow> parse_u32 s = Some w \<Longrightarrow> show_u32 w = s"
  by (auto simp: show_u32_def parse_u32_digits unat_of_nat canonical_show_nat
      split: option.splits if_splits)

lemma digits_val_total: "list_all is_ascii_digit s \<Longrightarrow> \<exists>n. digits_val acc s = Some n"
  by (induction s arbitrary: acc) auto

end
