(* ===== verification/Errors.thy ===== *)
theory Errors
  imports Rust_Str
begin

text \<open>
  \<open>crates/core/src/error.rs\<close>: the stable error classification, the public error value and
  its builders, over a model of \<open>serde_json::Value\<close>. A \<open>BTreeMap<String, Value>\<close> that is only
  looked up is a partial map; \<open>with_detail\<close> takes the serialised value of its argument.
\<close>

section \<open>JSON values\<close>

text \<open>
  \<open>serde_json::Value\<close>. Numbers keep the library's three cases: an unsigned 64-bit number, a
  negative integer, and a number with a fraction or an exponent, of which the program
  reads nothing and which is kept as its text.
\<close>

datatype json =
    JNull
  | JBool bool
  | JUInt u64
  | JNegInt int
  | JFloat string
  | JStr string
  | JArr "json list"
  | JObj "(string \<times> json) list"

text \<open>Indexing by a key yields null for anything but an object that has the key.\<close>

definition json_index :: "json \<Rightarrow> string \<Rightarrow> json" where
  "json_index v k = (case v of JObj fs \<Rightarrow> (case map_of fs k of None \<Rightarrow> JNull | Some x \<Rightarrow> x) | _ \<Rightarrow> JNull)"

definition json_get :: "json \<Rightarrow> string \<Rightarrow> json option" where
  "json_get v k = (case v of JObj fs \<Rightarrow> map_of fs k | _ \<Rightarrow> None)"

definition as_str :: "json \<Rightarrow> string option" where
  "as_str v = (case v of JStr s \<Rightarrow> Some s | _ \<Rightarrow> None)"

definition as_u64 :: "json \<Rightarrow> u64 option" where
  "as_u64 v = (case v of JUInt n \<Rightarrow> Some n | _ \<Rightarrow> None)"

definition as_array :: "json \<Rightarrow> json list option" where
  "as_array v = (case v of JArr xs \<Rightarrow> Some xs | _ \<Rightarrow> None)"

lemma as_str_simps [simp]:
  "as_str (JStr s) = Some s" "as_str JNull = None" "as_str (JBool b) = None" "as_str (JUInt n) = None"
  "as_str (JArr xs) = None" "as_str (JObj fs) = None"
  by (simp_all add: as_str_def)

lemma as_str_Some_iff: "as_str v = Some s \<longleftrightarrow> v = JStr s"
  by (cases v) (auto simp: as_str_def)

definition json_of_option :: "('a \<Rightarrow> json) \<Rightarrow> 'a option \<Rightarrow> json" where
  "json_of_option f x = (case x of None \<Rightarrow> JNull | Some a \<Rightarrow> f a)"

section \<open>Error codes\<close>

datatype error_code =
    InvalidRequest | UnsupportedCapability | Configuration | Authentication | PermissionDenied
  | SafetyRejected | RateLimited | Overloaded | Timeout | Cancelled | Upstream | Protocol
  | Input | Artifact | Session | IdempotencyConflict | Internal

definition error_code_wire :: "error_code \<Rightarrow> string" where
  "error_code_wire c = (case c of
     InvalidRequest \<Rightarrow> ''invalid_request''
   | UnsupportedCapability \<Rightarrow> ''unsupported_capability''
   | Configuration \<Rightarrow> ''configuration''
   | Authentication \<Rightarrow> ''authentication''
   | PermissionDenied \<Rightarrow> ''permission_denied''
   | SafetyRejected \<Rightarrow> ''safety_rejected''
   | RateLimited \<Rightarrow> ''rate_limited''
   | Overloaded \<Rightarrow> ''overloaded''
   | Timeout \<Rightarrow> ''timeout''
   | Cancelled \<Rightarrow> ''cancelled''
   | Upstream \<Rightarrow> ''upstream''
   | Protocol \<Rightarrow> ''protocol''
   | Input \<Rightarrow> ''input''
   | Artifact \<Rightarrow> ''artifact''
   | Session \<Rightarrow> ''session''
   | IdempotencyConflict \<Rightarrow> ''idempotency_conflict''
   | Internal \<Rightarrow> ''internal'')"

text \<open>The ordered recovery suggestions of each code.\<close>

definition default_suggestions :: "error_code \<Rightarrow> string list" where
  \<open>default_suggestions c = (case c of
     InvalidRequest \<Rightarrow>
       [''Inspect the reported field/details and compare the request with `imagegen-bridge providers capabilities`.'']
   | UnsupportedCapability \<Rightarrow>
       [''Run `imagegen-bridge providers capabilities --json` and remove or change unsupported parameters.'']
   | Configuration \<Rightarrow>
       [''Run `imagegen-bridge config check` to list every invalid field and its source.'',
        ''Run `imagegen-bridge doctor` after correcting the configuration.'']
   | Authentication \<Rightarrow>
       [''Run `imagegen-bridge auth-doctor` and refresh the provider login if it is expired or missing.'']
   | PermissionDenied \<Rightarrow>
       [''Verify the bridge bearer scope and the provider account entitlement for this operation.'']
   | SafetyRejected \<Rightarrow>
       [''Revise the prompt or input images; retrying the unchanged request will not help.'']
   | RateLimited \<Rightarrow>
       [''Honor Retry-After when present; if rate limits persist, set an explicit lower provider concurrency instead of `unlimited`/`auto`.'']
   | Overloaded \<Rightarrow>
       [''Inspect `imagegen-bridge diagnostics` for the exhausted gate or open circuit.'',
        ''For a configured admission gate, increase its capacity or set `max_concurrent = "unlimited"`; keep a finite value only when you want backpressure.'']
   | Timeout \<Rightarrow>
       [''Compare provider and queue timing, then increase `runtime.default_timeout_ms` and `runtime.request.max_timeout_ms` if the provider is still making progress.'']
   | Cancelled \<Rightarrow>
       [''Retry only if the caller intentionally cancelled before provider dispatch.'']
   | Upstream \<Rightarrow>
       [''Use the request ID with provider/bridge logs, honor `retryable`, and run `imagegen-bridge doctor` if failures persist.'']
   | Protocol \<Rightarrow>
       [''Run `imagegen-bridge update check`; if already current, capture the request ID and provider diagnostics for a compatibility report.'']
   | Input \<Rightarrow>
       [''Verify that every input is readable, within configured byte/pixel limits, and under an allowed local or remote source.'']
   | Artifact \<Rightarrow>
       [''Check artifact-root permissions, free space, and configured image/response size ceilings.'']
   | Session \<Rightarrow>
       [''List existing sessions or retry with an isolated session when conversational continuity is not required.'']
   | IdempotencyConflict \<Rightarrow>
       [''Reuse an idempotency key only with the identical request, or generate a new key.'']
   | Internal \<Rightarrow>
       [''Run `imagegen-bridge doctor` and `imagegen-bridge update check`, then correlate the failure with its request ID.''])\<close>

section \<open>The error value and its builders\<close>

record bridge_error =
  err_code :: error_code
  err_message :: string
  err_retryable :: bool
  err_provider :: "string option"
  err_upstream_request_id :: "string option"
  err_details :: "string \<rightharpoonup> json"
  err_suggestions :: "string list"

type_synonym 'a result = "bridge_error + 'a"

definition error_new :: "error_code \<Rightarrow> string \<Rightarrow> bridge_error" where
  "error_new code message =
     \<lparr>err_code = code, err_message = message, err_retryable = False, err_provider = None,
      err_upstream_request_id = None, err_details = Map.empty,
      err_suggestions = default_suggestions code\<rparr>"

definition retryable :: "bool \<Rightarrow> bridge_error \<Rightarrow> bridge_error" where
  "retryable b e = e\<lparr>err_retryable := b\<rparr>"

definition with_provider :: "string \<Rightarrow> bridge_error \<Rightarrow> bridge_error" where
  "with_provider p e = e\<lparr>err_provider := Some p\<rparr>"

definition with_detail :: "string \<Rightarrow> json \<Rightarrow> bridge_error \<Rightarrow> bridge_error" where
  "with_detail k v e = e\<lparr>err_details := (err_details e)(k \<mapsto> v)\<rparr>"

definition with_suggestion :: "string \<Rightarrow> bridge_error \<Rightarrow> bridge_error" where
  "with_suggestion s e =
     (if s \<noteq> [] \<and> s \<notin> set (err_suggestions e)
      then e\<lparr>err_suggestions := err_suggestions e @ [s]\<rparr> else e)"

definition safety_rejected :: "string \<Rightarrow> bridge_error" where
  "safety_rejected message =
     with_detail ''safety_controls_relaxed'' (JBool False)
       (with_detail ''retry_same_request'' (JBool False)
         (with_detail ''recovery'' (JStr ''revise_prompt_or_inputs'')
           (with_detail ''safety_category'' (JStr ''content_policy'')
             (error_new SafetyRejected message))))"

text \<open>The test every consumer makes: is the outcome of the operation unknown?\<close>

definition outcome_unknown :: "bridge_error \<Rightarrow> bool" where
  "outcome_unknown e =
     (case err_details e ''outcome'' of None \<Rightarrow> False | Some v \<Rightarrow> as_str v = Some ''unknown'')"

lemma error_new_simps [simp]:
  "err_code (error_new c m) = c"
  "err_message (error_new c m) = m"
  "err_retryable (error_new c m) = False"
  "err_provider (error_new c m) = None"
  "err_details (error_new c m) = Map.empty"
  "err_suggestions (error_new c m) = default_suggestions c"
  by (simp_all add: error_new_def)

lemma builder_code [simp]:
  "err_code (retryable b e) = err_code e"
  "err_code (with_provider p e) = err_code e"
  "err_code (with_detail k v e) = err_code e"
  "err_code (with_suggestion s e) = err_code e"
  by (simp_all add: retryable_def with_provider_def with_detail_def with_suggestion_def)

lemma builder_retryable [simp]:
  "err_retryable (retryable b e) = b"
  "err_retryable (with_provider p e) = err_retryable e"
  "err_retryable (with_detail k v e) = err_retryable e"
  "err_retryable (with_suggestion s e) = err_retryable e"
  by (simp_all add: retryable_def with_provider_def with_detail_def with_suggestion_def)

lemma builder_details [simp]:
  "err_details (retryable b e) = err_details e"
  "err_details (with_provider p e) = err_details e"
  "err_details (with_detail k v e) = (err_details e)(k \<mapsto> v)"
  "err_details (with_suggestion s e) = err_details e"
  by (simp_all add: retryable_def with_provider_def with_detail_def with_suggestion_def)

lemma builder_provider [simp]:
  "err_provider (retryable b e) = err_provider e"
  "err_provider (with_provider p e) = Some p"
  "err_provider (with_detail k v e) = err_provider e"
  by (simp_all add: retryable_def with_provider_def with_detail_def)

lemma safety_rejected_simps [simp]:
  "err_code (safety_rejected m) = SafetyRejected"
  "err_retryable (safety_rejected m) = False"
  by (simp_all add: safety_rejected_def)

lemma error_code_wire_inj: "error_code_wire a = error_code_wire b \<Longrightarrow> a = b"
  by (cases a; cases b) (simp_all add: error_code_wire_def)

lemma default_suggestions_nonempty: "default_suggestions c \<noteq> []"
  by (cases c) (simp_all add: default_suggestions_def)

section \<open>Failures\<close>

text \<open>Where the source can panic, an operation fails with an error value or panics.\<close>

datatype failure = Failed bridge_error | Panicked

definition fail_with :: "'a result \<Rightarrow> failure + 'a" where
  "fail_with x = (case x of Inl e \<Rightarrow> Inl (Failed e) | Inr a \<Rightarrow> Inr a)"

lemma fail_with_Inr_iff [simp]: "fail_with x = Inr y \<longleftrightarrow> x = Inr y"
  by (cases x) (simp_all add: fail_with_def)

lemma fail_with_Inl_iff: "fail_with x = Inl f \<longleftrightarrow> (\<exists>e. f = Failed e \<and> x = Inl e)"
  by (cases x) (auto simp: fail_with_def)

end
