(* ===== verification/Parameters.thy ===== *)
theory Parameters
  imports Errors
begin

text \<open>
  \<open>crates/core/src/parameters.rs\<close>: the wire enumerations the macro \<open>string_enum!\<close> generates,
  image sizes and aspect ratios. An enumeration is a datatype with its wire spelling and
  the list of its variants in declaration order; the macro's contract, that a spelling
  decodes to exactly the variant that prints it, is the locale \<open>string_enum\<close>, interpreted
  for each of them. The enumerations kept in ordered sets get the derived order.
\<close>

section \<open>The contract of a wire enumeration\<close>

definition wire_decode :: "('a \<Rightarrow> string) \<Rightarrow> 'a list \<Rightarrow> string \<Rightarrow> 'a option" where
  "wire_decode wire variants s = find (\<lambda>v. wire v = s) variants"

locale string_enum =
  fixes wire :: "'a \<Rightarrow> string" and variants :: "'a list"
  assumes complete: "x \<in> set variants"
    and wire_distinct: "distinct (map wire variants)"
begin

lemma wire_inj: "wire x = wire y \<Longrightarrow> x = y"
  using wire_distinct complete by (auto simp: distinct_map inj_on_def)

lemma decode_Some_iff: "wire_decode wire variants s = Some x \<longleftrightarrow> s = wire x"
proof
  assume "wire_decode wire variants s = Some x"
  then show "s = wire x" by (auto simp: wire_decode_def find_Some_iff)
next
  assume s: "s = wire x"
  obtain y where y: "wire_decode wire variants s = Some y"
    using complete [of x] s
    by (cases "wire_decode wire variants s") (auto simp: wire_decode_def find_None_iff)
  then have "wire y = wire x" using s by (auto simp: wire_decode_def find_Some_iff)
  with y show "wire_decode wire variants s = Some x" by (simp add: wire_inj)
qed

lemma decode_wire: "wire_decode wire variants (wire x) = Some x"
  by (simp add: decode_Some_iff)

lemma decode_None_iff: "wire_decode wire variants s = None \<longleftrightarrow> s \<notin> range wire"
proof -
  have "wire_decode wire variants s = None \<longleftrightarrow> (\<forall>x. wire_decode wire variants s \<noteq> Some x)"
    by (cases "wire_decode wire variants s") auto
  then show ?thesis by (auto simp: decode_Some_iff)
qed

end

section \<open>The wire enumerations\<close>

datatype quality = Quality_Auto | Quality_Low | Quality_Medium | Quality_High

definition quality_wire :: "quality \<Rightarrow> string" where
  "quality_wire x = (case x of
     Quality_Auto \<Rightarrow> ''auto''
   | Quality_Low \<Rightarrow> ''low''
   | Quality_Medium \<Rightarrow> ''medium''
   | Quality_High \<Rightarrow> ''high'')"

definition quality_variants :: "quality list" where
  "quality_variants = [Quality_Auto, Quality_Low, Quality_Medium, Quality_High]"

definition default_quality :: quality where
  "default_quality = Quality_Auto"

interpretation quality_enum: string_enum quality_wire quality_variants
  by unfold_locales (use quality.nchotomy in \<open>auto simp: quality_variants_def quality_wire_def\<close>)

definition quality_rank :: "quality \<Rightarrow> nat" where
  "quality_rank x = (case x of Quality_Auto \<Rightarrow> 0 | Quality_Low \<Rightarrow> 1 | Quality_Medium \<Rightarrow> 2 | Quality_High \<Rightarrow> 3)"

lemma quality_rank_inj: "quality_rank x = quality_rank y \<Longrightarrow> x = y"
  by (cases x; cases y) (simp_all add: quality_rank_def)

instantiation quality :: linorder
begin

definition less_eq_quality :: "quality \<Rightarrow> quality \<Rightarrow> bool" where
  "less_eq_quality x y = (quality_rank x \<le> quality_rank y)"

definition less_quality :: "quality \<Rightarrow> quality \<Rightarrow> bool" where
  "less_quality x y = (quality_rank x < quality_rank y)"

instance
  by standard (auto simp: less_eq_quality_def less_quality_def dest: quality_rank_inj)

end

datatype output_format = Output_Format_Png | Output_Format_Jpeg | Output_Format_Webp

definition output_format_wire :: "output_format \<Rightarrow> string" where
  "output_format_wire x = (case x of
     Output_Format_Png \<Rightarrow> ''png''
   | Output_Format_Jpeg \<Rightarrow> ''jpeg''
   | Output_Format_Webp \<Rightarrow> ''webp'')"

definition output_format_variants :: "output_format list" where
  "output_format_variants = [Output_Format_Png, Output_Format_Jpeg, Output_Format_Webp]"

definition default_output_format :: output_format where
  "default_output_format = Output_Format_Png"

interpretation output_format_enum: string_enum output_format_wire output_format_variants
  by unfold_locales (use output_format.nchotomy in \<open>auto simp: output_format_variants_def output_format_wire_def\<close>)

definition output_format_rank :: "output_format \<Rightarrow> nat" where
  "output_format_rank x = (case x of Output_Format_Png \<Rightarrow> 0 | Output_Format_Jpeg \<Rightarrow> 1 | Output_Format_Webp \<Rightarrow> 2)"

lemma output_format_rank_inj: "output_format_rank x = output_format_rank y \<Longrightarrow> x = y"
  by (cases x; cases y) (simp_all add: output_format_rank_def)

instantiation output_format :: linorder
begin

definition less_eq_output_format :: "output_format \<Rightarrow> output_format \<Rightarrow> bool" where
  "less_eq_output_format x y = (output_format_rank x \<le> output_format_rank y)"

definition less_output_format :: "output_format \<Rightarrow> output_format \<Rightarrow> bool" where
  "less_output_format x y = (output_format_rank x < output_format_rank y)"

instance
  by standard (auto simp: less_eq_output_format_def less_output_format_def dest: output_format_rank_inj)

end

datatype background = Background_Auto | Background_Opaque | Background_Transparent

definition background_wire :: "background \<Rightarrow> string" where
  "background_wire x = (case x of
     Background_Auto \<Rightarrow> ''auto''
   | Background_Opaque \<Rightarrow> ''opaque''
   | Background_Transparent \<Rightarrow> ''transparent'')"

definition background_variants :: "background list" where
  "background_variants = [Background_Auto, Background_Opaque, Background_Transparent]"

definition default_background :: background where
  "default_background = Background_Auto"

interpretation background_enum: string_enum background_wire background_variants
  by unfold_locales (use background.nchotomy in \<open>auto simp: background_variants_def background_wire_def\<close>)

definition background_rank :: "background \<Rightarrow> nat" where
  "background_rank x = (case x of Background_Auto \<Rightarrow> 0 | Background_Opaque \<Rightarrow> 1 | Background_Transparent \<Rightarrow> 2)"

lemma background_rank_inj: "background_rank x = background_rank y \<Longrightarrow> x = y"
  by (cases x; cases y) (simp_all add: background_rank_def)

instantiation background :: linorder
begin

definition less_eq_background :: "background \<Rightarrow> background \<Rightarrow> bool" where
  "less_eq_background x y = (background_rank x \<le> background_rank y)"

definition less_background :: "background \<Rightarrow> background \<Rightarrow> bool" where
  "less_background x y = (background_rank x < background_rank y)"

instance
  by standard (auto simp: less_eq_background_def less_background_def dest: background_rank_inj)

end

datatype transparency_mode = Transparency_Mode_Auto | Transparency_Mode_Native | Transparency_Mode_ChromaKey

definition transparency_mode_wire :: "transparency_mode \<Rightarrow> string" where
  "transparency_mode_wire x = (case x of
     Transparency_Mode_Auto \<Rightarrow> ''auto''
   | Transparency_Mode_Native \<Rightarrow> ''native''
   | Transparency_Mode_ChromaKey \<Rightarrow> ''chroma_key'')"

definition transparency_mode_variants :: "transparency_mode list" where
  "transparency_mode_variants = [Transparency_Mode_Auto, Transparency_Mode_Native, Transparency_Mode_ChromaKey]"

definition default_transparency_mode :: transparency_mode where
  "default_transparency_mode = Transparency_Mode_Auto"

interpretation transparency_mode_enum: string_enum transparency_mode_wire transparency_mode_variants
  by unfold_locales (use transparency_mode.nchotomy in \<open>auto simp: transparency_mode_variants_def transparency_mode_wire_def\<close>)

datatype fallback_policy = Fallback_Policy_OnUnavailable | Fallback_Policy_OnError

definition fallback_policy_wire :: "fallback_policy \<Rightarrow> string" where
  "fallback_policy_wire x = (case x of
     Fallback_Policy_OnUnavailable \<Rightarrow> ''on_unavailable''
   | Fallback_Policy_OnError \<Rightarrow> ''on_error'')"

definition fallback_policy_variants :: "fallback_policy list" where
  "fallback_policy_variants = [Fallback_Policy_OnUnavailable, Fallback_Policy_OnError]"

definition default_fallback_policy :: fallback_policy where
  "default_fallback_policy = Fallback_Policy_OnUnavailable"

interpretation fallback_policy_enum: string_enum fallback_policy_wire fallback_policy_variants
  by unfold_locales (use fallback_policy.nchotomy in \<open>auto simp: fallback_policy_variants_def fallback_policy_wire_def\<close>)

datatype batch_execution = Batch_Execution_Auto | Batch_Execution_Sequential | Batch_Execution_Parallel

definition batch_execution_wire :: "batch_execution \<Rightarrow> string" where
  "batch_execution_wire x = (case x of
     Batch_Execution_Auto \<Rightarrow> ''auto''
   | Batch_Execution_Sequential \<Rightarrow> ''sequential''
   | Batch_Execution_Parallel \<Rightarrow> ''parallel'')"

definition batch_execution_variants :: "batch_execution list" where
  "batch_execution_variants = [Batch_Execution_Auto, Batch_Execution_Sequential, Batch_Execution_Parallel]"

definition default_batch_execution :: batch_execution where
  "default_batch_execution = Batch_Execution_Auto"

interpretation batch_execution_enum: string_enum batch_execution_wire batch_execution_variants
  by unfold_locales (use batch_execution.nchotomy in \<open>auto simp: batch_execution_variants_def batch_execution_wire_def\<close>)

datatype moderation = Moderation_Auto | Moderation_Low

definition moderation_wire :: "moderation \<Rightarrow> string" where
  "moderation_wire x = (case x of
     Moderation_Auto \<Rightarrow> ''auto''
   | Moderation_Low \<Rightarrow> ''low'')"

definition moderation_variants :: "moderation list" where
  "moderation_variants = [Moderation_Auto, Moderation_Low]"

definition default_moderation :: moderation where
  "default_moderation = Moderation_Auto"

interpretation moderation_enum: string_enum moderation_wire moderation_variants
  by unfold_locales (use moderation.nchotomy in \<open>auto simp: moderation_variants_def moderation_wire_def\<close>)

definition moderation_rank :: "moderation \<Rightarrow> nat" where
  "moderation_rank x = (case x of Moderation_Auto \<Rightarrow> 0 | Moderation_Low \<Rightarrow> 1)"

lemma moderation_rank_inj: "moderation_rank x = moderation_rank y \<Longrightarrow> x = y"
  by (cases x; cases y) (simp_all add: moderation_rank_def)

instantiation moderation :: linorder
begin

definition less_eq_moderation :: "moderation \<Rightarrow> moderation \<Rightarrow> bool" where
  "less_eq_moderation x y = (moderation_rank x \<le> moderation_rank y)"

definition less_moderation :: "moderation \<Rightarrow> moderation \<Rightarrow> bool" where
  "less_moderation x y = (moderation_rank x < moderation_rank y)"

instance
  by standard (auto simp: less_eq_moderation_def less_moderation_def dest: moderation_rank_inj)

end

datatype failure_policy = Failure_Policy_FailFast | Failure_Policy_BestEffort

definition failure_policy_wire :: "failure_policy \<Rightarrow> string" where
  "failure_policy_wire x = (case x of
     Failure_Policy_FailFast \<Rightarrow> ''fail_fast''
   | Failure_Policy_BestEffort \<Rightarrow> ''best_effort'')"

definition failure_policy_variants :: "failure_policy list" where
  "failure_policy_variants = [Failure_Policy_FailFast, Failure_Policy_BestEffort]"

definition default_failure_policy :: failure_policy where
  "default_failure_policy = Failure_Policy_FailFast"

interpretation failure_policy_enum: string_enum failure_policy_wire failure_policy_variants
  by unfold_locales (use failure_policy.nchotomy in \<open>auto simp: failure_policy_variants_def failure_policy_wire_def\<close>)

datatype input_fidelity = Input_Fidelity_Low | Input_Fidelity_High

definition input_fidelity_wire :: "input_fidelity \<Rightarrow> string" where
  "input_fidelity_wire x = (case x of
     Input_Fidelity_Low \<Rightarrow> ''low''
   | Input_Fidelity_High \<Rightarrow> ''high'')"

definition input_fidelity_variants :: "input_fidelity list" where
  "input_fidelity_variants = [Input_Fidelity_Low, Input_Fidelity_High]"

interpretation input_fidelity_enum: string_enum input_fidelity_wire input_fidelity_variants
  by unfold_locales (use input_fidelity.nchotomy in \<open>auto simp: input_fidelity_variants_def input_fidelity_wire_def\<close>)

definition input_fidelity_rank :: "input_fidelity \<Rightarrow> nat" where
  "input_fidelity_rank x = (case x of Input_Fidelity_Low \<Rightarrow> 0 | Input_Fidelity_High \<Rightarrow> 1)"

lemma input_fidelity_rank_inj: "input_fidelity_rank x = input_fidelity_rank y \<Longrightarrow> x = y"
  by (cases x; cases y) (simp_all add: input_fidelity_rank_def)

instantiation input_fidelity :: linorder
begin

definition less_eq_input_fidelity :: "input_fidelity \<Rightarrow> input_fidelity \<Rightarrow> bool" where
  "less_eq_input_fidelity x y = (input_fidelity_rank x \<le> input_fidelity_rank y)"

definition less_input_fidelity :: "input_fidelity \<Rightarrow> input_fidelity \<Rightarrow> bool" where
  "less_input_fidelity x y = (input_fidelity_rank x < input_fidelity_rank y)"

instance
  by standard (auto simp: less_eq_input_fidelity_def less_input_fidelity_def dest: input_fidelity_rank_inj)

end

datatype image_action = Image_Action_Auto | Image_Action_Generate | Image_Action_Edit

definition image_action_wire :: "image_action \<Rightarrow> string" where
  "image_action_wire x = (case x of
     Image_Action_Auto \<Rightarrow> ''auto''
   | Image_Action_Generate \<Rightarrow> ''generate''
   | Image_Action_Edit \<Rightarrow> ''edit'')"

definition image_action_variants :: "image_action list" where
  "image_action_variants = [Image_Action_Auto, Image_Action_Generate, Image_Action_Edit]"

definition default_image_action :: image_action where
  "default_image_action = Image_Action_Auto"

interpretation image_action_enum: string_enum image_action_wire image_action_variants
  by unfold_locales (use image_action.nchotomy in \<open>auto simp: image_action_variants_def image_action_wire_def\<close>)

definition image_action_rank :: "image_action \<Rightarrow> nat" where
  "image_action_rank x = (case x of Image_Action_Auto \<Rightarrow> 0 | Image_Action_Generate \<Rightarrow> 1 | Image_Action_Edit \<Rightarrow> 2)"

lemma image_action_rank_inj: "image_action_rank x = image_action_rank y \<Longrightarrow> x = y"
  by (cases x; cases y) (simp_all add: image_action_rank_def)

instantiation image_action :: linorder
begin

definition less_eq_image_action :: "image_action \<Rightarrow> image_action \<Rightarrow> bool" where
  "less_eq_image_action x y = (image_action_rank x \<le> image_action_rank y)"

definition less_image_action :: "image_action \<Rightarrow> image_action \<Rightarrow> bool" where
  "less_image_action x y = (image_action_rank x < image_action_rank y)"

instance
  by standard (auto simp: less_eq_image_action_def less_image_action_def dest: image_action_rank_inj)

end

datatype response_format = Response_Format_B64Json | Response_Format_Url | Response_Format_Artifact | Response_Format_Metadata

definition response_format_wire :: "response_format \<Rightarrow> string" where
  "response_format_wire x = (case x of
     Response_Format_B64Json \<Rightarrow> ''b64_json''
   | Response_Format_Url \<Rightarrow> ''url''
   | Response_Format_Artifact \<Rightarrow> ''artifact''
   | Response_Format_Metadata \<Rightarrow> ''metadata'')"

definition response_format_variants :: "response_format list" where
  "response_format_variants = [Response_Format_B64Json, Response_Format_Url, Response_Format_Artifact, Response_Format_Metadata]"

definition default_response_format :: response_format where
  "default_response_format = Response_Format_B64Json"

interpretation response_format_enum: string_enum response_format_wire response_format_variants
  by unfold_locales (use response_format.nchotomy in \<open>auto simp: response_format_variants_def response_format_wire_def\<close>)

datatype collision_policy = Collision_Policy_Error | Collision_Policy_Suffix

definition collision_policy_wire :: "collision_policy \<Rightarrow> string" where
  "collision_policy_wire x = (case x of
     Collision_Policy_Error \<Rightarrow> ''error''
   | Collision_Policy_Suffix \<Rightarrow> ''suffix'')"

definition collision_policy_variants :: "collision_policy list" where
  "collision_policy_variants = [Collision_Policy_Error, Collision_Policy_Suffix]"

definition default_collision_policy :: collision_policy where
  "default_collision_policy = Collision_Policy_Error"

interpretation collision_policy_enum: string_enum collision_policy_wire collision_policy_variants
  by unfold_locales (use collision_policy.nchotomy in \<open>auto simp: collision_policy_variants_def collision_policy_wire_def\<close>)

datatype metadata_policy = Metadata_Policy_None | Metadata_Policy_Sidecar | Metadata_Policy_Embedded | Metadata_Policy_SidecarAndEmbedded

definition metadata_policy_wire :: "metadata_policy \<Rightarrow> string" where
  "metadata_policy_wire x = (case x of
     Metadata_Policy_None \<Rightarrow> ''none''
   | Metadata_Policy_Sidecar \<Rightarrow> ''sidecar''
   | Metadata_Policy_Embedded \<Rightarrow> ''embedded''
   | Metadata_Policy_SidecarAndEmbedded \<Rightarrow> ''sidecar_and_embedded'')"

definition metadata_policy_variants :: "metadata_policy list" where
  "metadata_policy_variants = [Metadata_Policy_None, Metadata_Policy_Sidecar, Metadata_Policy_Embedded, Metadata_Policy_SidecarAndEmbedded]"

definition default_metadata_policy :: metadata_policy where
  "default_metadata_policy = Metadata_Policy_None"

interpretation metadata_policy_enum: string_enum metadata_policy_wire metadata_policy_variants
  by unfold_locales (use metadata_policy.nchotomy in \<open>auto simp: metadata_policy_variants_def metadata_policy_wire_def\<close>)

datatype compatibility_mode = Compatibility_Mode_Strict | Compatibility_Mode_Normalize | Compatibility_Mode_BestEffort

definition compatibility_mode_wire :: "compatibility_mode \<Rightarrow> string" where
  "compatibility_mode_wire x = (case x of
     Compatibility_Mode_Strict \<Rightarrow> ''strict''
   | Compatibility_Mode_Normalize \<Rightarrow> ''normalize''
   | Compatibility_Mode_BestEffort \<Rightarrow> ''best_effort'')"

definition compatibility_mode_variants :: "compatibility_mode list" where
  "compatibility_mode_variants = [Compatibility_Mode_Strict, Compatibility_Mode_Normalize, Compatibility_Mode_BestEffort]"

definition default_compatibility_mode :: compatibility_mode where
  "default_compatibility_mode = Compatibility_Mode_Strict"

interpretation compatibility_mode_enum: string_enum compatibility_mode_wire compatibility_mode_variants
  by unfold_locales (use compatibility_mode.nchotomy in \<open>auto simp: compatibility_mode_variants_def compatibility_mode_wire_def\<close>)

datatype negative_prompt_mode = Negative_Prompt_Mode_Auto | Negative_Prompt_Mode_Native | Negative_Prompt_Mode_Merge | Negative_Prompt_Mode_Reject

definition negative_prompt_mode_wire :: "negative_prompt_mode \<Rightarrow> string" where
  "negative_prompt_mode_wire x = (case x of
     Negative_Prompt_Mode_Auto \<Rightarrow> ''auto''
   | Negative_Prompt_Mode_Native \<Rightarrow> ''native''
   | Negative_Prompt_Mode_Merge \<Rightarrow> ''merge''
   | Negative_Prompt_Mode_Reject \<Rightarrow> ''reject'')"

definition negative_prompt_mode_variants :: "negative_prompt_mode list" where
  "negative_prompt_mode_variants = [Negative_Prompt_Mode_Auto, Negative_Prompt_Mode_Native, Negative_Prompt_Mode_Merge, Negative_Prompt_Mode_Reject]"

definition default_negative_prompt_mode :: negative_prompt_mode where
  "default_negative_prompt_mode = Negative_Prompt_Mode_Auto"

interpretation negative_prompt_mode_enum: string_enum negative_prompt_mode_wire negative_prompt_mode_variants
  by unfold_locales (use negative_prompt_mode.nchotomy in \<open>auto simp: negative_prompt_mode_variants_def negative_prompt_mode_wire_def\<close>)

datatype revised_prompt_policy = Revised_Prompt_Policy_Include | Revised_Prompt_Policy_Omit | Revised_Prompt_Policy_Require

definition revised_prompt_policy_wire :: "revised_prompt_policy \<Rightarrow> string" where
  "revised_prompt_policy_wire x = (case x of
     Revised_Prompt_Policy_Include \<Rightarrow> ''include''
   | Revised_Prompt_Policy_Omit \<Rightarrow> ''omit''
   | Revised_Prompt_Policy_Require \<Rightarrow> ''require'')"

definition revised_prompt_policy_variants :: "revised_prompt_policy list" where
  "revised_prompt_policy_variants = [Revised_Prompt_Policy_Include, Revised_Prompt_Policy_Omit, Revised_Prompt_Policy_Require]"

definition default_revised_prompt_policy :: revised_prompt_policy where
  "default_revised_prompt_policy = Revised_Prompt_Policy_Include"

interpretation revised_prompt_policy_enum: string_enum revised_prompt_policy_wire revised_prompt_policy_variants
  by unfold_locales (use revised_prompt_policy.nchotomy in \<open>auto simp: revised_prompt_policy_variants_def revised_prompt_policy_wire_def\<close>)

datatype session_mode = Session_Mode_Isolated | Session_Mode_Persistent | Session_Mode_Thread

definition session_mode_wire :: "session_mode \<Rightarrow> string" where
  "session_mode_wire x = (case x of
     Session_Mode_Isolated \<Rightarrow> ''isolated''
   | Session_Mode_Persistent \<Rightarrow> ''persistent''
   | Session_Mode_Thread \<Rightarrow> ''thread'')"

definition session_mode_variants :: "session_mode list" where
  "session_mode_variants = [Session_Mode_Isolated, Session_Mode_Persistent, Session_Mode_Thread]"

definition default_session_mode :: session_mode where
  "default_session_mode = Session_Mode_Isolated"

interpretation session_mode_enum: string_enum session_mode_wire session_mode_variants
  by unfold_locales (use session_mode.nchotomy in \<open>auto simp: session_mode_variants_def session_mode_wire_def\<close>)

datatype resolution = Resolution_OneK | Resolution_TwoK | Resolution_FourK

definition resolution_wire :: "resolution \<Rightarrow> string" where
  "resolution_wire x = (case x of
     Resolution_OneK \<Rightarrow> ''1k''
   | Resolution_TwoK \<Rightarrow> ''2k''
   | Resolution_FourK \<Rightarrow> ''4k'')"

definition resolution_variants :: "resolution list" where
  "resolution_variants = [Resolution_OneK, Resolution_TwoK, Resolution_FourK]"

interpretation resolution_enum: string_enum resolution_wire resolution_variants
  by unfold_locales (use resolution.nchotomy in \<open>auto simp: resolution_variants_def resolution_wire_def\<close>)

section \<open>Metadata policy predicates\<close>

definition writes_sidecar :: "metadata_policy \<Rightarrow> bool" where
  "writes_sidecar p = (p = Metadata_Policy_Sidecar \<or> p = Metadata_Policy_SidecarAndEmbedded)"

definition embeds :: "metadata_policy \<Rightarrow> bool" where
  "embeds p = (p = Metadata_Policy_Embedded \<or> p = Metadata_Policy_SidecarAndEmbedded)"

section \<open>Image sizes\<close>

text \<open>The newtype around the wire string, ordered as its string.\<close>

datatype image_size = Image_Size (size_str: string)

instantiation image_size :: linorder
begin

definition less_eq_image_size :: "image_size \<Rightarrow> image_size \<Rightarrow> bool" where
  "less_eq_image_size a b = (size_str a \<le> size_str b)"

definition less_image_size :: "image_size \<Rightarrow> image_size \<Rightarrow> bool" where
  "less_image_size a b = (size_str a < size_str b)"

instance
  by standard (auto simp: less_eq_image_size_def less_image_size_def image_size.expand)

end

definition size_auto :: string where
  "size_auto = ''auto''"

definition default_image_size :: image_size where
  "default_image_size = Image_Size size_auto"

definition size_exact :: "u32 \<Rightarrow> u32 \<Rightarrow> image_size result" where
  "size_exact width height =
     (if width = 0 \<or> height = 0
      then Inl (error_new InvalidRequest ''image dimensions must be greater than zero'')
      else Inr (Image_Size (show_u32 width @ ''x'' @ show_u32 height)))"

definition size_is_auto :: "image_size \<Rightarrow> bool" where
  "size_is_auto s = (size_str s = size_auto)"

definition size_dimensions :: "image_size \<Rightarrow> (u32 \<times> u32) option" where
  "size_dimensions s =
     (if size_str s = size_auto then None
      else (case split_once CHR ''x'' (size_str s) of
              None \<Rightarrow> None
            | Some (width, height) \<Rightarrow>
                (case parse_u32 width of
                   None \<Rightarrow> None
                 | Some w \<Rightarrow> (case parse_u32 height of None \<Rightarrow> None | Some h \<Rightarrow> Some (w, h)))))"

definition size_from_str :: "string \<Rightarrow> image_size result" where
  "size_from_str value =
     (if value = size_auto then Inr default_image_size
      else (case split_once CHR ''x'' value of
              None \<Rightarrow> Inl (error_new InvalidRequest ''size must be `auto` or `WIDTHxHEIGHT`'')
            | Some (width, height) \<Rightarrow>
                if width = [] \<or> height = []
                   \<or> (1 < length width \<and> starts_with ''0'' width)
                   \<or> (1 < length height \<and> starts_with ''0'' height)
                   \<or> \<not> list_all is_ascii_digit width
                   \<or> \<not> list_all is_ascii_digit height
                then Inl (error_new InvalidRequest ''size must be `auto` or `WIDTHxHEIGHT`'')
                else and_then (ok_or (error_new InvalidRequest ''image width is out of range'') (parse_u32 width))
                  (\<lambda>w. and_then (ok_or (error_new InvalidRequest ''image height is out of range'') (parse_u32 height))
                  (\<lambda>h. size_exact w h))))"

lemma starts_with_zero: "starts_with ''0'' s \<longleftrightarrow> s \<noteq> [] \<and> hd s = CHR ''0''"
  by (cases s) (auto simp: starts_with_iff)

lemma not_digit_x [simp]: "\<not> is_ascii_digit CHR ''x''" "\<not> is_ascii_digit CHR ''a''" "\<not> is_ascii_digit CHR '':''"
  by (simp_all add: is_ascii_digit_def)

lemma show_u32_digits: "list_all is_ascii_digit (show_u32 w)"
  by (simp add: show_u32_def list_all_iff show_nat_digits)

lemma show_u32_canonical: "canonical_digits (show_u32 w)"
  by (simp add: show_u32_def)

lemma show_u32_no_sep: "x \<notin> set (show_u32 w)" "CHR ''x'' \<notin> set (show_u32 w)" "CHR '':'' \<notin> set (show_u32 w)"
  if "\<not> is_ascii_digit x" for x
  using that show_u32_digits [of w] not_digit_x by (auto simp: list_all_iff)

lemma size_exact_str_not_auto: "show_u32 w @ ''x'' @ show_u32 h \<noteq> size_auto"
proof
  assume *: "show_u32 w @ ''x'' @ show_u32 h = size_auto"
  obtain c cs where c: "show_u32 w = c # cs" using show_u32_canonical [of w]
    by (cases "show_u32 w") (auto simp: canonical_digits_def)
  then have "is_ascii_digit c" using show_u32_digits [of w] by simp
  with * c show False by (auto simp: size_auto_def)
qed

lemma split_show_u32: "split_once CHR ''x'' (show_u32 w @ ''x'' @ show_u32 h) = Some (show_u32 w, show_u32 h)"
  using show_u32_no_sep(2) [of "CHR ''x''"] by (simp add: split_once_Some_iff)

lemma size_dimensions_exact:
  "size_exact w h = Inr s \<Longrightarrow> size_dimensions s = Some (w, h) \<and> \<not> size_is_auto s"
  using size_exact_str_not_auto split_show_u32
  by (auto simp: size_exact_def size_dimensions_def size_is_auto_def split: if_splits)

lemma size_from_str_exact:
  assumes "size_exact w h = Inr s"
  shows "size_from_str (size_str s) = Inr s"
proof -
  from assms have s: "size_str s = show_u32 w @ ''x'' @ show_u32 h" and nz: "w \<noteq> 0" "h \<noteq> 0"
    and ss: "s = Image_Size (show_u32 w @ ''x'' @ show_u32 h)"
    by (auto simp: size_exact_def split: if_splits)
  have cw: "canonical_digits (show_u32 w)" and ch: "canonical_digits (show_u32 h)"
    by (rule show_u32_canonical)+
  then show ?thesis
    unfolding s size_from_str_def split_show_u32
    using nz size_exact_str_not_auto [of w h]
    by (auto simp: canonical_digits_def starts_with_zero size_exact_def ss)
qed

text \<open>Every accepted spelling is canonical: the parsed size spells itself exactly as given.\<close>

lemma size_from_str_canonical:
  assumes "size_from_str v = Inr s"
  shows "size_str s = v"
proof (cases "v = size_auto")
  case True
  with assms show ?thesis by (auto simp: size_from_str_def default_image_size_def)
next
  case False
  with assms obtain width height w h
    where v: "v = width @ CHR ''x'' # height"
      and c: "canonical_digits width" "canonical_digits height"
      and p: "parse_u32 width = Some w" "parse_u32 height = Some h"
      and e: "size_exact w h = Inr s"
    by (auto simp: size_from_str_def result_simps canonical_digits_def starts_with_zero
        split_once_Some_iff split: option.splits if_splits)
  from e have "s = Image_Size (show_u32 w @ ''x'' @ show_u32 h)"
    by (auto simp: size_exact_def split: if_splits)
  with c p show ?thesis by (simp add: v show_parse_u32)
qed

lemma size_from_str_cases:
  assumes "size_from_str v = Inr s"
  obtains (auto) "s = default_image_size" "v = size_auto"
  | (exact) w h where "size_exact w h = Inr s" "w \<noteq> 0" "h \<noteq> 0"
proof (cases "v = size_auto")
  case True
  with assms auto show ?thesis by (simp add: size_from_str_def)
next
  case False
  with assms obtain w h where e: "size_exact w h = Inr s"
    by (auto simp: size_from_str_def result_simps split: option.splits if_splits)
  then have "w \<noteq> 0" "h \<noteq> 0" by (auto simp: size_exact_def split: if_splits)
  with e exact show ?thesis by blast
qed

section \<open>Aspect ratios\<close>

text \<open>The loop of \<open>gcd\<close> on \<open>u32\<close>.\<close>

function gcd_u32 :: "u32 \<Rightarrow> u32 \<Rightarrow> u32" where
  "gcd_u32 left right = (if right \<noteq> 0 then gcd_u32 right (left mod right) else left)"
  by pat_completeness auto
termination
proof (relation "measure (\<lambda>(left, right). unat right)")
  fix left right :: u32
  assume "right \<noteq> 0"
  then have "0 < unat right" by (simp add: unat_gt_0)
  then show "((right, left mod right), left, right) \<in> measure (\<lambda>(left, right). unat right)"
    by (simp add: unat_mod)
qed simp

declare gcd_u32.simps [simp del]

lemma unat_gcd_u32: "unat (gcd_u32 a b) = gcd (unat a) (unat b)"
proof (induction a b rule: gcd_u32.induct)
  case (1 a b)
  show ?case
  proof (cases "b = 0")
    case True
    then show ?thesis by (subst gcd_u32.simps) simp
  next
    case False
    then have "unat (gcd_u32 a b) = gcd (unat b) (unat (a mod b))"
      using "1.IH" by (subst gcd_u32.simps) simp
    also have "\<dots> = gcd (unat a) (unat b)"
      by (simp add: unat_mod gcd_red_nat [symmetric] gcd.commute)
    finally show ?thesis .
  qed
qed

datatype aspect_ratio = Aspect_Ratio (ratio_str: string)

definition ratio_new :: "u32 \<Rightarrow> u32 \<Rightarrow> aspect_ratio result" where
  "ratio_new width height =
     (if width = 0 \<or> height = 0
      then Inl (error_new InvalidRequest ''aspect ratio terms must be greater than zero'')
      else let divisor = gcd_u32 width height in
           Inr (Aspect_Ratio (show_u32 (width div divisor) @ '':'' @ show_u32 (height div divisor))))"

definition ratio_terms :: "aspect_ratio \<Rightarrow> u32 \<times> u32" where
  "ratio_terms r =
     (case split_once CHR '':'' (ratio_str r) of
        None \<Rightarrow> (1, 1)
      | Some (width, height) \<Rightarrow>
          (case parse_u32 width of None \<Rightarrow> 1 | Some w \<Rightarrow> w,
           case parse_u32 height of None \<Rightarrow> 1 | Some h \<Rightarrow> h))"

definition ratio_from_str :: "string \<Rightarrow> aspect_ratio result" where
  "ratio_from_str value =
     (case split_once CHR '':'' value of
        None \<Rightarrow> Inl (error_new InvalidRequest ''aspect_ratio must use `WIDTH:HEIGHT`'')
      | Some (width, height) \<Rightarrow>
          and_then (ok_or (error_new InvalidRequest ''aspect ratio width is invalid'') (parse_u32 width))
            (\<lambda>w. and_then (ok_or (error_new InvalidRequest ''aspect ratio height is invalid'') (parse_u32 height))
            (\<lambda>h. ratio_new w h)))"

lemma unat_div_gcd:
  assumes "w \<noteq> (0::u32)"
  shows "unat (w div gcd_u32 w h) = unat w div gcd (unat w) (unat h)"
  by (simp add: unat_div unat_gcd_u32)

lemma split_show_ratio: "split_once CHR '':'' (show_u32 w @ '':'' @ show_u32 h) = Some (show_u32 w, show_u32 h)"
  using show_u32_no_sep(3) [of "CHR '':''"] by (simp add: split_once_Some_iff)

lemma ratio_new_terms:
  assumes "ratio_new w h = Inr r"
  shows "ratio_terms r = (w div gcd_u32 w h, h div gcd_u32 w h)"
    and "coprime (unat (fst (ratio_terms r))) (unat (snd (ratio_terms r)))"
    and "unat (fst (ratio_terms r)) * unat h = unat w * unat (snd (ratio_terms r))"
    and "fst (ratio_terms r) \<noteq> 0" "snd (ratio_terms r) \<noteq> 0"
proof -
  let ?g = "gcd (unat w) (unat h)"
  from assms have nz: "w \<noteq> 0" "h \<noteq> 0"
    and s: "ratio_str r = show_u32 (w div gcd_u32 w h) @ '':'' @ show_u32 (h div gcd_u32 w h)"
    by (auto simp: ratio_new_def Let_def split: if_splits)
  show t: "ratio_terms r = (w div gcd_u32 w h, h div gcd_u32 w h)"
    by (simp only: ratio_terms_def s split_show_ratio option.case prod.case parse_show_u32)
  have uw: "unat w \<noteq> 0" and uh: "unat h \<noteq> 0" using nz by (simp_all add: unat_eq_zero)
  have f: "unat (w div gcd_u32 w h) = unat w div ?g" "unat (h div gcd_u32 w h) = unat h div ?g"
    by (simp_all add: unat_div unat_gcd_u32)
  show "coprime (unat (fst (ratio_terms r))) (unat (snd (ratio_terms r)))"
    using uw by (simp add: t f div_gcd_coprime)
  show "unat (fst (ratio_terms r)) * unat h = unat w * unat (snd (ratio_terms r))"
    by (simp add: t f div_mult_swap dvd_div_mult)
  have "unat w div ?g \<noteq> 0" "unat h div ?g \<noteq> 0"
    using uw uh by (simp_all add: dvd_div_eq_0_iff)
  then show "fst (ratio_terms r) \<noteq> 0" "snd (ratio_terms r) \<noteq> 0"
    using f by (auto simp: t)
qed

text \<open>The wire string of a ratio parses back to the same ratio.\<close>

lemma ratio_from_str_new:
  assumes "ratio_new w h = Inr r"
  shows "ratio_from_str (ratio_str r) = Inr r"
proof -
  let ?w = "w div gcd_u32 w h" and ?h = "h div gcd_u32 w h"
  note t = ratio_new_terms [OF assms]
  from assms have s: "r = Aspect_Ratio (show_u32 ?w @ '':'' @ show_u32 ?h)"
    by (auto simp: ratio_new_def Let_def split: if_splits)
  have "gcd (unat ?w) (unat ?h) = 1" using t(2) by (simp add: t(1))
  then have "unat (gcd_u32 ?w ?h) = unat (1::u32)" by (simp add: unat_gcd_u32)
  then have g: "gcd_u32 ?w ?h = 1" by (simp only: word_unat_eq_iff)
  have nz: "?w \<noteq> 0" "?h \<noteq> 0" using t(4,5) by (simp_all add: t(1))
  then have "ratio_new ?w ?h = Inr r" by (simp add: ratio_new_def g s)
  then show ?thesis
    by (simp only: s aspect_ratio.sel ratio_from_str_def split_show_ratio option.case prod.case
        parse_show_u32 ok_or_def and_then_simps)
qed

section \<open>Properties\<close>

text \<open>Size strings are canonical: a size is accepted only in the spelling it prints, it is then
  \<open>auto\<close> or has two positive edges, and every size built from positive edges is accepted
  back with those edges.\<close>

lemma image_size_round_trip:
  "(size_from_str v = Inr s \<longrightarrow>
      size_str s = v \<and> (size_is_auto s \<or> (\<exists>w h. size_dimensions s = Some (w, h) \<and> w \<noteq> 0 \<and> h \<noteq> 0)))
   \<and> (size_exact w h = Inr s \<longrightarrow> size_from_str (size_str s) = Inr s \<and> size_dimensions s = Some (w, h))"
proof -
  have "size_is_auto s \<or> (\<exists>w h. size_dimensions s = Some (w, h) \<and> w \<noteq> 0 \<and> h \<noteq> 0)"
    if "size_from_str v = Inr s"
    using that
  proof (cases rule: size_from_str_cases)
    case auto
    then show ?thesis by (simp add: size_is_auto_def default_image_size_def)
  next
    case (exact w h)
    then show ?thesis using size_dimensions_exact by blast
  qed
  then show ?thesis using size_from_str_canonical size_from_str_exact size_dimensions_exact by blast
qed

lemma image_size_round_trip_witness:
  "size_from_str ''1024x768'' = Inr (Image_Size ''1024x768'')
   \<and> size_dimensions (Image_Size ''1024x768'') = Some (1024, 768)"
proof -
  have "show_nat 1024 = ''1024''" "show_nat 768 = ''768''"
    by (simp_all add: show_nat.simps digit_char_def char_of_def bit_iff_odd)
  then have "size_exact 1024 768 = Inr (Image_Size ''1024x768'')"
    by (simp add: size_exact_def show_u32_def)
  with image_size_round_trip [of "''auto''" "Image_Size ''1024x768''" 1024 768] show ?thesis by simp
qed

text \<open>An aspect ratio is stored in lowest terms, spells a string that parses back to it, and
  denotes the quotient it was built from.\<close>

lemma aspect_ratio_canonical:
  assumes "ratio_new w h = Inr r"
  shows "ratio_from_str (ratio_str r) = Inr r
    \<and> coprime (unat (fst (ratio_terms r))) (unat (snd (ratio_terms r)))
    \<and> unat (fst (ratio_terms r)) * unat h = unat w * unat (snd (ratio_terms r))
    \<and> snd (ratio_terms r) \<noteq> 0"
  using ratio_from_str_new [OF assms] ratio_new_terms(2,3,5) [OF assms] by blast

lemma aspect_ratio_canonical_witness:
  "\<exists>r. ratio_new 1920 1080 = Inr r \<and> ratio_from_str (ratio_str r) = Inr r
    \<and> unat (fst (ratio_terms r)) * 1080 = 1920 * unat (snd (ratio_terms r))"
proof -
  obtain r where "ratio_new 1920 1080 = Inr r" by (simp add: ratio_new_def Let_def)
  with aspect_ratio_canonical [OF this] show ?thesis by (intro exI [of _ r]) simp
qed

text \<open>The parser of aspect ratios is laxer than the published schema, which wants two numbers
  without sign or leading zeros.\<close>

lemma aspect_ratio_accepts_sign_and_zeros:
  "ratio_from_str ''+016:9'' = Inr (Aspect_Ratio ''16:9'')"
proof -
  have s: "show_nat 16 = ''16''" "show_nat 9 = ''9''"
    by (simp_all add: show_nat.simps digit_char_def char_of_def bit_iff_odd)
  have "unat (gcd_u32 16 9) = unat (1 :: u32)"
    by (simp add: unat_gcd_u32 gcd_non_0_nat)
  then have g: "gcd_u32 16 9 = 1" by (simp only: word_unat_eq_iff)
  have p: "parse_u32 ''+016'' = Some 16" "parse_u32 ''9'' = Some 9"
    by (simp_all add: parse_u32_def is_ascii_digit_def digit_val_def)
  show ?thesis
    by (simp add: ratio_from_str_def p) (simp add: ratio_new_def g show_u32_def s)
qed

end
