(* ===== verification/Request.thy ===== *)
theory Request
  imports Parameters
begin

text \<open>
  \<open>crates/core/src/request.rs\<close>: the normalized image request, the inputs of its operation and
  its option groups with their defaults, and the hand-written \<open>Deserialize\<close> of a request.
  The derived decoders of the field groups (generated by serde) are parameters of the
  latter. A \<open>PathBuf\<close> is the byte string of the path.
\<close>

section \<open>Image inputs\<close>

datatype image_source =
    Source_File string
  | Source_Url string
  | Source_Data_Url string
  | Source_Base64 string

record image_input =
  in_source :: image_source
  in_media_type :: "string option"
  in_filename :: "string option"

datatype image_operation =
    Op_Generate "image_input list"
  | Op_Edit "image_input list" "image_input option" "image_input list"

definition op_reference_images :: "image_operation \<Rightarrow> image_input list" where
  "op_reference_images op =
     (case op of
        Op_Generate reference_images \<Rightarrow> reference_images
      | Op_Edit images _ reference_images \<Rightarrow> reference_images)"

section \<open>Option groups\<close>

record generation_parameters =
  gp_n :: u8
  gp_size :: image_size
  gp_aspect_ratio :: "aspect_ratio option"
  gp_resolution :: "resolution option"
  gp_quality :: quality
  gp_output_format :: output_format
  gp_output_compression :: "u8 option"
  gp_background :: background
  gp_moderation :: moderation
  gp_partial_images :: u8
  gp_failure_policy :: failure_policy
  gp_input_fidelity :: "input_fidelity option"
  gp_action :: image_action

definition default_generation_parameters :: generation_parameters where
  "default_generation_parameters =
     \<lparr>gp_n = 1, gp_size = default_image_size, gp_aspect_ratio = None, gp_resolution = None,
      gp_quality = default_quality, gp_output_format = default_output_format,
      gp_output_compression = None, gp_background = default_background,
      gp_moderation = default_moderation, gp_partial_images = 0,
      gp_failure_policy = default_failure_policy, gp_input_fidelity = None,
      gp_action = default_image_action\<rparr>"

record provider_route =
  route_provider :: string
  route_model :: "string option"

record routing_options =
  rt_provider :: "string option"
  rt_model :: "string option"
  rt_fallbacks :: "provider_route list"
  rt_fallback_policy :: fallback_policy

definition default_routing_options :: routing_options where
  "default_routing_options =
     \<lparr>rt_provider = None, rt_model = None, rt_fallbacks = [],
      rt_fallback_policy = default_fallback_policy\<rparr>"

record session_options =
  so_mode :: session_mode
  so_key :: "string option"
  so_thread_id :: "string option"

definition default_session_options :: session_options where
  "default_session_options = \<lparr>so_mode = default_session_mode, so_key = None, so_thread_id = None\<rparr>"

record transparency_options =
  tr_mode :: transparency_mode
  tr_key_color :: "string option"
  tr_transparent_threshold :: u8
  tr_opaque_threshold :: u8
  tr_despill :: bool

definition default_transparency_options :: transparency_options where
  "default_transparency_options =
     \<lparr>tr_mode = Transparency_Mode_Auto, tr_key_color = None, tr_transparent_threshold = 12,
      tr_opaque_threshold = 96, tr_despill = True\<rparr>"

record output_options =
  out_response_format :: response_format
  out_filename_prefix :: "string option"
  out_directory :: "string option"
  out_filename :: "string option"
  out_collision :: collision_policy
  out_metadata :: metadata_policy
  out_transparency :: transparency_options

definition default_output_options :: output_options where
  "default_output_options =
     \<lparr>out_response_format = default_response_format, out_filename_prefix = None,
      out_directory = None, out_filename = None, out_collision = default_collision_policy,
      out_metadata = default_metadata_policy, out_transparency = default_transparency_options\<rparr>"

record request_policies =
  pol_compatibility :: compatibility_mode
  pol_negative_prompt :: negative_prompt_mode
  pol_revised_prompt :: revised_prompt_policy
  pol_batch_execution :: batch_execution

definition default_request_policies :: request_policies where
  "default_request_policies =
     \<lparr>pol_compatibility = default_compatibility_mode,
      pol_negative_prompt = default_negative_prompt_mode,
      pol_revised_prompt = default_revised_prompt_policy,
      pol_batch_execution = default_batch_execution\<rparr>"

section \<open>The request\<close>

definition contract_version :: string where
  "contract_version = ''1''"

record image_request =
  req_version :: string
  req_prompt :: string
  req_negative_prompt :: "string option"
  req_operation :: image_operation
  req_parameters :: generation_parameters
  req_routing :: routing_options
  req_session :: session_options
  req_output :: output_options
  req_policies :: request_policies
  req_idempotency_key :: "string option"
  req_timeout_ms :: "u64 option"
  req_user :: "string option"

definition request_generate :: "string \<Rightarrow> image_request" where
  "request_generate prompt =
     \<lparr>req_version = contract_version, req_prompt = prompt, req_negative_prompt = None,
      req_operation = Op_Generate [], req_parameters = default_generation_parameters,
      req_routing = default_routing_options, req_session = default_session_options,
      req_output = default_output_options, req_policies = default_request_policies,
      req_idempotency_key = None, req_timeout_ms = None, req_user = None\<rparr>"

text \<open>The defaults, unfolded together when a concrete request is evaluated.\<close>

lemmas request_defaults =
  request_generate_def contract_version_def default_output_options_def
  default_generation_parameters_def default_routing_options_def default_session_options_def
  default_request_policies_def default_transparency_options_def default_image_size_def
  default_quality_def default_output_format_def default_background_def default_moderation_def
  default_failure_policy_def default_image_action_def default_fallback_policy_def
  default_session_mode_def default_response_format_def default_collision_policy_def
  default_metadata_policy_def default_compatibility_mode_def default_negative_prompt_mode_def
  default_revised_prompt_policy_def default_batch_execution_def

section \<open>Decoding a request object\<close>

text \<open>The errors of the hand-written decoder; \<open>De_Custom\<close> also carries the derived decoders' errors.\<close>

datatype de_error =
    De_Unknown_Field string
  | De_Missing_Field string
  | De_Unknown_Variant string
  | De_Custom string

type_synonym json_object = "(string \<times> json) list"

definition common_request_fields :: "string list" where
  "common_request_fields =
     [''version'', ''prompt'', ''negative_prompt'', ''parameters'', ''routing'', ''session'',
      ''output'', ''policies'', ''idempotency_key'', ''timeout_ms'', ''user'']"

definition obj_remove :: "string \<Rightarrow> json_object \<Rightarrow> json option \<times> json_object" where
  "obj_remove k obj = (map_of obj k, filter (\<lambda>(k', _). k' \<noteq> k) obj)"

text \<open>The fields each operation admits; the decoder is the source's early returns in order.\<close>

definition operation_fields :: "string \<Rightarrow> string list option" where
  "operation_fields name =
     (if name = ''generate'' then Some [''reference_images'']
      else if name = ''edit'' then Some [''images'', ''mask'', ''reference_images'']
      else None)"

fun take_fields :: "string list \<Rightarrow> json_object \<Rightarrow> json_object \<Rightarrow> json_object \<times> json_object" where
  "take_fields [] obj acc = (obj, acc)"
| "take_fields (f # fs) obj acc =
     (case obj_remove f obj of
        (Some v, obj') \<Rightarrow> take_fields fs obj' (acc @ [(f, v)])
      | (None, obj') \<Rightarrow> take_fields fs obj' acc)"

definition unknown_field :: "json_object \<Rightarrow> string option" where
  "unknown_field object =
     find (\<lambda>field. field \<noteq> ''operation'' \<and> field \<noteq> ''reference_images'' \<and> field \<noteq> ''images''
             \<and> field \<noteq> ''mask'' \<and> field \<notin> set common_request_fields) (map fst object)"

definition forbidden_field :: "string list \<Rightarrow> json_object \<Rightarrow> string option" where
  "forbidden_field admitted object =
     find (\<lambda>forbidden. forbidden \<in> fst ` set object \<and> forbidden \<notin> set admitted)
       [''images'', ''mask'', ''reference_images'']"

definition request_deserialize ::
  "(json_object \<Rightarrow> string + image_operation)
   \<Rightarrow> (json_object \<Rightarrow> image_operation \<Rightarrow> string + image_request)
   \<Rightarrow> json_object \<Rightarrow> de_error + image_request" where
  "request_deserialize from_operation from_fields object =
     (case unknown_field object of
        Some field \<Rightarrow> Inl (De_Unknown_Field field)
      | None \<Rightarrow>
     (case obj_remove ''operation'' object of
        (None, _) \<Rightarrow> Inl (De_Missing_Field ''operation'')
      | (Some tag, object1) \<Rightarrow>
     (case as_str tag of
        None \<Rightarrow> Inl (De_Custom ''operation must be a string'')
      | Some name \<Rightarrow>
     (case operation_fields name of
        None \<Rightarrow> Inl (De_Unknown_Variant name)
      | Some admitted \<Rightarrow>
     (case forbidden_field admitted object1 of
        Some forbidden \<Rightarrow>
          Inl (De_Custom (''field '' @ [CHR 0x27] @ forbidden @ [CHR 0x27]
                 @ '' is invalid for operation '' @ [CHR 0x27] @ name @ [CHR 0x27]))
      | None \<Rightarrow>
     (case take_fields admitted object1 [(''operation'', tag)] of
        (object2, operation) \<Rightarrow>
     (case from_operation operation of
        Inl e \<Rightarrow> Inl (De_Custom e)
      | Inr op \<Rightarrow>
     (case from_fields object2 op of
        Inl e \<Rightarrow> Inl (De_Custom e)
      | Inr request \<Rightarrow> Inr request))))))))"

text \<open>
  \<open>ImageInput\<close>: the optional fields are taken out and the rest decodes as the source. The
  message for a value of another type is the library's (\<open>type_error\<close>).
\<close>

definition take_option_string ::
  "(json \<Rightarrow> string) \<Rightarrow> string \<Rightarrow> json_object \<Rightarrow> de_error + (string option \<times> json_object)" where
  "take_option_string type_error k obj =
     (case obj_remove k obj of
        (None, obj') \<Rightarrow> Inr (None, obj')
      | (Some JNull, obj') \<Rightarrow> Inr (None, obj')
      | (Some (JStr s), obj') \<Rightarrow> Inr (Some s, obj')
      | (Some v, obj') \<Rightarrow> Inl (De_Custom (type_error v)))"

definition input_deserialize ::
  "(json \<Rightarrow> string) \<Rightarrow> (json_object \<Rightarrow> string + image_source) \<Rightarrow> json_object
   \<Rightarrow> de_error + image_input" where
  "input_deserialize type_error from_source object =
     and_then (take_option_string type_error ''media_type'' object) (\<lambda>(media_type, fields1).
     and_then (take_option_string type_error ''filename'' fields1) (\<lambda>(filename, fields2).
     (case from_source fields2 of
        Inl e \<Rightarrow> Inl (De_Custom e)
      | Inr source \<Rightarrow> Inr \<lparr>in_source = source, in_media_type = media_type, in_filename = filename\<rparr>)))"

section \<open>What decoding guarantees\<close>

lemma keys_obj_remove: "fst ` set (snd (obj_remove k obj)) = fst ` set obj - {k}"
  by (auto simp: obj_remove_def)

lemma keys_take_fields:
  "take_fields fs obj acc = (rest, taken) \<Longrightarrow> fst ` set rest = fst ` set obj - set fs"
proof (induction fs obj acc rule: take_fields.induct)
  case (2 f fs obj acc)
  obtain v obj' where r: "obj_remove f obj = (v, obj')" by fastforce
  then have "fst ` set obj' = fst ` set obj - {f}" using keys_obj_remove [of f obj] by simp
  moreover have "fst ` set rest = fst ` set obj' - set fs"
    using "2.IH"(1,2) "2.prems" r by (cases v) auto
  ultimately show ?case by auto
qed simp

text \<open>
  A decoded request had a known operation, no field of the other operation and no field
  outside the contract; the field decoder sees common fields only.
\<close>

lemma request_deserialize_fields:
  assumes "request_deserialize from_operation from_fields object = Inr request"
  shows "\<exists>name admitted rest operation.
           map_of object ''operation'' = Some (JStr name)
         \<and> operation_fields name = Some admitted
         \<and> fst ` set object \<subseteq> insert ''operation'' (set admitted \<union> set common_request_fields)
         \<and> fst ` set rest \<subseteq> set common_request_fields
         \<and> (\<exists>op. from_operation operation = Inr op \<and> from_fields rest op = Inr request)"
proof -
  from assms obtain tag name admitted rest operation op
    where known: "unknown_field object = None"
      and tag: "map_of object ''operation'' = Some tag" "as_str tag = Some name"
      and admitted: "operation_fields name = Some admitted"
      and allowed: "forbidden_field admitted (snd (obj_remove ''operation'' object)) = None"
      and taken: "take_fields admitted (snd (obj_remove ''operation'' object)) [(''operation'', tag)]
             = (rest, operation)"
      and op: "from_operation operation = Inr op" "from_fields rest op = Inr request"
    by (cases "obj_remove ''operation'' object")
      (auto simp: request_deserialize_def obj_remove_def split: option.splits sum.splits prod.splits)
  let ?K = "fst ` set object"
  have K: "?K \<subseteq> {''operation'', ''reference_images'', ''images'', ''mask''} \<union> set common_request_fields"
    using known by (auto simp: unknown_field_def find_None_iff)
  have F: "x \<in> set admitted" if "x \<in> {''images'', ''mask'', ''reference_images''}" "x \<in> ?K" for x
  proof -
    have "x \<in> fst ` set (snd (obj_remove ''operation'' object))"
      using that by (subst keys_obj_remove) auto
    with that(1) allowed show ?thesis unfolding forbidden_field_def find_None_iff by auto
  qed
  have sub: "?K \<subseteq> insert ''operation'' (set admitted \<union> set common_request_fields)"
    using K F by blast
  have "fst ` set rest = ?K - {''operation''} - set admitted"
    using keys_take_fields [OF taken] by (simp add: keys_obj_remove)
  with sub have "fst ` set rest \<subseteq> set common_request_fields" by blast
  moreover have "tag = JStr name" using tag(2) by (simp add: as_str_Some_iff)
  ultimately show ?thesis using tag(1) admitted sub op by blast
qed

end
