(* ===== verification/Validation.thy ===== *)
theory Validation
  imports Request "HOL-Library.Product_Lexorder"
begin

text \<open>
  \<open>crates/core/src/validation.rs\<close>: the intrinsic validation of a request. The closure
  \<open>issue\<close> of \<open>validation_issues\<close> is the state \<open>(issues, truncated)\<close> and its update
  \<open>raise_issue\<close>; the function's body is cut, in source order, into one definition per group
  of checks, each a state transformer, and \<open>validation_issues\<close> composes them, appends the
  truncation marker and sorts. The lemmas show which conditions a clean result is
  equivalent to, and that the report is bounded, sorted and loses no rejection.
\<close>

section \<open>Limits and issues\<close>

record request_limits =
  lim_max_prompt_bytes :: usize
  lim_max_negative_prompt_bytes :: usize
  lim_max_outputs :: u8
  lim_max_inputs :: usize
  lim_max_inline_encoded_bytes :: usize
  lim_max_edge :: u32
  lim_max_timeout_ms :: u64
  lim_max_identifier_bytes :: usize

definition default_request_limits :: request_limits where
  "default_request_limits =
     \<lparr>lim_max_prompt_bytes = 128 * 1024, lim_max_negative_prompt_bytes = 64 * 1024,
      lim_max_outputs = 16, lim_max_inputs = 16, lim_max_inline_encoded_bytes = 64 * 1024 * 1024,
      lim_max_edge = 16384, lim_max_timeout_ms = 30 * 60 * 1000, lim_max_identifier_bytes = 256\<rparr>"

record validation_issue =
  vi_field :: string
  vi_code :: string
  vi_message :: string

definition max_validation_issues :: usize where
  "max_validation_issues = 64"

definition max_detailed_input_validations :: usize where
  "max_detailed_input_validations = 64"

definition max_embedded_request_text_bytes :: usize where
  "max_embedded_request_text_bytes = 12 * 1024"

type_synonym issues_state = "validation_issue list \<times> bool"
type_synonym check = "issues_state \<Rightarrow> issues_state"

definition raise_issue :: "string \<Rightarrow> string \<Rightarrow> string \<Rightarrow> check" where
  "raise_issue field code message = (\<lambda>(issues, truncated).
     if length issues < max_validation_issues - 1
     then (issues @ [\<lparr>vi_field = field, vi_code = code, vi_message = message\<rparr>], truncated)
     else (issues, True))"

text \<open>An \<open>if\<close> of the source whose body raises one issue, and a sequence of such statements.\<close>

definition issue_when :: "bool \<Rightarrow> string \<Rightarrow> string \<Rightarrow> string \<Rightarrow> check" where
  "issue_when c field code message st = (if c then raise_issue field code message st else st)"

definition run_checks :: "check list \<Rightarrow> check" where
  "run_checks cs st = fold (\<lambda>c. c) cs st"

lemma run_checks_simps [simp]:
  "run_checks [] st = st"
  "run_checks (c # cs) st = run_checks cs (c st)"
  by (simp_all add: run_checks_def)

lemma run_checks_append: "run_checks (cs @ ds) st = run_checks ds (run_checks cs st)"
  by (simp add: run_checks_def)

section \<open>Field predicates\<close>

definition valid_hex_color :: "string \<Rightarrow> bool" where
  "valid_hex_color value =
     (let value = (case strip_prefix ''#'' value of None \<Rightarrow> value | Some rest \<Rightarrow> rest) in
      length value = 6 \<and> list_all is_ascii_hexdigit value)"

definition portable_byte :: "char \<Rightarrow> bool" where
  "portable_byte c = (is_ascii_alphanumeric c \<or> c = CHR ''-'' \<or> c = CHR ''_'' \<or> c = CHR ''.'')"

definition valid_portable_directory :: "string \<Rightarrow> bool" where
  "valid_portable_directory value =
     (value \<noteq> [] \<and> length value \<le> 512
      \<and> list_all (\<lambda>component.
           component \<noteq> [] \<and> component \<noteq> ''.'' \<and> component \<noteq> ''..''
           \<and> length component \<le> 128 \<and> \<not> starts_with ''.'' component
           \<and> list_all portable_byte component) (split_all CHR ''/'' value))"

definition valid_output_filename :: "string \<Rightarrow> output_format \<Rightarrow> bool" where
  "valid_output_filename value format =
     (if value = [] \<or> 160 < length value \<or> starts_with ''.'' value
         \<or> CHR ''/'' \<in> set value \<or> CHR 0x5C \<in> set value \<or> \<not> list_all portable_byte value
      then False
      else (case rsplit_once CHR ''.'' value of
              None \<Rightarrow> True
            | Some (_, extension) \<Rightarrow>
                (case format of
                   Output_Format_Png \<Rightarrow> eq_ignore_ascii_case extension ''png''
                 | Output_Format_Jpeg \<Rightarrow>
                     eq_ignore_ascii_case extension ''jpg'' \<or> eq_ignore_ascii_case extension ''jpeg''
                 | Output_Format_Webp \<Rightarrow> eq_ignore_ascii_case extension ''webp'')))"

definition validate_identifier :: "string option \<Rightarrow> string \<Rightarrow> request_limits \<Rightarrow> check" where
  "validate_identifier value field limits =
     (case value of
        None \<Rightarrow> (\<lambda>st. st)
      | Some value \<Rightarrow>
          if is_blank value then raise_issue field ''empty'' ''identifier must be omitted instead of empty''
          else if lim_max_identifier_bytes limits < length value
          then raise_issue field ''too_large'' ''identifier exceeds the configured byte limit''
          else if has_control value
          then raise_issue field ''invalid'' ''identifier must not contain control characters''
          else (\<lambda>st. st))"

definition validate_input :: "image_input \<Rightarrow> string \<Rightarrow> request_limits \<Rightarrow> check" where
  "validate_input input field limits = run_checks [
     (case in_source input of
        Source_File path \<Rightarrow> issue_when (path = []) field ''empty'' ''file path must not be empty''
      | Source_Url url \<Rightarrow> issue_when (is_blank url) field ''empty'' ''URL must not be empty''
      | Source_Data_Url data_url \<Rightarrow>
          if lim_max_inline_encoded_bytes limits < length data_url
          then raise_issue field ''too_large'' ''data URL exceeds the encoded byte limit''
          else issue_when (\<not> starts_with ''data:image/'' data_url) field ''invalid''
                 ''data URL must contain an image media type''
      | Source_Base64 data \<Rightarrow>
          if lim_max_inline_encoded_bytes limits < length data
          then raise_issue field ''too_large'' ''base64 input exceeds the encoded byte limit''
          else issue_when (data = []) field ''empty'' ''base64 input must not be empty''),
     issue_when
       (case in_filename input of
          None \<Rightarrow> False
        | Some name \<Rightarrow> name = [] \<or> CHR ''/'' \<in> set name \<or> CHR 0x5C \<in> set name \<or> has_control name)
       field ''invalid_filename'' ''logical filename must be a single safe path component'']"

section \<open>The groups of checks, in source order\<close>

definition check_prompts :: "image_request \<Rightarrow> request_limits \<Rightarrow> check" where
  "check_prompts request limits = run_checks [
     issue_when (req_version request \<noteq> contract_version)
       ''version'' ''unsupported_version'' ''only contract version 1 is supported'',
     (if is_blank (req_prompt request)
      then raise_issue ''prompt'' ''required'' ''prompt must not be empty''
      else issue_when (lim_max_prompt_bytes limits < length (req_prompt request))
             ''prompt'' ''too_large'' ''prompt exceeds the configured byte limit''),
     (case req_negative_prompt request of
        None \<Rightarrow> (\<lambda>st. st)
      | Some negative_prompt \<Rightarrow> run_checks [
          (if is_blank negative_prompt
           then raise_issue ''negative_prompt'' ''empty''
                  ''negative prompt must be omitted instead of empty''
           else issue_when (lim_max_negative_prompt_bytes limits < length negative_prompt)
                  ''negative_prompt'' ''too_large''
                  ''negative prompt exceeds the configured byte limit''),
          issue_when (pol_negative_prompt (req_policies request) = Negative_Prompt_Mode_Reject)
            ''policies.negative_prompt'' ''rejected_by_policy''
            ''negative prompt is present while its policy is reject''])]"

definition check_parameters :: "image_request \<Rightarrow> request_limits \<Rightarrow> check" where
  "check_parameters request limits = (let p = req_parameters request in run_checks [
     issue_when (gp_n p = 0 \<or> lim_max_outputs limits < gp_n p)
       ''parameters.n'' ''out_of_range'' ''output count is outside the configured generic range'',
     issue_when
       (case size_dimensions (gp_size p) of
          None \<Rightarrow> False
        | Some (width, height) \<Rightarrow> lim_max_edge limits < width \<or> lim_max_edge limits < height)
       ''parameters.size'' ''out_of_range'' ''an image edge exceeds the configured generic limit'',
     issue_when
       (\<not> size_is_auto (gp_size p) \<and> (gp_aspect_ratio p \<noteq> None \<or> gp_resolution p \<noteq> None))
       ''parameters.size'' ''ambiguous''
       ''explicit size cannot be combined with aspect_ratio or resolution hints'',
     issue_when (case gp_output_compression p of None \<Rightarrow> False | Some value \<Rightarrow> 100 < value)
       ''parameters.output_compression'' ''out_of_range''
       ''output compression must be between 0 and 100'',
     issue_when
       (gp_output_compression p \<noteq> None
        \<and> \<not> (gp_output_format p = Output_Format_Jpeg \<or> gp_output_format p = Output_Format_Webp))
       ''parameters.output_compression'' ''incompatible''
       ''output compression is valid only for jpeg or webp'',
     issue_when (3 < gp_partial_images p)
       ''parameters.partial_images'' ''out_of_range''
       ''partial image count must be between 0 and 3''])"

definition fallback_field :: "nat \<Rightarrow> string" where
  "fallback_field index = ''routing.fallbacks['' @ show_nat index @ '']''"

text \<open>The loop over the fallback routes, with the set of routes seen so far.\<close>

fun check_fallbacks ::
  "image_request \<Rightarrow> request_limits \<Rightarrow> nat \<Rightarrow> (string \<times> string option) set \<Rightarrow> provider_route list \<Rightarrow> check"
where
  "check_fallbacks request limits index seen [] = (\<lambda>st. st)"
| "check_fallbacks request limits index seen (route # routes) = run_checks [
     validate_identifier (Some (route_provider route)) (fallback_field index @ ''.provider'') limits,
     validate_identifier (route_model route) (fallback_field index @ ''.model'') limits,
     issue_when ((route_provider route, route_model route) \<in> seen)
       (fallback_field index) ''duplicate'' ''fallback routes must be unique'',
     issue_when
       (rt_provider (req_routing request) = Some (route_provider route)
        \<and> rt_model (req_routing request) = route_model route)
       (fallback_field index) ''duplicate''
       ''a fallback route must differ from the explicit primary route'',
     check_fallbacks request limits (Suc index)
       (insert (route_provider route, route_model route) seen) routes]"

definition check_routing :: "image_request \<Rightarrow> request_limits \<Rightarrow> check" where
  "check_routing request limits = (let r = req_routing request in run_checks [
     validate_identifier (rt_provider r) ''routing.provider'' limits,
     validate_identifier (rt_model r) ''routing.model'' limits,
     issue_when (4 < length (rt_fallbacks r))
       ''routing.fallbacks'' ''too_many'' ''at most four fallback routes may be configured'',
     check_fallbacks request limits 0 {} (rt_fallbacks r),
     issue_when (rt_fallbacks r \<noteq> [] \<and> so_mode (req_session request) \<noteq> Session_Mode_Isolated)
       ''routing.fallbacks'' ''incompatible''
       ''provider fallback is supported only for isolated sessions'',
     issue_when
       (pol_batch_execution (req_policies request) = Batch_Execution_Parallel
        \<and> so_mode (req_session request) \<noteq> Session_Mode_Isolated)
       ''policies.batch_execution'' ''incompatible''
       ''parallel batch execution requires an isolated session'',
     validate_identifier (req_idempotency_key request) ''idempotency_key'' limits,
     validate_identifier (req_user request) ''user'' limits])"

definition check_transparency :: "image_request \<Rightarrow> check" where
  "check_transparency request = (let t = out_transparency (req_output request) in run_checks [
     issue_when (tr_opaque_threshold t \<le> tr_transparent_threshold t)
       ''output.transparency.transparent_threshold'' ''out_of_range''
       ''transparent threshold must be lower than opaque threshold'',
     issue_when (case tr_key_color t of None \<Rightarrow> False | Some key \<Rightarrow> \<not> valid_hex_color key)
       ''output.transparency.key_color'' ''invalid_format''
       ''chroma key must be a hex RGB color like #00ff00''])"

definition none_or_empty :: "string option \<Rightarrow> bool" where
  "none_or_empty x = (case x of None \<Rightarrow> True | Some s \<Rightarrow> s = [])"

definition check_session :: "image_request \<Rightarrow> request_limits \<Rightarrow> check" where
  "check_session request limits = (let s = req_session request in run_checks [
     (case so_mode s of
        Session_Mode_Isolated \<Rightarrow>
          issue_when (so_key s \<noteq> None \<or> so_thread_id s \<noteq> None)
            ''session'' ''incompatible'' ''isolated mode cannot include a key or thread_id''
      | Session_Mode_Persistent \<Rightarrow> run_checks [
          issue_when (none_or_empty (so_key s)) ''session.key'' ''required''
            ''persistent mode requires a non-empty session key'',
          issue_when (so_thread_id s \<noteq> None) ''session.thread_id'' ''incompatible''
            ''persistent mode uses a key, not an explicit thread_id'']
      | Session_Mode_Thread \<Rightarrow> run_checks [
          issue_when (none_or_empty (so_thread_id s)) ''session.thread_id'' ''required''
            ''thread mode requires a non-empty thread_id'',
          issue_when (so_key s \<noteq> None) ''session.key'' ''incompatible''
            ''thread mode cannot include a persistent key'']),
     validate_identifier (so_key s) ''session.key'' limits,
     validate_identifier (so_thread_id s) ''session.thread_id'' limits,
     issue_when
       (case req_timeout_ms request of
          None \<Rightarrow> False
        | Some timeout_ms \<Rightarrow> timeout_ms = 0 \<or> lim_max_timeout_ms limits < timeout_ms)
       ''timeout_ms'' ''out_of_range'' ''timeout is outside the configured range''])"

definition artifact_delivery :: "output_options \<Rightarrow> bool" where
  "artifact_delivery out =
     (out_response_format out = Response_Format_Artifact \<or> out_response_format out = Response_Format_Url)"

definition option_length :: "string option \<Rightarrow> usize" where
  "option_length x = (case x of None \<Rightarrow> 0 | Some s \<Rightarrow> length s)"

definition check_output :: "image_request \<Rightarrow> check" where
  "check_output request = (let out = req_output request; p = req_parameters request in run_checks [
     issue_when (\<not> artifact_delivery out \<and> out_filename_prefix out \<noteq> None)
       ''output.filename_prefix'' ''incompatible''
       ''filename_prefix requires artifact response format'',
     issue_when (\<not> artifact_delivery out \<and> (out_directory out \<noteq> None \<or> out_filename out \<noteq> None))
       ''output'' ''incompatible''
       ''artifact path controls require artifact or url response format'',
     issue_when (out_filename out \<noteq> None \<and> out_filename_prefix out \<noteq> None)
       ''output.filename'' ''incompatible'' ''filename cannot be combined with filename_prefix'',
     issue_when (out_filename out \<noteq> None \<and> gp_n p \<noteq> 1)
       ''output.filename'' ''incompatible'' ''an exact filename requires a single output'',
     issue_when (out_filename out = None \<and> out_collision out \<noteq> Collision_Policy_Error)
       ''output.collision'' ''incompatible''
       ''collision policy applies only to an explicit filename'',
     issue_when
       (writes_sidecar (out_metadata out) \<and> out_response_format out \<noteq> Response_Format_Artifact)
       ''output.metadata'' ''incompatible''
       ''metadata sidecars require artifact response format'',
     issue_when (embeds (out_metadata out) \<and> out_response_format out = Response_Format_Metadata)
       ''output.metadata'' ''incompatible''
       ''embedded metadata requires an image-bearing response format'',
     issue_when
       (embeds (out_metadata out)
        \<and> max_embedded_request_text_bytes
          < usize_sat_add (length (req_prompt request)) (option_length (req_negative_prompt request)))
       ''output.metadata'' ''too_large''
       ''embedded metadata requires combined prompt text no larger than 12 KiB'',
     issue_when
       (case out_directory out of None \<Rightarrow> False | Some directory \<Rightarrow> \<not> valid_portable_directory directory)
       ''output.directory'' ''invalid''
       ''output directory must be a safe portable relative path'',
     issue_when
       (case out_filename out of
          None \<Rightarrow> False
        | Some filename \<Rightarrow> \<not> valid_output_filename filename (gp_output_format p))
       ''output.filename'' ''invalid''
       ''output filename must be a safe component with a matching image extension''])"

fun check_each_input :: "string \<Rightarrow> request_limits \<Rightarrow> nat \<Rightarrow> image_input list \<Rightarrow> check" where
  "check_each_input name limits index [] = (\<lambda>st. st)"
| "check_each_input name limits index (input # inputs) = run_checks [
     validate_input input (name @ ''['' @ show_nat index @ '']'') limits,
     check_each_input name limits (Suc index) inputs]"

text \<open>The number of inputs, and the checks of the first \<open>MAX_DETAILED_INPUT_VALIDATIONS\<close> of them.\<close>

definition edit_images :: "image_operation \<Rightarrow> image_input list" where
  "edit_images op = (case op of Op_Generate _ \<Rightarrow> [] | Op_Edit images _ _ \<Rightarrow> images)"

definition edit_mask :: "image_operation \<Rightarrow> image_input option" where
  "edit_mask op = (case op of Op_Generate _ \<Rightarrow> None | Op_Edit _ m _ \<Rightarrow> m)"

definition input_count :: "image_operation \<Rightarrow> usize" where
  "input_count op =
     usize_sat_add (usize_sat_add (length (edit_images op)) (if edit_mask op \<noteq> None then 1 else 0))
       (length (op_reference_images op))"

definition check_detailed_inputs :: "image_operation \<Rightarrow> request_limits \<Rightarrow> check" where
  "check_detailed_inputs op limits =
     (let images = take max_detailed_input_validations (edit_images op);
          detailed = length images;
          with_mask = (edit_mask op \<noteq> None \<and> detailed < max_detailed_input_validations);
          detailed' = (if with_mask then detailed + 1 else detailed)
      in run_checks [
        check_each_input ''images'' limits 0 images,
        (case edit_mask op of
           None \<Rightarrow> (\<lambda>st. st)
         | Some m \<Rightarrow> if with_mask then validate_input m ''mask'' limits else (\<lambda>st. st)),
        check_each_input ''reference_images'' limits 0
          (take (max_detailed_input_validations - detailed') (op_reference_images op))])"

definition check_inputs :: "image_request \<Rightarrow> request_limits \<Rightarrow> check" where
  "check_inputs request limits = (let op = req_operation request; p = req_parameters request in run_checks [
     issue_when (case op of Op_Generate _ \<Rightarrow> False | Op_Edit images _ _ \<Rightarrow> images = [])
       ''images'' ''required'' ''edit operation requires at least one source image'',
     issue_when (lim_max_inputs limits < input_count op)
       ''operation'' ''too_many_inputs''
       ''total input image count exceeds the configured limit'',
     check_detailed_inputs op limits,
     issue_when
       (gp_input_fidelity p \<noteq> None \<and> length (edit_images op) + length (op_reference_images op) = 0)
       ''parameters.input_fidelity'' ''incompatible''
       ''input_fidelity requires at least one source or reference image'',
     (case (op, gp_action p) of
        (Op_Generate reference_images, Image_Action_Edit) \<Rightarrow>
          issue_when (reference_images = [])
            ''parameters.action'' ''incompatible'' ''edit action requires an image in context''
      | (Op_Edit _ _ _, Image_Action_Generate) \<Rightarrow>
          raise_issue ''parameters.action'' ''incompatible''
            ''generate action conflicts with the edit operation''
      | _ \<Rightarrow> (\<lambda>st. st))])"

section \<open>The report and the verdict\<close>

definition raw_issues :: "image_request \<Rightarrow> request_limits \<Rightarrow> issues_state" where
  "raw_issues request limits = run_checks [
     check_prompts request limits, check_parameters request limits, check_routing request limits,
     check_transparency request, check_session request limits, check_output request,
     check_inputs request limits] ([], False)"

definition truncation_issue :: validation_issue where
  "truncation_issue = \<lparr>vi_field = ''$'', vi_code = ''too_many_issues'',
     vi_message = ''additional validation issues were omitted''\<rparr>"

text \<open>\<open>sort_by\<close> is stable and compares the pairs \<open>(field, code)\<close> lexicographically.\<close>

definition validation_issues :: "image_request \<Rightarrow> request_limits \<Rightarrow> validation_issue list" where
  "validation_issues request limits =
     (case raw_issues request limits of (issues, truncated) \<Rightarrow>
        sort_key (\<lambda>i. (vi_field i, vi_code i))
          (if truncated then issues @ [truncation_issue] else issues))"

definition issue_json :: "validation_issue \<Rightarrow> json" where
  "issue_json i = JObj [(''field'', JStr (vi_field i)), (''code'', JStr (vi_code i)),
     (''message'', JStr (vi_message i))]"

definition validate_request :: "image_request \<Rightarrow> request_limits \<Rightarrow> unit result" where
  "validate_request request limits =
     (let issues = validation_issues request limits in
      if issues = [] then Inr ()
      else Inl (with_detail ''issues'' (JArr (map issue_json issues))
                 (error_new InvalidRequest ''request validation failed'')))"

section \<open>What a clean report means\<close>

named_theorems clean_simps \<open>when a check leaves the report clean\<close>

definition clean :: "issues_state \<Rightarrow> bool" where
  "clean st = (st = ([], False))"

lemma clean_start [clean_simps]: "clean ([], False)"
  by (simp add: clean_def)

lemma clean_raise_issue [clean_simps]: "\<not> clean (raise_issue f k m st)"
  by (cases st) (simp add: clean_def raise_issue_def)

lemma clean_issue_when [clean_simps]: "clean (issue_when c f k m st) \<longleftrightarrow> clean st \<and> \<not> c"
  by (simp add: issue_when_def clean_raise_issue)

lemma clean_if [clean_simps]:
  "clean ((if c then f else g) st) = (if c then clean (f st) else clean (g st))"
  by simp

lemma clean_case_option [clean_simps]:
  "clean ((case x of None \<Rightarrow> f | Some a \<Rightarrow> g a) st)
   = (case x of None \<Rightarrow> clean (f st) | Some a \<Rightarrow> clean (g a st))"
  by (simp split: option.splits)

definition identifier_ok :: "request_limits \<Rightarrow> string \<Rightarrow> bool" where
  "identifier_ok limits s \<longleftrightarrow> \<not> is_blank s \<and> length s \<le> lim_max_identifier_bytes limits \<and> \<not> has_control s"

definition source_ok :: "request_limits \<Rightarrow> image_source \<Rightarrow> bool" where
  "source_ok limits src = (case src of
     Source_File path \<Rightarrow> path \<noteq> []
   | Source_Url url \<Rightarrow> \<not> is_blank url
   | Source_Data_Url d \<Rightarrow> length d \<le> lim_max_inline_encoded_bytes limits \<and> starts_with ''data:image/'' d
   | Source_Base64 d \<Rightarrow> length d \<le> lim_max_inline_encoded_bytes limits \<and> d \<noteq> [])"

definition logical_filename_ok :: "string \<Rightarrow> bool" where
  "logical_filename_ok name \<longleftrightarrow>
     name \<noteq> [] \<and> CHR ''/'' \<notin> set name \<and> CHR 0x5C \<notin> set name \<and> \<not> has_control name"

definition input_ok :: "request_limits \<Rightarrow> image_input \<Rightarrow> bool" where
  "input_ok limits i \<longleftrightarrow>
     source_ok limits (in_source i) \<and> pred_option logical_filename_ok (in_filename i)"

lemma clean_validate_identifier [clean_simps]:
  "clean (validate_identifier x f limits st) \<longleftrightarrow> clean st \<and> pred_option (identifier_ok limits) x"
  by (cases x) (auto simp: validate_identifier_def identifier_ok_def clean_simps)

lemma clean_validate_input [clean_simps]:
  "clean (validate_input i f limits st) \<longleftrightarrow> clean st \<and> input_ok limits i"
  by (cases "in_source i"; cases "in_filename i")
    (auto simp: validate_input_def input_ok_def source_ok_def logical_filename_ok_def clean_simps)

lemma clean_check_each_input [clean_simps]:
  "clean (check_each_input name limits k xs st) \<longleftrightarrow> clean st \<and> (\<forall>i \<in> set xs. input_ok limits i)"
  by (induction xs arbitrary: k st) (auto simp: clean_simps)

lemma clean_check_detailed_inputs [clean_simps]:
  "clean (check_detailed_inputs op limits st) \<longleftrightarrow>
     clean st
     \<and> (\<forall>i \<in> set (take 64 (edit_images op @ (case edit_mask op of None \<Rightarrow> [] | Some m \<Rightarrow> [m])
                          @ op_reference_images op)). input_ok limits i)"
proof (cases "64 \<le> length (edit_images op)")
  case True
  then show ?thesis
    by (auto simp: check_detailed_inputs_def Let_def clean_simps max_detailed_input_validations_def
        split: option.splits)
next
  case False
  then have "min (length (edit_images op)) 64 = length (edit_images op)" by simp
  then show ?thesis
    using False
    by (cases "edit_mask op")
      (auto simp: check_detailed_inputs_def Let_def clean_simps max_detailed_input_validations_def take_Cons')
qed

definition route_key :: "provider_route \<Rightarrow> string \<times> string option" where
  "route_key r = (route_provider r, route_model r)"

definition route_ok :: "image_request \<Rightarrow> request_limits \<Rightarrow> provider_route \<Rightarrow> bool" where
  "route_ok request limits r \<longleftrightarrow>
     identifier_ok limits (route_provider r) \<and> pred_option (identifier_ok limits) (route_model r)
     \<and> \<not> (rt_provider (req_routing request) = Some (route_provider r)
          \<and> rt_model (req_routing request) = route_model r)"

lemma clean_check_fallbacks [clean_simps]:
  "clean (check_fallbacks request limits k seen rs st) \<longleftrightarrow>
     clean st \<and> (\<forall>r \<in> set rs. route_ok request limits r)
     \<and> distinct (map route_key rs) \<and> set (map route_key rs) \<inter> seen = {}"
  by (induction rs arbitrary: k seen st) (auto simp: clean_simps route_ok_def route_key_def)

section \<open>Well-formed requests\<close>

text \<open>
  What the validation promises, stated on the request: one predicate per group, written
  without the report.
\<close>

definition prompts_ok :: "image_request \<Rightarrow> request_limits \<Rightarrow> bool" where
  "prompts_ok r limits \<longleftrightarrow>
     req_version r = contract_version
     \<and> \<not> is_blank (req_prompt r) \<and> length (req_prompt r) \<le> lim_max_prompt_bytes limits
     \<and> pred_option (\<lambda>np. \<not> is_blank np \<and> length np \<le> lim_max_negative_prompt_bytes limits
          \<and> pol_negative_prompt (req_policies r) \<noteq> Negative_Prompt_Mode_Reject) (req_negative_prompt r)"

definition parameters_ok :: "generation_parameters \<Rightarrow> request_limits \<Rightarrow> bool" where
  "parameters_ok p limits \<longleftrightarrow>
     gp_n p \<noteq> 0 \<and> gp_n p \<le> lim_max_outputs limits
     \<and> pred_option (\<lambda>(w, h). w \<le> lim_max_edge limits \<and> h \<le> lim_max_edge limits) (size_dimensions (gp_size p))
     \<and> (size_is_auto (gp_size p) \<or> gp_aspect_ratio p = None \<and> gp_resolution p = None)
     \<and> pred_option (\<lambda>c. c \<le> 100 \<and> gp_output_format p \<noteq> Output_Format_Png) (gp_output_compression p)
     \<and> gp_partial_images p \<le> 3"

definition session_ok :: "session_options \<Rightarrow> request_limits \<Rightarrow> bool" where
  "session_ok s limits \<longleftrightarrow>
     (case so_mode s of
        Session_Mode_Isolated \<Rightarrow> so_key s = None \<and> so_thread_id s = None
      | Session_Mode_Persistent \<Rightarrow>
          so_thread_id s = None \<and> so_key s \<noteq> None \<and> pred_option (identifier_ok limits) (so_key s)
      | Session_Mode_Thread \<Rightarrow>
          so_key s = None \<and> so_thread_id s \<noteq> None \<and> pred_option (identifier_ok limits) (so_thread_id s))"

definition routing_ok :: "image_request \<Rightarrow> request_limits \<Rightarrow> bool" where
  "routing_ok r limits \<longleftrightarrow>
     (let rt = req_routing r in
      pred_option (identifier_ok limits) (rt_provider rt) \<and> pred_option (identifier_ok limits) (rt_model rt)
      \<and> length (rt_fallbacks rt) \<le> 4 \<and> distinct (map route_key (rt_fallbacks rt))
      \<and> (\<forall>f \<in> set (rt_fallbacks rt). route_ok r limits f)
      \<and> (so_mode (req_session r) = Session_Mode_Isolated
         \<or> rt_fallbacks rt = [] \<and> pol_batch_execution (req_policies r) \<noteq> Batch_Execution_Parallel))"

definition transparency_ok :: "transparency_options \<Rightarrow> bool" where
  "transparency_ok t \<longleftrightarrow>
     tr_transparent_threshold t < tr_opaque_threshold t \<and> pred_option valid_hex_color (tr_key_color t)"

definition output_ok :: "image_request \<Rightarrow> bool" where
  "output_ok r \<longleftrightarrow>
     (let out = req_output r in
      (artifact_delivery out
       \<or> out_filename_prefix out = None \<and> out_directory out = None \<and> out_filename out = None)
      \<and> (case out_filename out of
           None \<Rightarrow> out_collision out = Collision_Policy_Error
         | Some f \<Rightarrow> out_filename_prefix out = None \<and> gp_n (req_parameters r) = 1
             \<and> valid_output_filename f (gp_output_format (req_parameters r)))
      \<and> (writes_sidecar (out_metadata out) \<longrightarrow> out_response_format out = Response_Format_Artifact)
      \<and> (embeds (out_metadata out) \<longrightarrow>
           out_response_format out \<noteq> Response_Format_Metadata
           \<and> length (req_prompt r) + option_length (req_negative_prompt r) \<le> 12288)
      \<and> pred_option valid_portable_directory (out_directory out))"

definition inputs_ok :: "image_request \<Rightarrow> request_limits \<Rightarrow> bool" where
  "inputs_ok r limits \<longleftrightarrow>
     (let op = req_operation r; p = req_parameters r;
          inputs = edit_images op @ (case edit_mask op of None \<Rightarrow> [] | Some m \<Rightarrow> [m]) @ op_reference_images op
      in input_count op \<le> lim_max_inputs limits
         \<and> (\<forall>i \<in> set (take 64 inputs). input_ok limits i)
         \<and> (gp_input_fidelity p \<noteq> None \<longrightarrow> edit_images op \<noteq> [] \<or> op_reference_images op \<noteq> [])
         \<and> (case op of
              Op_Generate refs \<Rightarrow> gp_action p = Image_Action_Edit \<longrightarrow> refs \<noteq> []
            | Op_Edit images _ _ \<Rightarrow> images \<noteq> [] \<and> gp_action p \<noteq> Image_Action_Generate))"

definition well_formed_request :: "image_request \<Rightarrow> request_limits \<Rightarrow> bool" where
  "well_formed_request r limits \<longleftrightarrow>
     prompts_ok r limits \<and> parameters_ok (req_parameters r) limits \<and> routing_ok r limits
     \<and> session_ok (req_session r) limits \<and> output_ok r
     \<and> transparency_ok (out_transparency (req_output r)) \<and> inputs_ok r limits
     \<and> pred_option (identifier_ok limits) (req_idempotency_key r)
     \<and> pred_option (identifier_ok limits) (req_user r)
     \<and> pred_option (\<lambda>t. t \<noteq> 0 \<and> t \<le> lim_max_timeout_ms limits) (req_timeout_ms r)"

lemma clean_check_prompts [clean_simps]:
  "clean (check_prompts r limits st) \<longleftrightarrow> clean st \<and> prompts_ok r limits"
  by (cases "req_negative_prompt r") (auto simp: check_prompts_def prompts_ok_def clean_simps)

lemma clean_check_parameters [clean_simps]:
  "clean (check_parameters r limits st) \<longleftrightarrow> clean st \<and> parameters_ok (req_parameters r) limits"
  by (cases "size_dimensions (gp_size (req_parameters r))";
      cases "gp_output_compression (req_parameters r)";
      cases "gp_output_format (req_parameters r)")
    (auto simp: check_parameters_def parameters_ok_def Let_def clean_simps not_less)

lemma clean_check_routing [clean_simps]:
  "clean (check_routing r limits st) \<longleftrightarrow>
     clean st \<and> routing_ok r limits \<and> pred_option (identifier_ok limits) (req_idempotency_key r)
     \<and> pred_option (identifier_ok limits) (req_user r)"
  by (auto simp: check_routing_def routing_ok_def Let_def clean_simps)

lemma clean_check_session [clean_simps]:
  "clean (check_session r limits st) \<longleftrightarrow>
     clean st \<and> session_ok (req_session r) limits
     \<and> pred_option (\<lambda>t. t \<noteq> 0 \<and> t \<le> lim_max_timeout_ms limits) (req_timeout_ms r)"
  by (cases "so_mode (req_session r)"; cases "so_key (req_session r)";
      cases "so_thread_id (req_session r)"; cases "req_timeout_ms r")
    (auto simp: check_session_def session_ok_def Let_def clean_simps none_or_empty_def
      identifier_ok_def not_less)

lemma clean_check_transparency [clean_simps]:
  "clean (check_transparency r st) \<longleftrightarrow> clean st \<and> transparency_ok (out_transparency (req_output r))"
  by (cases "tr_key_color (out_transparency (req_output r))")
    (auto simp: check_transparency_def transparency_ok_def Let_def clean_simps)

lemma embedded_text_limit:
  "max_embedded_request_text_bytes < usize_sat_add a b \<longleftrightarrow> 12288 < a + b"
  by (auto simp: max_embedded_request_text_bytes_def usize_sat_add_def usize_max_def)

lemma clean_check_output [clean_simps]:
  "clean (check_output r st) \<longleftrightarrow> clean st \<and> output_ok r"
  by (cases "out_filename (req_output r)"; cases "out_directory (req_output r)")
    (auto simp: check_output_def output_ok_def Let_def clean_simps embedded_text_limit not_less)

lemma clean_check_inputs [clean_simps]:
  "clean (check_inputs r limits st) \<longleftrightarrow> clean st \<and> inputs_ok r limits"
  by (cases "req_operation r"; cases "gp_action (req_parameters r)")
    (auto simp: check_inputs_def inputs_ok_def Let_def clean_simps edit_images_def
      op_reference_images_def not_less)

lemma clean_raw_issues: "clean (raw_issues r limits) \<longleftrightarrow> well_formed_request r limits"
  by (auto simp: raw_issues_def well_formed_request_def clean_simps)

lemma validation_issues_Nil_iff: "validation_issues r limits = [] \<longleftrightarrow> clean (raw_issues r limits)"
proof -
  have "sort_key f xs = [] \<longleftrightarrow> xs = []" for f :: "validation_issue \<Rightarrow> string \<times> string" and xs
    by (metis length_sort length_0_conv)
  then show ?thesis
    by (auto simp: validation_issues_def clean_def split: prod.splits)
qed

lemma validate_request_Inr_iff: "validate_request r limits = Inr () \<longleftrightarrow> well_formed_request r limits"
  by (auto simp: validate_request_def Let_def clean_raw_issues [symmetric] validation_issues_Nil_iff)

section \<open>The shape of the report\<close>

named_theorems keeps_intros \<open>checks that keep the report within its bounds\<close>

definition report_inv :: "issues_state \<Rightarrow> bool" where
  "report_inv st = (case st of (issues, truncated) \<Rightarrow>
     length issues \<le> 63 \<and> (truncated \<longrightarrow> length issues = 63)
     \<and> (\<forall>i \<in> set issues. vi_code i \<noteq> ''too_many_issues''))"

definition keeps :: "check \<Rightarrow> bool" where
  "keeps c \<longleftrightarrow> (\<forall>st. report_inv st \<longrightarrow> report_inv (c st))"

lemma keeps_raise_issue [keeps_intros]: "k \<noteq> ''too_many_issues'' \<Longrightarrow> keeps (raise_issue f k m)"
  by (auto simp: keeps_def report_inv_def raise_issue_def max_validation_issues_def)

lemma keeps_issue_when [keeps_intros]: "k \<noteq> ''too_many_issues'' \<Longrightarrow> keeps (issue_when c f k m)"
  using keeps_raise_issue [of k f m] by (auto simp: keeps_def issue_when_def)

lemma keeps_id [keeps_intros]: "keeps (\<lambda>st. st)"
  by (simp add: keeps_def)

lemma keeps_run_checks [keeps_intros]: "list_all keeps cs \<Longrightarrow> keeps (run_checks cs)"
proof (induction cs)
  case (Cons c cs)
  then have "keeps c" "keeps (run_checks cs)" by simp_all
  then show ?case unfolding keeps_def run_checks_simps by blast
qed (simp add: keeps_def)

lemma keeps_if [keeps_intros]: "keeps f \<Longrightarrow> keeps g \<Longrightarrow> keeps (if b then f else g)"
  by simp

lemma keeps_case_option [keeps_intros]:
  "keeps f \<Longrightarrow> (\<And>a. keeps (g a)) \<Longrightarrow> keeps (case x of None \<Rightarrow> f | Some a \<Rightarrow> g a)"
  by (cases x) auto

lemma keeps_validate_identifier [keeps_intros]: "keeps (validate_identifier x f limits)"
  unfolding validate_identifier_def by (intro keeps_intros) simp_all

lemma keeps_validate_input [keeps_intros]: "keeps (validate_input i f limits)"
  unfolding validate_input_def
  by (cases "in_source i") (auto simp: intro!: keeps_intros)

lemma keeps_check_each_input [keeps_intros]: "keeps (check_each_input name limits k xs)"
  by (induction xs arbitrary: k) (auto intro!: keeps_intros)

lemma keeps_check_fallbacks [keeps_intros]: "keeps (check_fallbacks r limits k seen rs)"
  by (induction rs arbitrary: k seen) (auto intro!: keeps_intros)

lemma keeps_check_prompts [keeps_intros]: "keeps (check_prompts r limits)"
  unfolding check_prompts_def by (auto intro!: keeps_intros)

lemma keeps_check_parameters [keeps_intros]: "keeps (check_parameters r limits)"
  unfolding check_parameters_def Let_def by (auto intro!: keeps_intros)

lemma keeps_check_routing [keeps_intros]: "keeps (check_routing r limits)"
  unfolding check_routing_def Let_def by (auto intro!: keeps_intros)

lemma keeps_check_transparency [keeps_intros]: "keeps (check_transparency r)"
  unfolding check_transparency_def Let_def by (auto intro!: keeps_intros)

lemma keeps_check_session [keeps_intros]: "keeps (check_session r limits)"
  unfolding check_session_def Let_def
  by (cases "so_mode (req_session r)") (auto intro!: keeps_intros)

lemma keeps_check_output [keeps_intros]: "keeps (check_output r)"
  unfolding check_output_def Let_def by (auto intro!: keeps_intros)

lemma keeps_check_detailed_inputs [keeps_intros]: "keeps (check_detailed_inputs op limits)"
  unfolding check_detailed_inputs_def Let_def by (auto intro!: keeps_intros)

lemma keeps_check_inputs [keeps_intros]: "keeps (check_inputs r limits)"
  unfolding check_inputs_def Let_def
  by (cases "req_operation r"; cases "gp_action (req_parameters r)") (auto intro!: keeps_intros)

lemma raw_issues_inv: "report_inv (raw_issues r limits)"
proof -
  have "keeps (run_checks [check_prompts r limits, check_parameters r limits, check_routing r limits,
     check_transparency r, check_session r limits, check_output r, check_inputs r limits])"
    by (auto intro!: keeps_intros)
  then show ?thesis by (simp add: keeps_def raw_issues_def report_inv_def del: run_checks_simps)
qed

section \<open>Paths the validation admits\<close>

text \<open>
  Resolving a relative path below a root, component by component: an empty component and
  the current directory change nothing, the parent directory drops the last component.
\<close>

fun resolve_path :: "string list \<Rightarrow> string list \<Rightarrow> string list" where
  "resolve_path here [] = here"
| "resolve_path here (c # cs) =
     (if c = [] \<or> c = ''.'' then resolve_path here cs
      else if c = ''..'' then resolve_path (butlast here) cs
      else resolve_path (here @ [c]) cs)"

lemma resolve_path_normal:
  "list_all (\<lambda>c. c \<noteq> [] \<and> c \<noteq> ''.'' \<and> c \<noteq> ''..'') cs \<Longrightarrow> resolve_path here cs = here @ cs"
  by (induction cs arbitrary: here) auto

lemma resolve_path_append: "resolve_path here (cs @ ds) = resolve_path (resolve_path here cs) ds"
  by (induction cs arbitrary: here) auto

lemma split_all_single: "sep \<notin> set s \<Longrightarrow> split_all sep s = [s]"
  by (induction s) auto

lemma split_all_set: "c \<in> set p \<Longrightarrow> p \<in> set (split_all sep s) \<Longrightarrow> c \<in> set s \<and> c \<noteq> sep"
proof (induction s arbitrary: p)
  case (Cons x s)
  then show ?case by (auto split: list.splits if_splits) (metis list.set_intros(1) set_ConsD)+
qed simp

lemma valid_directory_below_root:
  assumes "valid_portable_directory d"
  shows "resolve_path root (split_all CHR ''/'' d) = root @ split_all CHR ''/'' d"
proof (rule resolve_path_normal)
  show "list_all (\<lambda>c. c \<noteq> [] \<and> c \<noteq> ''.'' \<and> c \<noteq> ''..'') (split_all CHR ''/'' d)"
    using assms by (auto simp: valid_portable_directory_def list_all_iff)
qed


lemma valid_filename_component:
  assumes "valid_output_filename f fmt"
  shows "f \<noteq> [] \<and> f \<noteq> ''.'' \<and> f \<noteq> ''..'' \<and> CHR ''/'' \<notin> set f"
  using assms by (auto simp: valid_output_filename_def starts_with_iff split: if_splits)

text \<open>Unfolding rules that decide well-formedness of a concrete request.\<close>

lemmas well_formed_defs =
  well_formed_request_def prompts_ok_def parameters_ok_def routing_ok_def session_ok_def
  transparency_ok_def output_ok_def inputs_ok_def input_ok_def source_ok_def route_ok_def route_key_def
  identifier_ok_def logical_filename_ok_def artifact_delivery_def option_length_def
  edit_images_def edit_mask_def op_reference_images_def input_count_def usize_sat_add_def
  usize_max_def size_dimensions_def size_is_auto_def writes_sidecar_def embeds_def
  default_request_limits_def Let_def is_blank_def space1_def space2_def space3_def
  valid_portable_directory_def valid_output_filename_def portable_byte_def rsplit_once_def
  is_ascii_alphanumeric_def is_ascii_digit_def is_ascii_lowercase_def is_ascii_uppercase_def
  eq_ignore_ascii_case_def to_ascii_lowercase_def to_ascii_lower_def starts_with_def

section \<open>Properties\<close>

text \<open>C28. A request is accepted exactly when it is well formed, and a rejected one gets an
  \<open>invalid_request\<close> error that carries the whole report: the bound on the number of reported
  issues never lets an ill-formed request through.\<close>

theorem validation_sound_and_complete:
  "validate_request request limits =
     (if well_formed_request request limits then Inr ()
      else Inl (with_detail ''issues'' (JArr (map issue_json (validation_issues request limits)))
                 (error_new InvalidRequest ''request validation failed'')))"
proof (cases "well_formed_request request limits")
  case True
  then show ?thesis by (simp add: validate_request_Inr_iff)
next
  case False
  then have "validation_issues request limits \<noteq> []"
    by (simp add: validation_issues_Nil_iff clean_raw_issues)
  with False show ?thesis by (simp add: validate_request_def Let_def)
qed

text \<open>The report has at most 64 issues, in the order of field and code, and has the
  truncation marker exactly when it is full.\<close>

lemma validation_report_bounded_and_sorted:
  "length (validation_issues request limits) \<le> 64
   \<and> sorted (map (\<lambda>i. (vi_field i, vi_code i)) (validation_issues request limits))
   \<and> (truncation_issue \<in> set (validation_issues request limits)
      \<longleftrightarrow> length (validation_issues request limits) = 64)"
proof -
  obtain issues truncated where raw: "raw_issues request limits = (issues, truncated)" by fastforce
  then have inv: "report_inv (issues, truncated)" using raw_issues_inv by metis
  then have "truncation_issue \<notin> set issues" by (auto simp: report_inv_def truncation_issue_def)
  with inv raw show ?thesis
    by (auto simp: validation_issues_def report_inv_def)
qed

text \<open>C35. The artifact path of an accepted request stays below the artifact root: neither its
  directory nor its filename has a component that climbs out, is empty or is absolute.\<close>

theorem accepted_artifact_path_below_root:
  assumes "validate_request request limits = Inr ()"
    and "out_directory (req_output request) = Some directory"
    and "out_filename (req_output request) = Some filename"
  shows "resolve_path root (split_all CHR ''/'' directory @ split_all CHR ''/'' filename)
         = root @ split_all CHR ''/'' directory @ [filename]"
proof -
  from assms(1) have ok: "output_ok request"
    by (simp add: validate_request_Inr_iff well_formed_request_def)
  then have d: "valid_portable_directory directory"
    and f: "valid_output_filename filename (gp_output_format (req_parameters request))"
    using assms(2,3) by (simp_all add: output_ok_def Let_def)
  have "split_all CHR ''/'' filename = [filename]"
    using valid_filename_component [OF f] by (intro split_all_single) simp
  then show ?thesis
    using valid_directory_below_root [OF d, of root] valid_filename_component [OF f]
    by (simp add: resolve_path_append)
qed

theorem accepted_artifact_path_below_root_witness:
  "resolve_path [''srv''] (split_all CHR ''/'' ''a/b'' @ split_all CHR ''/'' ''x.png'')
   = [''srv''] @ split_all CHR ''/'' ''a/b'' @ [''x.png'']"
proof (rule accepted_artifact_path_below_root)
  let ?r = "(request_generate ''p'')\<lparr>req_output := default_output_options
     \<lparr>out_response_format := Response_Format_Artifact, out_directory := Some ''a/b'',
      out_filename := Some ''x.png''\<rparr>\<rparr>"
  show "validate_request ?r default_request_limits = Inr ()"
    unfolding validate_request_Inr_iff by (simp add: well_formed_defs request_defaults)
  show "out_directory (req_output ?r) = Some ''a/b''" "out_filename (req_output ?r) = Some ''x.png''"
    by simp_all
qed

end
