(* ===== verification/Response.thy ===== *)
theory Response
  imports Request
begin

text \<open>
  \<open>crates/core/src/response.rs\<close> and the durable job contract of \<open>crates/core/src/job.rs\<close>:
  normalized results, their parts, and the lifecycle states of a job. A \<open>BTreeMap\<close> that is
  merged by key is the association list of its entries in key order.
\<close>

datatype attempt_outcome = Attempt_Succeeded | Attempt_Failed

record provider_attempt =
  at_provider :: string
  at_model :: "string option"
  at_outcome :: attempt_outcome
  at_error_code :: "error_code option"
  at_duration_ms :: u64

record normalization =
  nz_field :: string
  nz_requested :: "json option"
  nz_effective :: "json option"
  nz_reason :: string

datatype image_payload =
    Payload_B64_Json string
  | Payload_Url string
  | Payload_Artifact string "string option"
  | Payload_Metadata

record generated_image =
  gi_index :: u8
  gi_payload :: image_payload
  gi_format :: output_format
  gi_width :: u32
  gi_height :: u32
  gi_bytes :: u64
  gi_sha256 :: string
  gi_generation_ms :: "u64 option"
  gi_metadata_name :: "string option"

record image_failure =
  if_index :: u8
  if_error :: bridge_error
  if_generation_ms :: u64

record usage =
  us_input_tokens :: "u64 option"
  us_output_tokens :: "u64 option"
  us_total_tokens :: "u64 option"
  us_provider :: "string \<rightharpoonup> u64"

definition default_usage :: usage where
  "default_usage = \<lparr>us_input_tokens = None, us_output_tokens = None, us_total_tokens = None,
     us_provider = Map.empty\<rparr>"

record session_metadata =
  sm_key :: "string option"
  sm_thread_id :: "string option"
  sm_reused :: bool

record timings =
  tm_queue_ms :: u64
  tm_input_ms :: u64
  tm_provider_ms :: u64
  tm_artifact_ms :: u64
  tm_total_ms :: u64

definition default_timings :: timings where
  "default_timings = \<lparr>tm_queue_ms = 0, tm_input_ms = 0, tm_provider_ms = 0, tm_artifact_ms = 0,
     tm_total_ms = 0\<rparr>"

record image_response =
  rs_id :: string
  rs_created :: u64
  rs_provider :: string
  rs_model :: string
  rs_requested :: generation_parameters
  rs_effective :: generation_parameters
  rs_normalizations :: "normalization list"
  rs_attempts :: "provider_attempt list"
  rs_data :: "generated_image list"
  rs_failures :: "image_failure list"
  rs_revised_prompt :: "string option"
  rs_usage :: "usage option"
  rs_session :: "session_metadata option"
  rs_timings :: timings
  rs_warnings :: "string list"

datatype provider_event =
    Event_Started
  | Event_Progress string
  | Event_Partial_Image u8 u8 string
  | Event_Completed image_response

section \<open>Job states\<close>

datatype job_status =
    Job_Queued | Job_Running | Job_Succeeded | Job_Failed | Job_Cancelled | Job_Interrupted

definition job_terminal :: "job_status \<Rightarrow> bool" where
  "job_terminal s =
     (case s of
        Job_Succeeded \<Rightarrow> True | Job_Failed \<Rightarrow> True | Job_Cancelled \<Rightarrow> True | Job_Interrupted \<Rightarrow> True
      | _ \<Rightarrow> False)"

record job_progress =
  jp_stage :: string
  jp_partial_images :: u32

record job_summary =
  js_id :: string
  js_status :: job_status
  js_created :: u64
  js_updated :: u64
  js_started :: "u64 option"
  js_completed :: "u64 option"
  js_progress :: "job_progress option"
  js_favorite :: bool
  js_deleted :: "u64 option"

record image_job =
  ij_summary :: job_summary
  ij_request :: image_request
  ij_result :: "image_response option"
  ij_error :: "bridge_error option"
  ij_cancel_requested :: bool

record job_update =
  ju_favorite :: "bool option"
  ju_deleted :: "bool option"

end
