(* ===== verification/Capabilities.thy ===== *)
theory Capabilities
  imports Request Complex_Main
begin

text \<open>
  \<open>crates/core/src/capabilities.rs\<close>: the capability declaration of a provider and its
  consistency check. A \<open>BTreeSet\<close> is the list of its elements in ascending order, and a
  finite \<open>f64\<close> is the rational it denotes.
\<close>

section \<open>Ordered sets\<close>

type_synonym 'a btree_set = "'a list"

definition btree_contains :: "'a btree_set \<Rightarrow> 'a \<Rightarrow> bool" where
  "btree_contains s x = (x \<in> set s)"

definition btree_first :: "'a btree_set \<Rightarrow> 'a option" where
  "btree_first s = (case s of [] \<Rightarrow> None | x # _ \<Rightarrow> Some x)"

text \<open>\<open>BTreeSet::insert\<close> and \<open>BTreeSet::from\<close>/\<open>collect\<close>.\<close>

fun btree_insert :: "'a::linorder \<Rightarrow> 'a btree_set \<Rightarrow> 'a btree_set" where
  "btree_insert x [] = [x]"
| "btree_insert x (y # ys) = (if x < y then x # y # ys else if x = y then y # ys else y # btree_insert x ys)"

definition btree_from :: "'a::linorder list \<Rightarrow> 'a btree_set" where
  "btree_from xs = fold btree_insert xs []"

lemma set_btree_insert [simp]: "set (btree_insert x s) = insert x (set s)"
  by (induction s) auto

lemma set_fold_btree_insert: "set (fold btree_insert xs s) = set xs \<union> set s"
  by (induction xs arbitrary: s) auto

lemma set_btree_from [simp]: "set (btree_from xs) = set xs"
  by (simp add: btree_from_def set_fold_btree_insert)

lemma btree_insert_sorted: "sorted_wrt (<) s \<Longrightarrow> sorted_wrt (<) (btree_insert x s)"
  by (induction s) auto

lemma btree_from_sorted: "sorted_wrt (<) (btree_from xs)"
proof -
  have "sorted_wrt (<) s \<Longrightarrow> sorted_wrt (<) (fold btree_insert xs s)" for s
    by (induction xs arbitrary: s) (auto simp: btree_insert_sorted)
  then show ?thesis by (simp add: btree_from_def)
qed

lemma btree_contains_iff [simp]: "btree_contains s x \<longleftrightarrow> x \<in> set s"
  by (simp add: btree_contains_def)

lemma btree_first_Some: "btree_first s = Some x \<Longrightarrow> x \<in> set s"
  by (cases s) (simp_all add: btree_first_def)

lemma btree_first_None [simp]: "btree_first s = None \<longleftrightarrow> s = []"
  by (cases s) (simp_all add: btree_first_def)

section \<open>The declaration\<close>

datatype support_level = Support_Native | Support_Emulated | Support_Unsupported

record u8_range =
  range_min :: u8
  range_max :: u8

definition range_contains :: "u8_range \<Rightarrow> u8 \<Rightarrow> bool" where
  "range_contains r v = (range_min r \<le> v \<and> v \<le> range_max r)"

datatype batch_mode = Batch_Native | Batch_Fan_Out

record batch_capabilities =
  bc_mode :: batch_mode
  bc_native_count :: u8_range
  bc_max_parallel_outputs :: u8

text \<open>A \<open>f64\<close>: the program compares a quotient with a declared bound.\<close>

datatype f64 = F64_Finite rat | F64_Infinity bool | F64_NaN

record size_capabilities =
  sc_auto :: bool
  sc_allowed :: "image_size btree_set"
  sc_arbitrary :: bool
  sc_min_edge :: "u32 option"
  sc_max_edge :: "u32 option"
  sc_edge_multiple :: "u32 option"
  sc_min_pixels :: "u64 option"
  sc_max_pixels :: "u64 option"
  sc_max_aspect_ratio :: "f64 option"

record input_capabilities =
  ic_support :: support_level
  ic_max_count :: u16
  ic_max_bytes_each :: u64
  ic_max_bytes_total :: u64

record provider_capabilities =
  pc_provider :: string
  pc_implementation_version :: string
  pc_model :: "string option"
  pc_experimental :: bool
  pc_generation :: bool
  pc_edits :: bool
  pc_count :: u8_range
  pc_batching :: batch_capabilities
  pc_sizes :: size_capabilities
  pc_aspect_ratio :: support_level
  pc_resolution :: support_level
  pc_qualities :: "quality btree_set"
  pc_output_formats :: "output_format btree_set"
  pc_backgrounds :: "background btree_set"
  pc_transparent_background :: support_level
  pc_moderation :: "moderation btree_set"
  pc_negative_prompt :: support_level
  pc_revised_prompt :: support_level
  pc_user_attribution :: support_level
  pc_input_fidelities :: "input_fidelity btree_set"
  pc_actions :: "image_action btree_set"
  pc_reference_images :: input_capabilities
  pc_edit_images :: input_capabilities
  pc_masks :: input_capabilities
  pc_partial_images :: u8_range
  pc_persistent_sessions :: bool
  pc_explicit_threads :: bool

section \<open>Consistency\<close>

definition invalid_capability :: "provider_capabilities \<Rightarrow> string \<Rightarrow> bridge_error" where
  "invalid_capability c message = with_provider (pc_provider c) (error_new Protocol message)"

definition count_invalid :: "provider_capabilities \<Rightarrow> bool" where
  "count_invalid c = (range_min (pc_count c) = 0 \<or> range_max (pc_count c) < range_min (pc_count c))"

definition batching_invalid :: "provider_capabilities \<Rightarrow> bool" where
  "batching_invalid c =
     (let b = pc_batching c; native = bc_native_count b; count = pc_count c in
      range_min native = 0
      \<or> range_max native < range_min native
      \<or> range_min native < range_min count
      \<or> range_max count < range_max native
      \<or> bc_max_parallel_outputs b = 0
      \<or> range_max count < bc_max_parallel_outputs b
      \<or> (bc_mode b = Batch_Native \<and> native \<noteq> count)
      \<or> (bc_mode b = Batch_Fan_Out \<and> range_max count \<le> range_max native))"

definition capabilities_validate :: "provider_capabilities \<Rightarrow> unit result" where
  "capabilities_validate c =
     (if count_invalid c
      then Inl (invalid_capability c ''provider output-count capability range is invalid'')
      else if batching_invalid c
      then Inl (invalid_capability c
             ''provider batching capability is inconsistent with its output-count range'')
      else if range_max (pc_partial_images c) < range_min (pc_partial_images c)
      then Inl (invalid_capability c ''provider partial-image capability range is invalid'')
      else if btree_contains (pc_backgrounds c) Background_Transparent
              \<noteq> (pc_transparent_background c = Support_Native)
      then Inl (invalid_capability c ''provider transparent-background capability is inconsistent'')
      else if pc_transparent_background c = Support_Emulated
              \<and> (\<not> list_ex (\<lambda>b. b = Background_Auto \<or> b = Background_Opaque) (pc_backgrounds c)
                 \<or> \<not> list_ex (\<lambda>f. f = Output_Format_Png \<or> f = Output_Format_Webp) (pc_output_formats c))
      then Inl (invalid_capability c
             ''emulated transparent output requires a keyable background and alpha format'')
      else Inr ())"

text \<open>What the consumers rely on.\<close>

lemma capabilities_validate_ranges:
  assumes "capabilities_validate c = Inr ()"
  shows "range_min (pc_count c) \<noteq> 0"
    and "range_min (pc_count c) \<le> range_max (pc_count c)"
    and "range_min (pc_partial_images c) \<le> range_max (pc_partial_images c)"
    and "range_min (bc_native_count (pc_batching c)) \<noteq> 0"
    and "range_min (bc_native_count (pc_batching c)) \<le> range_max (bc_native_count (pc_batching c))"
    and "range_max (bc_native_count (pc_batching c)) \<le> range_max (pc_count c)"
    and "bc_max_parallel_outputs (pc_batching c) \<noteq> 0"
  using assms
  by (auto simp: capabilities_validate_def count_invalid_def batching_invalid_def Let_def not_less
      split: if_splits)

lemma capabilities_validate_transparency:
  assumes "capabilities_validate c = Inr ()"
  shows "Background_Transparent \<in> set (pc_backgrounds c) \<longleftrightarrow> pc_transparent_background c = Support_Native"
    and "pc_transparent_background c = Support_Emulated \<Longrightarrow>
      (Background_Auto \<in> set (pc_backgrounds c) \<or> Background_Opaque \<in> set (pc_backgrounds c))
      \<and> (Output_Format_Png \<in> set (pc_output_formats c) \<or> Output_Format_Webp \<in> set (pc_output_formats c))"
  using assms
  by (auto simp: capabilities_validate_def list_ex_iff split: if_splits)

lemma capabilities_validate_error:
  "capabilities_validate c = Inl e \<Longrightarrow> err_code e = Protocol \<and> err_provider e = Some (pc_provider c)"
  by (auto simp: capabilities_validate_def invalid_capability_def split: if_splits)

end
