(* ===== verification/Negotiation.thy ===== *)
theory Negotiation
  imports Capabilities Response
begin

text \<open>
  \<open>crates/core/src/negotiation.rs\<close>: negotiating a request against the capabilities of a
  provider. Each \<open>negotiate_*\<close> of the source, which mutates the request and appends to the
  normalizations, is a step on the pair of both; a step fails with an error value or panics
  (an inverted \<open>clamp\<close> range, a remainder by zero). The contract every step keeps is the
  locale \<open>negotiator\<close>, interpreted for each of them.
\<close>

section \<open>Recorded normalizations\<close>

type_synonym nstate = "image_request \<times> normalization list"
type_synonym step = "provider_capabilities \<Rightarrow> nstate \<Rightarrow> failure + nstate"

definition opt_str :: "string option \<Rightarrow> json" where
  "opt_str x = json_of_option JStr x"

definition unsupported :: "provider_capabilities \<Rightarrow> string \<Rightarrow> string \<Rightarrow> bridge_error" where
  "unsupported c field message =
     with_detail ''model'' (opt_str (pc_model c))
       (with_detail ''field'' (JStr field)
         (with_provider (pc_provider c) (error_new UnsupportedCapability message)))"

definition record_optional ::
  "normalization list \<Rightarrow> string \<Rightarrow> json option \<Rightarrow> json option \<Rightarrow> string \<Rightarrow> normalization list" where
  "record_optional ns field requested effective reason =
     ns @ [\<lparr>nz_field = field, nz_requested = requested, nz_effective = effective, nz_reason = reason\<rparr>]"

definition record_change ::
  "normalization list \<Rightarrow> string \<Rightarrow> json \<Rightarrow> json \<Rightarrow> string \<Rightarrow> normalization list" where
  "record_change ns field requested effective reason =
     record_optional ns field (Some requested) (Some effective) reason"

definition reject :: "provider_capabilities \<Rightarrow> string \<Rightarrow> string \<Rightarrow> failure + 'a" where
  "reject c field message = Inl (Failed (unsupported c field message))"

definition strict :: "image_request \<Rightarrow> bool" where
  "strict r = (pol_compatibility (req_policies r) = Compatibility_Mode_Strict)"

definition normalize_or_reject ::
  "bool \<Rightarrow> provider_capabilities \<Rightarrow> normalization list \<Rightarrow> string \<Rightarrow> json \<Rightarrow> json
   \<Rightarrow> failure + normalization list" where
  "normalize_or_reject is_strict c ns field requested effective =
     (if is_strict then reject c field ''requested value is outside provider capability''
      else Inr (record_change ns field requested effective ''normalized_to_provider_value''))"

definition u8_json :: "u8 \<Rightarrow> json" where
  "u8_json v = JUInt (ucast v)"

text \<open>\<open>Ord::clamp\<close> panics on an inverted range.\<close>

definition clamp_u8 :: "u8 \<Rightarrow> u8_range \<Rightarrow> failure + u8" where
  "clamp_u8 v rng =
     (if range_max rng < range_min rng then Inl Panicked
      else Inr (word_clamp v (range_min rng) (range_max rng)))"

section \<open>Checks that change nothing\<close>

definition check_model :: "image_request \<Rightarrow> provider_capabilities \<Rightarrow> unit result" where
  "check_model r c =
     (case (rt_model (req_routing r), pc_model c) of
        (Some requested, Some effective) \<Rightarrow>
          if requested = effective then Inr ()
          else Inl (with_detail ''effective_model'' (JStr effective)
                 (with_detail ''requested_model'' (JStr requested)
                   (unsupported c ''routing.model'' ''provider cannot honor the requested image model'')))
      | _ \<Rightarrow> Inr ())"

definition check_operation :: "image_request \<Rightarrow> provider_capabilities \<Rightarrow> unit result" where
  "check_operation r c =
     (case req_operation r of
        Op_Generate _ \<Rightarrow>
          require (pc_generation c)
            (unsupported c ''operation'' ''provider does not support image generation'')
      | Op_Edit _ _ _ \<Rightarrow>
          require (pc_edits c) (unsupported c ''operation'' ''provider does not support image edits''))"

definition check_input_counts :: "image_request \<Rightarrow> provider_capabilities \<Rightarrow> unit result" where
  "check_input_counts r c =
     (let reference_count = length (op_reference_images (req_operation r)) in
      if unat (ic_max_count (pc_reference_images c)) < reference_count
      then Inl (unsupported c ''reference_images''
                  ''reference image count exceeds provider capability'')
      else if 0 < reference_count \<and> ic_support (pc_reference_images c) = Support_Unsupported
      then Inl (unsupported c ''reference_images'' ''provider does not support reference images'')
      else (case req_operation r of
          Op_Generate _ \<Rightarrow> Inr ()
        | Op_Edit images edit_mask _ \<Rightarrow>
            if unat (ic_max_count (pc_edit_images c)) < length images
               \<or> ic_support (pc_edit_images c) = Support_Unsupported
            then Inl (unsupported c ''images'' ''edit images exceed provider capability'')
            else if edit_mask \<noteq> None
                    \<and> (ic_support (pc_masks c) = Support_Unsupported \<or> ic_max_count (pc_masks c) = 0)
            then let e = unsupported c ''mask'' ''provider does not support edit masks'' in
                 Inl (if starts_with ''codex-'' (pc_provider c)
                      then with_detail ''codex_code'' (JStr ''CODEX_RASTER_MASK_UNSUPPORTED'') e
                      else e)
            else Inr ()))"

definition check_sessions :: "image_request \<Rightarrow> provider_capabilities \<Rightarrow> unit result" where
  "check_sessions r c =
     (case so_mode (req_session r) of
        Session_Mode_Isolated \<Rightarrow> Inr ()
      | Session_Mode_Persistent \<Rightarrow>
          require (pc_persistent_sessions c)
            (unsupported c ''session.mode'' ''provider does not support persistent sessions'')
      | Session_Mode_Thread \<Rightarrow>
          require (pc_explicit_threads c)
            (unsupported c ''session.mode'' ''provider does not support explicit threads''))"

definition check_user_attribution :: "image_request \<Rightarrow> provider_capabilities \<Rightarrow> unit result" where
  "check_user_attribution r c =
     (if req_user r = None \<or> pc_user_attribution c \<noteq> Support_Unsupported then Inr ()
      else Inl (unsupported c ''user'' ''provider cannot consume the requested end-user attribution''))"

definition wires :: "('a \<Rightarrow> string) \<Rightarrow> 'a btree_set \<Rightarrow> json" where
  "wires f s = JArr (map (\<lambda>x. JStr (f x)) s)"

definition check_input_fidelity :: "image_request \<Rightarrow> provider_capabilities \<Rightarrow> unit result" where
  "check_input_fidelity r c =
     (case gp_input_fidelity (req_parameters r) of
        None \<Rightarrow> Inr ()
      | Some requested \<Rightarrow>
          if btree_contains (pc_input_fidelities c) requested then Inr ()
          else Inl (with_detail ''supported'' (wires input_fidelity_wire (pc_input_fidelities c))
                 (with_detail ''requested'' (JStr (input_fidelity_wire requested))
                   (unsupported c ''parameters.input_fidelity''
                      ''provider cannot honor the requested input fidelity''))))"

definition check_revised_prompt :: "image_request \<Rightarrow> provider_capabilities \<Rightarrow> unit result" where
  "check_revised_prompt r c =
     (if pol_revised_prompt (req_policies r) = Revised_Prompt_Policy_Require
         \<and> pc_revised_prompt c = Support_Unsupported
      then Inl (unsupported c ''policies.revised_prompt'' ''provider cannot return a revised prompt'')
      else Inr ())"

section \<open>The negotiation steps\<close>

text \<open>The updates of one generation parameter.\<close>

definition upd_params :: "(generation_parameters \<Rightarrow> generation_parameters) \<Rightarrow> image_request \<Rightarrow> image_request" where
  "upd_params f r = r\<lparr>req_parameters := f (req_parameters r)\<rparr>"

definition negotiate_action :: step where
  "negotiate_action c st = (case st of (r, ns) \<Rightarrow>
     let requested = gp_action (req_parameters r) in
     if btree_contains (pc_actions c) requested then Inr (r, ns)
     else if requested \<noteq> Image_Action_Auto \<and> btree_contains (pc_actions c) Image_Action_Auto
     then Inr (upd_params (\<lambda>p. p\<lparr>gp_action := Image_Action_Auto\<rparr>) r,
               record_change ns ''parameters.action'' (JStr (image_action_wire requested))
                 (JStr (image_action_wire Image_Action_Auto)) ''provider_uses_automatic_action'')
     else Inl (Failed (with_detail ''supported'' (wires image_action_wire (pc_actions c))
                 (with_detail ''requested'' (JStr (image_action_wire requested))
                   (unsupported c ''parameters.action''
                      ''provider cannot honor the requested image action'')))))"

definition negotiate_count :: step where
  "negotiate_count c st = (case st of (r, ns) \<Rightarrow>
     let requested = gp_n (req_parameters r) in
     if range_contains (pc_count c) requested then Inr (r, ns)
     else if strict r then reject c ''parameters.n'' ''output count is outside provider capability''
     else and_then (clamp_u8 requested (pc_count c)) (\<lambda>effective.
       Inr (upd_params (\<lambda>p. p\<lparr>gp_n := effective\<rparr>) r,
            record_change ns ''parameters.n'' (u8_json requested) (u8_json effective)
              ''clamped_to_provider_range'')))"

text \<open>
  \<open>f64::from(long) / f64::from(short)\<close> for \<open>u32\<close> operands with \<open>short \<le> long\<close>: both convert
  exactly, and the quotient is rounded to 53 significant bits, ties to even. The quotient
  lies between 1 and \<open>2 ^ 32\<close>, so its exponent is the logarithm of its integer part. A zero
  divisor gives infinity or, for zero by zero, a NaN.
\<close>

definition div_half_even :: "nat \<Rightarrow> nat \<Rightarrow> nat" where
  "div_half_even a b =
     (let q = a div b; r = a mod b in
      if 2 * r < b then q else if b < 2 * r then q + 1 else if even q then q else q + 1)"

fun log2 :: "nat \<Rightarrow> nat" where
  "log2 n = (if n < 2 then 0 else Suc (log2 (n div 2)))"

declare log2.simps [simp del]

definition f64_quotient :: "u32 \<Rightarrow> u32 \<Rightarrow> f64" where
  "f64_quotient long short =
     (let a = unat long; b = unat short in
      if b = 0 then (if a = 0 then F64_NaN else F64_Infinity True)
      else let e = log2 (a div b) in
           F64_Finite (of_nat (div_half_even (a * 2 ^ (52 - e)) b) / 2 ^ (52 - e)))"

fun f64_le :: "f64 \<Rightarrow> f64 \<Rightarrow> bool" where
  "f64_le F64_NaN y = False"
| "f64_le x F64_NaN = False"
| "f64_le (F64_Infinity False) y = True"
| "f64_le (F64_Infinity True) y = (y = F64_Infinity True)"
| "f64_le (F64_Finite x) (F64_Infinity positive) = positive"
| "f64_le (F64_Finite x) (F64_Finite y) = (x \<le> y)"

definition is_none_or :: "('a \<Rightarrow> bool) \<Rightarrow> 'a option \<Rightarrow> bool" where
  "is_none_or P x = (case x of None \<Rightarrow> True | Some a \<Rightarrow> P a)"

text \<open>
  The conjunction of \<open>size_supported\<close> stops at its first false conjunct; the remainder by a
  zero multiple panics when it is reached.
\<close>

definition size_supported :: "image_size \<Rightarrow> provider_capabilities \<Rightarrow> failure + bool" where
  "size_supported s c =
     (let sz = pc_sizes c in
      if size_is_auto s then Inr (sc_auto sz)
      else if btree_contains (sc_allowed sz) s then Inr True
      else (case size_dimensions s of
          None \<Rightarrow> Inr False
        | Some (width, height) \<Rightarrow>
            if \<not> sc_arbitrary sz then Inr False
            else
              let short = min width height; long = max width height;
                  pixels = ucast width * ucast height :: u64 in
              if \<not> (is_none_or (\<lambda>m. m \<le> short) (sc_min_edge sz)
                     \<and> is_none_or (\<lambda>m. long \<le> m) (sc_max_edge sz)) then Inr False
              else if sc_edge_multiple sz = Some 0 then Inl Panicked
              else Inr (is_none_or (\<lambda>m. width mod m = 0 \<and> height mod m = 0) (sc_edge_multiple sz)
                        \<and> is_none_or (\<lambda>m. m \<le> pixels) (sc_min_pixels sz)
                        \<and> is_none_or (\<lambda>m. pixels \<le> m) (sc_max_pixels sz)
                        \<and> is_none_or (\<lambda>m. f64_le (f64_quotient long short) m) (sc_max_aspect_ratio sz))))"

definition negotiate_size :: step where
  "negotiate_size c st = (case st of (r, ns) \<Rightarrow>
     let requested = gp_size (req_parameters r) in
     and_then (size_supported requested c) (\<lambda>supported.
     if supported then Inr (r, ns)
     else if strict r then reject c ''parameters.size'' ''requested size is outside provider capability''
     else
       (case (if \<not> size_is_auto requested \<and> sc_auto (pc_sizes c) then Some default_image_size
              else btree_first (sc_allowed (pc_sizes c))) of
          None \<Rightarrow> reject c ''parameters.size'' ''provider has no usable size fallback''
        | Some effective \<Rightarrow>
            Inr (upd_params (\<lambda>p. p\<lparr>gp_size := effective\<rparr>) r,
                 record_change ns ''parameters.size'' (JStr (size_str requested))
                   (JStr (size_str effective)) ''normalized_to_provider_size''))))"

definition negotiate_aspect_ratio :: step where
  "negotiate_aspect_ratio c st = (case st of (r, ns) \<Rightarrow>
     (case gp_aspect_ratio (req_parameters r) of
        None \<Rightarrow> Inr (r, ns)
      | Some requested \<Rightarrow>
          if pc_aspect_ratio c \<noteq> Support_Unsupported then Inr (r, ns)
          else if strict r
          then reject c ''parameters.aspect_ratio'' ''provider cannot honor an aspect-ratio hint''
          else Inr (upd_params (\<lambda>p. p\<lparr>gp_aspect_ratio := None\<rparr>) r,
                    record_optional ns ''parameters.aspect_ratio'' (Some (JStr (ratio_str requested)))
                      None ''provider_does_not_support_hint'')))"

definition negotiate_resolution :: step where
  "negotiate_resolution c st = (case st of (r, ns) \<Rightarrow>
     (case gp_resolution (req_parameters r) of
        None \<Rightarrow> Inr (r, ns)
      | Some requested \<Rightarrow>
          if pc_resolution c \<noteq> Support_Unsupported then Inr (r, ns)
          else if strict r
          then reject c ''parameters.resolution'' ''provider cannot honor a resolution hint''
          else Inr (upd_params (\<lambda>p. p\<lparr>gp_resolution := None\<rparr>) r,
                    record_optional ns ''parameters.resolution'' (Some (JStr (resolution_wire requested)))
                      None ''provider_does_not_support_hint'')))"

definition negotiate_hints :: step where
  "negotiate_hints c st = and_then (negotiate_aspect_ratio c st) (negotiate_resolution c)"

text \<open>The value to fall back to: the preferred one when it is supported, or else the first.\<close>

definition preferred :: "'a \<Rightarrow> 'a btree_set \<Rightarrow> 'a option" where
  "preferred x s = (if btree_contains s x then Some x else btree_first s)"

definition negotiate_quality :: step where
  "negotiate_quality c st = (case st of (r, ns) \<Rightarrow>
     let requested = gp_quality (req_parameters r) in
     if btree_contains (pc_qualities c) requested then Inr (r, ns)
     else (case preferred Quality_Auto (pc_qualities c) of
         None \<Rightarrow> reject c ''parameters.quality'' ''provider declares no supported quality''
       | Some effective \<Rightarrow>
           and_then (normalize_or_reject (strict r) c ns ''parameters.quality''
               (JStr (quality_wire requested)) (JStr (quality_wire effective)))
             (\<lambda>ns'. Inr (upd_params (\<lambda>p. p\<lparr>gp_quality := effective\<rparr>) r, ns'))))"

definition negotiate_encoding :: step where
  "negotiate_encoding c st = (case st of (r, ns) \<Rightarrow>
     let requested = gp_output_format (req_parameters r) in
     if btree_contains (pc_output_formats c) requested then Inr (r, ns)
     else (case preferred Output_Format_Png (pc_output_formats c) of
         None \<Rightarrow> reject c ''parameters.output_format'' ''provider declares no output format''
       | Some effective \<Rightarrow>
           and_then (normalize_or_reject (strict r) c ns ''parameters.output_format''
               (JStr (output_format_wire requested)) (JStr (output_format_wire effective)))
             (\<lambda>ns'. Inr (upd_params (\<lambda>p. p\<lparr>gp_output_format := effective\<rparr>) r, ns'))))"

definition compressible :: "output_format \<Rightarrow> bool" where
  "compressible f = (f = Output_Format_Jpeg \<or> f = Output_Format_Webp)"

definition negotiate_compression :: step where
  "negotiate_compression c st = (case st of (r, ns) \<Rightarrow>
     (case gp_output_compression (req_parameters r) of
        None \<Rightarrow> Inr (r, ns)
      | Some requested \<Rightarrow>
          if compressible (gp_output_format (req_parameters r)) then Inr (r, ns)
          else if strict r
          then reject c ''parameters.output_compression''
                 ''effective output format does not support compression''
          else Inr (upd_params (\<lambda>p. p\<lparr>gp_output_compression := None\<rparr>) r,
                    record_optional ns ''parameters.output_compression'' (Some (u8_json requested))
                      None ''effective_format_has_no_compression'')))"

definition negotiate_format :: step where
  "negotiate_format c st = and_then (negotiate_encoding c st) (negotiate_compression c)"

definition negotiate_background :: step where
  "negotiate_background c st = (case st of (r, ns) \<Rightarrow>
     let requested = gp_background (req_parameters r) in
     if btree_contains (pc_backgrounds c) requested then Inr (r, ns)
     else (case preferred Background_Auto (pc_backgrounds c) of
         None \<Rightarrow> reject c ''parameters.background'' ''provider declares no background behavior''
       | Some effective \<Rightarrow>
           and_then (normalize_or_reject (strict r) c ns ''parameters.background''
               (JStr (background_wire requested)) (JStr (background_wire effective)))
             (\<lambda>ns'. Inr (upd_params (\<lambda>p. p\<lparr>gp_background := effective\<rparr>) r, ns'))))"

definition negotiate_moderation :: step where
  "negotiate_moderation c st = (case st of (r, ns) \<Rightarrow>
     let requested = gp_moderation (req_parameters r) in
     if btree_contains (pc_moderation c) requested then Inr (r, ns)
     else (case preferred Moderation_Auto (pc_moderation c) of
         None \<Rightarrow> reject c ''parameters.moderation'' ''provider declares no moderation behavior''
       | Some effective \<Rightarrow>
           and_then (normalize_or_reject (strict r) c ns ''parameters.moderation''
               (JStr (moderation_wire requested)) (JStr (moderation_wire effective)))
             (\<lambda>ns'. Inr (upd_params (\<lambda>p. p\<lparr>gp_moderation := effective\<rparr>) r, ns'))))"

definition negotiate_partial_images :: step where
  "negotiate_partial_images c st = (case st of (r, ns) \<Rightarrow>
     let requested = gp_partial_images (req_parameters r) in
     if range_contains (pc_partial_images c) requested then Inr (r, ns)
     else if strict r
     then reject c ''parameters.partial_images'' ''partial image count is outside provider capability''
     else and_then (clamp_u8 requested (pc_partial_images c)) (\<lambda>effective.
       Inr (upd_params (\<lambda>p. p\<lparr>gp_partial_images := effective\<rparr>) r,
            record_change ns ''parameters.partial_images'' (u8_json requested) (u8_json effective)
              ''clamped_to_provider_range'')))"

text \<open>Whether a present negative prompt is merged into the prompt, or the request fails.\<close>

definition merge_negative_prompt :: "negative_prompt_mode \<Rightarrow> provider_capabilities \<Rightarrow> failure + bool" where
  "merge_negative_prompt mode c =
     (case mode of
        Negative_Prompt_Mode_Reject \<Rightarrow>
          reject c ''negative_prompt'' ''negative prompt is rejected by request policy''
      | Negative_Prompt_Mode_Native \<Rightarrow>
          if pc_negative_prompt c \<noteq> Support_Native
          then reject c ''negative_prompt'' ''provider does not support a native negative prompt''
          else Inr False
      | Negative_Prompt_Mode_Merge \<Rightarrow> Inr True
      | Negative_Prompt_Mode_Auto \<Rightarrow>
          (case pc_negative_prompt c of
             Support_Native \<Rightarrow> Inr False
           | Support_Emulated \<Rightarrow> Inr True
           | Support_Unsupported \<Rightarrow>
               reject c ''negative_prompt''
                 ''provider cannot honor a negative prompt under auto policy''))"

definition negative_constraints :: string where
  "negative_constraints =
     [CHR 0x0A, CHR 0x0A] @ ''Negative constraints (avoid these elements): ''"

definition negotiate_negative_prompt :: step where
  "negotiate_negative_prompt c st = (case st of (r, ns) \<Rightarrow>
     (case req_negative_prompt r of
        None \<Rightarrow> Inr (r, ns)
      | Some negative_prompt \<Rightarrow>
          and_then (merge_negative_prompt (pol_negative_prompt (req_policies r)) c) (\<lambda>do_merge.
            if do_merge
            then Inr (r\<lparr>req_prompt := req_prompt r @ negative_constraints @ negative_prompt,
                       req_negative_prompt := None\<rparr>,
                      ns @ [\<lparr>nz_field = ''negative_prompt'', nz_requested = Some (JBool True),
                             nz_effective = Some (JStr ''merged_into_prompt''),
                             nz_reason = ''negative_prompt_prompt_merge''\<rparr>])
            else Inr (r, ns))))"

section \<open>Negotiation\<close>

record negotiated_request =
  ng_requested :: generation_parameters
  ng_effective_request :: image_request
  ng_normalizations :: "normalization list"

definition negotiation_steps :: "step list" where
  "negotiation_steps =
     [negotiate_action, negotiate_count, negotiate_size, negotiate_hints, negotiate_quality,
      negotiate_format, negotiate_background, negotiate_moderation, negotiate_partial_images,
      negotiate_negative_prompt]"

fun run_steps :: "step list \<Rightarrow> step" where
  "run_steps [] c st = Inr st"
| "run_steps (s # ss) c st = and_then (s c st) (run_steps ss c)"

definition preflight :: "image_request \<Rightarrow> provider_capabilities \<Rightarrow> unit result" where
  "preflight r c =
     and_then (capabilities_validate c) (\<lambda>_.
     and_then (check_model r c) (\<lambda>_.
     and_then (check_operation r c) (\<lambda>_.
     and_then (check_input_counts r c) (\<lambda>_.
     and_then (check_sessions r c) (\<lambda>_.
     and_then (check_user_attribution r c) (\<lambda>_.
     check_input_fidelity r c))))))"

definition negotiate_request ::
  "image_request \<Rightarrow> provider_capabilities \<Rightarrow> failure + negotiated_request" where
  "negotiate_request r c =
     and_then (fail_with (preflight r c)) (\<lambda>_.
     and_then (run_steps negotiation_steps c (r, [])) (\<lambda>(effective, ns).
     and_then (fail_with (check_revised_prompt r c)) (\<lambda>_.
     Inr \<lparr>ng_requested = req_parameters r, ng_effective_request = effective,
          ng_normalizations = ns\<rparr>)))"

section \<open>The contract of a step\<close>

text \<open>
  Every step only appends to the normalizations, leaves the request alone when it appends
  nothing, and fails with an unsupported-capability error of the provider.
\<close>

definition step_contract :: "step \<Rightarrow> bool" where
  "step_contract step \<longleftrightarrow>
     (\<forall>c r ns r' ns'. step c (r, ns) = Inr (r', ns') \<longrightarrow> (\<exists>ms. ns' = ns @ ms \<and> (ms = [] \<longrightarrow> r' = r)))
     \<and> (\<forall>c r ns e. step c (r, ns) = Inl (Failed e) \<longrightarrow>
          err_code e = UnsupportedCapability \<and> err_provider e = Some (pc_provider c))"

locale negotiator =
  fixes step :: step
    and honoured :: "provider_capabilities \<Rightarrow> image_request \<Rightarrow> bool"
    and upd :: "'v \<Rightarrow> image_request \<Rightarrow> image_request"
  assumes contract: "step_contract step"
    and step_honoured: "step c (r, ns) = Inr (r', ns') \<Longrightarrow> honoured c r'"
    and step_upd: "step c (r, ns) = Inr (r', ns') \<Longrightarrow> \<exists>v. r' = upd v r"
begin

lemma step_appends:
  assumes "step c (r, ns) = Inr (r', ns')"
  obtains ms where "ns' = ns @ ms" "ms = [] \<Longrightarrow> r' = r"
  using assms contract unfolding step_contract_def by metis

lemma step_result:
  assumes "step c (r, ns) = Inr (r', ns')"
  obtains v where "r' = upd v r" "honoured c r'"
  using step_upd [OF assms] step_honoured [OF assms] by blast

end

text \<open>A step that cannot change a strict request.\<close>

locale strict_negotiator = negotiator +
  assumes strict_unchanged: "strict r \<Longrightarrow> step c (r, ns) = Inr (r', ns') \<Longrightarrow> r' = r \<and> ns' = ns"

lemma run_steps_contract: "list_all step_contract ss \<Longrightarrow> step_contract (run_steps ss)"
proof (induction ss)
  case Nil
  then show ?case by (auto simp: step_contract_def)
next
  case (Cons s ss)
  then have s: "step_contract s" and ss: "step_contract (run_steps ss)" by simp_all
  have "\<exists>ms. ns' = ns @ ms \<and> (ms = [] \<longrightarrow> r' = r)"
    if run: "run_steps (s # ss) c (r, ns) = Inr (r', ns')" for c r ns r' ns'
  proof -
    from run obtain r1 ns1 where 1: "s c (r, ns) = Inr (r1, ns1)"
      and 2: "run_steps ss c (r1, ns1) = Inr (r', ns')"
      by (auto simp: result_simps)
    obtain ms1 where m1: "ns1 = ns @ ms1" "ms1 = [] \<longrightarrow> r1 = r" using s 1 unfolding step_contract_def by blast
    obtain ms2 where m2: "ns' = ns1 @ ms2" "ms2 = [] \<longrightarrow> r' = r1" using ss 2 unfolding step_contract_def by blast
    show ?thesis using m1 m2 by (intro exI [of _ "ms1 @ ms2"]) auto
  qed
  moreover have "err_code e = UnsupportedCapability \<and> err_provider e = Some (pc_provider c)"
    if run: "run_steps (s # ss) c (r, ns) = Inl (Failed e)" for c r ns e
    using run s ss unfolding step_contract_def by (auto simp: result_simps)
  ultimately show ?case unfolding step_contract_def by blast
qed

section \<open>Every step keeps the contract\<close>

definition action_honoured :: "provider_capabilities \<Rightarrow> image_request \<Rightarrow> bool" where
  "action_honoured c r \<longleftrightarrow> gp_action (req_parameters r) \<in> set (pc_actions c)"

definition count_honoured :: "provider_capabilities \<Rightarrow> image_request \<Rightarrow> bool" where
  "count_honoured c r \<longleftrightarrow> range_contains (pc_count c) (gp_n (req_parameters r))"

definition size_honoured :: "provider_capabilities \<Rightarrow> image_request \<Rightarrow> bool" where
  "size_honoured c r \<longleftrightarrow>
     (let s = gp_size (req_parameters r) in
      size_supported s c = Inr True \<or> s \<in> set (sc_allowed (pc_sizes c)))"

definition hints_honoured :: "provider_capabilities \<Rightarrow> image_request \<Rightarrow> bool" where
  "hints_honoured c r \<longleftrightarrow>
     (gp_aspect_ratio (req_parameters r) = None \<or> pc_aspect_ratio c \<noteq> Support_Unsupported)
     \<and> (gp_resolution (req_parameters r) = None \<or> pc_resolution c \<noteq> Support_Unsupported)"

definition quality_honoured :: "provider_capabilities \<Rightarrow> image_request \<Rightarrow> bool" where
  "quality_honoured c r \<longleftrightarrow> gp_quality (req_parameters r) \<in> set (pc_qualities c)"

definition format_honoured :: "provider_capabilities \<Rightarrow> image_request \<Rightarrow> bool" where
  "format_honoured c r \<longleftrightarrow>
     (let p = req_parameters r in
      gp_output_format p \<in> set (pc_output_formats c)
      \<and> (gp_output_compression p = None \<or> compressible (gp_output_format p)))"

definition background_honoured :: "provider_capabilities \<Rightarrow> image_request \<Rightarrow> bool" where
  "background_honoured c r \<longleftrightarrow> gp_background (req_parameters r) \<in> set (pc_backgrounds c)"

definition moderation_honoured :: "provider_capabilities \<Rightarrow> image_request \<Rightarrow> bool" where
  "moderation_honoured c r \<longleftrightarrow> gp_moderation (req_parameters r) \<in> set (pc_moderation c)"

definition partial_images_honoured :: "provider_capabilities \<Rightarrow> image_request \<Rightarrow> bool" where
  "partial_images_honoured c r \<longleftrightarrow>
     range_contains (pc_partial_images c) (gp_partial_images (req_parameters r))"

definition negative_prompt_honoured :: "provider_capabilities \<Rightarrow> image_request \<Rightarrow> bool" where
  "negative_prompt_honoured c r \<longleftrightarrow> req_negative_prompt r = None \<or> pc_negative_prompt c = Support_Native"

lemma unsupported_simps [simp]:
  "err_code (unsupported c f m) = UnsupportedCapability"
  "err_provider (unsupported c f m) = Some (pc_provider c)"
  by (simp_all add: unsupported_def)

lemma reject_simps [simp]:
  "reject c f m \<noteq> Inr x"
  "reject c f m = Inl y \<longleftrightarrow> y = Failed (unsupported c f m)"
  by (auto simp: reject_def)

lemma clamp_u8_Inr_iff:
  "clamp_u8 v rng = Inr w \<longleftrightarrow>
     range_min rng \<le> range_max rng \<and> w = word_clamp v (range_min rng) (range_max rng)"
  by (auto simp: clamp_u8_def)

lemma clamp_u8_Inl_iff: "clamp_u8 v rng = Inl f \<longleftrightarrow> f = Panicked \<and> range_max rng < range_min rng"
  by (auto simp: clamp_u8_def)

lemma clamp_u8_contains: "clamp_u8 v rng = Inr w \<Longrightarrow> range_contains rng w"
  using word_clamp_bounds [of "range_min rng" "range_max rng" v]
  by (auto simp: clamp_u8_Inr_iff range_contains_def)

lemma preferred_in: "preferred x s = Some y \<Longrightarrow> y \<in> set s"
  by (auto simp: preferred_def btree_first_Some split: if_splits)

lemmas step_simps =
  step_contract_def record_change_def record_optional_def normalize_or_reject_def
  clamp_u8_Inr_iff clamp_u8_Inl_iff result_simps Let_def

text \<open>The updates of one parameter compose with reading the others.\<close>

lemma upd_params_simps [simp]:
  "req_parameters (upd_params f r) = f (req_parameters r)"
  "req_prompt (upd_params f r) = req_prompt r"
  "req_negative_prompt (upd_params f r) = req_negative_prompt r"
  "req_operation (upd_params f r) = req_operation r"
  "req_policies (upd_params f r) = req_policies r"
  "req_routing (upd_params f r) = req_routing r"
  "req_session (upd_params f r) = req_session r"
  "req_output (upd_params f r) = req_output r"
  "req_version (upd_params f r) = req_version r"
  "req_idempotency_key (upd_params f r) = req_idempotency_key r"
  "req_timeout_ms (upd_params f r) = req_timeout_ms r"
  "req_user (upd_params f r) = req_user r"
  "strict (upd_params f r) = strict r"
  by (simp_all add: upd_params_def strict_def)

lemma upd_params_id: "f (req_parameters r) = req_parameters r \<Longrightarrow> upd_params f r = r"
  by (simp add: upd_params_def)

definition set_action :: "image_action \<Rightarrow> image_request \<Rightarrow> image_request" where
  "set_action v = upd_params (\<lambda>p. p\<lparr>gp_action := v\<rparr>)"

definition set_count :: "u8 \<Rightarrow> image_request \<Rightarrow> image_request" where
  "set_count v = upd_params (\<lambda>p. p\<lparr>gp_n := v\<rparr>)"

definition set_size :: "image_size \<Rightarrow> image_request \<Rightarrow> image_request" where
  "set_size v = upd_params (\<lambda>p. p\<lparr>gp_size := v\<rparr>)"

definition set_hints :: "aspect_ratio option \<times> resolution option \<Rightarrow> image_request \<Rightarrow> image_request" where
  "set_hints v = upd_params (\<lambda>p. p\<lparr>gp_aspect_ratio := fst v, gp_resolution := snd v\<rparr>)"

definition set_quality :: "quality \<Rightarrow> image_request \<Rightarrow> image_request" where
  "set_quality v = upd_params (\<lambda>p. p\<lparr>gp_quality := v\<rparr>)"

definition set_format :: "output_format \<times> u8 option \<Rightarrow> image_request \<Rightarrow> image_request" where
  "set_format v = upd_params (\<lambda>p. p\<lparr>gp_output_format := fst v, gp_output_compression := snd v\<rparr>)"

definition set_background :: "background \<Rightarrow> image_request \<Rightarrow> image_request" where
  "set_background v = upd_params (\<lambda>p. p\<lparr>gp_background := v\<rparr>)"

definition set_moderation :: "moderation \<Rightarrow> image_request \<Rightarrow> image_request" where
  "set_moderation v = upd_params (\<lambda>p. p\<lparr>gp_moderation := v\<rparr>)"

definition set_partial_images :: "u8 \<Rightarrow> image_request \<Rightarrow> image_request" where
  "set_partial_images v = upd_params (\<lambda>p. p\<lparr>gp_partial_images := v\<rparr>)"

definition set_prompts :: "string \<times> string option \<Rightarrow> image_request \<Rightarrow> image_request" where
  "set_prompts v r = r\<lparr>req_prompt := fst v, req_negative_prompt := snd v\<rparr>"

lemmas setters = set_action_def set_count_def set_size_def set_hints_def set_quality_def
  set_format_def set_background_def set_moderation_def set_partial_images_def

text \<open>Leaving the request alone is each of the updates at the current value.\<close>

lemma setter_id:
  "set_action (gp_action (req_parameters r)) r = r"
  "set_count (gp_n (req_parameters r)) r = r"
  "set_size (gp_size (req_parameters r)) r = r"
  "set_hints (gp_aspect_ratio (req_parameters r), gp_resolution (req_parameters r)) r = r"
  "set_quality (gp_quality (req_parameters r)) r = r"
  "set_format (gp_output_format (req_parameters r), gp_output_compression (req_parameters r)) r = r"
  "set_background (gp_background (req_parameters r)) r = r"
  "set_moderation (gp_moderation (req_parameters r)) r = r"
  "set_partial_images (gp_partial_images (req_parameters r)) r = r"
  "set_prompts (req_prompt r, req_negative_prompt r) r = r"
  by (simp_all add: setters upd_params_id set_prompts_def)

interpretation action: negotiator negotiate_action action_honoured set_action
proof
  show "step_contract negotiate_action"
    by (auto simp: negotiate_action_def step_simps split: if_splits)
  fix c r ns r' ns'
  assume run: "negotiate_action c (r, ns) = Inr (r', ns')"
  then show "action_honoured c r'"
    by (auto simp: negotiate_action_def action_honoured_def Let_def split: if_splits)
  from run show "\<exists>v. r' = set_action v r"
    by (auto simp: negotiate_action_def Let_def set_action_def [symmetric]
        intro: setter_id [symmetric] split: if_splits)
qed

interpretation count: strict_negotiator negotiate_count count_honoured set_count
proof
  show "step_contract negotiate_count"
    by (auto simp: negotiate_count_def step_simps split: if_splits)
  fix c r ns r' ns'
  assume run: "negotiate_count c (r, ns) = Inr (r', ns')"
  then show "count_honoured c r'"
    by (auto simp: negotiate_count_def count_honoured_def result_simps Let_def clamp_u8_contains split: if_splits)
  from run show "\<exists>v. r' = set_count v r"
    by (auto simp: negotiate_count_def result_simps Let_def set_count_def [symmetric]
        intro: setter_id [symmetric] split: if_splits)
  show "r' = r \<and> ns' = ns" if "strict r"
    using run that by (auto simp: negotiate_count_def Let_def split: if_splits)
qed

lemma size_supported_default: "sc_auto (pc_sizes c) \<Longrightarrow> size_supported default_image_size c = Inr True"
  by (simp add: size_supported_def size_is_auto_def default_image_size_def)

lemma size_supported_Inl:
  "size_supported s c = Inl f \<Longrightarrow> f = Panicked \<and> sc_edge_multiple (pc_sizes c) = Some 0"
  unfolding size_supported_def Let_def
  by (cases "size_dimensions s") (simp_all split: if_splits prod.splits)

interpretation size: strict_negotiator negotiate_size size_honoured set_size
proof
  show "step_contract negotiate_size"
    by (auto simp: negotiate_size_def step_simps dest: size_supported_Inl split: if_splits option.splits)
  fix c r ns r' ns'
  assume run: "negotiate_size c (r, ns) = Inr (r', ns')"
  then show "size_honoured c r'"
    by (auto simp: negotiate_size_def size_honoured_def result_simps Let_def size_supported_default
        dest: btree_first_Some split: if_splits option.splits)
  from run show "\<exists>v. r' = set_size v r"
    by (auto simp: negotiate_size_def result_simps Let_def set_size_def [symmetric]
        intro: setter_id [symmetric] split: if_splits option.splits)
  show "r' = r \<and> ns' = ns" if "strict r"
    using run that by (auto simp: negotiate_size_def result_simps Let_def split: if_splits option.splits)
qed

interpretation hints: strict_negotiator negotiate_hints hints_honoured set_hints
proof
  show "step_contract negotiate_hints"
    by (auto simp: negotiate_hints_def negotiate_aspect_ratio_def negotiate_resolution_def step_simps
        split: if_splits option.splits)
  fix c r ns r' ns'
  assume run: "negotiate_hints c (r, ns) = Inr (r', ns')"
  then show "hints_honoured c r'"
    by (auto simp: negotiate_hints_def negotiate_aspect_ratio_def negotiate_resolution_def
        hints_honoured_def result_simps split: if_splits option.splits)
  from run show "\<exists>v. r' = set_hints v r"
    by (intro exI [of _ "(gp_aspect_ratio (req_parameters r'), gp_resolution (req_parameters r'))"])
      (auto simp: negotiate_hints_def negotiate_aspect_ratio_def negotiate_resolution_def result_simps
        set_hints_def upd_params_def split: if_splits option.splits)
  show "r' = r \<and> ns' = ns" if "strict r"
    using run that
    by (auto simp: negotiate_hints_def negotiate_aspect_ratio_def negotiate_resolution_def result_simps
        split: if_splits option.splits)
qed

interpretation quality: strict_negotiator negotiate_quality quality_honoured set_quality
proof
  show "step_contract negotiate_quality"
    by (auto simp: negotiate_quality_def step_simps split: if_splits option.splits)
  fix c r ns r' ns'
  assume run: "negotiate_quality c (r, ns) = Inr (r', ns')"
  then show "quality_honoured c r'"
    by (auto simp: negotiate_quality_def quality_honoured_def step_simps dest: preferred_in
        split: if_splits option.splits)
  from run show "\<exists>v. r' = set_quality v r"
    by (auto simp: negotiate_quality_def result_simps Let_def set_quality_def [symmetric]
        intro: setter_id [symmetric] split: if_splits option.splits)
  show "r' = r \<and> ns' = ns" if "strict r"
    using run that by (auto simp: negotiate_quality_def step_simps split: if_splits option.splits)
qed

interpretation format: strict_negotiator negotiate_format format_honoured set_format
proof
  show "step_contract negotiate_format"
    by (auto simp: negotiate_format_def negotiate_encoding_def negotiate_compression_def step_simps
        split: if_splits option.splits)
  fix c r ns r' ns'
  assume run: "negotiate_format c (r, ns) = Inr (r', ns')"
  then show "format_honoured c r'"
    by (auto simp: negotiate_format_def negotiate_encoding_def negotiate_compression_def
        format_honoured_def step_simps dest: preferred_in split: if_splits option.splits)
  from run show "\<exists>v. r' = set_format v r"
    by (intro exI [of _ "(gp_output_format (req_parameters r'), gp_output_compression (req_parameters r'))"])
      (auto simp: negotiate_format_def negotiate_encoding_def negotiate_compression_def step_simps
        set_format_def upd_params_def split: if_splits option.splits)
  show "r' = r \<and> ns' = ns" if "strict r"
    using run that
    by (auto simp: negotiate_format_def negotiate_encoding_def negotiate_compression_def step_simps
        split: if_splits option.splits)
qed

interpretation background: strict_negotiator negotiate_background background_honoured set_background
proof
  show "step_contract negotiate_background"
    by (auto simp: negotiate_background_def step_simps split: if_splits option.splits)
  fix c r ns r' ns'
  assume run: "negotiate_background c (r, ns) = Inr (r', ns')"
  then show "background_honoured c r'"
    by (auto simp: negotiate_background_def background_honoured_def step_simps dest: preferred_in
        split: if_splits option.splits)
  from run show "\<exists>v. r' = set_background v r"
    by (auto simp: negotiate_background_def result_simps Let_def set_background_def [symmetric]
        intro: setter_id [symmetric] split: if_splits option.splits)
  show "r' = r \<and> ns' = ns" if "strict r"
    using run that by (auto simp: negotiate_background_def step_simps split: if_splits option.splits)
qed

interpretation moderation: strict_negotiator negotiate_moderation moderation_honoured set_moderation
proof
  show "step_contract negotiate_moderation"
    by (auto simp: negotiate_moderation_def step_simps split: if_splits option.splits)
  fix c r ns r' ns'
  assume run: "negotiate_moderation c (r, ns) = Inr (r', ns')"
  then show "moderation_honoured c r'"
    by (auto simp: negotiate_moderation_def moderation_honoured_def step_simps dest: preferred_in
        split: if_splits option.splits)
  from run show "\<exists>v. r' = set_moderation v r"
    by (auto simp: negotiate_moderation_def result_simps Let_def set_moderation_def [symmetric]
        intro: setter_id [symmetric] split: if_splits option.splits)
  show "r' = r \<and> ns' = ns" if "strict r"
    using run that by (auto simp: negotiate_moderation_def step_simps split: if_splits option.splits)
qed

interpretation partial_images:
  strict_negotiator negotiate_partial_images partial_images_honoured set_partial_images
proof
  show "step_contract negotiate_partial_images"
    by (auto simp: negotiate_partial_images_def step_simps split: if_splits)
  fix c r ns r' ns'
  assume run: "negotiate_partial_images c (r, ns) = Inr (r', ns')"
  then show "partial_images_honoured c r'"
    by (auto simp: negotiate_partial_images_def partial_images_honoured_def result_simps Let_def
        clamp_u8_contains split: if_splits)
  from run show "\<exists>v. r' = set_partial_images v r"
    by (auto simp: negotiate_partial_images_def result_simps Let_def set_partial_images_def [symmetric]
        intro: setter_id [symmetric] split: if_splits)
  show "r' = r \<and> ns' = ns" if "strict r"
    using run that by (auto simp: negotiate_partial_images_def Let_def split: if_splits)
qed

interpretation negative_prompt:
  negotiator negotiate_negative_prompt negative_prompt_honoured set_prompts
proof
  show "step_contract negotiate_negative_prompt"
    by (auto simp: negotiate_negative_prompt_def merge_negative_prompt_def step_simps
        split: if_splits option.splits negative_prompt_mode.splits support_level.splits)
  fix c r ns r' ns'
  assume run: "negotiate_negative_prompt c (r, ns) = Inr (r', ns')"
  then show "negative_prompt_honoured c r'"
    by (auto simp: negotiate_negative_prompt_def merge_negative_prompt_def negative_prompt_honoured_def
        result_simps split: if_splits option.splits negative_prompt_mode.splits support_level.splits)
  from run show "\<exists>v. r' = set_prompts v r"
    by (intro exI [of _ "(req_prompt r', req_negative_prompt r')"])
      (auto simp: negotiate_negative_prompt_def result_simps set_prompts_def split: if_splits option.splits)
qed

section \<open>The whole negotiation\<close>

lemma negotiation_steps_contract: "step_contract (run_steps negotiation_steps)"
  by (rule run_steps_contract)
    (simp add: negotiation_steps_def action.contract count.contract size.contract hints.contract
      quality.contract format.contract background.contract moderation.contract
      partial_images.contract negative_prompt.contract)

text \<open>The intermediate states of a successful negotiation.\<close>

lemma run_negotiation_chain:
  assumes "run_steps negotiation_steps c (r, ns) = Inr (r', ns')"
  obtains r1 n1 r2 n2 r3 n3 r4 n4 r5 n5 r6 n6 r7 n7 r8 n8 r9 n9 where
    "negotiate_action c (r, ns) = Inr (r1, n1)"
    "negotiate_count c (r1, n1) = Inr (r2, n2)"
    "negotiate_size c (r2, n2) = Inr (r3, n3)"
    "negotiate_hints c (r3, n3) = Inr (r4, n4)"
    "negotiate_quality c (r4, n4) = Inr (r5, n5)"
    "negotiate_format c (r5, n5) = Inr (r6, n6)"
    "negotiate_background c (r6, n6) = Inr (r7, n7)"
    "negotiate_moderation c (r7, n7) = Inr (r8, n8)"
    "negotiate_partial_images c (r8, n8) = Inr (r9, n9)"
    "negotiate_negative_prompt c (r9, n9) = Inr (r', ns')"
  using assms unfolding negotiation_steps_def by (auto simp: result_simps)

text \<open>The intermediate requests of a successful negotiation.\<close>

lemma run_negotiation_cases:
  assumes "run_steps negotiation_steps c (r, ns) = Inr (r', ns')"
  obtains v1 v2 v3 v4 v5 v6 v7 v8 v9 v10 where
    "r' = set_prompts v10 (set_partial_images v9 (set_moderation v8 (set_background v7 (set_format v6
       (set_quality v5 (set_hints v4 (set_size v3 (set_count v2 (set_action v1 r)))))))))"
    "action_honoured c (set_action v1 r)"
    "count_honoured c (set_count v2 (set_action v1 r))"
    "size_honoured c (set_size v3 (set_count v2 (set_action v1 r)))"
    "hints_honoured c (set_hints v4 (set_size v3 (set_count v2 (set_action v1 r))))"
    "quality_honoured c (set_quality v5 (set_hints v4 (set_size v3 (set_count v2 (set_action v1 r)))))"
    "format_honoured c (set_format v6 (set_quality v5 (set_hints v4 (set_size v3 (set_count v2
       (set_action v1 r))))))"
    "background_honoured c (set_background v7 (set_format v6 (set_quality v5 (set_hints v4 (set_size v3
       (set_count v2 (set_action v1 r)))))))"
    "moderation_honoured c (set_moderation v8 (set_background v7 (set_format v6 (set_quality v5
       (set_hints v4 (set_size v3 (set_count v2 (set_action v1 r))))))))"
    "partial_images_honoured c (set_partial_images v9 (set_moderation v8 (set_background v7 (set_format v6
       (set_quality v5 (set_hints v4 (set_size v3 (set_count v2 (set_action v1 r)))))))))"
    "negative_prompt_honoured c r'"
proof (rule run_negotiation_chain [OF assms])
  fix r1 n1 r2 n2 r3 n3 r4 n4 r5 n5 r6 n6 r7 n7 r8 n8 r9 n9
  assume 1: "negotiate_action c (r, ns) = Inr (r1, n1)" and
    2: "negotiate_count c (r1, n1) = Inr (r2, n2)" and
    3: "negotiate_size c (r2, n2) = Inr (r3, n3)" and
    4: "negotiate_hints c (r3, n3) = Inr (r4, n4)" and
    5: "negotiate_quality c (r4, n4) = Inr (r5, n5)" and
    6: "negotiate_format c (r5, n5) = Inr (r6, n6)" and
    7: "negotiate_background c (r6, n6) = Inr (r7, n7)" and
    8: "negotiate_moderation c (r7, n7) = Inr (r8, n8)" and
    9: "negotiate_partial_images c (r8, n8) = Inr (r9, n9)" and
    10: "negotiate_negative_prompt c (r9, n9) = Inr (r', ns')"
  show thesis
    using action.step_result [OF 1] count.step_result [OF 2] size.step_result [OF 3]
      hints.step_result [OF 4] quality.step_result [OF 5] format.step_result [OF 6]
      background.step_result [OF 7] moderation.step_result [OF 8]
      partial_images.step_result [OF 9] negative_prompt.step_result [OF 10] that
    by metis
qed

definition effective_honoured :: "provider_capabilities \<Rightarrow> image_request \<Rightarrow> bool" where
  "effective_honoured c r \<longleftrightarrow>
     action_honoured c r \<and> count_honoured c r \<and> size_honoured c r \<and> hints_honoured c r
     \<and> quality_honoured c r \<and> format_honoured c r \<and> background_honoured c r
     \<and> moderation_honoured c r \<and> partial_images_honoured c r \<and> negative_prompt_honoured c r"

lemma run_negotiation_honoured:
  assumes "run_steps negotiation_steps c (r, ns) = Inr (r', ns')"
  shows "effective_honoured c r'"
  using assms
  by (rule run_negotiation_cases)
    (simp add: effective_honoured_def action_honoured_def count_honoured_def size_honoured_def
      hints_honoured_def quality_honoured_def format_honoured_def background_honoured_def
      moderation_honoured_def partial_images_honoured_def setters set_prompts_def)

text \<open>What negotiation may never touch: everything but the parameters and the prompts.\<close>

definition same_frame :: "image_request \<Rightarrow> image_request \<Rightarrow> bool" where
  "same_frame r r' \<longleftrightarrow>
     r' = r\<lparr>req_parameters := req_parameters r', req_prompt := req_prompt r',
            req_negative_prompt := req_negative_prompt r'\<rparr>
     \<and> gp_input_fidelity (req_parameters r') = gp_input_fidelity (req_parameters r)
     \<and> gp_failure_policy (req_parameters r') = gp_failure_policy (req_parameters r)"

lemma run_negotiation_frame:
  assumes "run_steps negotiation_steps c (r, ns) = Inr (r', ns')"
  shows "same_frame r r'"
  using assms
  by (rule run_negotiation_cases)
    (simp add: same_frame_def setters set_prompts_def upd_params_def)

lemma run_negotiation_appends:
  assumes "run_steps negotiation_steps c (r, ns) = Inr (r', ns')"
  shows "\<exists>ms. ns' = ns @ ms \<and> (ms = [] \<longrightarrow> r' = r)"
  using negotiation_steps_contract assms unfolding step_contract_def by blast

lemma run_negotiation_strict:
  assumes run: "run_steps negotiation_steps c (r, ns) = Inr (r', ns')"
    and strict: "strict r"
    and act: "gp_action (req_parameters r) \<in> set (pc_actions c)"
    and neg: "req_negative_prompt r = None
       \<or> pc_negative_prompt c = Support_Native \<and> pol_negative_prompt (req_policies r) \<noteq> Negative_Prompt_Mode_Merge"
  shows "r' = r \<and> ns' = ns"
proof -
  from act have a: "negotiate_action c (r, ns) = Inr (r, ns)"
    by (simp add: negotiate_action_def)
  from neg have n: "negotiate_negative_prompt c (r, ns) = Inr (r', ns') \<Longrightarrow> r' = r \<and> ns' = ns"
    by (auto simp: negotiate_negative_prompt_def merge_negative_prompt_def result_simps
        split: if_splits option.splits negative_prompt_mode.splits)
  show ?thesis
  proof (rule run_negotiation_chain [OF run])
    fix r1 n1 r2 n2 r3 n3 r4 n4 r5 n5 r6 n6 r7 n7 r8 n8 r9 n9
    assume "negotiate_action c (r, ns) = Inr (r1, n1)"
    then have e1: "r1 = r \<and> n1 = ns" using a by simp
    assume "negotiate_count c (r1, n1) = Inr (r2, n2)"
    with e1 have e2: "r2 = r \<and> n2 = ns" using count.strict_unchanged [OF strict] by blast
    assume "negotiate_size c (r2, n2) = Inr (r3, n3)"
    with e2 have e3: "r3 = r \<and> n3 = ns" using size.strict_unchanged [OF strict] by blast
    assume "negotiate_hints c (r3, n3) = Inr (r4, n4)"
    with e3 have e4: "r4 = r \<and> n4 = ns" using hints.strict_unchanged [OF strict] by blast
    assume "negotiate_quality c (r4, n4) = Inr (r5, n5)"
    with e4 have e5: "r5 = r \<and> n5 = ns" using quality.strict_unchanged [OF strict] by blast
    assume "negotiate_format c (r5, n5) = Inr (r6, n6)"
    with e5 have e6: "r6 = r \<and> n6 = ns" using format.strict_unchanged [OF strict] by blast
    assume "negotiate_background c (r6, n6) = Inr (r7, n7)"
    with e6 have e7: "r7 = r \<and> n7 = ns" using background.strict_unchanged [OF strict] by blast
    assume "negotiate_moderation c (r7, n7) = Inr (r8, n8)"
    with e7 have e8: "r8 = r \<and> n8 = ns" using moderation.strict_unchanged [OF strict] by blast
    assume "negotiate_partial_images c (r8, n8) = Inr (r9, n9)"
    with e8 have e9: "r9 = r \<and> n9 = ns" using partial_images.strict_unchanged [OF strict] by blast
    assume "negotiate_negative_prompt c (r9, n9) = Inr (r', ns')"
    with e9 show ?thesis using n by simp
  qed
qed

text \<open>The errors of the checks, one check at a time.\<close>

named_theorems check_errors \<open>the error of each capability check\<close>

definition unsupported_by :: "provider_capabilities \<Rightarrow> bridge_error \<Rightarrow> bool" where
  "unsupported_by c e \<longleftrightarrow> err_code e = UnsupportedCapability \<and> err_provider e = Some (pc_provider c)"

lemma check_model_error [check_errors]: "check_model r c = Inl e \<Longrightarrow> unsupported_by c e"
  by (auto simp: check_model_def unsupported_by_def split: option.splits if_splits)

lemma check_operation_error [check_errors]: "check_operation r c = Inl e \<Longrightarrow> unsupported_by c e"
  by (auto simp: check_operation_def unsupported_by_def split: image_operation.splits)

lemma check_input_counts_error [check_errors]: "check_input_counts r c = Inl e \<Longrightarrow> unsupported_by c e"
  by (auto simp: check_input_counts_def unsupported_by_def Let_def
      split: image_operation.splits if_splits)

lemma check_sessions_error [check_errors]: "check_sessions r c = Inl e \<Longrightarrow> unsupported_by c e"
  by (auto simp: check_sessions_def unsupported_by_def split: session_mode.splits)

lemma check_user_attribution_error [check_errors]: "check_user_attribution r c = Inl e \<Longrightarrow> unsupported_by c e"
  by (auto simp: check_user_attribution_def unsupported_by_def split: if_splits)

lemma check_input_fidelity_error [check_errors]: "check_input_fidelity r c = Inl e \<Longrightarrow> unsupported_by c e"
  by (auto simp: check_input_fidelity_def unsupported_by_def split: if_splits option.splits)

lemma check_revised_prompt_error [check_errors]: "check_revised_prompt r c = Inl e \<Longrightarrow> unsupported_by c e"
  by (auto simp: check_revised_prompt_def unsupported_by_def split: if_splits)

lemma preflight_error:
  "preflight r c = Inl e \<Longrightarrow> unsupported_by c e \<or> capabilities_validate c = Inl e"
  unfolding preflight_def by (auto simp: and_then_Inl_iff dest: check_errors)

lemma run_steps_Panicked:
  "run_steps ss c st = Inl Panicked \<Longrightarrow> \<exists>s \<in> set ss. \<exists>st'. s c st' = Inl Panicked"
  by (induction ss arbitrary: st) (auto simp: result_simps)

text \<open>A step panics only on an inverted range or a zero edge multiple.\<close>

definition panic_cause :: "provider_capabilities \<Rightarrow> bool" where
  "panic_cause c \<longleftrightarrow>
     range_max (pc_count c) < range_min (pc_count c)
     \<or> range_max (pc_partial_images c) < range_min (pc_partial_images c)
     \<or> sc_edge_multiple (pc_sizes c) = Some 0"

lemma quiet_steps [simp]:
  "negotiate_action c st \<noteq> Inl Panicked"
  "negotiate_aspect_ratio c st \<noteq> Inl Panicked"
  "negotiate_resolution c st \<noteq> Inl Panicked"
  "negotiate_quality c st \<noteq> Inl Panicked"
  "negotiate_encoding c st \<noteq> Inl Panicked"
  "negotiate_compression c st \<noteq> Inl Panicked"
  "negotiate_background c st \<noteq> Inl Panicked"
  "negotiate_moderation c st \<noteq> Inl Panicked"
  "merge_negative_prompt mode c \<noteq> Inl Panicked"
  unfolding negotiate_action_def negotiate_aspect_ratio_def negotiate_resolution_def
    negotiate_quality_def negotiate_encoding_def negotiate_compression_def negotiate_background_def
    negotiate_moderation_def merge_negative_prompt_def
  by (auto simp: Let_def normalize_or_reject_def and_then_Inl_iff
      split: prod.splits if_splits option.splits negative_prompt_mode.splits support_level.splits)

lemma quiet_hints [simp]: "negotiate_hints c st \<noteq> Inl Panicked"
  by (simp add: negotiate_hints_def and_then_Inl_iff)

lemma quiet_format [simp]: "negotiate_format c st \<noteq> Inl Panicked"
  by (simp add: negotiate_format_def and_then_Inl_iff)

lemma quiet_negative_prompt [simp]: "negotiate_negative_prompt c st \<noteq> Inl Panicked"
  by (cases st) (auto simp: negotiate_negative_prompt_def and_then_Inl_iff split: option.splits if_splits)

lemma count_panics: "negotiate_count c st = Inl Panicked \<Longrightarrow> panic_cause c"
  by (cases st) (auto simp: negotiate_count_def panic_cause_def step_simps split: if_splits)

lemma partial_images_panics: "negotiate_partial_images c st = Inl Panicked \<Longrightarrow> panic_cause c"
  by (cases st) (auto simp: negotiate_partial_images_def panic_cause_def step_simps split: if_splits)

lemma size_panics: "negotiate_size c st = Inl Panicked \<Longrightarrow> panic_cause c"
  by (cases st)
    (auto simp: negotiate_size_def panic_cause_def step_simps dest: size_supported_Inl
      split: if_splits option.splits)

lemma step_panics: "s \<in> set negotiation_steps \<Longrightarrow> s c st = Inl Panicked \<Longrightarrow> panic_cause c"
  by (auto simp: negotiation_steps_def dest: count_panics partial_images_panics size_panics)

lemma negotiate_request_Inr_iff:
  "negotiate_request r c = Inr ng \<longleftrightarrow>
     preflight r c = Inr ()
     \<and> run_steps negotiation_steps c (r, []) = Inr (ng_effective_request ng, ng_normalizations ng)
     \<and> check_revised_prompt r c = Inr () \<and> ng_requested ng = req_parameters r"
  by (cases ng) (auto simp: negotiate_request_def result_simps)

section \<open>The aspect-ratio bound in floating point\<close>

lemma log2_bounds: "0 < n \<Longrightarrow> 2 ^ log2 n \<le> n \<and> n < 2 ^ Suc (log2 n)"
proof (induction n rule: log2.induct)
  case (1 n)
  show ?case
  proof (cases "n < 2")
    case True
    with 1 show ?thesis by (subst (1 2) log2.simps) simp
  next
    case False
    with "1.IH" have "2 ^ log2 (n div 2) \<le> n div 2 \<and> n div 2 < 2 ^ Suc (log2 (n div 2))" by simp
    with False show ?thesis by (subst (1 2) log2.simps) auto
  qed
qed

lemma div_half_even_upper: "0 < b \<Longrightarrow> x \<le> N * b \<Longrightarrow> div_half_even x b \<le> N"
proof -
  assume b: "0 < b" and x: "x \<le> N * b"
  from x b have q: "x div b \<le> N" by (metis div_le_mono div_mult_self_is_m)
  show ?thesis
  proof (cases "x div b = N")
    case True
    have "x div b * b + x mod b = x" by (rule div_mult_mod_eq)
    with True x have "x mod b = 0" by simp
    with True show ?thesis by (simp add: div_half_even_def Let_def b)
  next
    case False
    with q show ?thesis by (simp add: div_half_even_def Let_def)
  qed
qed

lemma div_half_even_lower: "0 < b \<Longrightarrow> N * b \<le> x \<Longrightarrow> N \<le> div_half_even x b"
proof -
  assume b: "0 < b" and x: "N * b \<le> x"
  then have "N \<le> x div b" by (simp add: less_eq_div_iff_mult_less_eq)
  then show ?thesis by (simp add: div_half_even_def Let_def)
qed

lemma f64_quotient_integral_bound:
  assumes "short \<noteq> 0" "short \<le> long"
  shows "f64_le (f64_quotient long short) (F64_Finite (of_nat m)) \<longleftrightarrow> unat long \<le> m * unat short"
proof -
  define a b e k where "a = unat long" "b = unat short" "e = log2 (a div b)" "k = 52 - e"
  note defs = this
  have b: "0 < b" using assms(1) by (simp add: defs unat_gt_0)
  have ba: "b \<le> a" using assms(2) by (simp add: defs word_le_nat_alt)
  have a32: "a < 2 ^ 32" using unsigned_less [of long, where 'a = nat] by (simp add: defs)
  have q: "0 < a div b" using b ba by (simp add: div_greater_zero_iff)
  have e: "2 ^ e \<le> a div b" using log2_bounds [OF q] by (simp add: defs)
  have eb: "2 ^ e * b \<le> a" using e b by (simp add: less_eq_div_iff_mult_less_eq)
  have e32: "e < 32"
  proof (rule ccontr)
    assume "\<not> e < 32"
    then have "(2::nat) ^ 32 \<le> 2 ^ e" by (intro power_increasing) simp_all
    also have "\<dots> \<le> 2 ^ e * b" using b by simp
    finally show False using eb a32 by simp
  qed
  have bk: "b < 2 ^ k"
  proof -
    have "2 ^ e * b < 2 ^ 32" using eb a32 by simp
    also have "(2::nat) ^ 32 \<le> 2 ^ (e + k)" using e32 by (intro power_increasing) (simp_all add: defs)
    finally show ?thesis by (simp add: power_add)
  qed
  let ?R = "div_half_even (a * 2 ^ k) b"
  have "?R \<le> m * 2 ^ k \<longleftrightarrow> a \<le> m * b"
  proof
    assume "a \<le> m * b"
    then have "a * 2 ^ k \<le> m * 2 ^ k * b" by (simp add: mult.commute mult.left_commute)
    then show "?R \<le> m * 2 ^ k" by (rule div_half_even_upper [OF b])
  next
    assume R: "?R \<le> m * 2 ^ k"
    show "a \<le> m * b"
    proof (rule ccontr)
      assume "\<not> a \<le> m * b"
      then have "(m * b + 1) * 2 ^ k \<le> a * 2 ^ k" by (intro mult_le_mono1) simp
      moreover have "(m * 2 ^ k + 1) * b \<le> (m * b + 1) * 2 ^ k" using bk by (simp add: algebra_simps)
      ultimately have "(m * 2 ^ k + 1) * b \<le> a * 2 ^ k" by linarith
      then have "m * 2 ^ k + 1 \<le> ?R" by (rule div_half_even_lower [OF b])
      with R show False by simp
    qed
  qed
  moreover have "f64_quotient long short = F64_Finite (of_nat ?R / 2 ^ k)"
    using b by (simp add: f64_quotient_def Let_def defs)
  moreover have "(of_nat ?R / 2 ^ k :: rat) \<le> of_nat m \<longleftrightarrow> ?R \<le> m * 2 ^ k"
  proof -
    have "(of_nat ?R / 2 ^ k :: rat) \<le> of_nat m \<longleftrightarrow> (of_nat ?R :: rat) \<le> of_nat m * 2 ^ k"
      by (simp add: divide_le_eq)
    also have "\<dots> \<longleftrightarrow> (of_nat ?R :: rat) \<le> of_nat (m * 2 ^ k)" by simp
    finally show ?thesis by (simp only: of_nat_le_iff)
  qed
  ultimately show ?thesis by (simp add: defs)
qed

end
