(* ===== verification/Codex_Capabilities.thy ===== *)
theory Codex_Capabilities
  imports Capabilities
begin

text \<open>
  The capability documents of the two built-in providers:
  \<open>crates/codex-responses/src/provider.rs\<close> (model selection and \<open>capabilities\<close>) and
  \<open>crates/codex-app-server/src/provider.rs\<close> (\<open>capabilities\<close>).
\<close>

definition cargo_pkg_version :: string where
  "cargo_pkg_version = ''0.3.0''"

section \<open>Codex Responses\<close>

definition supported_image_models :: "string list" where
  "supported_image_models = [''gpt-image-2'', ''gpt-image-1.5'', ''gpt-image-1'', ''gpt-image-1-mini'']"

text \<open>The configured image model is the default; the selection is the request's model if any.\<close>

definition selected_image_model :: "string \<Rightarrow> string option \<Rightarrow> string result" where
  "selected_image_model configured requested =
     (let model = (case requested of None \<Rightarrow> configured | Some m \<Rightarrow> m) in
      if model \<in> set supported_image_models then Inr model
      else Inl (with_detail ''supported_models'' (JArr (map JStr supported_image_models))
             (with_detail ''requested_model'' (JStr model)
               (with_detail ''field'' (JStr ''routing.model'')
                 (with_provider ''codex-responses''
                   (error_new UnsupportedCapability
                      ''Codex Responses does not support the requested image model''))))))"

definition codex_references :: input_capabilities where
  "codex_references = \<lparr>ic_support = Support_Native, ic_max_count = 5,
     ic_max_bytes_each = 32 * 1024 * 1024, ic_max_bytes_total = 64 * 1024 * 1024\<rparr>"

definition no_input :: input_capabilities where
  "no_input = \<lparr>ic_support = Support_Unsupported, ic_max_count = 0,
     ic_max_bytes_each = 0, ic_max_bytes_total = 0\<rparr>"

definition size_pairs :: "string \<Rightarrow> (u32 \<times> u32) list" where
  "size_pairs model =
     (if model = ''gpt-image-1'' \<or> model = ''gpt-image-1-mini''
      then [(1024, 1024), (1536, 1024), (1024, 1536)]
      else [(1024, 1024), (1536, 1024), (1024, 1536), (2048, 2048), (2048, 1152), (3840, 2160),
            (2160, 3840)])"

definition responses_capabilities :: "string \<Rightarrow> u8 \<Rightarrow> usize \<Rightarrow> provider_capabilities result" where
  "responses_capabilities model max_outputs max_parallel_outputs =
     (if model \<notin> set supported_image_models
      then Inl (with_detail ''requested_model'' (JStr model)
             (with_detail ''field'' (JStr ''routing.model'')
               (with_provider ''codex-responses''
                 (error_new UnsupportedCapability
                    ''Codex Responses does not support the requested image model''))))
      else
        and_then (traverse (\<lambda>(width, height). size_exact width height) (size_pairs model)) (\<lambda>sizes.
        and_then
          (if max_parallel_outputs < 256 then Inr (of_nat max_parallel_outputs)
           else Inl (error_new Configuration ''Codex Responses parallel output limit is invalid''))
          (\<lambda>parallel. Inr
        \<lparr>pc_provider = ''codex-responses'', pc_implementation_version = cargo_pkg_version,
         pc_model = Some model, pc_experimental = False, pc_generation = True, pc_edits = True,
         pc_count = \<lparr>range_min = 1, range_max = max_outputs\<rparr>,
         pc_batching = \<lparr>bc_mode = Batch_Fan_Out, bc_native_count = \<lparr>range_min = 1, range_max = 1\<rparr>,
           bc_max_parallel_outputs = parallel\<rparr>,
         pc_sizes = \<lparr>sc_auto = True, sc_allowed = btree_from sizes, sc_arbitrary = False,
           sc_min_edge = None, sc_max_edge = None, sc_edge_multiple = None, sc_min_pixels = None,
           sc_max_pixels = None, sc_max_aspect_ratio = None\<rparr>,
         pc_aspect_ratio = Support_Emulated, pc_resolution = Support_Emulated,
         pc_qualities = btree_from [Quality_Auto, Quality_Low, Quality_Medium, Quality_High],
         pc_output_formats = btree_from [Output_Format_Png, Output_Format_Jpeg, Output_Format_Webp],
         pc_backgrounds =
           (if model \<noteq> ''gpt-image-2''
            then btree_insert Background_Transparent (btree_from [Background_Auto, Background_Opaque])
            else btree_from [Background_Auto, Background_Opaque]),
         pc_transparent_background =
           (if model = ''gpt-image-2'' then Support_Emulated else Support_Native),
         pc_moderation = btree_from [Moderation_Auto, Moderation_Low],
         pc_negative_prompt = Support_Emulated, pc_revised_prompt = Support_Native,
         pc_user_attribution = Support_Unsupported,
         pc_input_fidelities =
           (if model = ''gpt-image-2'' then btree_from [Input_Fidelity_High]
            else btree_from [Input_Fidelity_Low, Input_Fidelity_High]),
         pc_actions = btree_from [Image_Action_Auto, Image_Action_Generate, Image_Action_Edit],
         pc_reference_images = codex_references, pc_edit_images = codex_references,
         pc_masks = no_input, pc_partial_images = \<lparr>range_min = 0, range_max = 3\<rparr>,
         pc_persistent_sessions = False, pc_explicit_threads = False\<rparr>)))"

section \<open>Codex app-server\<close>

definition app_server_capabilities :: provider_capabilities where
  "app_server_capabilities =
     \<lparr>pc_provider = ''codex-app-server'', pc_implementation_version = cargo_pkg_version,
      pc_model = Some ''gpt-image-2'', pc_experimental = False, pc_generation = True, pc_edits = True,
      pc_count = \<lparr>range_min = 1, range_max = 1\<rparr>,
      pc_batching = \<lparr>bc_mode = Batch_Native, bc_native_count = \<lparr>range_min = 1, range_max = 1\<rparr>,
        bc_max_parallel_outputs = 1\<rparr>,
      pc_sizes = \<lparr>sc_auto = True, sc_allowed = [], sc_arbitrary = False, sc_min_edge = None,
        sc_max_edge = None, sc_edge_multiple = None, sc_min_pixels = None, sc_max_pixels = None,
        sc_max_aspect_ratio = None\<rparr>,
      pc_aspect_ratio = Support_Unsupported, pc_resolution = Support_Unsupported,
      pc_qualities = btree_from [Quality_Auto],
      pc_output_formats = btree_from [Output_Format_Png],
      pc_backgrounds = btree_from [Background_Auto],
      pc_transparent_background = Support_Emulated,
      pc_moderation = btree_from [Moderation_Auto],
      pc_negative_prompt = Support_Emulated, pc_revised_prompt = Support_Emulated,
      pc_user_attribution = Support_Unsupported,
      pc_input_fidelities = btree_from [Input_Fidelity_High],
      pc_actions = btree_from [Image_Action_Auto],
      pc_reference_images = codex_references, pc_edit_images = codex_references,
      pc_masks = no_input, pc_partial_images = \<lparr>range_min = 0, range_max = 0\<rparr>,
      pc_persistent_sessions = True, pc_explicit_threads = True\<rparr>"

section \<open>Consistency of the documents\<close>

lemma app_server_capabilities_simps:
  "pc_provider app_server_capabilities = ''codex-app-server''"
  "pc_model app_server_capabilities = Some ''gpt-image-2''"
  "pc_generation app_server_capabilities" "pc_edits app_server_capabilities"
  "pc_count app_server_capabilities = \<lparr>range_min = 1, range_max = 1\<rparr>"
  "pc_batching app_server_capabilities = \<lparr>bc_mode = Batch_Native,
     bc_native_count = \<lparr>range_min = 1, range_max = 1\<rparr>, bc_max_parallel_outputs = 1\<rparr>"
  "pc_sizes app_server_capabilities = \<lparr>sc_auto = True, sc_allowed = [], sc_arbitrary = False,
     sc_min_edge = None, sc_max_edge = None, sc_edge_multiple = None, sc_min_pixels = None,
     sc_max_pixels = None, sc_max_aspect_ratio = None\<rparr>"
  "pc_aspect_ratio app_server_capabilities = Support_Unsupported"
  "pc_resolution app_server_capabilities = Support_Unsupported"
  "pc_qualities app_server_capabilities = [Quality_Auto]"
  "pc_output_formats app_server_capabilities = [Output_Format_Png]"
  "pc_backgrounds app_server_capabilities = [Background_Auto]"
  "pc_transparent_background app_server_capabilities = Support_Emulated"
  "pc_moderation app_server_capabilities = [Moderation_Auto]"
  "pc_negative_prompt app_server_capabilities = Support_Emulated"
  "pc_revised_prompt app_server_capabilities = Support_Emulated"
  "pc_user_attribution app_server_capabilities = Support_Unsupported"
  "pc_input_fidelities app_server_capabilities = [Input_Fidelity_High]"
  "pc_actions app_server_capabilities = [Image_Action_Auto]"
  "pc_reference_images app_server_capabilities = codex_references"
  "pc_edit_images app_server_capabilities = codex_references"
  "pc_partial_images app_server_capabilities = \<lparr>range_min = 0, range_max = 0\<rparr>"
  by (simp_all add: app_server_capabilities_def btree_from_def)

lemma app_server_capabilities_valid: "capabilities_validate app_server_capabilities = Inr ()"
  by (simp add: capabilities_validate_def app_server_capabilities_def count_invalid_def
      batching_invalid_def btree_from_def Let_def)

lemma size_exact_Inr: "w \<noteq> 0 \<Longrightarrow> h \<noteq> 0 \<Longrightarrow> \<exists>s. size_exact w h = Inr s"
  by (simp add: size_exact_def)

lemma traverse_total: "(\<And>x. x \<in> set xs \<Longrightarrow> \<exists>y. f x = Inr y) \<Longrightarrow> \<exists>ys. traverse f xs = Inr ys"
proof (induction xs)
  case (Cons x xs)
  then obtain y ys where "f x = Inr y" "traverse f xs = Inr ys" by fastforce
  then show ?case by simp
qed simp

text \<open>A configuration the provider accepts yields a document.\<close>

lemma responses_capabilities_total:
  assumes "model \<in> set supported_image_models" "parallel \<le> unat max_outputs"
  obtains c where "responses_capabilities model max_outputs parallel = Inr c"
proof -
  have "\<exists>ys. traverse (\<lambda>(w, h). size_exact w h) (size_pairs model) = Inr ys"
    by (rule traverse_total) (auto simp: size_pairs_def size_exact_def split: if_splits)
  moreover have "parallel < 256" using assms(2) unat_u8_less [of max_outputs] by simp
  ultimately show thesis using assms(1) that by (auto simp: responses_capabilities_def)
qed

lemma btree_from_backgrounds [simp]: "Background_Transparent \<notin> set (btree_from [Background_Auto, Background_Opaque])"
  by simp

lemma responses_capabilities_fields:
  assumes "responses_capabilities model max_outputs parallel = Inr c"
  shows "pc_count c = \<lparr>range_min = 1, range_max = max_outputs\<rparr>"
    and "pc_batching c = \<lparr>bc_mode = Batch_Fan_Out, bc_native_count = \<lparr>range_min = 1, range_max = 1\<rparr>,
           bc_max_parallel_outputs = of_nat parallel\<rparr>"
    and "pc_partial_images c = \<lparr>range_min = 0, range_max = 3\<rparr>"
    and "set (pc_backgrounds c) = {Background_Auto, Background_Opaque} \<union>
           (if model = ''gpt-image-2'' then {} else {Background_Transparent})"
    and "pc_transparent_background c = (if model = ''gpt-image-2'' then Support_Emulated else Support_Native)"
    and "set (pc_output_formats c) = {Output_Format_Png, Output_Format_Jpeg, Output_Format_Webp}"
proof -
  from assms have *: "pc_count c = \<lparr>range_min = 1, range_max = max_outputs\<rparr>
      \<and> pc_batching c = \<lparr>bc_mode = Batch_Fan_Out, bc_native_count = \<lparr>range_min = 1, range_max = 1\<rparr>,
           bc_max_parallel_outputs = of_nat parallel\<rparr>
      \<and> pc_partial_images c = \<lparr>range_min = 0, range_max = 3\<rparr>
      \<and> set (pc_backgrounds c) = {Background_Auto, Background_Opaque} \<union>
           (if model = ''gpt-image-2'' then {} else {Background_Transparent})
      \<and> pc_transparent_background c = (if model = ''gpt-image-2'' then Support_Emulated else Support_Native)
      \<and> set (pc_output_formats c) = {Output_Format_Png, Output_Format_Jpeg, Output_Format_Webp}"
    unfolding responses_capabilities_def
    by (auto simp: and_then_Inr_iff simp del: btree_insert.simps split: if_splits)
  from * show "pc_count c = \<lparr>range_min = 1, range_max = max_outputs\<rparr>"
    and "pc_batching c = \<lparr>bc_mode = Batch_Fan_Out, bc_native_count = \<lparr>range_min = 1, range_max = 1\<rparr>,
           bc_max_parallel_outputs = of_nat parallel\<rparr>"
    and "pc_partial_images c = \<lparr>range_min = 0, range_max = 3\<rparr>"
    and "set (pc_backgrounds c) = {Background_Auto, Background_Opaque} \<union>
           (if model = ''gpt-image-2'' then {} else {Background_Transparent})"
    and "pc_transparent_background c = (if model = ''gpt-image-2'' then Support_Emulated else Support_Native)"
    and "set (pc_output_formats c) = {Output_Format_Png, Output_Format_Jpeg, Output_Format_Webp}"
    by blast+
qed

lemma responses_capabilities_validate:
  assumes c: "responses_capabilities model max_outputs parallel = Inr c"
    and "0 < parallel" "parallel \<le> unat max_outputs"
  shows "capabilities_validate c =
    (if max_outputs = 1
     then Inl (invalid_capability c
            ''provider batching capability is inconsistent with its output-count range'')
     else Inr ())"
proof -
  have p: "of_nat parallel \<noteq> (0 :: u8)" "of_nat parallel \<le> max_outputs"
    using assms(2,3) unat_u8_less [of max_outputs]
    by (auto simp: word_le_nat_alt unat_of_nat word_of_nat_eq_0_iff dest: nat_dvd_not_less)
  have m: "max_outputs \<noteq> 0" using assms(2,3) by auto
  then have m1: "1 \<le> max_outputs" by (simp add: word_le_nat_alt unat_gt_0 Suc_le_eq)
  have m2: "max_outputs \<le> 1 \<longleftrightarrow> max_outputs = 1" using m1 by auto
  show ?thesis
    using p m m1 m2
    by (simp add: responses_capabilities_fields [OF c] capabilities_validate_def count_invalid_def
        batching_invalid_def list_ex_iff Let_def not_less) (meson leD p(2))
qed

section \<open>Properties\<close>

text \<open>The Codex Responses provider with any output limit above one declares capabilities
  that pass the consistency check.\<close>

lemma responses_document_consistent:
  assumes "model \<in> set supported_image_models" "0 < parallel" "parallel \<le> unat max_outputs" "max_outputs \<noteq> 1"
  shows "\<exists>c. responses_capabilities model max_outputs parallel = Inr c \<and> capabilities_validate c = Inr ()"
  using responses_capabilities_total [OF assms(1,3)] responses_capabilities_validate [OF _ assms(2,3)] assms(4)
  by metis

lemma responses_document_consistent_witness:
  "\<exists>c. responses_capabilities ''gpt-image-2'' 255 255 = Inr c \<and> capabilities_validate c = Inr ()"
  by (rule responses_document_consistent) (simp_all add: supported_image_models_def)

text \<open>With an output limit of one, which the provider's constructor admits, the declared
  fan-out batching always fails the consistency check, for every model.\<close>

lemma responses_single_output_rejected:
  assumes "model \<in> set supported_image_models"
  shows "\<exists>c. responses_capabilities model 1 1 = Inr c
           \<and> capabilities_validate c =
               Inl (invalid_capability c
                      ''provider batching capability is inconsistent with its output-count range'')"
proof -
  obtain c where "responses_capabilities model 1 1 = Inr c"
    using responses_capabilities_total [OF assms, of 1 1] by auto
  then show ?thesis using responses_capabilities_validate by fastforce
qed

lemma responses_single_output_rejected_witness:
  "\<exists>c. responses_capabilities ''gpt-image-1'' 1 1 = Inr c
     \<and> capabilities_validate c =
         Inl (invalid_capability c
                ''provider batching capability is inconsistent with its output-count range'')"
  by (rule responses_single_output_rejected) (simp add: supported_image_models_def)

end
