(* ===== verification/Negotiation_Properties.thy ===== *)
theory Negotiation_Properties
  imports Negotiation Codex_Capabilities Validation
begin

text \<open>
  The properties of the negotiation of \<open>crates/core/src/negotiation.rs\<close>, instantiated on the
  capability documents of the built-in providers.
\<close>

section \<open>Concrete negotiations\<close>

lemmas negotiation_defs =
  negotiate_request_def preflight_def check_model_def check_operation_def check_input_counts_def
  check_sessions_def check_user_attribution_def check_input_fidelity_def check_revised_prompt_def
  negotiation_steps_def negotiate_action_def negotiate_count_def negotiate_size_def negotiate_hints_def
  negotiate_aspect_ratio_def negotiate_resolution_def negotiate_quality_def negotiate_format_def
  negotiate_encoding_def negotiate_compression_def negotiate_background_def negotiate_moderation_def
  negotiate_partial_images_def negotiate_negative_prompt_def merge_negative_prompt_def
  normalize_or_reject_def size_supported_def fail_with_def preferred_def btree_contains_def
  range_contains_def record_change_def record_optional_def upd_params_def size_is_auto_def strict_def
  op_reference_images_def require_def app_server_capabilities_simps codex_references_def

text \<open>A request for high quality, normalized by the app-server provider, which has only one.\<close>

definition sample_request :: image_request where
  "sample_request = (request_generate ''p'')
     \<lparr>req_policies := default_request_policies\<lparr>pol_compatibility := Compatibility_Mode_Normalize\<rparr>,
      req_parameters := default_generation_parameters\<lparr>gp_quality := Quality_High\<rparr>\<rparr>"

definition sample_negotiated :: negotiated_request where
  "sample_negotiated =
     \<lparr>ng_requested = req_parameters sample_request,
      ng_effective_request = set_quality Quality_Auto sample_request,
      ng_normalizations = [\<lparr>nz_field = ''parameters.quality'', nz_requested = Some (JStr ''high''),
        nz_effective = Some (JStr ''auto''), nz_reason = ''normalized_to_provider_value''\<rparr>]\<rparr>"

lemma sample_negotiation: "negotiate_request sample_request app_server_capabilities = Inr sample_negotiated"
  by (simp add: negotiation_defs sample_request_def sample_negotiated_def request_defaults set_quality_def
      app_server_capabilities_valid quality_wire_def)

text \<open>A strict request that names an action, for the provider that knows only \<open>auto\<close>.\<close>

definition strict_action_request :: image_request where
  "strict_action_request = (request_generate ''p'')
     \<lparr>req_policies := default_request_policies\<lparr>pol_compatibility := Compatibility_Mode_Strict\<rparr>,
      req_parameters := default_generation_parameters\<lparr>gp_action := Image_Action_Generate\<rparr>\<rparr>"

definition strict_action_negotiated :: negotiated_request where
  "strict_action_negotiated =
     \<lparr>ng_requested = req_parameters strict_action_request,
      ng_effective_request = set_action Image_Action_Auto strict_action_request,
      ng_normalizations = [\<lparr>nz_field = ''parameters.action'', nz_requested = Some (JStr ''generate''),
        nz_effective = Some (JStr ''auto''), nz_reason = ''provider_uses_automatic_action''\<rparr>]\<rparr>"

lemma strict_action_negotiation:
  "negotiate_request strict_action_request app_server_capabilities = Inr strict_action_negotiated"
  by (simp add: negotiation_defs strict_action_request_def strict_action_negotiated_def request_defaults
      app_server_capabilities_valid set_action_def image_action_wire_def)

lemma is_none_or_pred: "is_none_or P x = pred_option P x"
  by (cases x) (simp_all add: is_none_or_def)

section \<open>What a provider is asked\<close>

text \<open>A request is supported when the capability document declares every part of it: the model, the
  operation with the numbers of its images, masks and references, the session mode, the attribution to a
  user, the input fidelity, the revised prompt a policy demands, and the ten negotiated parameters.\<close>

definition operation_supported :: "provider_capabilities \<Rightarrow> image_operation \<Rightarrow> bool" where
  "operation_supported c op \<longleftrightarrow>
     (case op of
        Op_Generate _ \<Rightarrow> pc_generation c
      | Op_Edit images mask_image _ \<Rightarrow>
          pc_edits c \<and> ic_support (pc_edit_images c) \<noteq> Support_Unsupported
          \<and> length images \<le> unat (ic_max_count (pc_edit_images c))
          \<and> (mask_image = None \<or> ic_support (pc_masks c) \<noteq> Support_Unsupported \<and> ic_max_count (pc_masks c) \<noteq> 0))
     \<and> length (op_reference_images op) \<le> unat (ic_max_count (pc_reference_images c))
     \<and> (op_reference_images op = [] \<or> ic_support (pc_reference_images c) \<noteq> Support_Unsupported)"

definition session_supported :: "provider_capabilities \<Rightarrow> session_mode \<Rightarrow> bool" where
  "session_supported c mode \<longleftrightarrow>
     (mode = Session_Mode_Persistent \<longrightarrow> pc_persistent_sessions c)
     \<and> (mode = Session_Mode_Thread \<longrightarrow> pc_explicit_threads c)"

definition frame_supported :: "provider_capabilities \<Rightarrow> image_request \<Rightarrow> bool" where
  "frame_supported c r \<longleftrightarrow>
     (rt_model (req_routing r) = None \<or> pc_model c = None \<or> rt_model (req_routing r) = pc_model c)
     \<and> operation_supported c (req_operation r)
     \<and> session_supported c (so_mode (req_session r))
     \<and> (req_user r = None \<or> pc_user_attribution c \<noteq> Support_Unsupported)
     \<and> (\<forall>fidelity. gp_input_fidelity (req_parameters r) = Some fidelity \<longrightarrow> fidelity \<in> set (pc_input_fidelities c))
     \<and> (pol_revised_prompt (req_policies r) = Revised_Prompt_Policy_Require
        \<longrightarrow> pc_revised_prompt c \<noteq> Support_Unsupported)"

lemma check_operations:
  "check_operation r c = Inr () \<and> check_input_counts r c = Inr () \<longleftrightarrow> operation_supported c (req_operation r)"
  by (cases "req_operation r")
    (auto simp: check_operation_def check_input_counts_def operation_supported_def op_reference_images_def
      require_def Let_def not_less)

lemma check_sessions_Inr: "check_sessions r c = Inr () \<longleftrightarrow> session_supported c (so_mode (req_session r))"
  by (cases "so_mode (req_session r)") (auto simp: check_sessions_def session_supported_def require_def)

lemma preflight_exact:
  "preflight r c = Inr () \<and> check_revised_prompt r c = Inr ()
   \<longleftrightarrow> capabilities_validate c = Inr () \<and> frame_supported c r"
proof -
  have "check_model r c = Inr ()
    \<longleftrightarrow> rt_model (req_routing r) = None \<or> pc_model c = None \<or> rt_model (req_routing r) = pc_model c"
    by (auto simp: check_model_def split: option.split)
  moreover have "check_user_attribution r c = Inr () \<longleftrightarrow> req_user r = None \<or> pc_user_attribution c \<noteq> Support_Unsupported"
    by (simp add: check_user_attribution_def)
  moreover have "check_input_fidelity r c = Inr ()
    \<longleftrightarrow> (\<forall>fidelity. gp_input_fidelity (req_parameters r) = Some fidelity \<longrightarrow> fidelity \<in> set (pc_input_fidelities c))"
    by (simp add: check_input_fidelity_def btree_contains_def split: option.split)
  moreover have "check_revised_prompt r c = Inr ()
    \<longleftrightarrow> (pol_revised_prompt (req_policies r) = Revised_Prompt_Policy_Require \<longrightarrow> pc_revised_prompt c \<noteq> Support_Unsupported)"
    by (simp add: check_revised_prompt_def)
  ultimately show ?thesis
    using check_operations [of r c] check_sessions_Inr [of r c]
    unfolding preflight_def frame_supported_def and_then_Inr_iff by auto
qed

lemma frame_supported_same: "same_frame r r' \<Longrightarrow> frame_supported c r' = frame_supported c r"
proof -
  assume frame: "same_frame r r'"
  then have eq: "r' = r\<lparr>req_parameters := req_parameters r', req_prompt := req_prompt r',
      req_negative_prompt := req_negative_prompt r'\<rparr>" by (simp add: same_frame_def)
  have "req_routing r' = req_routing r" "req_operation r' = req_operation r" "req_session r' = req_session r"
    "req_user r' = req_user r" "req_policies r' = req_policies r"
    by (subst eq, simp)+
  with frame show ?thesis by (simp add: frame_supported_def same_frame_def)
qed

definition request_supported :: "provider_capabilities \<Rightarrow> image_request \<Rightarrow> bool" where
  "request_supported c r \<longleftrightarrow> frame_supported c r \<and> effective_honoured c r"

lemma negotiate_supported:
  assumes "negotiate_request request capabilities = Inr ng"
  shows "capabilities_validate capabilities = Inr ()
    \<and> request_supported capabilities (ng_effective_request ng)
    \<and> same_frame request (ng_effective_request ng)
    \<and> ng_requested ng = req_parameters request"
proof -
  from assms have pre: "preflight request capabilities = Inr () \<and> check_revised_prompt request capabilities = Inr ()"
    and run: "run_steps negotiation_steps capabilities (request, [])
      = Inr (ng_effective_request ng, ng_normalizations ng)"
    and requested: "ng_requested ng = req_parameters request"
    by (simp_all add: negotiate_request_Inr_iff)
  have frame: "same_frame request (ng_effective_request ng)" by (rule run_negotiation_frame [OF run])
  with pre run_negotiation_honoured [OF run] requested show ?thesis
    unfolding preflight_exact by (simp add: request_supported_def frame_supported_same)
qed

section \<open>Properties\<close>

text \<open>C1. A request that negotiation accepts is turned into one every part of which the provider declares to
  support: model, operation, image, mask and reference counts, session, user, input fidelity, revised prompt and
  the ten negotiated parameters. The capability document itself is consistent. Everything but the
  parameters and the prompts is left alone, and the requested parameters are reported unchanged.\<close>

theorem negotiated_request_honoured:
  assumes "negotiate_request request capabilities = Inr ng"
  shows "capabilities_validate capabilities = Inr ()
    \<and> request_supported capabilities (ng_effective_request ng)
    \<and> same_frame request (ng_effective_request ng)
    \<and> ng_requested ng = req_parameters request"
  by (rule negotiate_supported [OF assms])

theorem negotiated_request_honoured_witness:
  "capabilities_validate app_server_capabilities = Inr ()
    \<and> request_supported app_server_capabilities (ng_effective_request sample_negotiated)
    \<and> same_frame sample_request (ng_effective_request sample_negotiated)
    \<and> ng_requested sample_negotiated = req_parameters sample_request"
  by (rule negotiated_request_honoured [OF sample_negotiation])

text \<open>No silent change: when the negotiation reports no normalization, the effective request
  is the request.\<close>

lemma negotiation_reports_every_change:
  assumes "negotiate_request request capabilities = Inr ng"
    and "ng_effective_request ng \<noteq> request"
  shows "ng_normalizations ng \<noteq> []"
  using assms run_negotiation_appends unfolding negotiate_request_Inr_iff by fastforce

lemma negotiation_reports_every_change_witness:
  "ng_normalizations sample_negotiated \<noteq> []"
proof (rule negotiation_reports_every_change [OF sample_negotiation])
  show "ng_effective_request sample_negotiated \<noteq> sample_request"
    by (simp add: sample_negotiated_def sample_request_def set_quality_def upd_params_def request_defaults)
qed

text \<open>In strict mode a request whose action the provider declares and whose negative prompt
  needs no merge is executed exactly as given, or rejected.\<close>

lemma strict_negotiation_exact:
  assumes "negotiate_request request capabilities = Inr ng"
    and "strict request"
    and "gp_action (req_parameters request) \<in> set (pc_actions capabilities)"
    and "req_negative_prompt request = None
       \<or> pc_negative_prompt capabilities = Support_Native
         \<and> pol_negative_prompt (req_policies request) \<noteq> Negative_Prompt_Mode_Merge"
  shows "ng_effective_request ng = request \<and> ng_normalizations ng = []"
  using assms run_negotiation_strict unfolding negotiate_request_Inr_iff by blast

lemma strict_negotiation_exact_witness:
  "\<exists>ng :: negotiated_request. ng_effective_request ng = request_generate ''p'' \<and> ng_normalizations ng = []"
proof -
  let ?ng = "\<lparr>ng_requested = default_generation_parameters,
    ng_effective_request = request_generate ''p'', ng_normalizations = []\<rparr>"
  have "negotiate_request (request_generate ''p'') app_server_capabilities = Inr ?ng"
    by (simp add: negotiation_defs request_defaults app_server_capabilities_valid)
  then have "ng_effective_request ?ng = request_generate ''p'' \<and> ng_normalizations ?ng = []"
    by (rule strict_negotiation_exact)
      (simp_all add: strict_def request_defaults app_server_capabilities_simps)
  then show ?thesis by (rule exI [of _ ?ng])
qed

text \<open>The strict mode has an exception: an action the provider does not declare is replaced
  by \<open>auto\<close> instead of being rejected.\<close>

lemma strict_action_still_normalized:
  "\<exists>request capabilities ng.
     strict request \<and> negotiate_request request capabilities = Inr ng
     \<and> gp_action (req_parameters (ng_effective_request ng)) \<noteq> gp_action (req_parameters request)"
proof -
  have "strict strict_action_request
      \<and> gp_action (req_parameters (ng_effective_request strict_action_negotiated))
        \<noteq> gp_action (req_parameters strict_action_request)"
    by (simp add: strict_action_request_def strict_action_negotiated_def set_action_def strict_def request_defaults)
  with strict_action_negotiation show ?thesis by blast
qed

text \<open>A failed negotiation is a protocol error when the capabilities are inconsistent and an
  unsupported-capability error otherwise, always naming the provider; consistent
  capabilities without a zero edge multiple never make it panic.\<close>

lemma negotiation_failures_classified:
  assumes "negotiate_request request capabilities = Inl failure"
    and "sc_edge_multiple (pc_sizes capabilities) \<noteq> Some 0"
  shows "\<exists>e. failure = Failed e \<and> err_provider e = Some (pc_provider capabilities)
    \<and> err_code e = (if capabilities_validate capabilities = Inr () then UnsupportedCapability else Protocol)"
proof -
  consider (pre) e where "preflight request capabilities = Inl e" "failure = Failed e"
    | (steps) "preflight request capabilities = Inr ()"
        "run_steps negotiation_steps capabilities (request, []) = Inl failure"
    | (revised) e where "preflight request capabilities = Inr ()"
        "check_revised_prompt request capabilities = Inl e" "failure = Failed e"
    using assms(1) by (auto simp: negotiate_request_def and_then_Inl_iff fail_with_Inl_iff)
  then show ?thesis
  proof cases
    case pre
    show ?thesis
    proof (cases "capabilities_validate capabilities")
      case (Inl e')
      with pre have "e' = e" by (simp add: preflight_def)
      with Inl pre capabilities_validate_error show ?thesis by auto
    next
      case (Inr u)
      with preflight_error [OF pre(1)] pre show ?thesis by (auto simp: unsupported_by_def)
    qed
  next
    case steps
    then have valid: "capabilities_validate capabilities = Inr ()"
      by (auto simp: preflight_def and_then_Inr_iff)
    have "\<not> panic_cause capabilities"
      using capabilities_validate_ranges(2,3) [OF valid] assms(2) by (auto simp: panic_cause_def)
    then have "failure \<noteq> Panicked"
      using steps(2) run_steps_Panicked step_panics by blast
    then obtain e where e: "failure = Failed e" by (cases failure) auto
    then show ?thesis
      using steps(2) negotiation_steps_contract valid unfolding step_contract_def by auto
  next
    case revised
    then have "capabilities_validate capabilities = Inr ()"
      by (auto simp: preflight_def and_then_Inr_iff)
    with revised check_revised_prompt_error show ?thesis by (auto simp: unsupported_by_def)
  qed
qed

lemma negotiation_failures_classified_witness:
  "\<exists>f e. f = Failed e \<and> err_provider e = Some ''codex-app-server'' \<and> err_code e = UnsupportedCapability"
proof -
  let ?r = "(request_generate ''p'')\<lparr>req_user := Some ''u''\<rparr>"
  have "\<exists>f. negotiate_request ?r app_server_capabilities = Inl f"
    by (simp add: negotiation_defs request_defaults app_server_capabilities_valid)
  then obtain f where "negotiate_request ?r app_server_capabilities = Inl f" by blast
  from negotiation_failures_classified [OF this] show ?thesis
    unfolding app_server_capabilities_valid by (simp add: app_server_capabilities_simps) blast
qed

text \<open>Consistent capabilities are not enough to exclude a panic: an edge multiple of zero
  passes the check, and an explicit size then divides by it.\<close>

lemma zero_edge_multiple_panics:
  "\<exists>request capabilities.
     capabilities_validate capabilities = Inr ()
     \<and> validate_request request default_request_limits = Inr ()
     \<and> negotiate_request request capabilities = Inl Panicked"
proof -
  let ?c = "app_server_capabilities\<lparr>pc_sizes := \<lparr>sc_auto = True, sc_allowed = [],
    sc_arbitrary = True, sc_min_edge = None, sc_max_edge = None, sc_edge_multiple = Some 0,
    sc_min_pixels = None, sc_max_pixels = None, sc_max_aspect_ratio = None\<rparr>\<rparr>"
  let ?r = "(request_generate ''p'')\<lparr>req_parameters :=
    default_generation_parameters\<lparr>gp_size := Image_Size ''8x8''\<rparr>\<rparr>"
  have valid: "capabilities_validate ?c = Inr ()"
    by (simp add: capabilities_validate_def app_server_capabilities_simps count_invalid_def
        batching_invalid_def btree_from_def Let_def)
  have parse: "parse_u32 ''8'' = Some 8"
    by (simp add: parse_u32_def is_ascii_digit_def digit_val_def)
  then have dims: "size_dimensions (Image_Size ''8x8'') = Some (8, 8)"
    by (simp add: size_dimensions_def size_auto_def)
  have "well_formed_request ?r default_request_limits"
    by (simp add: well_formed_defs request_defaults parse size_auto_def)
  moreover have "negotiate_request ?r ?c = Inl Panicked"
    by (simp add: negotiation_defs request_defaults valid dims is_none_or_def size_auto_def)
  ultimately show ?thesis using valid validate_request_Inr_iff by blast
qed

text \<open>An arbitrary explicit size that is accepted under an integral aspect-ratio bound keeps
  the bound exactly: rounding the quotient to a double never admits a size beyond it, nor
  an edge outside the declared limits.\<close>

lemma arbitrary_size_within_bounds:
  assumes "size_supported sz capabilities = Inr True"
    and "size_dimensions sz = Some (width, height)" "width \<noteq> 0" "height \<noteq> 0"
    and "sz \<notin> set (sc_allowed (pc_sizes capabilities))"
    and "sc_max_aspect_ratio (pc_sizes capabilities) = Some (F64_Finite (of_nat ratio))"
  shows "unat (max width height) \<le> ratio * unat (min width height)
    \<and> pred_option (\<lambda>m. max width height \<le> m) (sc_max_edge (pc_sizes capabilities))
    \<and> pred_option (\<lambda>m. m \<le> min width height) (sc_min_edge (pc_sizes capabilities))"
proof -
  have "\<not> size_is_auto sz" using assms(2) by (auto simp: size_dimensions_def size_is_auto_def)
  with assms have le: "f64_le (f64_quotient (max width height) (min width height)) (F64_Finite (of_nat ratio))"
    and edges: "pred_option (\<lambda>m. max width height \<le> m) (sc_max_edge (pc_sizes capabilities))
      \<and> pred_option (\<lambda>m. m \<le> min width height) (sc_min_edge (pc_sizes capabilities))"
    by (simp_all add: size_supported_def is_none_or_pred Let_def split: if_splits
        del: max.bounded_iff min.bounded_iff)
  have "min width height \<noteq> 0" "min width height \<le> max width height"
    using assms(3,4) by (auto simp: min_def max_def)
  with le have "unat (max width height) \<le> ratio * unat (min width height)"
    by (simp add: f64_quotient_integral_bound)
  with edges show ?thesis by blast
qed

lemma arbitrary_size_within_bounds_witness:
  "unat (max 48 16 :: u32) \<le> 3 * unat (min 48 16 :: u32)
    \<and> pred_option (\<lambda>m. max 48 16 \<le> m) (None :: u32 option)
    \<and> pred_option (\<lambda>m. m \<le> min 48 16) (Some 16 :: u32 option)"
proof -
  let ?c = "app_server_capabilities\<lparr>pc_sizes := (pc_sizes app_server_capabilities)
    \<lparr>sc_arbitrary := True, sc_min_edge := Some 16, sc_max_aspect_ratio := Some (F64_Finite (of_nat 3))\<rparr>\<rparr>"
  have parse: "parse_u32 ''48'' = Some 48" "parse_u32 ''16'' = Some 16"
    by (simp_all add: parse_u32_def is_ascii_digit_def digit_val_def)
  then have dims: "size_dimensions (Image_Size ''48x16'') = Some (48, 16)"
    by (simp add: size_dimensions_def size_auto_def)
  have "f64_le (f64_quotient 48 16) (F64_Finite (of_nat 3))"
    by (subst f64_quotient_integral_bound) simp_all
  then have "size_supported (Image_Size ''48x16'') ?c = Inr True"
    by (simp add: size_supported_def dims size_is_auto_def size_auto_def is_none_or_def Let_def
        app_server_capabilities_simps)
  from arbitrary_size_within_bounds [OF this dims] show ?thesis
    by (simp add: app_server_capabilities_simps)
qed

end
