(* ===== verification/Circuit_Breaker.thy ===== *)
theory Circuit_Breaker
  imports Errors "HOL-Library.Multiset"
begin

text \<open>
  \<open>crates/runtime/src/circuit_breaker.rs\<close>: the circuit breaker of one provider. The mutex
  makes every operation atomic, so an operation is a function on the guarded state
  \<open>inner\<close>; the clock it reads is an argument, in nanoseconds. The step relation at the end
  interleaves the operations of any number of callers, each holding the permits it got.
\<close>

section \<open>Configuration and state\<close>

record circuit_config =
  cb_enabled :: bool
  cb_failure_threshold :: u32
  cb_open_duration :: nat
  cb_half_open_max_calls :: u32
  cb_success_threshold :: u32

definition nanos_per_sec :: nat where
  "nanos_per_sec = 1000000000"

definition default_circuit_config :: circuit_config where
  "default_circuit_config =
     \<lparr>cb_enabled = True, cb_failure_threshold = 5, cb_open_duration = 3 * 60 * nanos_per_sec,
      cb_half_open_max_calls = 1, cb_success_threshold = 1\<rparr>"

datatype circuit_state = Circuit_Closed | Circuit_Open | Circuit_Half_Open

record circuit_snapshot =
  cs_state :: circuit_state
  cs_consecutive_failures :: u32
  cs_retry_after_ms :: u64
  cs_rejected_calls :: u64
  cs_transitions :: u64

datatype phase =
    Phase_Closed u32
  | Phase_Open nat
  | Phase_Half_Open u32 u32

record inner =
  ci_phase :: phase
  ci_epoch :: u64
  ci_rejected_calls :: u64
  ci_transitions :: u64

datatype permit_kind = Permit_Closed u64 | Permit_Half_Open u64 | Permit_Disabled

datatype outcome = Healthy | Failed_Outcome | Neutral

definition circuit_new :: "circuit_config \<Rightarrow> inner result" where
  "circuit_new cfg =
     (if cb_enabled cfg
         \<and> (cb_failure_threshold cfg = 0 \<or> cb_open_duration cfg = 0
            \<or> cb_half_open_max_calls cfg = 0 \<or> cb_success_threshold cfg = 0)
      then Inl (error_new Configuration ''enabled circuit-breaker limits must be greater than zero'')
      else Inr \<lparr>ci_phase = Phase_Closed 0, ci_epoch = 0, ci_rejected_calls = 0, ci_transitions = 0\<rparr>)"

section \<open>Operations\<close>

definition duration_ms :: "nat \<Rightarrow> u64" where
  "duration_ms d = (let ms = d div 1000000 in if ms < 2 ^ 64 then of_nat ms else - 1)"

definition open_error :: "string \<Rightarrow> u64 \<Rightarrow> bridge_error" where
  "open_error provider retry_after_ms =
     with_detail ''retry_after_ms'' (JUInt retry_after_ms)
       (with_detail ''circuit_state'' (JStr ''open'')
         (with_provider provider
           (retryable True (error_new Overloaded ''provider circuit breaker is open''))))"

definition counts_as_failure :: "bridge_error \<Rightarrow> bool" where
  "counts_as_failure e =
     (case err_code e of
        RateLimited \<Rightarrow> True | Overloaded \<Rightarrow> True | Timeout \<Rightarrow> True | Upstream \<Rightarrow> True | Protocol \<Rightarrow> True
      | _ \<Rightarrow> False)"

text \<open>Entering a phase starts a new epoch and counts a transition.\<close>

definition enter :: "phase \<Rightarrow> inner \<Rightarrow> inner" where
  "enter p s = s\<lparr>ci_phase := p, ci_epoch := sat_add (ci_epoch s) 1,
                 ci_transitions := sat_add (ci_transitions s) 1\<rparr>"

definition reject_call :: "inner \<Rightarrow> inner" where
  "reject_call s = s\<lparr>ci_rejected_calls := sat_add (ci_rejected_calls s) 1\<rparr>"

definition half_open_when_due :: "nat \<Rightarrow> inner \<Rightarrow> inner" where
  "half_open_when_due now s =
     (case ci_phase s of
        Phase_Open until \<Rightarrow> if until \<le> now then enter (Phase_Half_Open 0 0) s else s
      | _ \<Rightarrow> s)"

definition acquire ::
  "circuit_config \<Rightarrow> string \<Rightarrow> nat \<Rightarrow> inner \<Rightarrow> permit_kind result \<times> inner" where
  "acquire cfg provider now s =
     (if \<not> cb_enabled cfg then (Inr Permit_Disabled, s)
      else let s' = half_open_when_due now s; epoch = ci_epoch s' in
        (case ci_phase s' of
           Phase_Closed _ \<Rightarrow> (Inr (Permit_Closed epoch), s')
         | Phase_Open until \<Rightarrow>
             (Inl (open_error provider (duration_ms (until - now))), reject_call s')
         | Phase_Half_Open in_flight successes \<Rightarrow>
             if in_flight < cb_half_open_max_calls cfg
             then (Inr (Permit_Half_Open epoch),
                   s'\<lparr>ci_phase := Phase_Half_Open (sat_add in_flight 1) successes\<rparr>)
             else (Inl (with_detail ''circuit_state'' (JStr ''half_open'')
                         (open_error provider (duration_ms (cb_open_duration cfg)))),
                   reject_call s')))"

definition snapshot :: "circuit_config \<Rightarrow> nat \<Rightarrow> inner \<Rightarrow> circuit_snapshot" where
  "snapshot cfg now s =
     (let (state, failures, retry_after) =
        (case ci_phase s of
           Phase_Closed consecutive_failures \<Rightarrow> (Circuit_Closed, consecutive_failures, 0)
         | Phase_Open until \<Rightarrow> (Circuit_Open, cb_failure_threshold cfg, duration_ms (until - now))
         | Phase_Half_Open _ _ \<Rightarrow> (Circuit_Half_Open, cb_failure_threshold cfg, 0))
      in \<lparr>cs_state = state, cs_consecutive_failures = failures, cs_retry_after_ms = retry_after,
          cs_rejected_calls = ci_rejected_calls s, cs_transitions = ci_transitions s\<rparr>)"

definition outcome_of :: "unit result \<Rightarrow> outcome" where
  "outcome_of r =
     (case r of Inr _ \<Rightarrow> Healthy | Inl e \<Rightarrow> if counts_as_failure e then Failed_Outcome else Neutral)"

definition permit_epoch :: "permit_kind \<Rightarrow> u64 option" where
  "permit_epoch k =
     (case k of Permit_Closed epoch \<Rightarrow> Some epoch | Permit_Half_Open epoch \<Rightarrow> Some epoch
      | Permit_Disabled \<Rightarrow> None)"

definition complete :: "circuit_config \<Rightarrow> nat \<Rightarrow> permit_kind \<Rightarrow> unit result \<Rightarrow> inner \<Rightarrow> inner" where
  "complete cfg now kind result s =
     (if permit_epoch kind \<noteq> Some (ci_epoch s) then s
      else (case (ci_phase s, kind, outcome_of result) of
          (Phase_Closed _, Permit_Closed _, Healthy) \<Rightarrow> s\<lparr>ci_phase := Phase_Closed 0\<rparr>
        | (Phase_Closed consecutive_failures, Permit_Closed _, Failed_Outcome) \<Rightarrow>
            let failures = sat_add consecutive_failures 1 in
            if cb_failure_threshold cfg \<le> failures
            then enter (Phase_Open (now + cb_open_duration cfg)) s
            else s\<lparr>ci_phase := Phase_Closed failures\<rparr>
        | (Phase_Half_Open in_flight successes, Permit_Half_Open _, Healthy) \<Rightarrow>
            let in_flight' = sat_sub in_flight 1; successes' = sat_add successes 1 in
            if cb_success_threshold cfg \<le> successes' \<and> in_flight' = 0
            then enter (Phase_Closed 0) s
            else s\<lparr>ci_phase := Phase_Half_Open in_flight' successes'\<rparr>
        | (Phase_Half_Open _ _, Permit_Half_Open _, _) \<Rightarrow>
            enter (Phase_Open (now + cb_open_duration cfg)) s
        | _ \<Rightarrow> s))"

definition abandon :: "permit_kind \<Rightarrow> inner \<Rightarrow> inner" where
  "abandon kind s =
     (case (kind, ci_phase s) of
        (Permit_Half_Open epoch, Phase_Half_Open in_flight successes) \<Rightarrow>
          if epoch = ci_epoch s then s\<lparr>ci_phase := Phase_Half_Open (sat_sub in_flight 1) successes\<rparr> else s
      | _ \<Rightarrow> s)"

text \<open>A permit is finished with a result, or dropped and then abandoned.\<close>

datatype permit_end = Finished "unit result" | Dropped

definition end_permit :: "circuit_config \<Rightarrow> nat \<Rightarrow> permit_kind \<Rightarrow> permit_end \<Rightarrow> inner \<Rightarrow> inner" where
  "end_permit cfg now kind how s =
     (case how of Finished result \<Rightarrow> complete cfg now kind result s | Dropped \<Rightarrow> abandon kind s)"

section \<open>Interleaved callers\<close>

text \<open>
  The callers together hold a multiset of permits. The epoch saturates after \<open>2 ^ 64 - 1\<close>
  transitions; the relation covers the runs that stay below.
\<close>

type_synonym breaker_world = "inner \<times> permit_kind multiset"

inductive breaker_step :: "circuit_config \<Rightarrow> breaker_world \<Rightarrow> breaker_world \<Rightarrow> bool" for cfg where
  admit: "acquire cfg provider now s = (Inr k, s') \<Longrightarrow> ci_epoch s' \<noteq> - 1 \<Longrightarrow>
    breaker_step cfg (s, P) (s', add_mset k P)"
| refuse: "acquire cfg provider now s = (Inl e, s') \<Longrightarrow> ci_epoch s' \<noteq> - 1 \<Longrightarrow>
    breaker_step cfg (s, P) (s', P)"
| release: "k \<in># P \<Longrightarrow> end_permit cfg now k how s = s' \<Longrightarrow> ci_epoch s' \<noteq> - 1 \<Longrightarrow>
    breaker_step cfg (s, P) (s', P - {#k#})"

inductive breaker_reach :: "circuit_config \<Rightarrow> breaker_world \<Rightarrow> bool" for cfg where
  start: "circuit_new cfg = Inr s \<Longrightarrow> breaker_reach cfg (s, {#})"
| step: "breaker_reach cfg w \<Longrightarrow> breaker_step cfg w w' \<Longrightarrow> breaker_reach cfg w'"

inductive_cases breaker_step_cases: "breaker_step cfg (s, P) (s', P')"

text \<open>Permits of an epoch, and the invariant.\<close>

definition probes :: "breaker_world \<Rightarrow> nat" where
  "probes w = count (snd w) (Permit_Half_Open (ci_epoch (fst w)))"

definition breaker_inv :: "circuit_config \<Rightarrow> breaker_world \<Rightarrow> bool" where
  "breaker_inv cfg w \<longleftrightarrow>
     (case w of (s, P) \<Rightarrow>
        cb_enabled cfg \<longrightarrow>
          ci_epoch s \<noteq> - 1
          \<and> cb_failure_threshold cfg \<noteq> 0 \<and> cb_half_open_max_calls cfg \<noteq> 0
          \<and> (\<forall>k \<in># P. \<exists>e. permit_epoch k = Some e \<and> e \<le> ci_epoch s)
          \<and> (case ci_phase s of
               Phase_Closed failures \<Rightarrow>
                 failures < cb_failure_threshold cfg \<and> Permit_Half_Open (ci_epoch s) \<notin># P
             | Phase_Open _ \<Rightarrow>
                 Permit_Half_Open (ci_epoch s) \<notin># P \<and> Permit_Closed (ci_epoch s) \<notin># P
             | Phase_Half_Open in_flight _ \<Rightarrow>
                 unat in_flight = probes w \<and> in_flight \<le> cb_half_open_max_calls cfg
                 \<and> Permit_Closed (ci_epoch s) \<notin># P))"

section \<open>The invariant\<close>

lemma sat_add_one_less: "sat_add (e :: 'a::len word) 1 \<noteq> - 1 \<Longrightarrow> e < sat_add e 1"
proof -
  assume "sat_add e 1 \<noteq> - 1"
  then have "unat e + unat (1 :: 'a word) < 2 ^ LENGTH('a)" by (auto simp: sat_add_def split: if_splits)
  then show "e < sat_add e 1"
    by (simp add: word_less_nat_alt unat_sat_add)
qed

lemma unat_sat_add_one: "x < (y :: 'a::len word) \<Longrightarrow> unat (sat_add x 1) = unat x + 1"
proof -
  assume "x < y"
  then have "unat x < unat y" by (simp add: word_less_nat_alt)
  moreover have "unat y < 2 ^ LENGTH('a)" by (rule unsigned_less)
  ultimately have "unat x < 2 ^ LENGTH('a) - 1" by linarith
  then show ?thesis by (simp add: unat_sat_add)
qed

lemma enter_simps [simp]:
  "ci_phase (enter p s) = p"
  "ci_epoch (enter p s) = sat_add (ci_epoch s) 1"
  "ci_rejected_calls (enter p s) = ci_rejected_calls s"
  "ci_transitions (enter p s) = sat_add (ci_transitions s) 1"
  by (simp_all add: enter_def)

lemma reject_call_simps [simp]:
  "ci_phase (reject_call s) = ci_phase s" "ci_epoch (reject_call s) = ci_epoch s"
  by (simp_all add: reject_call_def)

definition permits_below :: "u64 \<Rightarrow> permit_kind multiset \<Rightarrow> bool" where
  "permits_below e P \<longleftrightarrow> (\<forall>k \<in># P. \<exists>e'. permit_epoch k = Some e' \<and> e' \<le> e)"

lemma permits_below_fresh:
  assumes "permits_below e P" "e < e'"
  shows "Permit_Half_Open e' \<notin># P" "Permit_Closed e' \<notin># P"
  using assms by (fastforce simp: permits_below_def permit_epoch_def)+

lemma permits_below_mono: "permits_below e P \<Longrightarrow> e \<le> e' \<Longrightarrow> permits_below e' P"
  unfolding permits_below_def by (meson order_trans)

lemma permits_below_remove: "permits_below e P \<Longrightarrow> permits_below e (P - {#k#})"
  unfolding permits_below_def by (meson in_diffD)

lemma permits_below_add:
  "permits_below e (add_mset k P) \<longleftrightarrow> permits_below e P \<and> (\<exists>e'. permit_epoch k = Some e' \<and> e' \<le> e)"
  by (auto simp: permits_below_def)

text \<open>Entering a phase with no probe counted re-establishes the invariant.\<close>

definition phase_inv :: "circuit_config \<Rightarrow> inner \<Rightarrow> permit_kind multiset \<Rightarrow> bool" where
  "phase_inv cfg s P \<longleftrightarrow>
     (case ci_phase s of
        Phase_Closed failures \<Rightarrow>
          failures < cb_failure_threshold cfg \<and> Permit_Half_Open (ci_epoch s) \<notin># P
      | Phase_Open _ \<Rightarrow> Permit_Half_Open (ci_epoch s) \<notin># P \<and> Permit_Closed (ci_epoch s) \<notin># P
      | Phase_Half_Open in_flight _ \<Rightarrow>
          unat in_flight = count P (Permit_Half_Open (ci_epoch s))
          \<and> in_flight \<le> cb_half_open_max_calls cfg
          \<and> Permit_Closed (ci_epoch s) \<notin># P)"

definition limits_ok :: "circuit_config \<Rightarrow> bool" where
  "limits_ok cfg \<longleftrightarrow> cb_failure_threshold cfg \<noteq> 0 \<and> cb_half_open_max_calls cfg \<noteq> 0"

lemma breaker_inv_iff:
  "breaker_inv cfg (s, P) \<longleftrightarrow>
     (cb_enabled cfg \<longrightarrow>
        limits_ok cfg \<and> ci_epoch s \<noteq> - 1 \<and> permits_below (ci_epoch s) P \<and> phase_inv cfg s P)"
  by (auto simp: breaker_inv_def probes_def permits_below_def phase_inv_def limits_ok_def
      split: phase.splits)

lemma enter_inv:
  assumes "permits_below (ci_epoch s) P" "ci_epoch (enter p s) \<noteq> - 1" "limits_ok cfg"
    and "p = Phase_Closed 0 \<or> (\<exists>until. p = Phase_Open until) \<or> p = Phase_Half_Open 0 0"
  shows "permits_below (ci_epoch (enter p s)) P \<and> phase_inv cfg (enter p s) P"
proof -
  have less: "ci_epoch s < ci_epoch (enter p s)" using assms(2) sat_add_one_less by simp
  note fresh = permits_below_fresh [OF assms(1) less]
  have "permits_below (ci_epoch (enter p s)) P"
    using assms(1) less by (auto intro: permits_below_mono)
  moreover have "phase_inv cfg (enter p s) P"
    using assms(3,4) fresh
    by (auto simp: phase_inv_def limits_ok_def not_in_iff word_gt_0)
  ultimately show ?thesis by blast
qed

lemma half_open_when_due_inv:
  assumes "permits_below (ci_epoch s) P" "phase_inv cfg s P" "limits_ok cfg"
    and "ci_epoch (half_open_when_due now s) \<noteq> - 1"
  shows "permits_below (ci_epoch (half_open_when_due now s)) P \<and> phase_inv cfg (half_open_when_due now s) P"
  using assms enter_inv [of s P "Phase_Half_Open 0 0" cfg]
  by (auto simp: half_open_when_due_def split: phase.splits)

lemma acquire_epoch: "cb_enabled cfg \<Longrightarrow> acquire cfg p now s = (r, s') \<Longrightarrow> ci_epoch s' = ci_epoch (half_open_when_due now s)"
  by (auto simp: acquire_def Let_def split: phase.splits if_splits)

lemma acquire_inv:
  assumes "cb_enabled cfg" "limits_ok cfg" "permits_below (ci_epoch s) P" "phase_inv cfg s P"
    and acq: "acquire cfg p now s = (r, s')" and "ci_epoch s' \<noteq> - 1"
  shows "case r of
      Inr k \<Rightarrow> permits_below (ci_epoch s') (add_mset k P) \<and> phase_inv cfg s' (add_mset k P)
    | Inl e \<Rightarrow> permits_below (ci_epoch s') P \<and> phase_inv cfg s' P"
proof -
  let ?s = "half_open_when_due now s"
  have "ci_epoch ?s \<noteq> - 1" using assms acquire_epoch by metis
  then have inv: "permits_below (ci_epoch ?s) P" "phase_inv cfg ?s P"
    using half_open_when_due_inv assms(2-4) by blast+
  show ?thesis
  proof (cases "ci_phase ?s")
    case (Phase_Closed f)
    then show ?thesis using acq inv assms(1)
      by (auto simp: acquire_def Let_def permits_below_add permit_epoch_def phase_inv_def)
  next
    case (Phase_Open u)
    then show ?thesis using acq inv assms(1)
      by (auto simp: acquire_def Let_def phase_inv_def)
  next
    case (Phase_Half_Open i n)
    show ?thesis
    proof (cases "i < cb_half_open_max_calls cfg")
      case True
      then have "sat_add i 1 \<le> cb_half_open_max_calls cfg"
        by (simp add: word_le_nat_alt word_less_nat_alt unat_sat_add_one [OF True])
      with True show ?thesis using Phase_Half_Open acq inv assms(1)
        by (auto simp: acquire_def Let_def permits_below_add permit_epoch_def phase_inv_def
            unat_sat_add_one [OF True])
    next
      case False
      with Phase_Half_Open show ?thesis using acq inv assms(1)
        by (auto simp: acquire_def Let_def phase_inv_def)
    qed
  qed
qed

lemma unat_sat_sub_one: "unat (sat_sub i (1 :: u32)) = unat i - 1"
  by (simp add: unat_sat_sub)

lemma sat_sub_le: "sat_sub i j \<le> (i :: 'a::len word)"
  by (simp add: word_le_nat_alt unat_sat_sub)

text \<open>Giving back a probe of the current epoch.\<close>

lemma probe_returned:
  assumes "phase_inv cfg s P" "ci_phase s = Phase_Half_Open i n" "Permit_Half_Open (ci_epoch s) \<in># P"
  shows "phase_inv cfg (s\<lparr>ci_phase := Phase_Half_Open (sat_sub i 1) m\<rparr>) (P - {#Permit_Half_Open (ci_epoch s)#})"
  using assms order_trans [OF sat_sub_le]
  by (auto simp: phase_inv_def unat_sat_sub_one dest: in_diffD)

lemma stale_returned:
  assumes "phase_inv cfg s P" "permit_epoch k \<noteq> Some (ci_epoch s)"
  shows "phase_inv cfg s (P - {#k#})"
  using assms by (auto simp: phase_inv_def permit_epoch_def dest: in_diffD split: phase.splits permit_kind.splits)

lemma closed_returned:
  assumes "phase_inv cfg s P" "k = Permit_Closed e"
  shows "phase_inv cfg s (P - {#k#})"
  using assms by (auto simp: phase_inv_def dest: in_diffD split: phase.splits)

lemma complete_inv:
  assumes "limits_ok cfg" "permits_below (ci_epoch s) P" "phase_inv cfg s P" "k \<in># P"
    and "complete cfg now k r s = s'" "ci_epoch s' \<noteq> - 1"
  shows "permits_below (ci_epoch s') (P - {#k#}) \<and> phase_inv cfg s' (P - {#k#})"
proof (cases "permit_epoch k = Some (ci_epoch s)")
  case False
  then show ?thesis using assms stale_returned permits_below_remove by (auto simp: complete_def)
next
  case True
  note below = permits_below_remove [OF assms(2), of k]
  have enter: "permits_below (ci_epoch (enter p s)) (P - {#k#}) \<and> phase_inv cfg (enter p s) (P - {#k#})"
    if "s' = enter p s" "p = Phase_Closed 0 \<or> (\<exists>until. p = Phase_Open until)" for p
    using enter_inv [OF below, of p cfg] that assms(1,6) by blast
  show ?thesis
  proof (cases k)
    case (Permit_Closed e)
    with True have e: "e = ci_epoch s" by (simp add: permit_epoch_def)
    with Permit_Closed assms(3,4) obtain f where f: "ci_phase s = Phase_Closed f"
      by (cases "ci_phase s") (auto simp: phase_inv_def)
    have keep: "phase_inv cfg (s\<lparr>ci_phase := Phase_Closed g\<rparr>) (P - {#k#})"
      if "g < cb_failure_threshold cfg" for g
      using assms(3) f that by (auto simp: phase_inv_def dest: in_diffD)
    have z: "0 < cb_failure_threshold cfg" using assms(1) by (simp add: limits_ok_def word_gt_0)
    show ?thesis
    proof (cases "outcome_of r")
      case Healthy
      with assms(5) True f Permit_Closed have "s' = s\<lparr>ci_phase := Phase_Closed 0\<rparr>"
        by (simp add: complete_def)
      with below keep [OF z] show ?thesis by simp
    next
      case Failed_Outcome
      show ?thesis
      proof (cases "cb_failure_threshold cfg \<le> sat_add f 1")
        case True
        with Failed_Outcome assms(5) \<open>permit_epoch k = _\<close> f Permit_Closed
        have "s' = enter (Phase_Open (now + cb_open_duration cfg)) s" by (simp add: complete_def)
        with enter show ?thesis by blast
      next
        case False
        with Failed_Outcome assms(5) True f Permit_Closed
        have "s' = s\<lparr>ci_phase := Phase_Closed (sat_add f 1)\<rparr>" by (simp add: complete_def)
        with below keep [of "sat_add f 1"] False show ?thesis by (simp add: not_le)
      qed
    next
      case Neutral
      with assms(5) True f Permit_Closed have "s' = s" by (simp add: complete_def)
      with below closed_returned [OF assms(3) Permit_Closed] show ?thesis by simp
    qed
  next
    case (Permit_Half_Open e)
    with True have e: "e = ci_epoch s" by (simp add: permit_epoch_def)
    with Permit_Half_Open assms(3,4) obtain i n where i: "ci_phase s = Phase_Half_Open i n"
      by (cases "ci_phase s") (auto simp: phase_inv_def)
    note returned = probe_returned [OF assms(3) i]
    show ?thesis
    proof (cases "outcome_of r = Healthy \<and> \<not> (cb_success_threshold cfg \<le> sat_add n 1 \<and> sat_sub i 1 = 0)")
      case True
      with assms(5) \<open>permit_epoch k = _\<close> i Permit_Half_Open
      have "s' = s\<lparr>ci_phase := Phase_Half_Open (sat_sub i 1) (sat_add n 1)\<rparr>"
        by (auto simp: complete_def Let_def)
      with below returned [of "sat_add n 1"] assms(4) Permit_Half_Open e show ?thesis by simp
    next
      case False
      with assms(5) True i Permit_Half_Open
      have "s' = enter (Phase_Closed 0) s \<or> s' = enter (Phase_Open (now + cb_open_duration cfg)) s"
        by (cases "outcome_of r") (auto simp: complete_def Let_def)
      with enter show ?thesis by blast
    qed
  next
    case Permit_Disabled
    with True show ?thesis by (simp add: permit_epoch_def)
  qed
qed

lemma abandon_inv:
  assumes "permits_below (ci_epoch s) P" "phase_inv cfg s P" "k \<in># P" "abandon k s = s'"
  shows "permits_below (ci_epoch s') (P - {#k#}) \<and> phase_inv cfg s' (P - {#k#})"
proof (cases "permit_epoch k = Some (ci_epoch s)")
  case False
  then have "s' = s" using assms(4)
    by (auto simp: abandon_def permit_epoch_def split: permit_kind.splits phase.splits if_splits)
  then show ?thesis using permits_below_remove [OF assms(1)] stale_returned [OF assms(2) False] by simp
next
  case True
  show ?thesis
  proof (cases k)
    case (Permit_Closed e)
    with assms closed_returned permits_below_remove show ?thesis by (auto simp: abandon_def)
  next
    case (Permit_Half_Open e)
    with True have e: "e = ci_epoch s" by (simp add: permit_epoch_def)
    with Permit_Half_Open assms(2,3) obtain i n where i: "ci_phase s = Phase_Half_Open i n"
      by (cases "ci_phase s") (auto simp: phase_inv_def)
    with assms e Permit_Half_Open probe_returned [OF assms(2) i] permits_below_remove show ?thesis
      by (auto simp: abandon_def)
  next
    case Permit_Disabled
    with True show ?thesis by (simp add: permit_epoch_def)
  qed
qed

lemma breaker_step_inv:
  assumes "breaker_inv cfg w" "breaker_step cfg w w'"
  shows "breaker_inv cfg w'"
  using assms(2,1)
proof cases
  case (admit provider now s k s' P)
  with assms(1) acquire_inv [of cfg s P provider now "Inr k" s'] show ?thesis
    by (auto simp: breaker_inv_iff)
next
  case (refuse provider now s e s' P)
  with assms(1) acquire_inv [of cfg s P provider now "Inl e" s'] show ?thesis
    by (auto simp: breaker_inv_iff)
next
  case (release k P now how s s')
  with assms(1) complete_inv [of cfg s P k now _ s'] abandon_inv [of s P cfg k s'] show ?thesis
    by (cases how) (auto simp: breaker_inv_iff end_permit_def)
qed

lemma breaker_reach_inv: "breaker_reach cfg w \<Longrightarrow> breaker_inv cfg w"
proof (induction rule: breaker_reach.induct)
  case (start s)
  then show ?case
    by (auto simp: breaker_inv_iff circuit_new_def limits_ok_def permits_below_def phase_inv_def
        word_gt_0 split: if_splits)
next
  case (step w w')
  then show ?case using breaker_step_inv by blast
qed

section \<open>Serial calls\<close>

text \<open>One caller at a time: a call that is admitted completes with its result.\<close>

record timed_call =
  call_start :: nat
  call_end :: nat
  call_result :: "unit result"

definition serial_call :: "circuit_config \<Rightarrow> string \<Rightarrow> timed_call \<Rightarrow> inner \<Rightarrow> inner" where
  "serial_call cfg provider c s =
     (case acquire cfg provider (call_start c) s of
        (Inr k, s') \<Rightarrow> complete cfg (call_end c) k (call_result c) s'
      | (Inl _, s') \<Rightarrow> s')"

lemma outcome_of_failing:
  "\<exists>e. call_result c = Inl e \<and> counts_as_failure e \<Longrightarrow> outcome_of (call_result c) = Failed_Outcome"
  by (auto simp: outcome_of_def)

lemma sat_add_of_nat: "Suc n < 2 ^ 32 \<Longrightarrow> sat_add (of_nat n) 1 = (of_nat (Suc n) :: u32)"
proof -
  assume n: "Suc n < 2 ^ 32"
  have "unat (of_nat n :: u32) = n" "unat (of_nat (Suc n) :: u32) = Suc n"
    using n by (simp_all only: unat_of_nat) simp_all
  then have "unat (sat_add (of_nat n) 1 :: u32) = unat (of_nat (Suc n) :: u32)"
    using n by (simp only: unat_sat_add) simp
  then show ?thesis by (simp only: word_unat_eq_iff)
qed

lemma closed_call_fails:
  assumes "cb_enabled cfg" "ci_phase s = Phase_Closed f" "outcome_of (call_result c) = Failed_Outcome"
  shows "serial_call cfg p c s =
    (if cb_failure_threshold cfg \<le> sat_add f 1
     then enter (Phase_Open (call_end c + cb_open_duration cfg)) s
     else s\<lparr>ci_phase := Phase_Closed (sat_add f 1)\<rparr>)"
  using assms
  by (simp add: serial_call_def acquire_def half_open_when_due_def complete_def permit_epoch_def Let_def)

lemma failures_counted:
  assumes "cb_enabled cfg" "ci_phase s = Phase_Closed 0"
    and "\<forall>c \<in> set calls. outcome_of (call_result c) = Failed_Outcome"
    and "length calls < unat (cb_failure_threshold cfg)"
  shows "ci_phase (fold (serial_call cfg p) calls s) = Phase_Closed (of_nat (length calls))"
  using assms(3,4)
proof (induction calls rule: rev_induct)
  case Nil
  then show ?case using assms(2) by simp
next
  case (snoc c calls)
  let ?n = "length calls"
  have "unat (cb_failure_threshold cfg) < 2 ^ 32" by (rule unat_u32_less)
  then have n: "Suc ?n < 2 ^ 32" "Suc ?n < unat (cb_failure_threshold cfg)" using snoc.prems(2) by simp_all
  from snoc have "ci_phase (fold (serial_call cfg p) calls s) = Phase_Closed (of_nat ?n)" by simp
  moreover have "\<not> cb_failure_threshold cfg \<le> of_nat (Suc ?n)"
    using n by (simp add: word_le_nat_alt unat_of_nat del: of_nat_Suc)
  ultimately show ?case
    using snoc.prems(1) closed_call_fails [OF assms(1)] sat_add_of_nat [OF n(1)] by simp
qed

lemma probe_succeeds:
  assumes "cb_enabled cfg" "cb_half_open_max_calls cfg \<noteq> 0" "call_result c = Inr ()"
    and "ci_phase (half_open_when_due (call_start c) s) = Phase_Half_Open 0 n"
  shows "ci_phase (serial_call cfg p c s) =
    (if cb_success_threshold cfg \<le> sat_add n 1 then Phase_Closed 0 else Phase_Half_Open 0 (sat_add n 1))"
proof -
  have "0 < cb_half_open_max_calls cfg" using assms(2) by (simp add: word_gt_0)
  then show ?thesis using assms
    by (simp add: serial_call_def acquire_def complete_def permit_epoch_def outcome_of_def Let_def
        sat_add_def sat_sub_def)
qed

lemma probes_recover:
  assumes "cb_enabled cfg" "cb_half_open_max_calls cfg \<noteq> 0" "ci_phase s = Phase_Open until"
    and "\<forall>c \<in> set calls. until \<le> call_start c \<and> call_result c = Inr ()"
    and "calls \<noteq> []" "length calls < unat (cb_success_threshold cfg)"
  shows "ci_phase (fold (serial_call cfg p) calls s) = Phase_Half_Open 0 (of_nat (length calls))"
  using assms(4,5,6)
proof (induction calls rule: rev_induct)
  case (snoc c calls)
  let ?n = "length calls" and ?s = "fold (serial_call cfg p) calls s"
  have "unat (cb_success_threshold cfg) < 2 ^ 32" by (rule unat_u32_less)
  then have n: "Suc ?n < 2 ^ 32" "Suc ?n < unat (cb_success_threshold cfg)" using snoc.prems(3) by simp_all
  have "ci_phase (half_open_when_due (call_start c) ?s) = Phase_Half_Open 0 (of_nat ?n)"
  proof (cases "calls = []")
    case True
    with assms(3) snoc.prems(1) show ?thesis by (simp add: half_open_when_due_def)
  next
    case False
    with snoc have "ci_phase ?s = Phase_Half_Open 0 (of_nat ?n)" by simp
    then show ?thesis by (simp add: half_open_when_due_def)
  qed
  moreover have "\<not> cb_success_threshold cfg \<le> of_nat (Suc ?n)"
    using n by (simp add: word_le_nat_alt unat_of_nat del: of_nat_Suc)
  ultimately show ?case
    using probe_succeeds [OF assms(1,2), of c ?s "of_nat ?n" p] snoc.prems(1) sat_add_of_nat [OF n(1)]
    by simp
qed simp

section \<open>Properties\<close>

text \<open>C29. However callers interleave, the probes outstanding in the current half-open epoch are
  counted exactly and never exceed the configured maximum, and a closed circuit has seen
  fewer consecutive failures than the threshold.\<close>

theorem breaker_counts_probes:
  assumes "breaker_reach cfg (s, P)" "cb_enabled cfg"
  shows "(case ci_phase s of
      Phase_Closed failures \<Rightarrow> failures < cb_failure_threshold cfg \<and> probes (s, P) = 0
    | Phase_Open _ \<Rightarrow> probes (s, P) = 0
    | Phase_Half_Open in_flight _ \<Rightarrow>
        probes (s, P) = unat in_flight \<and> in_flight \<le> cb_half_open_max_calls cfg)"
  using breaker_reach_inv [OF assms(1)] assms(2)
  by (auto simp: breaker_inv_iff phase_inv_def probes_def not_in_iff split: phase.splits)

theorem breaker_counts_probes_witness:
  "\<exists>s P. case ci_phase s of
      Phase_Closed failures \<Rightarrow> failures < (5 :: u32) \<and> probes (s, P) = 0
    | Phase_Open _ \<Rightarrow> probes (s, P) = 0
    | Phase_Half_Open in_flight _ \<Rightarrow> probes (s, P) = unat in_flight \<and> in_flight \<le> 1"
proof -
  let ?s = "\<lparr>ci_phase = Phase_Closed 0, ci_epoch = 0, ci_rejected_calls = 0, ci_transitions = 0\<rparr>"
  have "circuit_new default_circuit_config = Inr ?s"
    by (simp add: circuit_new_def default_circuit_config_def nanos_per_sec_def)
  then have "breaker_reach default_circuit_config (?s, {#})" by (rule breaker_reach.start)
  moreover have "breaker_step default_circuit_config (?s, {#}) (?s, {#Permit_Closed 0#})"
    by (rule breaker_step.admit [of _ "''p''" 0])
      (simp_all add: acquire_def half_open_when_due_def default_circuit_config_def)
  ultimately have "breaker_reach default_circuit_config (?s, {#Permit_Closed 0#})"
    by (rule breaker_reach.step)
  from breaker_counts_probes [OF this] show ?thesis
    by (intro exI [of _ ?s] exI [of _ "{#Permit_Closed 0#}"]) (simp add: default_circuit_config_def)
qed

text \<open>Starting fresh, exactly the threshold number of consecutive qualifying failures opens
  the circuit, until the recovery delay after the last of them has passed.\<close>

lemma failures_open_the_circuit:
  assumes "circuit_new cfg = Inr s" "cb_enabled cfg"
    and "\<forall>c \<in> set (calls @ [c]). \<exists>e. call_result c = Inl e \<and> counts_as_failure e"
    and "length (calls @ [c]) = unat (cb_failure_threshold cfg)"
  shows "ci_phase (fold (serial_call cfg p) calls s) = Phase_Closed (of_nat (length calls))
    \<and> ci_phase (fold (serial_call cfg p) (calls @ [c]) s) = Phase_Open (call_end c + cb_open_duration cfg)"
proof -
  have phase: "ci_phase s = Phase_Closed 0" using assms(1) by (auto simp: circuit_new_def split: if_splits)
  have failing: "\<forall>c \<in> set (calls @ [c]). outcome_of (call_result c) = Failed_Outcome"
    using assms(3) outcome_of_failing by blast
  have closed: "ci_phase (fold (serial_call cfg p) calls s) = Phase_Closed (of_nat (length calls))"
    using failures_counted [OF assms(2) phase] failing assms(4) by simp
  have n: "Suc (length calls) < 2 ^ 32"
    using assms(4) unat_u32_less [of "cb_failure_threshold cfg"] by simp
  have "cb_failure_threshold cfg \<le> of_nat (Suc (length calls))"
    using assms(4) n by (simp add: word_le_nat_alt unat_of_nat del: of_nat_Suc)
  with closed show ?thesis
    using closed_call_fails [OF assms(2) closed] failing sat_add_of_nat [OF n] by simp
qed

lemma failures_open_the_circuit_witness:
  "\<exists>cfg s c. ci_phase (fold (serial_call cfg ''p'') [] s) = Phase_Closed 0
    \<and> ci_phase (fold (serial_call cfg ''p'') [c] s) = Phase_Open (7 + 180000000000)"
proof -
  let ?cfg = "default_circuit_config\<lparr>cb_failure_threshold := 1\<rparr>"
    and ?s = "\<lparr>ci_phase = Phase_Closed 0, ci_epoch = 0, ci_rejected_calls = 0, ci_transitions = 0\<rparr>"
    and ?c = "\<lparr>call_start = 3, call_end = 7, call_result = Inl (error_new Upstream ''x'')\<rparr>"
  have "circuit_new ?cfg = Inr ?s"
    by (simp add: circuit_new_def default_circuit_config_def nanos_per_sec_def)
  from failures_open_the_circuit [OF this, of "[]" ?c "''p''"]
  have "ci_phase (fold (serial_call ?cfg ''p'') [] ?s) = Phase_Closed 0
    \<and> ci_phase (fold (serial_call ?cfg ''p'') [?c] ?s) = Phase_Open (7 + 180000000000)"
    by (simp add: default_circuit_config_def nanos_per_sec_def counts_as_failure_def)
  then show ?thesis by blast
qed

text \<open>An open circuit refuses every call until its delay has passed, touching nothing but
  the counter of refused calls; afterwards the configured number of successful probes
  closes it.\<close>

lemma open_circuit_refuses_then_recovers:
  assumes "cb_enabled cfg" "cb_half_open_max_calls cfg \<noteq> 0" "ci_phase s = Phase_Open until"
    and "\<forall>c \<in> set (calls @ [c]). until \<le> call_start c \<and> call_result c = Inr ()"
    and "length (calls @ [c]) = unat (cb_success_threshold cfg)"
  shows "(\<forall>now < until. acquire cfg p now s =
            (Inl (open_error p (duration_ms (until - now))), reject_call s))
    \<and> ci_phase (fold (serial_call cfg p) (calls @ [c]) s) = Phase_Closed 0"
proof -
  let ?n = "length calls" and ?s = "fold (serial_call cfg p) calls s"
  have n: "Suc ?n < 2 ^ 32"
    using assms(5) unat_u32_less [of "cb_success_threshold cfg"] by simp
  have "ci_phase (half_open_when_due (call_start c) ?s) = Phase_Half_Open 0 (of_nat ?n)"
  proof (cases "calls = []")
    case True
    with assms(3,4) show ?thesis by (simp add: half_open_when_due_def)
  next
    case False
    with probes_recover [OF assms(1-3)] assms(4,5)
    have "ci_phase ?s = Phase_Half_Open 0 (of_nat ?n)" by simp
    then show ?thesis by (simp add: half_open_when_due_def)
  qed
  moreover have "cb_success_threshold cfg \<le> of_nat (Suc ?n)"
    using assms(5) n by (simp add: word_le_nat_alt unat_of_nat del: of_nat_Suc)
  ultimately have "ci_phase (fold (serial_call cfg p) (calls @ [c]) s) = Phase_Closed 0"
    using probe_succeeds [OF assms(1,2), of c ?s "of_nat ?n" p] assms(4) sat_add_of_nat [OF n] by simp
  moreover have "acquire cfg p now s = (Inl (open_error p (duration_ms (until - now))), reject_call s)"
    if "now < until" for now
    using assms(1,3) that by (simp add: acquire_def half_open_when_due_def)
  ultimately show ?thesis by blast
qed

lemma open_circuit_refuses_then_recovers_witness:
  "\<exists>s c. (\<forall>now < 10. acquire default_circuit_config ''p'' now s =
            (Inl (open_error ''p'' (duration_ms (10 - now))), reject_call s))
    \<and> ci_phase (fold (serial_call default_circuit_config ''p'') [c] s) = Phase_Closed 0"
proof -
  let ?s = "\<lparr>ci_phase = Phase_Open 10, ci_epoch = 1, ci_rejected_calls = 0, ci_transitions = 1\<rparr>"
    and ?c = "\<lparr>call_start = 12, call_end = 13, call_result = Inr ()\<rparr>"
  from open_circuit_refuses_then_recovers [of default_circuit_config ?s 10 "[]" ?c "''p''"]
  have "(\<forall>now < 10. acquire default_circuit_config ''p'' now ?s =
            (Inl (open_error ''p'' (duration_ms (10 - now))), reject_call ?s))
    \<and> ci_phase (fold (serial_call default_circuit_config ''p'') [?c] ?s) = Phase_Closed 0"
    by (simp add: default_circuit_config_def)
  then show ?thesis by blast
qed

text \<open>The end of a call that was admitted in an earlier epoch, before the circuit opened or
  closed, changes nothing, whatever its result.\<close>

lemma stale_permit_changes_nothing:
  assumes "permit_epoch k \<noteq> Some (ci_epoch s)"
  shows "end_permit cfg now k how s = s"
  using assms
  by (auto simp: end_permit_def complete_def abandon_def permit_epoch_def
      split: permit_end.splits permit_kind.splits phase.splits)

lemma stale_permit_changes_nothing_witness:
  "end_permit default_circuit_config 5 (Permit_Half_Open 1) (Finished (Inr ()))
     \<lparr>ci_phase = Phase_Half_Open 1 0, ci_epoch = 3, ci_rejected_calls = 0, ci_transitions = 3\<rparr>
   = \<lparr>ci_phase = Phase_Half_Open 1 0, ci_epoch = 3, ci_rejected_calls = 0, ci_transitions = 3\<rparr>"
  by (rule stale_permit_changes_nothing) (simp add: permit_epoch_def)

end
