(* ===== verification/Idempotency.thy ===== *)
theory Idempotency
  imports Response
begin

text \<open>
  \<open>crates/runtime/src/idempotency.rs\<close>: the coordinator of idempotency keys. The async mutex
  serialises the operations, so each is a function on the guarded state; the instant it
  reads is an argument, in nanoseconds. The \<open>HashMap\<close> is an association list with distinct
  keys, in the unspecified iteration order of the map. A watch channel is a cell of
  \<open>st_channels\<close>: an entry holds its sender, a waiter keeps the cell's index after the entry
  is gone. The request digest (SHA-256 of the serialised request) and the serialised weight
  of a response are arguments.
\<close>

section \<open>Configuration and state\<close>

record idempotency_config =
  ic_max_entries :: usize
  ic_max_completed_bytes :: usize
  ic_completed_ttl :: nat
  ic_in_flight_ttl :: nat
  ic_unknown_ttl :: nat

definition default_idempotency_config :: idempotency_config where
  "default_idempotency_config =
     \<lparr>ic_max_entries = 10000, ic_max_completed_bytes = 256 * 1024 * 1024,
      ic_completed_ttl = 24 * 60 * 60 * 1000000000, ic_in_flight_ttl = 31 * 60 * 1000000000,
      ic_unknown_ttl = 24 * 60 * 60 * 1000000000\<rparr>"

datatype entry_outcome =
    Out_Pending
  | Out_Completed image_response
  | Out_Failed bridge_error
  | Out_Unknown bridge_error

record record_key =
  rk_scope :: string
  rk_key :: string

record idem_token =
  tk_record_key :: record_key
  tk_fingerprint :: string

record idem_entry =
  en_fingerprint :: string
  en_created_at :: nat
  en_expires_at :: "nat option"
  en_retained_bytes :: usize
  en_uncertain :: bool
  en_last_access :: u64
  en_sender :: nat

record idem_state =
  st_entries :: "(record_key \<times> idem_entry) list"
  st_completed_bytes :: usize
  st_access_clock :: u64
  st_channels :: "nat \<Rightarrow> entry_outcome"
  st_next_channel :: nat

datatype idem_action =
    Act_Leader idem_token
  | Act_Cached image_response
  | Act_Wait nat

definition idem_new :: "idempotency_config \<Rightarrow> idem_state result" where
  "idem_new cfg =
     (if ic_max_entries cfg = 0 \<or> ic_max_completed_bytes cfg = 0 \<or> ic_completed_ttl cfg = 0
         \<or> ic_in_flight_ttl cfg = 0 \<or> ic_unknown_ttl cfg = 0
      then Inl (error_new Configuration
                  ''idempotency limits and retention periods must be greater than zero'')
      else Inr \<lparr>st_entries = [], st_completed_bytes = 0, st_access_clock = 0,
                st_channels = (\<lambda>_. Out_Pending), st_next_channel = 0\<rparr>)"

section \<open>The table\<close>

definition lookup_entry :: "record_key \<Rightarrow> idem_state \<Rightarrow> idem_entry option" where
  "lookup_entry k st = map_of (st_entries st) k"

definition alter_entry :: "record_key \<Rightarrow> (idem_entry \<Rightarrow> idem_entry) \<Rightarrow> idem_state \<Rightarrow> idem_state" where
  "alter_entry k f st =
     st\<lparr>st_entries := map (\<lambda>(k', e). if k' = k then (k', f e) else (k', e)) (st_entries st)\<rparr>"

definition send_replace :: "nat \<Rightarrow> entry_outcome \<Rightarrow> idem_state \<Rightarrow> idem_state" where
  "send_replace c v st = st\<lparr>st_channels := (st_channels st)(c := v)\<rparr>"

definition remove_entry :: "record_key \<Rightarrow> idem_state \<Rightarrow> idem_entry option \<times> idem_state" where
  "remove_entry k st =
     (case lookup_entry k st of
        None \<Rightarrow> (None, st)
      | Some e \<Rightarrow>
          (Some e, st\<lparr>st_entries := filter (\<lambda>(k', _). k' \<noteq> k) (st_entries st),
                     st_completed_bytes := st_completed_bytes st - en_retained_bytes e\<rparr>))"

definition stale_entry :: "nat \<Rightarrow> nat \<Rightarrow> idem_entry \<Rightarrow> bool" where
  "stale_entry now in_flight_ttl e =
     (case en_expires_at e of
        Some expires \<Rightarrow> expires \<le> now
      | None \<Rightarrow> in_flight_ttl \<le> now - en_created_at e)"

definition expired_error :: bridge_error where
  "expired_error = retryable True (error_new Timeout ''idempotent operation expired'')"

definition expire_entry :: "record_key \<Rightarrow> idem_state \<Rightarrow> idem_state" where
  "expire_entry k st =
     (case remove_entry k st of
        (Some e, st') \<Rightarrow>
          if en_expires_at e = None then send_replace (en_sender e) (Out_Failed expired_error) st' else st'
      | (None, st') \<Rightarrow> st')"

definition cleanup :: "nat \<Rightarrow> nat \<Rightarrow> idem_state \<Rightarrow> idem_state" where
  "cleanup now in_flight_ttl st =
     fold expire_entry
       (map fst (filter (\<lambda>(_, e). stale_entry now in_flight_ttl e) (st_entries st))) st"

text \<open>\<open>Iterator::min_by_key\<close>: the first entry with the least access stamp.\<close>

fun oldest :: "(record_key \<times> idem_entry) list \<Rightarrow> record_key option" where
  "oldest [] = None"
| "oldest ((k, e) # es) =
     (case oldest es of
        None \<Rightarrow> Some k
      | Some k' \<Rightarrow>
          (case map_of es k' of
             None \<Rightarrow> Some k
           | Some e' \<Rightarrow> if en_last_access e \<le> en_last_access e' then Some k else Some k'))"

definition make_capacity :: "usize \<Rightarrow> idem_state \<Rightarrow> unit result \<times> idem_state" where
  "make_capacity maximum st =
     (if length (st_entries st) < maximum then (Inr (), st)
      else (case oldest (filter (\<lambda>(_, e). en_expires_at e \<noteq> None \<and> \<not> en_uncertain e) (st_entries st)) of
          Some k \<Rightarrow> (Inr (), snd (remove_entry k st))
        | None \<Rightarrow>
            (Inl (retryable True (error_new Overloaded ''idempotency capacity is exhausted'')), st)))"

definition byte_victim :: "record_key \<Rightarrow> idem_state \<Rightarrow> record_key option" where
  "byte_victim exclude st =
     oldest (filter (\<lambda>(k, e). k \<noteq> exclude \<and> 0 < en_retained_bytes e \<and> \<not> en_uncertain e)
               (st_entries st))"

lemma oldest_in: "oldest es = Some k \<Longrightarrow> k \<in> fst ` set es"
  by (induction es arbitrary: k rule: oldest.induct) (force split: option.splits if_splits)+

lemma oldest_None [simp]: "oldest es = None \<longleftrightarrow> es = []"
  by (cases es) (auto split: option.splits)

lemma byte_victim_in: "byte_victim x st = Some k \<Longrightarrow> k \<in> fst ` set (st_entries st)"
  unfolding byte_victim_def by (drule oldest_in) auto

function reserve_completed_bytes ::
  "usize \<Rightarrow> usize \<Rightarrow> record_key \<Rightarrow> idem_state \<Rightarrow> unit result \<times> idem_state" where
  "reserve_completed_bytes incoming maximum exclude st =
     (if usize_sat_add (st_completed_bytes st) incoming \<le> maximum then (Inr (), st)
      else (case byte_victim exclude st of
          None \<Rightarrow> (Inl (error_new Overloaded
                     ''idempotency completed-response byte capacity is exhausted''), st)
        | Some victim \<Rightarrow>
            reserve_completed_bytes incoming maximum exclude (snd (remove_entry victim st))))"
  by pat_completeness auto
termination
proof (relation "measure (\<lambda>(_, _, _, st). length (st_entries st))")
  fix incoming maximum exclude st victim
  assume "byte_victim exclude st = Some victim"
  then obtain e where e: "(victim, e) \<in> set (st_entries st)" using byte_victim_in by fastforce
  then have "lookup_entry victim st \<noteq> None"
    using weak_map_of_SomeI by (fastforce simp: lookup_entry_def)
  moreover have "length (filter (\<lambda>(k', _). k' \<noteq> victim) (st_entries st)) < length (st_entries st)"
    using e by (intro length_filter_less) auto
  ultimately show "((incoming, maximum, exclude, snd (remove_entry victim st)), incoming, maximum, exclude, st)
      \<in> measure (\<lambda>(_, _, _, st). length (st_entries st))"
    by (auto simp: remove_entry_def)
qed simp

declare reserve_completed_bytes.simps [simp del]

section \<open>Operations of the coordinator\<close>

definition validate_scope :: "string \<Rightarrow> unit result" where
  "validate_scope scope =
     (if scope = [] \<or> 256 < length scope \<or> has_control scope
      then Inl (error_new InvalidRequest ''invalid idempotency scope'')
      else Inr ())"

definition request_fingerprint :: "(image_request \<Rightarrow> string result) \<Rightarrow> image_request \<Rightarrow> string result" where
  "request_fingerprint digest r = digest (r\<lparr>req_idempotency_key := None, req_timeout_ms := None\<rparr>)"

definition begin_found :: "string \<Rightarrow> u64 \<Rightarrow> record_key \<Rightarrow> idem_entry \<Rightarrow> idem_state \<Rightarrow> idem_action result \<times> idem_state" where
  "begin_found fingerprint access k e st =
     (if en_fingerprint e \<noteq> fingerprint
      then (Inl (error_new IdempotencyConflict
                   ''idempotency key was already used for a different request''), st)
      else
        (case st_channels st (en_sender e) of
           Out_Completed response \<Rightarrow> Inr (Act_Cached response)
         | Out_Failed error \<Rightarrow> Inl error
         | Out_Unknown error \<Rightarrow> Inl error
         | Out_Pending \<Rightarrow> Inr (Act_Wait (en_sender e)),
         alter_entry k (\<lambda>e. e\<lparr>en_last_access := access\<rparr>) st))"

definition begin_new :: "idempotency_config \<Rightarrow> string \<Rightarrow> u64 \<Rightarrow> nat \<Rightarrow> record_key \<Rightarrow> idem_state \<Rightarrow> idem_action result \<times> idem_state" where
  "begin_new cfg fingerprint access now k st =
     (case make_capacity (ic_max_entries cfg) st of
        (Inl error, st1) \<Rightarrow> (Inl error, st1)
      | (Inr _, st1) \<Rightarrow>
          let sender = st_next_channel st1;
              e = \<lparr>en_fingerprint = fingerprint, en_created_at = now, en_expires_at = None,
                   en_retained_bytes = 0, en_uncertain = False, en_last_access = access,
                   en_sender = sender\<rparr>
          in (Inr (Act_Leader \<lparr>tk_record_key = k, tk_fingerprint = fingerprint\<rparr>),
              st1\<lparr>st_entries := (k, e) # st_entries st1, st_next_channel := Suc sender,
                  st_channels := (st_channels st1)(sender := Out_Pending)\<rparr>))"

definition idem_begin ::
  "idempotency_config \<Rightarrow> (image_request \<Rightarrow> string result) \<Rightarrow> nat \<Rightarrow> string \<Rightarrow> string \<Rightarrow> image_request
   \<Rightarrow> idem_state \<Rightarrow> idem_action result \<times> idem_state" where
  "idem_begin cfg digest now scope key request st =
     (case validate_scope scope of
        Inl error \<Rightarrow> (Inl error, st)
      | Inr _ \<Rightarrow>
     (case request_fingerprint digest request of
        Inl error \<Rightarrow> (Inl error, st)
      | Inr fingerprint \<Rightarrow>
          let k = \<lparr>rk_scope = scope, rk_key = key\<rparr>;
              st1 = cleanup now (ic_in_flight_ttl cfg) st;
              access = sat_add (st_access_clock st1) 1;
              st2 = st1\<lparr>st_access_clock := access\<rparr>
          in (case lookup_entry k st2 of
                Some e \<Rightarrow> begin_found fingerprint access k e st2
              | None \<Rightarrow> begin_new cfg fingerprint access now k st2)))"

definition unreplayable_error :: bridge_error where
  "unreplayable_error =
     with_detail ''outcome'' (JStr ''completed_unreplayable'')
       (retryable False (error_new Overloaded ''completed response is too large for idempotent replay''))"

definition token_entry :: "idem_token \<Rightarrow> idem_state \<Rightarrow> idem_entry option" where
  "token_entry token st =
     (case lookup_entry (tk_record_key token) st of
        None \<Rightarrow> None
      | Some e \<Rightarrow> if en_fingerprint e = tk_fingerprint token then Some e else None)"

text \<open>The weight is \<open>None\<close> when it cannot be measured; it then counts as the maximum.\<close>

definition idem_complete ::
  "idempotency_config \<Rightarrow> nat \<Rightarrow> idem_token \<Rightarrow> image_response \<Rightarrow> usize option \<Rightarrow> idem_state \<Rightarrow> idem_state" where
  "idem_complete cfg now token response weight st =
     (let k = tk_record_key token;
          retained = (case weight of None \<Rightarrow> usize_max | Some w \<Rightarrow> w);
          expires = Some (now + ic_completed_ttl cfg)
      in (case token_entry token st of
        None \<Rightarrow> st
      | Some e \<Rightarrow>
          (case (if ic_max_completed_bytes cfg < retained then (False, st)
                 else (case reserve_completed_bytes retained (ic_max_completed_bytes cfg) k st of
                         (r, st1) \<Rightarrow> (is_ok r, st1))) of
             (False, st1) \<Rightarrow>
               send_replace (en_sender e) (Out_Unknown unreplayable_error)
                 (alter_entry k (\<lambda>e. e\<lparr>en_expires_at := expires, en_uncertain := True,
                                      en_retained_bytes := 0\<rparr>) st1)
           | (True, st1) \<Rightarrow>
               let access = sat_add (st_access_clock st1) 1 in
               send_replace (en_sender e) (Out_Completed response)
                 ((alter_entry k (\<lambda>e. e\<lparr>en_expires_at := expires, en_uncertain := False,
                       en_retained_bytes := retained, en_last_access := access\<rparr>) st1)
                  \<lparr>st_access_clock := access,
                   st_completed_bytes := usize_sat_add (st_completed_bytes st1) retained\<rparr>))))"

definition idem_fail :: "idempotency_config \<Rightarrow> nat \<Rightarrow> idem_token \<Rightarrow> bridge_error \<Rightarrow> idem_state \<Rightarrow> idem_state" where
  "idem_fail cfg now token error st =
     (let k = tk_record_key token in
      (case token_entry token st of
        None \<Rightarrow> st
      | Some e \<Rightarrow>
          if outcome_unknown error
          then send_replace (en_sender e)
                 (Out_Unknown (with_detail ''outcome'' (JStr ''unknown'') (retryable False error)))
                 (alter_entry k (\<lambda>e. e\<lparr>en_expires_at := Some (now + ic_unknown_ttl cfg),
                                      en_uncertain := True\<rparr>) st)
          else send_replace (en_sender e) (Out_Failed error) (snd (remove_entry k st))))"

text \<open>One poll of a waiter: its result, or none while the leader is at work.\<close>

definition poll_waiter :: "nat \<Rightarrow> idem_state \<Rightarrow> image_response result option" where
  "poll_waiter c st =
     (case st_channels st c of
        Out_Completed response \<Rightarrow> Some (Inr response)
      | Out_Failed error \<Rightarrow> Some (Inl error)
      | Out_Unknown error \<Rightarrow> Some (Inl error)
      | Out_Pending \<Rightarrow> None)"

section \<open>The invariant\<close>

definition retained_total :: "idem_state \<Rightarrow> nat" where
  "retained_total st = sum_list (map (en_retained_bytes \<circ> snd) (st_entries st))"

text \<open>
  Keys are distinct, the retained bytes are covered by the byte counter, an entry is pending
  exactly while it has no expiry, pending entries retain nothing, and a channel whose entry
  is gone has an outcome.
\<close>

definition entry_ok :: "idem_state \<Rightarrow> idem_entry \<Rightarrow> bool" where
  "entry_ok st e \<longleftrightarrow>
     en_sender e < st_next_channel st
     \<and> (en_expires_at e = None \<longleftrightarrow> st_channels st (en_sender e) = Out_Pending)
     \<and> (en_expires_at e = None \<longrightarrow> en_retained_bytes e = 0 \<and> \<not> en_uncertain e)"

definition senders :: "idem_state \<Rightarrow> nat list" where
  "senders st = map (en_sender \<circ> snd) (st_entries st)"

definition table_ok :: "idem_state \<Rightarrow> bool" where
  "table_ok st \<longleftrightarrow>
     distinct (map fst (st_entries st)) \<and> distinct (senders st)
     \<and> (\<forall>(k, e) \<in> set (st_entries st). entry_ok st e)
     \<and> (\<forall>c < st_next_channel st. st_channels st c = Out_Pending \<longrightarrow> c \<in> set (senders st))
     \<and> retained_total st \<le> st_completed_bytes st"

definition bounded :: "idempotency_config \<Rightarrow> idem_state \<Rightarrow> bool" where
  "bounded cfg st \<longleftrightarrow>
     st_completed_bytes st \<le> ic_max_completed_bytes cfg \<and> length (st_entries st) \<le> ic_max_entries cfg"

lemma lookup_in: "lookup_entry k st = Some e \<Longrightarrow> (k, e) \<in> set (st_entries st)"
  by (simp add: lookup_entry_def map_of_SomeD)

lemma lookup_iff: "table_ok st \<Longrightarrow> lookup_entry k st = Some e \<longleftrightarrow> (k, e) \<in> set (st_entries st)"
  by (simp add: lookup_entry_def table_ok_def)

text \<open>Removing an entry whose channel is resolved.\<close>

lemma filter_key_split:
  assumes "distinct (map fst es)" "(k, e) \<in> set es"
  obtains xs ys where "es = xs @ (k, e) # ys" "filter (\<lambda>(k', _). k' \<noteq> k) es = xs @ ys"
    "k \<notin> fst ` set xs" "k \<notin> fst ` set ys"
proof -
  from assms(2) obtain xs ys where es: "es = xs @ (k, e) # ys" by (meson split_list)
  with assms(1) have k: "k \<notin> fst ` set xs" "k \<notin> fst ` set ys" by auto
  then have "filter (\<lambda>(k', _). k' \<noteq> k) xs = xs" "filter (\<lambda>(k', _). k' \<noteq> k) ys = ys"
    by (force simp: filter_id_conv)+
  with es k that show thesis by simp
qed

lemma remove_entry_simps:
  assumes "lookup_entry k st = Some e"
  shows "remove_entry k st = (Some e, st\<lparr>st_entries := filter (\<lambda>(k', _). k' \<noteq> k) (st_entries st),
           st_completed_bytes := st_completed_bytes st - en_retained_bytes e\<rparr>)"
  using assms by (simp add: remove_entry_def)

lemma remove_then_send_ok:
  assumes ok: "table_ok st" and l: "lookup_entry k st = Some e" and v: "v \<noteq> Out_Pending"
  shows "table_ok (send_replace (en_sender e) v (snd (remove_entry k st)))"
proof -
  from l have in_es: "(k, e) \<in> set (st_entries st)" by (rule lookup_in)
  from ok have d: "distinct (map fst (st_entries st))" by (simp add: table_ok_def)
  obtain xs ys where es: "st_entries st = xs @ (k, e) # ys"
    and f: "filter (\<lambda>(k', _). k' \<noteq> k) (st_entries st) = xs @ ys"
    using filter_key_split [OF d in_es] by metis
  let ?st = "send_replace (en_sender e) v (snd (remove_entry k st))"
  have st: "st_entries ?st = xs @ ys" "st_channels ?st = (st_channels st)(en_sender e := v)"
    "st_next_channel ?st = st_next_channel st"
    "st_completed_bytes ?st = st_completed_bytes st - en_retained_bytes e"
    by (simp_all add: remove_entry_simps [OF l] send_replace_def f)
  have sender: "en_sender e' \<noteq> en_sender e" if "(k', e') \<in> set xs \<union> set ys" for k' e'
  proof -
    have "en_sender e \<notin> set (map (en_sender \<circ> snd) (xs @ ys))"
      using ok by (simp add: table_ok_def senders_def es)
    moreover have "en_sender e' \<in> set (map (en_sender \<circ> snd) (xs @ ys))"
      using that by (auto simp: rev_image_eqI)
    ultimately show ?thesis by metis
  qed
  show ?thesis
    unfolding table_ok_def
  proof (intro conjI)
    show "distinct (map fst (st_entries ?st))" "distinct (senders ?st)"
      using ok by (auto simp: table_ok_def st es senders_def)
    show "\<forall>(k', e') \<in> set (st_entries ?st). entry_ok ?st e'"
    proof (intro ballI, clarify)
      fix k' e'
      assume "(k', e') \<in> set (st_entries ?st)"
      then have m: "(k', e') \<in> set xs \<union> set ys" by (simp add: st)
      then have "(k', e') \<in> set (st_entries st)" by (auto simp: es)
      then have "entry_ok st e'" using ok unfolding table_ok_def by blast
      with sender [OF m] show "entry_ok ?st e'" by (simp add: entry_ok_def st)
    qed
    show "\<forall>c < st_next_channel ?st. st_channels ?st c = Out_Pending \<longrightarrow> c \<in> set (senders ?st)"
      using ok v by (auto simp: table_ok_def st es senders_def)
    show "retained_total ?st \<le> st_completed_bytes ?st"
    proof -
      have "retained_total st \<le> st_completed_bytes st" using ok by (simp add: table_ok_def)
      then show ?thesis by (simp add: retained_total_def st es)
    qed
  qed
qed

lemma remove_resolved_ok:
  assumes ok: "table_ok st" and l: "lookup_entry k st = Some e" and "en_expires_at e \<noteq> None"
  shows "table_ok (snd (remove_entry k st))"
proof -
  have "st_channels st (en_sender e) \<noteq> Out_Pending"
    using ok lookup_in [OF l] assms(3) by (auto simp: table_ok_def entry_ok_def)
  from remove_then_send_ok [OF ok l this]
  show ?thesis by (simp add: send_replace_def remove_entry_simps [OF l])
qed

lemma remove_entry_bounds:
  "length (st_entries (snd (remove_entry k st))) \<le> length (st_entries st)"
  "st_completed_bytes (snd (remove_entry k st)) \<le> st_completed_bytes st"
  by (auto simp: remove_entry_def split: option.splits)

lemma send_replace_simps:
  "st_entries (send_replace c v st) = st_entries st"
  "st_completed_bytes (send_replace c v st) = st_completed_bytes st"
  "st_next_channel (send_replace c v st) = st_next_channel st"
  "st_access_clock (send_replace c v st) = st_access_clock st"
  by (simp_all add: send_replace_def)

lemma expire_entry_ok: "table_ok st \<Longrightarrow> table_ok (expire_entry k st)"
proof (cases "lookup_entry k st")
  case None
  then show "table_ok st \<Longrightarrow> ?thesis" by (simp add: expire_entry_def remove_entry_def)
next
  case (Some e)
  then show "table_ok st \<Longrightarrow> ?thesis"
    using remove_then_send_ok [OF _ Some, of "Out_Failed expired_error"] remove_resolved_ok [OF _ Some]
    by (simp add: expire_entry_def remove_entry_simps [OF Some])
qed

lemma expire_entry_bounded: "bounded cfg st \<Longrightarrow> bounded cfg (expire_entry k st)"
  using remove_entry_bounds [of k st]
  by (auto simp: expire_entry_def bounded_def send_replace_simps split: prod.splits option.splits)

lemma cleanup_ok: "table_ok st \<Longrightarrow> table_ok (cleanup now ttl st)"
  unfolding cleanup_def
  by (rule fold_invariant [where Q = "\<lambda>_. True"]) (simp_all add: expire_entry_ok)

lemma cleanup_bounded: "bounded cfg st \<Longrightarrow> bounded cfg (cleanup now ttl st)"
  unfolding cleanup_def
  by (rule fold_invariant [where Q = "\<lambda>_. True"]) (simp_all add: expire_entry_bounded)

text \<open>Changing an entry and its channel together.\<close>

lemma alter_split:
  assumes "distinct (map fst es)" "es = xs @ (k, e) # ys"
  shows "map (\<lambda>(k', e). if k' = k then (k', f e) else (k', e)) es = xs @ (k, f e) # ys"
proof -
  from assms have "k \<notin> fst ` set xs" "k \<notin> fst ` set ys" by auto
  then have "map (\<lambda>(k', e). if k' = k then (k', f e) else (k', e)) xs = xs"
    "map (\<lambda>(k', e). if k' = k then (k', f e) else (k', e)) ys = ys"
    by (force intro: map_idI)+
  then show ?thesis by (simp add: assms(2))
qed

lemma alter_then_send_ok:
  assumes ok: "table_ok st" and l: "lookup_entry k st = Some e"
    and f: "en_sender (f e) = en_sender e"
      "en_expires_at (f e) = None \<longleftrightarrow> v = Out_Pending"
      "en_expires_at (f e) = None \<Longrightarrow> en_retained_bytes (f e) = 0 \<and> \<not> en_uncertain (f e)"
    and b: "retained_total st + en_retained_bytes (f e) \<le> n + en_retained_bytes e"
  shows "table_ok (send_replace (en_sender e) v
    (alter_entry k f st\<lparr>st_access_clock := a, st_completed_bytes := n\<rparr>))"
proof -
  from l have in_es: "(k, e) \<in> set (st_entries st)" by (rule lookup_in)
  from ok have d: "distinct (map fst (st_entries st))" by (simp add: table_ok_def)
  obtain xs ys where es: "st_entries st = xs @ (k, e) # ys" using in_es by (meson split_list)
  let ?st = "send_replace (en_sender e) v (alter_entry k f st\<lparr>st_access_clock := a, st_completed_bytes := n\<rparr>)"
  have st: "st_entries ?st = xs @ (k, f e) # ys" "st_channels ?st = (st_channels st)(en_sender e := v)"
    "st_next_channel ?st = st_next_channel st" "st_completed_bytes ?st = n"
    by (simp_all add: send_replace_def alter_entry_def alter_split [OF d es])
  have senders: "senders ?st = senders st" unfolding senders_def st es by (simp add: f(1))
  have sender: "en_sender e' \<noteq> en_sender e" if "(k', e') \<in> set xs \<union> set ys" for k' e'
  proof -
    have "en_sender e \<notin> set (map (en_sender \<circ> snd) (xs @ ys))"
      using ok by (simp add: table_ok_def senders_def es)
    moreover have "en_sender e' \<in> set (map (en_sender \<circ> snd) (xs @ ys))"
      using that by (auto simp: rev_image_eqI)
    ultimately show ?thesis by metis
  qed
  have entries: "entry_ok st e'" if "(k', e') \<in> set (st_entries st)" for k' e'
    using ok that unfolding table_ok_def by blast
  show ?thesis
    unfolding table_ok_def
  proof (intro conjI)
    show "distinct (map fst (st_entries ?st))" using d by (simp add: st es)
    show "distinct (senders ?st)" using ok by (simp add: senders table_ok_def)
    show "\<forall>(k', e') \<in> set (st_entries ?st). entry_ok ?st e'"
    proof (intro ballI, clarify)
      fix k' e'
      assume "(k', e') \<in> set (st_entries ?st)"
      then consider "(k', e') \<in> set xs \<union> set ys" | "e' = f e" by (auto simp: st)
      then show "entry_ok ?st e'"
      proof cases
        case 1
        then have "entry_ok st e'" using entries [of k' e'] by (auto simp: es)
        with sender [OF 1] show ?thesis by (simp add: entry_ok_def st)
      next
        case 2
        with entries [OF in_es] f show ?thesis by (simp add: entry_ok_def st)
      qed
    qed
    show "\<forall>c < st_next_channel ?st. st_channels ?st c = Out_Pending \<longrightarrow> c \<in> set (senders ?st)"
    proof (intro allI impI)
      fix c
      assume c: "c < st_next_channel ?st" "st_channels ?st c = Out_Pending"
      show "c \<in> set (senders ?st)"
      proof (cases "c = en_sender e")
        case True
        then show ?thesis unfolding senders by (simp add: senders_def es)
      next
        case False
        with c have "c < st_next_channel st" "st_channels st c = Out_Pending" by (simp_all add: st)
        then show ?thesis using ok unfolding senders table_ok_def by blast
      qed
    qed
    show "retained_total ?st \<le> st_completed_bytes ?st"
      using b by (simp add: retained_total_def st es)
  qed
qed

lemma alter_entry_length [simp]: "length (st_entries (alter_entry k f st)) = length (st_entries st)"
  by (simp add: alter_entry_def)

lemma oldest_lookup:
  assumes "table_ok st" "oldest (filter P (st_entries st)) = Some k"
  obtains e where "lookup_entry k st = Some e" "P (k, e)"
proof -
  from oldest_in [OF assms(2)] obtain e where "(k, e) \<in> set (st_entries st)" "P (k, e)" by auto
  then show thesis using that lookup_iff [OF assms(1)] by blast
qed

lemma make_capacity_ok:
  assumes "table_ok st" "make_capacity maximum st = (r, st')"
  shows "table_ok st'"
proof -
  have "table_ok (snd (remove_entry k st))"
    if "oldest (filter (\<lambda>(_, e). en_expires_at e \<noteq> None \<and> \<not> en_uncertain e) (st_entries st)) = Some k" for k
    using oldest_lookup [OF assms(1) that] remove_resolved_ok [OF assms(1)] by auto
  with assms show ?thesis
    by (auto simp: make_capacity_def simp del: oldest.simps split: if_splits option.splits)
qed

lemma remove_entry_shrinks:
  assumes "table_ok st" "lookup_entry k st = Some e"
  shows "length (st_entries (snd (remove_entry k st))) < length (st_entries st)"
  unfolding remove_entry_simps [OF assms(2)]
  by simp (rule length_filter_less [OF lookup_in [OF assms(2)]], simp)

lemma make_capacity_cases:
  assumes "make_capacity maximum st = (r, st')"
  obtains (room) "length (st_entries st) < maximum" "st' = st"
    | (full) "\<not> is_ok r" "st' = st"
    | (evict) k where
        "oldest (filter (\<lambda>(_, e). en_expires_at e \<noteq> None \<and> \<not> en_uncertain e) (st_entries st)) = Some k"
        "r = Inr ()" "st' = snd (remove_entry k st)"
proof (cases "length (st_entries st) < maximum")
  case True
  from assms have "st' = st" unfolding make_capacity_def if_P [OF True] by simp
  with True show thesis by (rule room)
next
  case False
  note m = assms [unfolded make_capacity_def if_not_P [OF False]]
  show thesis
  proof (cases "oldest (filter (\<lambda>(_, e). en_expires_at e \<noteq> None \<and> \<not> en_uncertain e) (st_entries st))")
    case None
    from m have "\<not> is_ok r" "st' = st" unfolding None by auto
    then show thesis by (rule full)
  next
    case (Some k)
    from m have "r = Inr ()" "st' = snd (remove_entry k st)" unfolding Some by auto
    with Some show thesis by (rule evict)
  qed
qed

lemma make_capacity_bounds:
  assumes "table_ok st" "make_capacity maximum st = (r, st')"
  shows "st_completed_bytes st' \<le> st_completed_bytes st
    \<and> length (st_entries st') \<le> length (st_entries st)
    \<and> (is_ok r \<longrightarrow> length (st_entries st) \<le> maximum \<longrightarrow> length (st_entries st') < maximum)
    \<and> st_channels st' = st_channels st \<and> st_next_channel st' = st_next_channel st"
  using assms(2)
proof (cases rule: make_capacity_cases)
  case (evict k)
  obtain e where e: "lookup_entry k st = Some e" using oldest_lookup [OF assms(1) evict(1)] by blast
  have less: "length (st_entries st') < length (st_entries st)"
    using remove_entry_shrinks [OF assms(1) e] evict(3) by simp
  have "st_completed_bytes st' \<le> st_completed_bytes st" using remove_entry_bounds evict(3) by simp
  moreover have "st_channels st' = st_channels st" "st_next_channel st' = st_next_channel st"
    using evict(3) by (simp_all add: remove_entry_simps [OF e])
  ultimately show ?thesis using less by simp
qed simp_all

text \<open>Evicting for bytes.\<close>

lemma lookup_remove_other: "k' \<noteq> k \<Longrightarrow> lookup_entry k' (snd (remove_entry k st)) = lookup_entry k' st"
proof -
  assume "k' \<noteq> k"
  then have "map_of (filter (\<lambda>(x, _). x \<noteq> k) es) k' = map_of es k'" for es :: "(record_key \<times> idem_entry) list"
    by (induction es) auto
  then show ?thesis by (simp add: remove_entry_def lookup_entry_def split: option.splits)
qed

lemma byte_victim_lookup:
  assumes "table_ok st" "byte_victim x st = Some k"
  obtains e where "lookup_entry k st = Some e" "k \<noteq> x" "en_expires_at e \<noteq> None"
proof -
  obtain e where e: "lookup_entry k st = Some e" "k \<noteq> x" "0 < en_retained_bytes e"
    using oldest_lookup [OF assms(1) assms(2) [unfolded byte_victim_def]] by auto
  then have "entry_ok st e" using assms(1) lookup_in unfolding table_ok_def by blast
  with e that show thesis by (auto simp: entry_ok_def)
qed

definition same_channels :: "idem_state \<Rightarrow> idem_state \<Rightarrow> bool" where
  "same_channels st st' \<longleftrightarrow> st_channels st' = st_channels st \<and> st_next_channel st' = st_next_channel st"

lemma remove_same_channels: "same_channels st (snd (remove_entry k st))"
  by (simp add: same_channels_def remove_entry_def split: option.splits)

lemma reserve_spec:
  assumes "table_ok st" "reserve_completed_bytes incoming maximum x st = (r, st')"
  shows "table_ok st' \<and> st_completed_bytes st' \<le> st_completed_bytes st
    \<and> length (st_entries st') \<le> length (st_entries st)
    \<and> same_channels st st' \<and> lookup_entry x st' = lookup_entry x st
    \<and> (is_ok r \<longrightarrow> usize_sat_add (st_completed_bytes st') incoming \<le> maximum)"
  using assms
proof (induction incoming maximum x st rule: reserve_completed_bytes.induct)
  case (1 incoming maximum x st)
  show ?case
  proof (cases "usize_sat_add (st_completed_bytes st) incoming \<le> maximum")
    case True
    with "1.prems" show ?thesis by (subst (asm) reserve_completed_bytes.simps) (auto simp: same_channels_def)
  next
    case False
    show ?thesis
    proof (cases "byte_victim x st")
      case None
      with False "1.prems" show ?thesis
        by (subst (asm) reserve_completed_bytes.simps) (auto simp: same_channels_def)
    next
      case (Some k)
      let ?st = "snd (remove_entry k st)"
      obtain e where e: "lookup_entry k st = Some e" "k \<noteq> x" "en_expires_at e \<noteq> None"
        using byte_victim_lookup [OF "1.prems"(1) Some] by blast
      have ok: "table_ok ?st" by (rule remove_resolved_ok [OF "1.prems"(1) e(1,3)])
      have run: "reserve_completed_bytes incoming maximum x ?st = (r, st')"
        using "1.prems"(2) False Some by (subst (asm) reserve_completed_bytes.simps) simp
      from "1.IH" [OF False Some ok run] show ?thesis
        using remove_entry_bounds [of k st] remove_same_channels [of st k]
          lookup_remove_other [OF e(2) [symmetric], of st]
        by (auto simp: same_channels_def)
    qed
  qed
qed

text \<open>The operations.\<close>

lemma alter_self: "alter_entry k f st\<lparr>st_access_clock := st_access_clock st,
    st_completed_bytes := st_completed_bytes st\<rparr> = alter_entry k f st"
  by (simp add: alter_entry_def)

lemma alter_then_send_plain:
  assumes "table_ok st" "lookup_entry k st = Some e" "en_sender (f e) = en_sender e"
    and "en_expires_at (f e) = None \<longleftrightarrow> v = Out_Pending"
      "en_expires_at (f e) = None \<Longrightarrow> en_retained_bytes (f e) = 0 \<and> \<not> en_uncertain (f e)"
    and "en_retained_bytes (f e) \<le> en_retained_bytes e"
  shows "table_ok (send_replace (en_sender e) v (alter_entry k f st))"
proof -
  have "retained_total st \<le> st_completed_bytes st" using assms(1) by (simp add: table_ok_def)
  with assms(6) have "retained_total st + en_retained_bytes (f e) \<le> st_completed_bytes st + en_retained_bytes e"
    by simp
  with assms(1-5) have "table_ok (send_replace (en_sender e) v
      (alter_entry k f st\<lparr>st_access_clock := st_access_clock st, st_completed_bytes := st_completed_bytes st\<rparr>))"
    by (intro alter_then_send_ok) blast+
  then show ?thesis unfolding alter_self .
qed

lemma alter_ok:
  assumes "table_ok st" "lookup_entry k st = Some e"
    and "en_sender (f e) = en_sender e" "en_expires_at (f e) = en_expires_at e"
      "en_retained_bytes (f e) = en_retained_bytes e" "en_uncertain (f e) = en_uncertain e"
  shows "table_ok (alter_entry k f st)"
proof -
  have e: "entry_ok st e" using assms(1) lookup_in [OF assms(2)] unfolding table_ok_def by blast
  have b: "retained_total st \<le> st_completed_bytes st" using assms(1) by (simp add: table_ok_def)
  have "table_ok (send_replace (en_sender e) (st_channels st (en_sender e))
      (alter_entry k f st\<lparr>st_access_clock := st_access_clock st, st_completed_bytes := st_completed_bytes st\<rparr>))"
    by (rule alter_then_send_ok [OF assms(1,2)]) (use e assms(3-6) b in \<open>auto simp: entry_ok_def\<close>)
  then show ?thesis unfolding alter_self by (simp add: send_replace_def alter_entry_def)
qed

lemma clock_ok: "table_ok (st\<lparr>st_access_clock := a\<rparr>) = table_ok st"
  by (simp add: table_ok_def senders_def retained_total_def entry_ok_def)

lemma begin_found_inv:
  assumes "table_ok st" "bounded cfg st" "lookup_entry k st = Some e"
    and "begin_found fp access k e st = (r, st')"
  shows "table_ok st' \<and> bounded cfg st'"
  using assms alter_ok [OF assms(1,3), of "\<lambda>e. e\<lparr>en_last_access := access\<rparr>"]
  by (auto simp: begin_found_def bounded_def alter_entry_def split: if_splits)

lemma begin_new_inv:
  assumes ok: "table_ok st" and b: "bounded cfg st" and l: "lookup_entry k st = None"
    and run: "begin_new cfg fp access now k st = (r, st')"
  shows "table_ok st' \<and> bounded cfg st'"
proof -
  obtain r1 st1 where m: "make_capacity (ic_max_entries cfg) st = (r1, st1)" by fastforce
  note ok1 = make_capacity_ok [OF ok m] and b1 = make_capacity_bounds [OF ok m]
  show ?thesis
  proof (cases r1)
    case (Inl error)
    with run m have "st' = st1" by (simp add: begin_new_def)
    with ok1 b b1 show ?thesis by (auto simp: bounded_def)
  next
    case (Inr u)
    have l1: "k \<notin> fst ` set (st_entries st1)"
    proof -
      have "fst ` set (st_entries st1) \<subseteq> fst ` set (st_entries st)"
        using m by (cases rule: make_capacity_cases) (auto simp: remove_entry_def split: option.splits)
      then show ?thesis using l by (auto simp: lookup_entry_def map_of_eq_None_iff)
    qed
    let ?e = "\<lparr>en_fingerprint = fp, en_created_at = now, en_expires_at = None, en_retained_bytes = 0,
      en_uncertain = False, en_last_access = access, en_sender = st_next_channel st1\<rparr>"
    from run m Inr have st': "st' = st1\<lparr>st_entries := (k, ?e) # st_entries st1,
        st_next_channel := Suc (st_next_channel st1),
        st_channels := (st_channels st1)(st_next_channel st1 := Out_Pending)\<rparr>"
      by (simp add: begin_new_def Let_def)
    have below: "entry_ok st1 e'" if "(k', e') \<in> set (st_entries st1)" for k' e'
      using ok1 that unfolding table_ok_def by blast
    then have fresh: "st_next_channel st1 \<notin> set (senders st1)"
      by (fastforce simp: senders_def entry_ok_def)
    have "table_ok st'"
      unfolding table_ok_def
    proof (intro conjI)
      show "distinct (map fst (st_entries st'))" "distinct (senders st')"
        using ok1 l1 fresh by (simp_all add: st' table_ok_def senders_def)
      show "\<forall>(k', e') \<in> set (st_entries st'). entry_ok st' e'"
      proof (intro ballI, clarify)
        fix k' e'
        assume "(k', e') \<in> set (st_entries st')"
        then consider "e' = ?e" | "(k', e') \<in> set (st_entries st1)" by (auto simp: st')
        then show "entry_ok st' e'"
          by cases (use below in \<open>fastforce simp: st' entry_ok_def\<close>)+
      qed
      show "\<forall>c < st_next_channel st'. st_channels st' c = Out_Pending \<longrightarrow> c \<in> set (senders st')"
        using ok1 by (auto simp: st' table_ok_def senders_def less_Suc_eq)
      show "retained_total st' \<le> st_completed_bytes st'"
        using ok1 by (simp add: st' table_ok_def retained_total_def)
    qed
    moreover have "bounded cfg st'" using b b1 Inr by (auto simp: st' bounded_def)
    ultimately show ?thesis by blast
  qed
qed

lemma idem_begin_inv:
  assumes "table_ok st" "bounded cfg st" "idem_begin cfg digest now scope key request st = (r, st')"
  shows "table_ok st' \<and> bounded cfg st'"
proof (cases "validate_scope scope")
  case (Inl e)
  with assms show ?thesis by (simp add: idem_begin_def)
next
  case (Inr u)
  note scope = Inr
  show ?thesis
  proof (cases "request_fingerprint digest request")
    case (Inl e)
    with assms scope show ?thesis by (simp add: idem_begin_def)
  next
    case (Inr fp)
    let ?k = "\<lparr>rk_scope = scope, rk_key = key\<rparr>" and ?st1 = "cleanup now (ic_in_flight_ttl cfg) st"
    let ?st2 = "?st1\<lparr>st_access_clock := sat_add (st_access_clock ?st1) 1\<rparr>"
    have ok: "table_ok ?st2" using cleanup_ok [OF assms(1)] by (simp add: clock_ok)
    have b: "bounded cfg ?st2" using cleanup_bounded [OF assms(2)] by (simp add: bounded_def)
    show ?thesis
    proof (cases "lookup_entry ?k ?st2")
      case None
      with assms(3) scope Inr begin_new_inv [OF ok b None] show ?thesis
        by (simp add: idem_begin_def Let_def)
    next
      case (Some e)
      with assms(3) scope Inr begin_found_inv [OF ok b Some] show ?thesis
        by (simp add: idem_begin_def Let_def)
    qed
  qed
qed

lemma token_entry_Some:
  "token_entry token st = Some e \<longleftrightarrow>
     lookup_entry (tk_record_key token) st = Some e \<and> en_fingerprint e = tk_fingerprint token"
  by (auto simp: token_entry_def split: option.splits if_splits)

lemma token_entry_None_complete:
  "token_entry token st = None \<Longrightarrow> idem_complete cfg now token response weight st = st"
  by (simp add: idem_complete_def Let_def)

text \<open>The two ways a completion ends, over the state after the byte reservation.\<close>

lemma idem_complete_cases:
  assumes "table_ok st" "token_entry token st = Some e"
  obtains (unreplayable) st1 where
      "idem_complete cfg now token response weight st =
         send_replace (en_sender e) (Out_Unknown unreplayable_error)
           (alter_entry (tk_record_key token) (\<lambda>e. e\<lparr>en_expires_at := Some (now + ic_completed_ttl cfg),
              en_uncertain := True, en_retained_bytes := 0\<rparr>) st1)"
      "table_ok st1" "lookup_entry (tk_record_key token) st1 = Some e"
      "st_completed_bytes st1 \<le> st_completed_bytes st" "length (st_entries st1) \<le> length (st_entries st)"
  | (replayable) st1 retained where
      "idem_complete cfg now token response weight st =
         send_replace (en_sender e) (Out_Completed response)
           ((alter_entry (tk_record_key token) (\<lambda>e. e\<lparr>en_expires_at := Some (now + ic_completed_ttl cfg),
               en_uncertain := False, en_retained_bytes := retained,
               en_last_access := sat_add (st_access_clock st1) 1\<rparr>) st1)
            \<lparr>st_access_clock := sat_add (st_access_clock st1) 1,
             st_completed_bytes := usize_sat_add (st_completed_bytes st1) retained\<rparr>)"
      "weight = Some retained \<or> retained = usize_max" "retained \<le> ic_max_completed_bytes cfg"
      "table_ok st1" "lookup_entry (tk_record_key token) st1 = Some e"
      "usize_sat_add (st_completed_bytes st1) retained \<le> ic_max_completed_bytes cfg"
      "length (st_entries st1) \<le> length (st_entries st)"
proof -
  let ?k = "tk_record_key token"
  let ?w = "case weight of None \<Rightarrow> usize_max | Some w \<Rightarrow> w"
  from assms(2) have l: "lookup_entry ?k st = Some e" by (simp add: token_entry_Some)
  show thesis
  proof (cases "ic_max_completed_bytes cfg < ?w")
    case True
    show thesis
      by (rule unreplayable [of st])
        (use True assms l in \<open>simp_all add: idem_complete_def Let_def\<close>)
  next
    case False
    obtain r st1 where run: "reserve_completed_bytes ?w (ic_max_completed_bytes cfg) ?k st = (r, st1)"
      by fastforce
    note spec = reserve_spec [OF assms(1) run]
    show thesis
    proof (cases "is_ok r")
      case True
      show thesis
      proof (rule replayable [of st1 ?w])
        show "weight = Some ?w \<or> ?w = usize_max" by (cases weight) simp_all
      qed (use True False assms(2) l run spec in \<open>simp_all add: idem_complete_def Let_def\<close>)
    next
      case False
      show thesis
        by (rule unreplayable [of st1])
          (use False \<open>\<not> ic_max_completed_bytes cfg < _\<close> assms(2) l run spec
            in \<open>simp_all add: idem_complete_def Let_def\<close>)
    qed
  qed
qed

lemma idem_complete_inv:
  assumes "table_ok st" "bounded cfg st" "ic_max_completed_bytes cfg < usize_max"
  shows "table_ok (idem_complete cfg now token response weight st)
    \<and> bounded cfg (idem_complete cfg now token response weight st)"
proof (cases "token_entry token st")
  case None
  with assms show ?thesis by (simp add: token_entry_None_complete)
next
  case (Some e)
  show ?thesis
    using assms(1) Some
  proof (cases rule: idem_complete_cases [where cfg = cfg and now = now and response = response and weight = weight])
    case (unreplayable st1)
    have "table_ok (idem_complete cfg now token response weight st)"
      unfolding unreplayable(1)
      by (rule alter_then_send_plain [OF unreplayable(2,3)]) simp_all
    moreover have "bounded cfg (idem_complete cfg now token response weight st)"
      unfolding unreplayable(1) bounded_def send_replace_simps alter_entry_length
      using assms(2) unreplayable(4,5) by (simp add: bounded_def alter_entry_def)
    ultimately show ?thesis by blast
  next
    case (replayable st1 retained)
    have b: "retained_total st1 \<le> st_completed_bytes st1" using replayable(4) by (simp add: table_ok_def)
    have exact: "usize_sat_add (st_completed_bytes st1) retained = st_completed_bytes st1 + retained"
      using replayable(6) assms(3) by (simp add: usize_sat_add_def min_def split: if_splits)
    have "table_ok (idem_complete cfg now token response weight st)"
      unfolding replayable(1)
      by (rule alter_then_send_ok [OF replayable(4,5)]) (use b in \<open>simp_all add: exact\<close>)
    moreover have "bounded cfg (idem_complete cfg now token response weight st)"
      unfolding replayable(1) bounded_def send_replace_simps
      using assms(2) replayable(6,7) by (simp add: bounded_def alter_entry_def)
    ultimately show ?thesis by blast
  qed
qed

lemma idem_fail_inv:
  assumes "table_ok st" "bounded cfg st"
  shows "table_ok (idem_fail cfg now token error st) \<and> bounded cfg (idem_fail cfg now token error st)"
proof (cases "token_entry token st")
  case None
  with assms show ?thesis by (simp add: idem_fail_def Let_def)
next
  case (Some e)
  then have l: "lookup_entry (tk_record_key token) st = Some e" by (simp add: token_entry_Some)
  show ?thesis
  proof (cases "outcome_unknown error")
    case True
    let ?f = "\<lambda>e. e\<lparr>en_expires_at := Some (now + ic_unknown_ttl cfg), en_uncertain := True\<rparr>"
    let ?v = "Out_Unknown (with_detail ''outcome'' (JStr ''unknown'') (retryable False error))"
    have run: "idem_fail cfg now token error st = send_replace (en_sender e) ?v (alter_entry (tk_record_key token) ?f st)"
      using True Some by (simp add: idem_fail_def Let_def)
    have "table_ok (idem_fail cfg now token error st)"
      unfolding run
      by (rule alter_then_send_plain [OF assms(1) l]) simp_all
    then show ?thesis
      using assms(2) unfolding run by (simp add: bounded_def send_replace_simps alter_entry_def)
  next
    case False
    have run: "idem_fail cfg now token error st =
        send_replace (en_sender e) (Out_Failed error) (snd (remove_entry (tk_record_key token) st))"
      using False Some by (simp add: idem_fail_def Let_def)
    show ?thesis
      using remove_then_send_ok [OF assms(1) l, of "Out_Failed error"] assms(2)
        remove_entry_bounds [of "tk_record_key token" st]
      unfolding run by (auto simp: bounded_def send_replace_simps)
  qed
qed

section \<open>Interleaved requests\<close>

text \<open>The calls of all requests, in the order the mutex admits them.\<close>

datatype idem_call =
    Call_Begin nat string string image_request
  | Call_Complete nat idem_token image_response "usize option"
  | Call_Fail nat idem_token bridge_error

definition idem_run_call ::
  "idempotency_config \<Rightarrow> (image_request \<Rightarrow> string result) \<Rightarrow> idem_call \<Rightarrow> idem_state \<Rightarrow> idem_state" where
  "idem_run_call cfg digest c st =
     (case c of
        Call_Begin now scope key request \<Rightarrow> snd (idem_begin cfg digest now scope key request st)
      | Call_Complete now token response weight \<Rightarrow> idem_complete cfg now token response weight st
      | Call_Fail now token error \<Rightarrow> idem_fail cfg now token error st)"

lemma idem_run_call_inv:
  assumes "table_ok st" "bounded cfg st" "ic_max_completed_bytes cfg < usize_max"
  shows "table_ok (idem_run_call cfg digest c st) \<and> bounded cfg (idem_run_call cfg digest c st)"
  using assms idem_begin_inv [OF assms(1,2) surjective_pairing]
  by (cases c) (simp_all add: idem_run_call_def idem_complete_inv idem_fail_inv)

lemma idem_new_inv: "idem_new cfg = Inr st \<Longrightarrow> table_ok st \<and> bounded cfg st"
  by (auto simp: idem_new_def table_ok_def bounded_def senders_def retained_total_def split: if_splits)

lemma idem_runs_inv:
  assumes "idem_new cfg = Inr st" "ic_max_completed_bytes cfg < usize_max"
  shows "table_ok (fold (idem_run_call cfg digest) calls st) \<and> bounded cfg (fold (idem_run_call cfg digest) calls st)"
  by (rule fold_invariant [where Q = "\<lambda>_. True" and P = "\<lambda>st. table_ok st \<and> bounded cfg st"])
    (use assms idem_new_inv idem_run_call_inv in auto)

section \<open>Entries that other requests cannot disturb\<close>

text \<open>
  An entry that is pending or of unknown outcome is kept, up to its access stamp, together
  with the value of its channel.
\<close>

definition kept :: "record_key \<Rightarrow> idem_entry \<Rightarrow> entry_outcome \<Rightarrow> idem_state \<Rightarrow> bool" where
  "kept k e v st \<longleftrightarrow>
     (\<exists>a. lookup_entry k st = Some (e\<lparr>en_last_access := a\<rparr>)) \<and> st_channels st (en_sender e) = v"

definition protected :: "idem_entry \<Rightarrow> bool" where
  "protected e \<longleftrightarrow> en_expires_at e = None \<or> en_uncertain e"

lemma keptI: "lookup_entry k st = Some e \<Longrightarrow> st_channels st (en_sender e) = v \<Longrightarrow> kept k e v st"
  unfolding kept_def by (metis idem_entry.surjective idem_entry.update_convs(6))

lemma sender_other:
  assumes "table_ok st" "lookup_entry k st = Some e" "lookup_entry k' st = Some e'" "k \<noteq> k'"
  shows "en_sender e \<noteq> en_sender e'"
proof -
  have "inj_on (en_sender \<circ> snd) (set (st_entries st))"
    using assms(1) by (simp add: table_ok_def senders_def distinct_map)
  then show ?thesis
    using inj_onD [of "en_sender \<circ> snd" "set (st_entries st)" "(k, e)" "(k', e')"]
      lookup_in [OF assms(2)] lookup_in [OF assms(3)] assms(4)
    by auto
qed

lemma kept_remove:
  assumes "kept k e v st" "k' \<noteq> k"
  shows "kept k e v (snd (remove_entry k' st))"
  using assms lookup_remove_other [OF assms(2) [symmetric]] remove_same_channels [of st k']
  by (simp add: kept_def same_channels_def)

lemma lookup_alter_other:
  "k' \<noteq> k \<Longrightarrow> lookup_entry k (alter_entry k' f st) = lookup_entry k st"
proof -
  assume "k' \<noteq> k"
  then have "map_of (map (\<lambda>(x, e). if x = k' then (x, f e) else (x, e)) es) k = map_of es k" for es
    by (induction es) auto
  then show ?thesis by (simp add: lookup_entry_def alter_entry_def)
qed

lemma lookup_alter_same:
  "lookup_entry k (alter_entry k f st) = map_option f (lookup_entry k st)"
proof -
  have "map_of (map (\<lambda>(x, e). if x = k then (x, f e) else (x, e)) es) k = map_option f (map_of es k)" for es
    by (induction es) auto
  then show ?thesis by (simp add: lookup_entry_def alter_entry_def)
qed

lemma lookup_send [simp]: "lookup_entry k (send_replace c v st) = lookup_entry k st"
  by (simp add: lookup_entry_def send_replace_simps)

lemma alter_channels [simp]: "st_channels (alter_entry k f st) = st_channels st"
  by (simp add: alter_entry_def)

lemma kept_alter_send:
  assumes "table_ok st" "kept k e v st" "lookup_entry k' st = Some e'" "k' \<noteq> k"
  shows "kept k e v (send_replace (en_sender e') v' (alter_entry k' f st))"
proof -
  obtain a where a: "lookup_entry k st = Some (e\<lparr>en_last_access := a\<rparr>)" using assms(2) by (auto simp: kept_def)
  have "en_sender e \<noteq> en_sender e'"
    using sender_other [OF assms(1) a assms(3)] assms(4) by auto
  with assms(2) a show ?thesis
    by (simp add: kept_def lookup_alter_other [OF assms(4)] send_replace_def lookup_entry_def alter_entry_def)
      (metis (no_types, lifting) assms(4) lookup_alter_other lookup_entry_def alter_entry_def
        idem_state.select_convs(1) idem_state.surjective idem_state.update_convs(1))
qed

lemma kept_expire:
  assumes "table_ok st" "kept k e v st" "k' \<noteq> k"
  shows "kept k e v (expire_entry k' st)"
proof (cases "lookup_entry k' st")
  case None
  with assms show ?thesis by (simp add: expire_entry_def remove_entry_def)
next
  case (Some e')
  obtain a where a: "lookup_entry k st = Some (e\<lparr>en_last_access := a\<rparr>)" using assms(2) by (auto simp: kept_def)
  have "en_sender e \<noteq> en_sender e'"
    using sender_other [OF assms(1) a Some] assms(3) by auto
  with kept_remove [OF assms(2,3)] show ?thesis
    by (simp add: expire_entry_def remove_entry_simps [OF Some] kept_def send_replace_def lookup_entry_def)
qed

lemma kept_cleanup:
  assumes "table_ok st" "kept k e v st" "\<not> stale_entry now ttl e"
  shows "kept k e v (cleanup now ttl st)"
proof -
  let ?keys = "map fst (filter (\<lambda>(_, e). stale_entry now ttl e) (st_entries st))"
  have not_in: "k \<notin> set ?keys"
  proof
    assume "k \<in> set ?keys"
    then obtain e' where "(k, e') \<in> set (st_entries st)" "stale_entry now ttl e'" by auto
    moreover obtain a where "lookup_entry k st = Some (e\<lparr>en_last_access := a\<rparr>)"
      using assms(2) by (auto simp: kept_def)
    ultimately have "stale_entry now ttl (e\<lparr>en_last_access := a\<rparr>)"
      by (simp add: lookup_iff [OF assms(1), symmetric])
    with assms(3) show False by (cases "en_expires_at e") (simp_all add: stale_entry_def)
  qed
  have "table_ok (fold expire_entry keys st) \<and> kept k e v (fold expire_entry keys st)"
    if "k \<notin> set keys" for keys
    using that
    by (induction keys rule: rev_induct) (use assms(1,2) expire_entry_ok kept_expire in auto)
  with not_in show ?thesis unfolding cleanup_def by blast
qed

lemma kept_make_capacity:
  assumes "table_ok st" "kept k e v st" "protected e" "make_capacity maximum st = (r, st')"
  shows "kept k e v st'"
  using assms(4)
proof (cases rule: make_capacity_cases)
  case (evict k')
  obtain e' where "lookup_entry k' st = Some e'" "en_expires_at e' \<noteq> None" "\<not> en_uncertain e'"
    by (rule oldest_lookup [OF assms(1) evict(1)]) auto
  with assms(2,3) have "k' \<noteq> k" by (auto simp: kept_def protected_def)
  with kept_remove [OF assms(2)] evict(3) show ?thesis by simp
qed (use assms(2) in simp_all)

lemma kept_reserve:
  assumes "table_ok st" "kept k e v st" "protected e"
    and "reserve_completed_bytes incoming maximum x st = (r, st')"
  shows "kept k e v st'"
  using assms
proof (induction incoming maximum x st rule: reserve_completed_bytes.induct)
  case (1 incoming maximum x st)
  show ?case
  proof (cases "usize_sat_add (st_completed_bytes st) incoming \<le> maximum \<or> byte_victim x st = None")
    case True
    with "1.prems"(4) have "st' = st"
      by (subst (asm) reserve_completed_bytes.simps) (auto split: if_splits)
    with "1.prems" show ?thesis by simp
  next
    case False
    then obtain k' where k': "byte_victim x st = Some k'" by auto
    let ?st = "snd (remove_entry k' st)"
    obtain e' where e': "lookup_entry k' st = Some e'" "0 < en_retained_bytes e'" "\<not> en_uncertain e'"
      using oldest_lookup [OF "1.prems"(1) k' [unfolded byte_victim_def]] by auto
    have ok': "entry_ok st e'" using "1.prems"(1) lookup_in [OF e'(1)] unfolding table_ok_def by blast
    with e' have ne: "en_expires_at e' \<noteq> None" by (auto simp: entry_ok_def)
    have "k' \<noteq> k" using "1.prems"(2,3) e' ne by (auto simp: kept_def protected_def)
    with kept_remove "1.prems"(2) have "kept k e v ?st" by blast
    moreover have "table_ok ?st" by (rule remove_resolved_ok [OF "1.prems"(1) e'(1) ne])
    moreover have "reserve_completed_bytes incoming maximum x ?st = (r, st')"
      using "1.prems"(4) False k' by (subst (asm) reserve_completed_bytes.simps) simp
    ultimately show ?thesis using "1.IH" False k' "1.prems"(3) by blast
  qed
qed

lemma kept_begin:
  assumes "table_ok st" "kept k e v st" "protected e" "\<not> stale_entry now (ic_in_flight_ttl cfg) e"
  shows "kept k e v (snd (idem_begin cfg digest now scope key request st))"
proof (cases "validate_scope scope")
  case (Inl x)
  with assms show ?thesis by (simp add: idem_begin_def)
next
  case (Inr u)
  note scope = Inr
  show ?thesis
  proof (cases "request_fingerprint digest request")
    case (Inl x)
    with assms scope show ?thesis by (simp add: idem_begin_def)
  next
    case (Inr fp)
    let ?k = "\<lparr>rk_scope = scope, rk_key = key\<rparr>" and ?st1 = "cleanup now (ic_in_flight_ttl cfg) st"
    let ?a = "sat_add (st_access_clock ?st1) 1"
    let ?st2 = "?st1\<lparr>st_access_clock := ?a\<rparr>"
    have ok: "table_ok ?st2" using cleanup_ok [OF assms(1)] by (simp add: clock_ok)
    have kept2: "kept k e v ?st2"
      using kept_cleanup [OF assms(1,2,4)] by (simp add: kept_def lookup_entry_def)
    show ?thesis
    proof (cases "lookup_entry ?k ?st2")
      case (Some e')
      have "kept k e v (alter_entry ?k (\<lambda>e. e\<lparr>en_last_access := ?a\<rparr>) ?st2)"
        using kept2 by (cases "?k = k") (auto simp: kept_def lookup_alter_same lookup_alter_other)
      with kept2 Some scope Inr show ?thesis
        by (simp add: idem_begin_def begin_found_def Let_def)
    next
      case None
      obtain r st3 where m: "make_capacity (ic_max_entries cfg) ?st2 = (r, st3)" by fastforce
      have kept3: "kept k e v st3" by (rule kept_make_capacity [OF ok kept2 assms(3) m])
      then obtain a where a: "lookup_entry k st3 = Some (e\<lparr>en_last_access := a\<rparr>)" by (auto simp: kept_def)
      then have "entry_ok st3 (e\<lparr>en_last_access := a\<rparr>)"
        using make_capacity_ok [OF ok m] lookup_in unfolding table_ok_def by blast
      then have fresh: "en_sender e < st_next_channel st3" by (simp add: entry_ok_def)
      have ne: "?k \<noteq> k" using None kept2 by (auto simp: kept_def)
      show ?thesis
      proof (cases r)
        case (Inl error)
        with kept3 m None scope \<open>request_fingerprint digest request = _\<close> show ?thesis
          by (simp add: idem_begin_def begin_new_def Let_def)
      next
        case (Inr u')
        with kept3 a fresh ne m None scope \<open>request_fingerprint digest request = _\<close> show ?thesis
          by (simp add: idem_begin_def begin_new_def Let_def kept_def lookup_entry_def)
      qed
    qed
  qed
qed

lemma kept_complete:
  assumes "table_ok st" "kept k e v st" "protected e" "tk_record_key token \<noteq> k"
  shows "kept k e v (idem_complete cfg now token response weight st)"
proof (cases "token_entry token st")
  case None
  with assms show ?thesis by (simp add: token_entry_None_complete)
next
  case (Some e')
  let ?k = "tk_record_key token" and ?w = "case weight of None \<Rightarrow> usize_max | Some w \<Rightarrow> w"
  from Some have l: "lookup_entry ?k st = Some e'" by (simp add: token_entry_Some)
  have clock: "kept k e v (send_replace c x (s\<lparr>st_access_clock := a, st_completed_bytes := n\<rparr>)) = kept k e v (send_replace c x s)"
    for c x s a n
    by (simp add: kept_def send_replace_def lookup_entry_def)
  obtain r st1 where run: "reserve_completed_bytes ?w (ic_max_completed_bytes cfg) ?k st = (r, st1)"
    by fastforce
  have l1: "lookup_entry ?k st1 = Some e'" using reserve_spec [OF assms(1) run] l by simp
  have "kept k e v st1" by (rule kept_reserve [OF assms(1-3) run])
  moreover have "table_ok st1" using reserve_spec [OF assms(1) run] by blast
  ultimately have "kept k e v (send_replace (en_sender e') x (alter_entry ?k f st1))" for x f
    by (intro kept_alter_send) (use l1 assms(4) in simp_all)
  moreover have "kept k e v (send_replace (en_sender e') x (alter_entry ?k f st))" for x f
    by (rule kept_alter_send [OF assms(1,2) l assms(4)])
  ultimately show ?thesis
    using Some run by (cases "is_ok r") (simp_all add: idem_complete_def Let_def clock)
qed

lemma kept_fail:
  assumes "table_ok st" "kept k e v st" "tk_record_key token \<noteq> k"
  shows "kept k e v (idem_fail cfg now token error st)"
proof (cases "token_entry token st")
  case None
  with assms show ?thesis by (simp add: idem_fail_def Let_def)
next
  case (Some e')
  let ?k = "tk_record_key token"
  from Some have l: "lookup_entry ?k st = Some e'" by (simp add: token_entry_Some)
  obtain a where a: "lookup_entry k st = Some (e\<lparr>en_last_access := a\<rparr>)" using assms(2) by (auto simp: kept_def)
  have "en_sender e \<noteq> en_sender e'" using sender_other [OF assms(1) a l] assms(3) by auto
  then have "kept k e v (send_replace (en_sender e') x (snd (remove_entry ?k st)))" for x
    using kept_remove [OF assms(2,3)] by (simp add: kept_def send_replace_def lookup_entry_def)
  with kept_alter_send [OF assms(1,2) l assms(3)] Some show ?thesis
    by (simp add: idem_fail_def Let_def)
qed

text \<open>What a request finds when the entry of its key is kept.\<close>

lemma begin_finds_kept:
  assumes "table_ok st" "kept k e v st" "\<not> stale_entry now (ic_in_flight_ttl cfg) e"
    and "validate_scope (rk_scope k) = Inr ()" "request_fingerprint digest request = Inr fp"
  shows "fst (idem_begin cfg digest now (rk_scope k) (rk_key k) request st) =
    (if en_fingerprint e \<noteq> fp
     then Inl (error_new IdempotencyConflict ''idempotency key was already used for a different request'')
     else case v of
        Out_Completed response \<Rightarrow> Inr (Act_Cached response)
      | Out_Failed error \<Rightarrow> Inl error
      | Out_Unknown error \<Rightarrow> Inl error
      | Out_Pending \<Rightarrow> Inr (Act_Wait (en_sender e)))"
proof -
  have k: "\<lparr>rk_scope = rk_scope k, rk_key = rk_key k\<rparr> = k" by simp
  have "kept k e v (cleanup now (ic_in_flight_ttl cfg) st)" by (rule kept_cleanup [OF assms(1-3)])
  then obtain a where
    "map_of (st_entries (cleanup now (ic_in_flight_ttl cfg) st)) k = Some (e\<lparr>en_last_access := a\<rparr>)"
    "st_channels (cleanup now (ic_in_flight_ttl cfg) st) (en_sender e) = v"
    by (auto simp: kept_def lookup_entry_def)
  then show ?thesis
    using assms(4,5)
    by (cases v) (simp_all add: idem_begin_def begin_found_def Let_def k lookup_entry_def)
qed

text \<open>The entry a new leader leaves.\<close>

lemma begin_leader_entry:
  assumes "table_ok st" "idem_begin cfg digest now scope key request st = (Inr (Act_Leader token), st')"
  obtains e where "kept \<lparr>rk_scope = scope, rk_key = key\<rparr> e Out_Pending st'"
    "en_expires_at e = None" "en_created_at e = now" "en_fingerprint e = tk_fingerprint token"
    "request_fingerprint digest request = Inr (tk_fingerprint token)"
    "validate_scope scope = Inr ()" "tk_record_key token = \<lparr>rk_scope = scope, rk_key = key\<rparr>"
proof -
  let ?k = "\<lparr>rk_scope = scope, rk_key = key\<rparr>" and ?st1 = "cleanup now (ic_in_flight_ttl cfg) st"
  let ?st2 = "?st1\<lparr>st_access_clock := sat_add (st_access_clock ?st1) 1\<rparr>"
  from assms(2) obtain fp where scope: "validate_scope scope = Inr ()"
    and fp: "request_fingerprint digest request = Inr fp"
    and none: "lookup_entry ?k ?st2 = None"
    and new: "begin_new cfg fp (sat_add (st_access_clock ?st1) 1) now ?k ?st2 = (Inr (Act_Leader token), st')"
    by (auto simp: idem_begin_def begin_found_def Let_def split: sum.splits option.splits if_splits
        entry_outcome.splits)
  obtain r st3 where m: "make_capacity (ic_max_entries cfg) ?st2 = (r, st3)" by fastforce
  with new obtain u where r: "r = Inr u" by (cases r) (auto simp: begin_new_def)
  let ?e = "\<lparr>en_fingerprint = fp, en_created_at = now, en_expires_at = None, en_retained_bytes = 0,
    en_uncertain = False, en_last_access = sat_add (st_access_clock ?st1) 1, en_sender = st_next_channel st3\<rparr>"
  from new m r have token: "token = \<lparr>tk_record_key = ?k, tk_fingerprint = fp\<rparr>"
    and "lookup_entry ?k st' = Some ?e" "st_channels st' (en_sender ?e) = Out_Pending"
    by (auto simp: begin_new_def Let_def lookup_entry_def)
  then have "kept ?k ?e Out_Pending st'" by (intro keptI)
  with token scope fp that [of ?e] show thesis by simp
qed

lemma fail_unknown_entry:
  assumes "table_ok st" "token_entry token st = Some e" "outcome_unknown error"
  shows "kept (tk_record_key token) (e\<lparr>en_expires_at := Some (now + ic_unknown_ttl cfg), en_uncertain := True\<rparr>)
    (Out_Unknown (with_detail ''outcome'' (JStr ''unknown'') (retryable False error)))
    (idem_fail cfg now token error st)"
proof -
  let ?k = "tk_record_key token"
  let ?f = "\<lambda>e. e\<lparr>en_expires_at := Some (now + ic_unknown_ttl cfg), en_uncertain := True\<rparr>"
  let ?v = "Out_Unknown (with_detail ''outcome'' (JStr ''unknown'') (retryable False error))"
  from assms(2) have l: "lookup_entry ?k st = Some e" by (simp add: token_entry_Some)
  have run: "idem_fail cfg now token error st = send_replace (en_sender e) ?v (alter_entry ?k ?f st)"
    using assms(2,3) by (simp add: idem_fail_def Let_def)
  show ?thesis
    unfolding run
    by (rule keptI, simp add: lookup_alter_same l, simp add: send_replace_def)
qed

section \<open>Properties\<close>

text \<open>C34. Whatever the interleaving of requests, the table never exceeds its entry limit, and the
  bytes of the responses retained for replay never exceed their budget.\<close>

theorem idempotency_memory_bounded:
  assumes "idem_new cfg = Inr st" "ic_max_completed_bytes cfg < usize_max"
  shows "let st' = fold (idem_run_call cfg digest) calls st in
    retained_total st' \<le> ic_max_completed_bytes cfg
    \<and> length (st_entries st') \<le> ic_max_entries cfg \<and> distinct (map fst (st_entries st'))"
  using idem_runs_inv [OF assms, of digest calls] unfolding table_ok_def bounded_def Let_def
  by (meson order_trans)

theorem idempotency_memory_bounded_witness:
  "\<exists>st. let st' = fold (idem_run_call default_idempotency_config (\<lambda>_. Inr ''d''))
        [Call_Begin 0 ''s'' ''k'' (request_generate ''p'')] st in
    retained_total st' \<le> ic_max_completed_bytes default_idempotency_config
    \<and> length (st_entries st') \<le> ic_max_entries default_idempotency_config
    \<and> distinct (map fst (st_entries st'))"
proof -
  let ?st = "\<lparr>st_entries = [], st_completed_bytes = 0, st_access_clock = 0,
    st_channels = (\<lambda>_. Out_Pending), st_next_channel = 0\<rparr>"
  have "idem_new default_idempotency_config = Inr ?st"
    by (simp add: idem_new_def default_idempotency_config_def)
  moreover have "ic_max_completed_bytes default_idempotency_config < usize_max"
    by (simp add: default_idempotency_config_def usize_max_def)
  ultimately show ?thesis by (intro exI [of _ ?st] idempotency_memory_bounded)
qed

text \<open>C33. No waiter is stranded: a channel that is still pending belongs to an entry of the table,
  so whenever a leader's entry is completed, failed, expired or evicted its waiters are
  answered.\<close>

theorem waiters_never_stranded:
  assumes "idem_new cfg = Inr st" "ic_max_completed_bytes cfg < usize_max"
    and "st' = fold (idem_run_call cfg digest) calls st"
    and "c < st_next_channel st'" "poll_waiter c st' = None"
  shows "\<exists>k e. lookup_entry k st' = Some e \<and> en_sender e = c \<and> en_expires_at e = None"
proof -
  have ok: "table_ok st'" using idem_runs_inv [OF assms(1,2)] assms(3) by blast
  have "st_channels st' c = Out_Pending"
    using assms(5) by (auto simp: poll_waiter_def split: entry_outcome.splits)
  with ok assms(4) have "c \<in> set (senders st')" by (simp add: table_ok_def)
  then obtain k e where e: "(k, e) \<in> set (st_entries st')" "en_sender e = c" by (auto simp: senders_def)
  then have "entry_ok st' e" using ok unfolding table_ok_def by blast
  with \<open>st_channels st' c = Out_Pending\<close> e(2) have "en_expires_at e = None" by (simp add: entry_ok_def)
  with e show ?thesis using lookup_iff [OF ok] by blast
qed

lemma sample_first_begin:
  "idem_begin default_idempotency_config (\<lambda>_. Inr ''d'') 0 ''s'' ''k'' r
     \<lparr>st_entries = [], st_completed_bytes = 0, st_access_clock = 0,
      st_channels = (\<lambda>_. Out_Pending), st_next_channel = 0\<rparr>
   = (Inr (Act_Leader \<lparr>tk_record_key = \<lparr>rk_scope = ''s'', rk_key = ''k''\<rparr>, tk_fingerprint = ''d''\<rparr>),
      \<lparr>st_entries = [(\<lparr>rk_scope = ''s'', rk_key = ''k''\<rparr>,
          \<lparr>en_fingerprint = ''d'', en_created_at = 0, en_expires_at = None, en_retained_bytes = 0,
           en_uncertain = False, en_last_access = 1, en_sender = 0\<rparr>)],
        st_completed_bytes = 0, st_access_clock = 1,
        st_channels = (\<lambda>_. Out_Pending)(0 := Out_Pending), st_next_channel = 1\<rparr>)"
  by (simp add: idem_begin_def validate_scope_def request_fingerprint_def cleanup_def begin_new_def
      make_capacity_def lookup_entry_def default_idempotency_config_def Let_def sat_add_def)

theorem waiters_never_stranded_witness:
  "\<exists>st'. \<exists>k e. lookup_entry k st' = Some e \<and> en_sender e = 0 \<and> en_expires_at e = None"
proof -
  let ?st = "\<lparr>st_entries = [], st_completed_bytes = 0, st_access_clock = 0,
    st_channels = (\<lambda>_. Out_Pending), st_next_channel = 0\<rparr>"
  let ?calls = "[Call_Begin 0 ''s'' ''k'' (request_generate ''p'')]"
  have new: "idem_new default_idempotency_config = Inr ?st"
    by (simp add: idem_new_def default_idempotency_config_def)
  have max: "ic_max_completed_bytes default_idempotency_config < usize_max"
    by (simp add: default_idempotency_config_def usize_max_def)
  let ?st1 = "snd (idem_begin default_idempotency_config (\<lambda>_. Inr ''d'') 0 ''s'' ''k'' (request_generate ''p'') ?st)"
  have run: "?st1 = fold (idem_run_call default_idempotency_config (\<lambda>_. Inr ''d'')) ?calls ?st"
    by (simp add: idem_run_call_def)
  have pending: "0 < st_next_channel ?st1" and poll: "poll_waiter 0 ?st1 = None"
    unfolding sample_first_begin by (simp_all add: poll_waiter_def)
  show ?thesis
    by (rule exI [of _ ?st1], rule waiters_never_stranded [OF new max run pending poll])
qed

text \<open>A leader that outlives the in-flight deadline leaves a hole: the next request with its key
  leads a second time, and when both complete the response is counted twice in the byte
  budget although it is retained once.\<close>

definition short_config :: idempotency_config where
  "short_config = \<lparr>ic_max_entries = 4, ic_max_completed_bytes = 1000, ic_completed_ttl = 500,
     ic_in_flight_ttl = 10, ic_unknown_ttl = 500\<rparr>"

definition stale_leader_calls :: "image_response \<Rightarrow> idem_call list" where
  "stale_leader_calls response =
     (let token = \<lparr>tk_record_key = \<lparr>rk_scope = ''s'', rk_key = ''k''\<rparr>, tk_fingerprint = ''d''\<rparr> in
      [Call_Begin 0 ''s'' ''k'' (request_generate ''p''),
       Call_Begin 20 ''s'' ''k'' (request_generate ''p''),
       Call_Complete 25 token response (Some 300), Call_Complete 26 token response (Some 300)])"

lemma stale_leader_counted_twice:
  "\<exists>st. idem_new short_config = Inr st
    \<and> (let st' = fold (idem_run_call short_config (\<lambda>_. Inr ''d'')) (stale_leader_calls response) st in
         retained_total st' = 300 \<and> st_completed_bytes st' = 600)"
proof -
  have "idem_new short_config = Inr \<lparr>st_entries = [], st_completed_bytes = 0, st_access_clock = 0,
      st_channels = (\<lambda>_. Out_Pending), st_next_channel = 0\<rparr>"
    by (simp add: idem_new_def short_config_def)
  then show ?thesis
    by (simp add: short_config_def stale_leader_calls_def idem_run_call_def idem_begin_def
        validate_scope_def request_fingerprint_def cleanup_def begin_new_def make_capacity_def
        lookup_entry_def stale_entry_def expire_entry_def remove_entry_def send_replace_def
        idem_complete_def token_entry_def reserve_completed_bytes.simps usize_sat_add_def usize_max_def
        alter_entry_def retained_total_def Let_def)
qed

end
