(* ===== verification/Idempotency_Leaders.thy ===== *)
theory Idempotency_Leaders
  imports Idempotency "HOL-Library.Multiset"
begin

text \<open>
  Requests at work. A request that became the leader of its key works until it completes, fails or is dropped,
  and only a leader at work completes or fails its key: this is how \<open>execute_with_optional_events\<close> uses the
  coordinator of \<open>idempotency.rs\<close>. The machine below interleaves all requests; what it assumes of a run is
  written in its rules. The in-flight period is the limit the configuration gives a leader: a request that
  begins finds every leader at work within it.
\<close>

section \<open>The machine\<close>

type_synonym leader = "idem_token \<times> nat"
type_synonym leader_state = "idem_state \<times> leader multiset"

definition in_time :: "idempotency_config \<Rightarrow> nat \<Rightarrow> leader multiset \<Rightarrow> bool" where
  "in_time cfg now workers \<longleftrightarrow> (\<forall>(token, since) \<in># workers. now < since + ic_in_flight_ttl cfg)"

definition elected :: "idem_action result \<Rightarrow> nat \<Rightarrow> leader multiset \<Rightarrow> leader multiset" where
  "elected answer now workers =
     (case answer of Inr (Act_Leader token) \<Rightarrow> add_mset (token, now) workers | _ \<Rightarrow> workers)"

text \<open>One operation; requests begin before the instant \<open>horizon\<close>.\<close>

inductive leader_step ::
  "idempotency_config \<Rightarrow> (image_request \<Rightarrow> string result) \<Rightarrow> nat \<Rightarrow> leader_state \<Rightarrow> leader_state \<Rightarrow> bool"
  for cfg digest horizon where
  Begin: "idem_begin cfg digest now scope key request st = (answer, st') \<Longrightarrow> now < horizon
    \<Longrightarrow> in_time cfg now workers
    \<Longrightarrow> leader_step cfg digest horizon (st, workers) (st', elected answer now workers)"
| Complete: "(token, since) \<in># workers
    \<Longrightarrow> leader_step cfg digest horizon (st, workers)
          (idem_complete cfg now token response weight st, workers - {#(token, since)#})"
| Fail: "(token, since) \<in># workers
    \<Longrightarrow> leader_step cfg digest horizon (st, workers)
          (idem_fail cfg now token error st, workers - {#(token, since)#})"
| Abandon: "leader_step cfg digest horizon (st, workers) (st, workers - {#leader#})"

abbreviation leader_steps ::
  "idempotency_config \<Rightarrow> (image_request \<Rightarrow> string result) \<Rightarrow> nat \<Rightarrow> leader_state \<Rightarrow> leader_state \<Rightarrow> bool" where
  "leader_steps cfg digest horizon \<equiv> (leader_step cfg digest horizon)\<^sup>*\<^sup>*"

definition leader_key :: "leader \<Rightarrow> record_key" where
  "leader_key w = tk_record_key (fst w)"

abbreviation leaders_of :: "record_key \<Rightarrow> leader multiset \<Rightarrow> leader multiset" where
  "leaders_of k workers \<equiv> filter_mset (\<lambda>w. leader_key w = k) workers"

lemma leaders_of_empty: "leaders_of k workers = {#} \<longleftrightarrow> (\<forall>w \<in># workers. leader_key w \<noteq> k)"
  by (induction workers) auto

section \<open>The invariant\<close>

definition holds_key :: "idempotency_config \<Rightarrow> idem_state \<Rightarrow> leader \<Rightarrow> bool" where
  "holds_key cfg st w \<longleftrightarrow> (\<exists>e. kept (leader_key w) e Out_Pending st \<and> en_expires_at e = None
     \<and> en_created_at e = snd w \<and> en_fingerprint e = tk_fingerprint (fst w)
     \<and> validate_scope (rk_scope (leader_key w)) = Inr ())"

definition leaders_ok :: "idempotency_config \<Rightarrow> leader_state \<Rightarrow> bool" where
  "leaders_ok cfg s \<longleftrightarrow> table_ok (fst s) \<and> bounded cfg (fst s)
     \<and> (\<forall>w \<in># snd s. holds_key cfg (fst s) w) \<and> (\<forall>k. size (leaders_of k (snd s)) \<le> 1)"

lemma holds_key_begin:
  assumes "table_ok st" "holds_key cfg st w" "now < snd w + ic_in_flight_ttl cfg" "0 < ic_in_flight_ttl cfg"
  shows "holds_key cfg (snd (idem_begin cfg digest now scope key request st)) w"
proof -
  from assms(2) obtain e where e: "kept (leader_key w) e Out_Pending st" "en_expires_at e = None"
    "en_created_at e = snd w" "en_fingerprint e = tk_fingerprint (fst w)"
    "validate_scope (rk_scope (leader_key w)) = Inr ()" by (auto simp: holds_key_def)
  have "\<not> stale_entry now (ic_in_flight_ttl cfg) e" using e(2,3) assms(3,4) by (auto simp: stale_entry_def)
  with kept_begin [OF assms(1) e(1)] e(2) have
    "kept (leader_key w) e Out_Pending (snd (idem_begin cfg digest now scope key request st))"
    by (simp add: protected_def)
  with e show ?thesis by (auto simp: holds_key_def)
qed

lemma holds_key_settle:
  assumes "table_ok st" "holds_key cfg st w" "tk_record_key token \<noteq> leader_key w"
  shows "holds_key cfg (idem_complete cfg now token response weight st) w"
    and "holds_key cfg (idem_fail cfg now token error st) w"
  using assms kept_complete [OF assms(1) _ _ assms(3)] kept_fail [OF assms(1) _ assms(3)]
  unfolding holds_key_def protected_def by blast+

text \<open>While a leader of the key is at work, a request with the key waits or conflicts.\<close>

lemma begin_while_held:
  assumes "table_ok st" "holds_key cfg st w" "now < snd w + ic_in_flight_ttl cfg" "0 < ic_in_flight_ttl cfg"
    and "request_fingerprint digest request = Inr fp"
  shows "\<exists>channel. fst (idem_begin cfg digest now (rk_scope (leader_key w)) (rk_key (leader_key w)) request st) =
    (if fp = tk_fingerprint (fst w) then Inr (Act_Wait channel)
     else Inl (error_new IdempotencyConflict ''idempotency key was already used for a different request''))"
proof -
  from assms(2) obtain e where e: "kept (leader_key w) e Out_Pending st" "en_expires_at e = None"
    "en_created_at e = snd w" "en_fingerprint e = tk_fingerprint (fst w)"
    "validate_scope (rk_scope (leader_key w)) = Inr ()" by (auto simp: holds_key_def)
  have "\<not> stale_entry now (ic_in_flight_ttl cfg) e" using e(2,3) assms(3,4) by (auto simp: stale_entry_def)
  from begin_finds_kept [OF assms(1) e(1) this e(5) assms(5)] e(4) show ?thesis by auto
qed

lemma leaders_of_single:
  assumes "size (leaders_of k workers) \<le> 1" "w \<in># workers" "leader_key w = k"
  shows "leaders_of k workers = {#w#}"
proof -
  from assms(2) obtain others where "workers = add_mset w others" by (auto dest: multi_member_split)
  with assms(1,3) show ?thesis by simp
qed

lemma leaders_of_remove:
  assumes "size (leaders_of (leader_key w) workers) \<le> 1" "w \<in># workers" "w' \<in># workers - {#w#}"
  shows "leader_key w' \<noteq> leader_key w"
proof
  assume key: "leader_key w' = leader_key w"
  from assms(2) obtain others where others: "workers = add_mset w others" by (auto dest: multi_member_split)
  with assms(3) have "w' \<in># others" by simp
  moreover have "leaders_of (leader_key w) others = {#}" using assms(1) others by simp
  ultimately show False using key unfolding leaders_of_empty by blast
qed

lemma idem_begin_leader_new:
  assumes "idem_begin cfg digest now scope key request st = (Inr (Act_Leader token), st')"
    and "leaders_ok cfg (st, workers)" "in_time cfg now workers" "0 < ic_in_flight_ttl cfg" "w \<in># workers"
  shows "leader_key w \<noteq> tk_record_key token"
proof
  assume key: "leader_key w = tk_record_key token"
  from assms(2) have ok: "table_ok st" by (simp add: leaders_ok_def)
  from begin_leader_entry [OF ok assms(1)] have fp: "request_fingerprint digest request = Inr (tk_fingerprint token)"
    and k: "tk_record_key token = \<lparr>rk_scope = scope, rk_key = key\<rparr>" by metis+
  have "now < snd w + ic_in_flight_ttl cfg" using assms(3,5) by (auto simp: in_time_def)
  with begin_while_held [OF ok _ _ assms(4) fp, of w now] assms(1,2,5) key k
  show False by (auto simp: leaders_ok_def split: if_splits)
qed

lemma remove_leader_ok:
  assumes "leaders_ok cfg (st, workers)" "w \<in># workers" "table_ok st'" "bounded cfg st'"
    and "\<And>w'. holds_key cfg st w' \<Longrightarrow> leader_key w' \<noteq> leader_key w \<Longrightarrow> holds_key cfg st' w'"
  shows "leaders_ok cfg (st', workers - {#w#})"
proof -
  have one: "size (leaders_of k workers) \<le> 1" for k using assms(1) by (simp add: leaders_ok_def)
  have "holds_key cfg st' w'" if w': "w' \<in># workers - {#w#}" for w'
  proof (rule assms(5))
    show "holds_key cfg st w'" using assms(1) in_diffD [OF w'] by (simp add: leaders_ok_def)
  qed (rule leaders_of_remove [OF one assms(2) w'])
  moreover have "size (leaders_of k (workers - {#w#})) \<le> 1" for k
    using one [of k] size_mset_mono [OF multiset_filter_mono [OF diff_subset_eq_self]] by (metis order_trans)
  ultimately show ?thesis using assms(3,4) by (simp add: leaders_ok_def)
qed

lemma leaders_ok_step:
  assumes "leader_step cfg digest horizon s s'" "leaders_ok cfg s"
    and cfg: "ic_max_completed_bytes cfg < usize_max" "0 < ic_in_flight_ttl cfg"
  shows "leaders_ok cfg s'"
  using assms(1,2)
proof cases
  case (Begin now scope key request st answer st' workers)
  with assms(2) have ok: "leaders_ok cfg (st, workers)" by simp
  then have inv: "table_ok st" "bounded cfg st" by (simp_all add: leaders_ok_def)
  have inv': "table_ok st'" "bounded cfg st'" using idem_begin_inv [OF inv Begin(3)] by blast+
  have held: "holds_key cfg st' w" if "w \<in># workers" for w
  proof -
    have "holds_key cfg st w" "now < snd w + ic_in_flight_ttl cfg"
      using that ok Begin(5) by (auto simp: leaders_ok_def in_time_def)
    from holds_key_begin [OF inv(1) this cfg(2)] Begin(3) show ?thesis by (metis snd_conv)
  qed
  show ?thesis
  proof (cases "\<exists>token. answer = Inr (Act_Leader token)")
    case True
    then obtain token where token: "answer = Inr (Act_Leader token)" by blast
    note led = Begin(3) [unfolded token]
    from begin_leader_entry [OF inv(1) led] obtain e where "kept (tk_record_key token) e Out_Pending st'"
      "en_expires_at e = None" "en_created_at e = now" "en_fingerprint e = tk_fingerprint token"
      "validate_scope (rk_scope (tk_record_key token)) = Inr ()" by (metis record_key.select_convs(1))
    then have "holds_key cfg st' (token, now)" by (auto simp: holds_key_def leader_key_def)
    moreover have "leaders_of (tk_record_key token) workers = {#}"
      using idem_begin_leader_new [OF led ok Begin(5) cfg(2)] by (simp add: leaders_of_empty)
    ultimately show ?thesis
      using held inv' ok Begin(2) token by (auto simp: leaders_ok_def elected_def leader_key_def)
  next
    case False
    then have "elected answer now workers = workers"
      by (auto simp: elected_def split: sum.split idem_action.split)
    with held inv' ok Begin(2) show ?thesis by (simp add: leaders_ok_def)
  qed
next
  case (Complete token since workers st now response weight)
  with assms(2) have ok: "leaders_ok cfg (st, workers)" by simp
  then have inv: "table_ok st" "bounded cfg st" by (simp_all add: leaders_ok_def)
  show ?thesis
    unfolding Complete(2)
    by (rule remove_leader_ok [OF ok Complete(3)])
      (use idem_complete_inv [OF inv cfg(1)] holds_key_settle(1) [OF inv(1)] in \<open>auto simp: leader_key_def\<close>)
next
  case (Fail token since workers st now error)
  with assms(2) have ok: "leaders_ok cfg (st, workers)" by simp
  then have inv: "table_ok st" "bounded cfg st" by (simp_all add: leaders_ok_def)
  show ?thesis
    unfolding Fail(2)
    by (rule remove_leader_ok [OF ok Fail(3)])
      (use idem_fail_inv [OF inv] holds_key_settle(2) [OF inv(1)] in \<open>auto simp: leader_key_def\<close>)
next
  case (Abandon st workers leader)
  with assms(2) have ok: "leaders_ok cfg (st, workers)" by simp
  have "size (leaders_of k (workers - {#leader#})) \<le> 1" for k
    using ok size_mset_mono [OF multiset_filter_mono [OF diff_subset_eq_self]]
    by (metis leaders_ok_def order_trans snd_conv)
  with ok show ?thesis unfolding Abandon(2) by (auto simp: leaders_ok_def dest: in_diffD)
qed

lemma leaders_ok_steps:
  assumes "leader_steps cfg digest horizon s s'" "leaders_ok cfg s"
    and "ic_max_completed_bytes cfg < usize_max" "0 < ic_in_flight_ttl cfg"
  shows "leaders_ok cfg s'"
  using assms(1,2) by induction (auto intro: leaders_ok_step [OF _ _ assms(3,4)])

lemma idem_new_leaders:
  assumes "idem_new cfg = Inr st0"
  shows "leaders_ok cfg (st0, {#})" "0 < ic_in_flight_ttl cfg"
  using idem_new_inv [OF assms] assms by (auto simp: leaders_ok_def idem_new_def split: if_splits)

section \<open>Tombstones\<close>

text \<open>The tombstone of a key: its entry cannot expire before the horizon and nobody works for the key.\<close>

definition buried :: "idempotency_config \<Rightarrow> nat \<Rightarrow> record_key \<Rightarrow> idem_entry \<Rightarrow> entry_outcome \<Rightarrow> leader_state \<Rightarrow> bool" where
  "buried cfg horizon k e v s \<longleftrightarrow> leaders_ok cfg s \<and> kept k e v (fst s) \<and> leaders_of k (snd s) = {#}
     \<and> v \<noteq> Out_Pending \<and> protected e \<and> (\<forall>now < horizon. \<not> stale_entry now (ic_in_flight_ttl cfg) e)"

lemma buried_step:
  assumes "leader_step cfg digest horizon s s'" "buried cfg horizon k e v s"
    and cfg: "ic_max_completed_bytes cfg < usize_max" "0 < ic_in_flight_ttl cfg"
  shows "buried cfg horizon k e v s'"
proof -
  from assms(2) have ok: "leaders_ok cfg s" and e: "kept k e v (fst s)" "leaders_of k (snd s) = {#}" "v \<noteq> Out_Pending"
    "protected e" "\<forall>now < horizon. \<not> stale_entry now (ic_in_flight_ttl cfg) e" by (simp_all add: buried_def)
  from ok have table: "table_ok (fst s)" by (simp add: leaders_ok_def)
  have other: "leader_key w \<noteq> k" if "w \<in># snd s" for w using e(2) that unfolding leaders_of_empty by blast
  have sub: "leaders_of k (snd s - {#w#}) = {#}" for w
    using e(2) unfolding leaders_of_empty by (blast dest: in_diffD)
  have "kept k e v (fst s') \<and> leaders_of k (snd s') = {#}"
    using assms(1)
  proof cases
    case (Begin now scope key request st answer st' workers)
    have live: "\<not> stale_entry now (ic_in_flight_ttl cfg) e" using e(5) Begin(4) by simp
    have "kept k e v st'"
      using kept_begin [OF table e(1,4) live, of digest scope key request] Begin(1,3) by (metis fst_conv snd_conv)
    moreover have "leaders_of k (elected answer now workers) = {#}"
    proof (cases "\<exists>token. answer = Inr (Act_Leader token)")
      case True
      then obtain token where token: "answer = Inr (Act_Leader token)" by blast
      have tab: "table_ok st" using table Begin(1) by simp
      note led = Begin(3) [unfolded token]
      from begin_leader_entry [OF tab led] have fp: "request_fingerprint digest request = Inr (tk_fingerprint token)"
        and scope: "validate_scope scope = Inr ()"
        and key: "tk_record_key token = \<lparr>rk_scope = scope, rk_key = key\<rparr>" by metis+
      have "tk_record_key token \<noteq> k"
      proof
        assume "tk_record_key token = k"
        with key have k: "k = \<lparr>rk_scope = scope, rk_key = key\<rparr>" by simp
        from begin_finds_kept [OF table e(1) live _ fp] scope have "fst (idem_begin cfg digest now scope key request st) \<noteq> Inr (Act_Leader token)"
          using e(3) Begin(1) by (auto simp: k split: entry_outcome.splits if_splits)
        with led show False by simp
      qed
      with token e(2) Begin(1) show ?thesis by (simp add: elected_def leader_key_def)
    next
      case False
      then have "elected answer now workers = workers"
        by (auto simp: elected_def split: sum.split idem_action.split)
      with e(2) Begin(1) show ?thesis by simp
    qed
    ultimately show ?thesis using Begin(2) by simp
  next
    case (Complete token since workers st now response weight)
    then have "tk_record_key token \<noteq> k" using other by (force simp: leader_key_def)
    with kept_complete [OF table e(1,4)] sub Complete(1,2) show ?thesis by simp
  next
    case (Fail token since workers st now error)
    then have "tk_record_key token \<noteq> k" using other by (force simp: leader_key_def)
    with kept_fail [OF table e(1)] sub Fail(1,2) show ?thesis by simp
  next
    case (Abandon st workers leader)
    with e(1) sub show ?thesis by simp
  qed
  with e leaders_ok_step [OF assms(1) ok cfg] show ?thesis by (simp add: buried_def)
qed

lemma buried_steps:
  assumes "leader_steps cfg digest horizon s s'" "buried cfg horizon k e v s"
    and "ic_max_completed_bytes cfg < usize_max" "0 < ic_in_flight_ttl cfg"
  shows "buried cfg horizon k e v s'"
  using assms(1,2) by induction (auto intro: buried_step [OF _ _ assms(3,4)])

lemma failed_unknown_buried:
  assumes "leaders_ok cfg (st, workers)" "(token, since) \<in># workers" "outcome_unknown error"
  shows "\<exists>e. buried cfg (now + ic_unknown_ttl cfg) (tk_record_key token) e
      (Out_Unknown (with_detail ''outcome'' (JStr ''unknown'') (retryable False error)))
      (idem_fail cfg now token error st, workers - {#(token, since)#})
    \<and> en_fingerprint e = tk_fingerprint token \<and> validate_scope (rk_scope (tk_record_key token)) = Inr ()"
proof -
  from assms(1) have inv: "table_ok st" "bounded cfg st" and one: "size (leaders_of (tk_record_key token) workers) \<le> 1"
    by (simp_all add: leaders_ok_def)
  from assms(1,2) have "holds_key cfg st (token, since)" by (auto simp: leaders_ok_def)
  then obtain e0 where e0: "kept (tk_record_key token) e0 Out_Pending st" "en_fingerprint e0 = tk_fingerprint token"
    "validate_scope (rk_scope (tk_record_key token)) = Inr ()" by (auto simp: holds_key_def leader_key_def)
  then obtain a where "token_entry token st = Some (e0\<lparr>en_last_access := a\<rparr>)" by (auto simp: kept_def token_entry_def)
  note kept = fail_unknown_entry [OF inv(1) this assms(3), of now cfg]
  have "leaders_ok cfg (idem_fail cfg now token error st, workers - {#(token, since)#})"
    by (rule remove_leader_ok [OF assms(1,2)])
      (use idem_fail_inv [OF inv] holds_key_settle(2) [OF inv(1)] in \<open>auto simp: leader_key_def\<close>)
  moreover have "leaders_of (tk_record_key token) (workers - {#(token, since)#}) = {#}"
    using leaders_of_remove [of "(token, since)" workers] one assms(2) unfolding leaders_of_empty
    by (metis fst_conv leader_key_def)
  ultimately show ?thesis
    using kept e0(2,3)
    by (intro exI [of _ "e0\<lparr>en_last_access := a, en_expires_at := Some (now + ic_unknown_ttl cfg), en_uncertain := True\<rparr>"])
      (simp add: buried_def protected_def stale_entry_def)
qed

lemma buried_after:
  assumes "leaders_ok cfg (st, workers)" "(token, since) \<in># workers" "outcome_unknown error"
    and "leader_steps cfg digest (now + ic_unknown_ttl cfg)
        (idem_fail cfg now token error st, workers - {#(token, since)#}) (st', workers')"
    and cfg: "ic_max_completed_bytes cfg < usize_max" "0 < ic_in_flight_ttl cfg"
    and "later < now + ic_unknown_ttl cfg" "tk_record_key token = \<lparr>rk_scope = scope, rk_key = key\<rparr>"
    and "request_fingerprint digest request = Inr (tk_fingerprint token)"
  shows "fst (idem_begin cfg digest later scope key request st')
      = Inl (with_detail ''outcome'' (JStr ''unknown'') (retryable False error))
    \<and> leaders_of \<lparr>rk_scope = scope, rk_key = key\<rparr> workers' = {#}"
proof -
  let ?v = "Out_Unknown (with_detail ''outcome'' (JStr ''unknown'') (retryable False error))"
  let ?k = "\<lparr>rk_scope = scope, rk_key = key\<rparr>"
  from failed_unknown_buried [OF assms(1-3), of now] obtain e where
    e: "buried cfg (now + ic_unknown_ttl cfg) ?k e ?v (idem_fail cfg now token error st, workers - {#(token, since)#})"
      "en_fingerprint e = tk_fingerprint token" "validate_scope scope = Inr ()" by (auto simp: assms(8))
  from buried_steps [OF assms(4) e(1) cfg]
  have b: "table_ok st'" "kept ?k e ?v st'" "leaders_of ?k workers' = {#}"
    "\<not> stale_entry later (ic_in_flight_ttl cfg) e"
    using assms(7) by (simp_all add: buried_def leaders_ok_def)
  with begin_finds_kept [OF b(1,2,4) _ assms(9)] e(2,3) show ?thesis by simp
qed

section \<open>Properties\<close>

text \<open>C6. One leader per key: in every run whose leaders stay within the in-flight period, at most one
  leader of a key is at work. While it is at work and within its period, every request with the key
  waits for it when it is the same request and conflicts when it is another one, whatever
  other requests begin, complete, fail or are dropped meanwhile.\<close>

theorem one_leader_per_key:
  assumes "idem_new cfg = Inr st0" "ic_max_completed_bytes cfg < usize_max"
    and "leader_steps cfg digest horizon (st0, {#}) (st, workers)"
    and "(token, since) \<in># workers" "later < since + ic_in_flight_ttl cfg"
    and "tk_record_key token = \<lparr>rk_scope = scope, rk_key = key\<rparr>"
    and "request_fingerprint digest request = Inr fingerprint"
  shows "leaders_of \<lparr>rk_scope = scope, rk_key = key\<rparr> workers = {#(token, since)#}
    \<and> (\<exists>channel. fst (idem_begin cfg digest later scope key request st) =
        (if fingerprint = tk_fingerprint token then Inr (Act_Wait channel)
         else Inl (error_new IdempotencyConflict ''idempotency key was already used for a different request'')))"
proof -
  note new = idem_new_leaders [OF assms(1)]
  have ok: "leaders_ok cfg (st, workers)" by (rule leaders_ok_steps [OF assms(3) new(1) assms(2) new(2)])
  then have held: "holds_key cfg st (token, since)" and "table_ok st" using assms(4) by (auto simp: leaders_ok_def)
  with begin_while_held [OF _ held _ new(2) assms(7)] assms(5,6)
  have "\<exists>channel. fst (idem_begin cfg digest later scope key request st) =
      (if fingerprint = tk_fingerprint token then Inr (Act_Wait channel)
       else Inl (error_new IdempotencyConflict ''idempotency key was already used for a different request''))"
    by (simp add: leader_key_def)
  moreover have "leaders_of \<lparr>rk_scope = scope, rk_key = key\<rparr> workers = {#(token, since)#}"
    by (rule leaders_of_single) (use ok assms(4,6) in \<open>auto simp: leaders_ok_def leader_key_def\<close>)
  ultimately show ?thesis by blast
qed

text \<open>A sample run: one request leads the key \<open>k\<close>.\<close>

definition sample_token :: idem_token where
  "sample_token = \<lparr>tk_record_key = \<lparr>rk_scope = ''s'', rk_key = ''k''\<rparr>, tk_fingerprint = ''d''\<rparr>"

definition sample_table :: idem_state where
  "sample_table = \<lparr>st_entries = [], st_completed_bytes = 0, st_access_clock = 0,
     st_channels = (\<lambda>_. Out_Pending), st_next_channel = 0\<rparr>"

lemma sample_new: "idem_new default_idempotency_config = Inr sample_table"
  "ic_max_completed_bytes default_idempotency_config < usize_max"
  by (simp_all add: idem_new_def default_idempotency_config_def sample_table_def usize_max_def)

lemma sample_led:
  "\<exists>st. leader_steps default_idempotency_config (\<lambda>_. Inr ''d'') 1 (sample_table, {#}) (st, {#(sample_token, 0)#})"
proof -
  have "leader_step default_idempotency_config (\<lambda>_. Inr ''d'') 1 (sample_table, {#})
      (snd (idem_begin default_idempotency_config (\<lambda>_. Inr ''d'') 0 ''s'' ''k'' (request_generate ''p'') sample_table),
       elected (Inr (Act_Leader sample_token)) 0 {#})"
    by (rule Begin [where now = 0 and scope = "''s''" and key = "''k''" and request = "request_generate ''p''"])
      (simp_all add: sample_first_begin sample_table_def sample_token_def in_time_def)
  then show ?thesis by (intro exI) (rule r_into_rtranclp, simp add: elected_def)
qed

theorem one_leader_per_key_witness:
  "\<exists>st channel. fst (idem_begin default_idempotency_config (\<lambda>_. Inr ''d'') 5 ''s'' ''k'' (request_generate ''p'') st)
     = Inr (Act_Wait channel)"
proof -
  from sample_led obtain st where run: "leader_steps default_idempotency_config (\<lambda>_. Inr ''d'') 1
    (sample_table, {#}) (st, {#(sample_token, 0)#})" by blast
  show ?thesis
    using one_leader_per_key [OF sample_new run, of sample_token 0 5 "''s''" "''k''" "request_generate ''p''" "''d''"]
    by (auto simp: sample_token_def default_idempotency_config_def request_fingerprint_def)
qed

text \<open>C2. No blind retry: when a leader at work fails with an unknown outcome, in a run whose leaders stay
  within the in-flight period, then until the tombstone expires every request with the same key and body
  gets that error, not retryable, and no request leads the key, whatever other requests do. No other
  completion or failure of the key can intervene: it would need a second leader at work.\<close>

theorem unknown_outcome_never_retried:
  assumes "idem_new cfg = Inr st0" "ic_max_completed_bytes cfg < usize_max"
    and "leader_steps cfg digest horizon (st0, {#}) (st, workers)"
    and "(token, since) \<in># workers" "outcome_unknown error"
    and "leader_steps cfg digest (now + ic_unknown_ttl cfg)
        (idem_fail cfg now token error st, workers - {#(token, since)#}) (st', workers')"
    and "later < now + ic_unknown_ttl cfg"
    and "tk_record_key token = \<lparr>rk_scope = scope, rk_key = key\<rparr>"
    and "request_fingerprint digest request = Inr (tk_fingerprint token)"
  shows "fst (idem_begin cfg digest later scope key request st')
      = Inl (with_detail ''outcome'' (JStr ''unknown'') (retryable False error))
    \<and> leaders_of \<lparr>rk_scope = scope, rk_key = key\<rparr> workers' = {#}"
proof -
  note new = idem_new_leaders [OF assms(1)]
  have ok: "leaders_ok cfg (st, workers)" by (rule leaders_ok_steps [OF assms(3) new(1) assms(2) new(2)])
  show ?thesis by (rule buried_after [OF ok assms(4-6,2) new(2) assms(7-9)])
qed

theorem unknown_outcome_never_retried_witness:
  "\<exists>st error. fst (idem_begin default_idempotency_config (\<lambda>_. Inr ''d'') 9 ''s'' ''k'' (request_generate ''p'') st)
     = Inl (with_detail ''outcome'' (JStr ''unknown'') (retryable False error))"
proof -
  from sample_led obtain st where run: "leader_steps default_idempotency_config (\<lambda>_. Inr ''d'') 1
    (sample_table, {#}) (st, {#(sample_token, 0)#})" by blast
  have unknown: "outcome_unknown (with_detail ''outcome'' (JStr ''unknown'') (error_new Timeout ''t''))"
    by (simp add: outcome_unknown_def)
  show ?thesis
    using unknown_outcome_never_retried [OF sample_new run _ unknown rtranclp.rtrancl_refl, of sample_token 0 9 3
        "''s''" "''k''" "request_generate ''p''"]
    by (auto simp: sample_token_def default_idempotency_config_def request_fingerprint_def)
qed

end
