(* ===== verification/Sse.thy ===== *)
theory Sse
  imports Errors
begin

text \<open>
  \<open>crates/codex-responses/src/sse.rs\<close>: the incremental decoder of server-sent events. An
  operation takes the decoder and returns it, also when it fails, together with the events
  decoded by the current call. The reference decoder at the end reads a whole stream at
  once; the decoder is shown to compute it for every way the network cuts the stream.
\<close>

section \<open>The decoder\<close>

record sse_limits =
  sl_max_stream_bytes :: usize
  sl_max_line_bytes :: usize
  sl_max_events :: usize
  sl_max_event_bytes :: usize

definition default_sse_limits :: sse_limits where
  "default_sse_limits = \<lparr>sl_max_stream_bytes = 256 * 1024 * 1024, sl_max_line_bytes = 128 * 1024 * 1024,
     sl_max_events = 10000, sl_max_event_bytes = 128 * 1024 * 1024\<rparr>"

record sse_decoder =
  sd_buffer :: string
  sd_data :: string
  sd_events :: usize
  sd_stream_bytes :: usize
  sd_limits :: sse_limits

definition sse_new :: "sse_limits \<Rightarrow> sse_decoder" where
  "sse_new limits = \<lparr>sd_buffer = [], sd_data = [], sd_events = 0, sd_stream_bytes = 0, sd_limits = limits\<rparr>"

definition sse_error :: "string \<Rightarrow> bridge_error" where
  "sse_error message = with_provider ''codex-responses'' (error_new Protocol message)"

text \<open>The decoder and the vector of events the current call fills.\<close>

type_synonym sse_run = "string list \<times> sse_decoder"

definition flush_event :: "sse_run \<Rightarrow> unit result \<times> sse_run" where
  "flush_event st = (case st of (evs, d) \<Rightarrow>
     if sd_data d = [] then (Inr (), evs, d)
     else
       let d1 = d\<lparr>sd_events := usize_sat_add (sd_events d) 1\<rparr> in
       if sl_max_events (sd_limits d) < sd_events d1
       then (Inl (sse_error ''SSE response contains too many events''), evs, d1)
       else (Inr (), evs @ [sd_data d1], d1\<lparr>sd_data := []\<rparr>))"

definition data_value :: "string \<Rightarrow> string option" where
  "data_value line =
     map_option (\<lambda>v. case strip_prefix '' '' v of None \<Rightarrow> v | Some w \<Rightarrow> w) (strip_prefix ''data:'' line)"

definition process_line :: "string \<Rightarrow> sse_run \<Rightarrow> unit result \<times> sse_run" where
  "process_line line st = (case st of (evs, d) \<Rightarrow>
     if line = [] then flush_event (evs, d)
     else if starts_with '':'' line then (Inr (), evs, d)
     else (case data_value line of
         None \<Rightarrow> (Inr (), evs, d)
       | Some v \<Rightarrow>
           let additional = length v + (if sd_data d = [] then 0 else 1) in
           if sl_max_event_bytes (sd_limits d) < usize_sat_add (length (sd_data d)) additional
           then (Inl (sse_error ''SSE event exceeds the configured limit''), evs, d)
           else (Inr (), evs,
                 d\<lparr>sd_data := (if sd_data d = [] then [] else sd_data d @ [CHR 10]) @ v\<rparr>)))"

definition strip_cr :: "string \<Rightarrow> string" where
  "strip_cr line = (if line \<noteq> [] \<and> last line = CHR 13 then butlast line else line)"

definition trim_end_cr :: "string \<Rightarrow> string" where
  "trim_end_cr line = rev (dropWhile (\<lambda>c. c = CHR 13) (rev line))"

lemma process_line_buffer [simp]: "sd_buffer (snd (snd (process_line line (evs, d)))) = sd_buffer d"
  by (auto simp: process_line_def flush_event_def Let_def split: option.splits)

lemma process_line_result_buffer:
  "(r, evs', d') = process_line line (evs, d) \<Longrightarrow> sd_buffer d' = sd_buffer d"
  using process_line_buffer [of line evs d] by (metis snd_conv)

text \<open>The loop of \<open>push\<close> over the complete lines of the buffer.\<close>

function drain_lines :: "sse_run \<Rightarrow> unit result \<times> sse_run" where
  "drain_lines (evs, d) =
     (case split_once CHR 10 (sd_buffer d) of
        None \<Rightarrow> (Inr (), evs, d)
      | Some (line, rest) \<Rightarrow>
          let d1 = d\<lparr>sd_buffer := rest\<rparr> in
          if \<not> utf8_valid (strip_cr line)
          then (Inl (sse_error ''SSE response is not valid UTF-8''), evs, d1)
          else (case process_line (strip_cr line) (evs, d1) of
              (Inl e, st) \<Rightarrow> (Inl e, st)
            | (Inr _, st) \<Rightarrow> drain_lines st))"
  by pat_completeness auto

termination
  by (relation "measure (\<lambda>(evs, d). length (sd_buffer d))")
    (auto simp: split_once_Some_iff dest: process_line_result_buffer)

declare drain_lines.simps [simp del]

definition sse_push :: "string \<Rightarrow> sse_decoder \<Rightarrow> string list result \<times> sse_decoder" where
  "sse_push chunk d =
     (if usize_max < sd_stream_bytes d + length chunk
      then (Inl (sse_error ''SSE stream byte count overflowed''), d)
      else
        let d1 = d\<lparr>sd_stream_bytes := sd_stream_bytes d + length chunk\<rparr> in
        if sl_max_stream_bytes (sd_limits d) < sd_stream_bytes d1
        then (Inl (sse_error ''SSE stream exceeds the configured limit''), d1)
        else if sl_max_line_bytes (sd_limits d) < usize_sat_add (length (sd_buffer d)) (length chunk)
        then (Inl (sse_error ''SSE line exceeds the configured limit''), d1)
        else (case drain_lines ([], d1\<lparr>sd_buffer := sd_buffer d @ chunk\<rparr>) of
            (Inl e, _, d2) \<Rightarrow> (Inl e, d2)
          | (Inr _, evs, d2) \<Rightarrow> (Inr evs, d2)))"

definition sse_finish :: "sse_decoder \<Rightarrow> string list result" where
  "sse_finish d =
     (case (if sd_buffer d = [] then (Inr (), [], d)
            else if \<not> utf8_valid (sd_buffer d)
            then (Inl (sse_error ''SSE response is not valid UTF-8''), [], d\<lparr>sd_buffer := []\<rparr>)
            else process_line (trim_end_cr (sd_buffer d)) ([], d\<lparr>sd_buffer := []\<rparr>)) of
        (Inl e, _) \<Rightarrow> Inl e
      | (Inr _, st) \<Rightarrow>
          (case flush_event st of
             (Inl e, _) \<Rightarrow> Inl e
           | (Inr _, evs, _) \<Rightarrow> Inr evs))"

text \<open>The decoder over a whole response: the chunks in the order they arrive, then the end.\<close>

fun push_all :: "string list \<Rightarrow> sse_decoder \<Rightarrow> string list result \<times> sse_decoder" where
  "push_all [] d = (Inr [], d)"
| "push_all (c # cs) d =
     (case sse_push c d of
        (Inl e, d1) \<Rightarrow> (Inl e, d1)
      | (Inr evs, d1) \<Rightarrow>
          (case push_all cs d1 of
             (Inl e, d2) \<Rightarrow> (Inl e, d2)
           | (Inr later, d2) \<Rightarrow> (Inr (evs @ later), d2)))"

definition decode_stream :: "sse_limits \<Rightarrow> string list \<Rightarrow> string list result" where
  "decode_stream limits chunks =
     (case push_all chunks (sse_new limits) of
        (Inl e, _) \<Rightarrow> Inl e
      | (Inr evs, d) \<Rightarrow> and_then (sse_finish d) (\<lambda>later. Inr (evs @ later)))"

section \<open>The reference decoder\<close>

text \<open>
  The lines of a stream, cut at line feeds; a carriage return before the line feed belongs to
  the terminator, and all those at the end of an unterminated last line are dropped.
\<close>

definition stream_lines :: "string \<Rightarrow> string list" where
  "stream_lines s =
     (let segments = split_all CHR 10 s in
      map strip_cr (butlast segments)
      @ (if last segments = [] then [] else [trim_end_cr (last segments)]))"

text \<open>Blocks of lines between empty lines.\<close>

fun split_blocks :: "string list \<Rightarrow> string list list" where
  "split_blocks [] = [[]]"
| "split_blocks (l # ls) =
     (if l = [] then [] # split_blocks ls
      else (case split_blocks ls of [] \<Rightarrow> [[l]] | b # bs \<Rightarrow> (l # b) # bs))"

fun join_lines :: "string list \<Rightarrow> string" where
  "join_lines [] = []"
| "join_lines [v] = v"
| "join_lines (v # w # vs) = v @ CHR 10 # join_lines (w # vs)"

text \<open>
  The payload of a block joins the values of its data lines; values before the first
  nonempty one leave no trace, and a block without any other is no event.
\<close>

definition data_values :: "string list \<Rightarrow> string list" where
  "data_values block = List.map_filter data_value block"

definition payload :: "string list \<Rightarrow> string" where
  "payload block = join_lines (dropWhile (\<lambda>v. v = []) (data_values block))"

definition sse_events :: "string \<Rightarrow> string list" where
  "sse_events s = filter (\<lambda>e. e \<noteq> []) (map payload (split_blocks (stream_lines s)))"

section \<open>Blocks and payloads of growing streams\<close>

lemma split_blocks_ne [simp]: "split_blocks ls \<noteq> []"
  by (cases ls) (auto split: list.splits)

lemma split_blocks_snoc:
  "split_blocks (ls @ [l]) =
     (if l = [] then split_blocks ls @ [[]]
      else butlast (split_blocks ls) @ [last (split_blocks ls) @ [l]])"
  by (induction ls) (auto split: list.splits)

lemma join_lines_snoc: "join_lines (vs @ [v]) = (if vs = [] then v else join_lines vs @ CHR 10 # v)"
  by (induction vs rule: join_lines.induct) auto

lemma join_lines_ne: "vs \<noteq> [] \<Longrightarrow> hd vs \<noteq> [] \<Longrightarrow> join_lines vs \<noteq> []"
  by (cases vs rule: join_lines.cases) auto

lemma join_drop_snoc:
  fixes vs :: "string list"
  defines "E \<equiv> \<lambda>v. v = []"
  shows "join_lines (dropWhile E (vs @ [v])) =
     (if join_lines (dropWhile E vs) = [] then [] else join_lines (dropWhile E vs) @ [CHR 10]) @ v"
proof (cases "\<forall>w \<in> set vs. E w")
  case True
  then have "dropWhile E (vs @ [v]) = dropWhile E [v]" by (rule dropWhile_append2 [OF bspec])
  moreover from True have "dropWhile E vs = []" by simp
  ultimately show ?thesis by (simp only:) (simp add: E_def)
next
  case False
  then obtain w where w: "w \<in> set vs" "\<not> E w" by blast
  then have "dropWhile E vs \<noteq> []" by auto
  moreover from this have "hd (dropWhile E vs) \<noteq> []" using hd_dropWhile E_def by blast
  ultimately show ?thesis
    using join_lines_ne by (simp add: dropWhile_append1 [of w vs E] w join_lines_snoc)
qed

lemma data_values_snoc:
  "data_values (block @ [l]) = data_values block @ (case data_value l of None \<Rightarrow> [] | Some v \<Rightarrow> [v])"
  by (simp add: data_values_def List.map_filter_def split: option.splits)

lemma payload_snoc:
  "payload (block @ [l]) =
     (case data_value l of
        None \<Rightarrow> payload block
      | Some v \<Rightarrow> (if payload block = [] then [] else payload block @ [CHR 10]) @ v)"
  by (simp add: payload_def data_values_snoc join_drop_snoc split: option.splits)

lemma payload_Nil [simp]: "payload [] = []"
  by (simp add: payload_def data_values_def List.map_filter_def)

section \<open>The decoder follows the reference\<close>

definition complete_events :: "string list \<Rightarrow> string list" where
  "complete_events ls = filter (\<lambda>e. e \<noteq> []) (map payload (butlast (split_blocks ls)))"

definition open_payload :: "string list \<Rightarrow> string" where
  "open_payload ls = payload (last (split_blocks ls))"

definition within :: "sse_limits \<Rightarrow> string list \<Rightarrow> bool" where
  "within L ls \<longleftrightarrow>
     (\<forall>b \<in> set (split_blocks ls). length (payload b) \<le> sl_max_event_bytes L)
     \<and> length (complete_events ls) \<le> sl_max_events L"

text \<open>Below the maximum of the machine word the saturating checks are exact.\<close>

definition sane_limits :: "sse_limits \<Rightarrow> bool" where
  "sane_limits L \<longleftrightarrow> sl_max_events L < usize_max \<and> sl_max_event_bytes L < usize_max
     \<and> sl_max_line_bytes L < usize_max \<and> sl_max_stream_bytes L < usize_max"

text \<open>A decoder that has processed some lines and emitted the events of the complete blocks.\<close>

definition covers :: "sse_limits \<Rightarrow> string list \<Rightarrow> string list \<Rightarrow> sse_decoder \<Rightarrow> bool" where
  "covers L ls evs d \<longleftrightarrow>
     evs = complete_events ls \<and> sd_data d = open_payload ls \<and> sd_events d = length evs
     \<and> sd_limits d = L \<and> within L ls"

lemma last_butlast_blocks: "split_blocks ls = butlast (split_blocks ls) @ [last (split_blocks ls)]"
  by simp

lemma complete_events_Nil [simp]: "complete_events [] = []"
  by (simp add: complete_events_def)

lemma open_payload_Nil [simp]: "open_payload [] = []"
  by (simp add: open_payload_def)

lemma complete_events_snoc:
  "complete_events (ls @ [l]) =
     complete_events ls @ (if l = [] \<and> open_payload ls \<noteq> [] then [open_payload ls] else [])"
proof (cases "l = []")
  case True
  have "map payload (split_blocks ls) =
      map payload (butlast (split_blocks ls)) @ [open_payload ls]"
    unfolding open_payload_def by (subst last_butlast_blocks) (simp only: map_append list.map)
  with True show ?thesis by (simp add: complete_events_def split_blocks_snoc)
qed (simp add: complete_events_def split_blocks_snoc)

lemma open_payload_snoc:
  "open_payload (ls @ [l]) =
     (if l = [] then []
      else (case data_value l of
          None \<Rightarrow> open_payload ls
        | Some v \<Rightarrow> (if open_payload ls = [] then [] else open_payload ls @ [CHR 10]) @ v))"
  by (simp add: open_payload_def split_blocks_snoc payload_snoc split: option.splits)

lemma payload_grows: "length (payload b) \<le> length (payload (b @ [l]))"
  by (auto simp: payload_snoc split: option.splits)

lemma blocks_within:
  "(\<forall>b \<in> set (split_blocks ls). length (payload b) \<le> m) \<longleftrightarrow>
   (\<forall>b \<in> set (butlast (split_blocks ls)). length (payload b) \<le> m) \<and> length (open_payload ls) \<le> m"
  unfolding open_payload_def by (subst last_butlast_blocks) (simp only: set_append ball_Un, simp)

lemma within_snoc:
  "within L (ls @ [l]) \<longleftrightarrow>
     within L ls \<and> length (open_payload (ls @ [l])) \<le> sl_max_event_bytes L
     \<and> length (complete_events (ls @ [l])) \<le> sl_max_events L"
proof (cases "l = []")
  case True
  then show ?thesis
    by (auto simp: within_def split_blocks_snoc complete_events_snoc open_payload_snoc)
next
  case False
  have "length (open_payload ls) \<le> length (open_payload (ls @ [l]))"
    using False payload_grows by (simp add: open_payload_def split_blocks_snoc)
  with False show ?thesis
    unfolding within_def blocks_within
    by (auto simp: complete_events_snoc split_blocks_snoc)
qed

lemma within_Nil [simp]: "within L []"
  by (simp add: within_def)

lemma within_append: "within L (ls @ ms) \<Longrightarrow> within L ls"
  by (induction ms rule: rev_induct) (auto simp: within_snoc simp flip: append_assoc)

lemma data_value_comment: "starts_with '':'' line \<Longrightarrow> data_value line = None"
  by (auto simp: starts_with_iff data_value_def)

lemma coversD:
  assumes "covers L ls es d"
  shows "within L ls" "sd_data d = open_payload ls" "sd_events d = length (complete_events ls)"
    "es = complete_events ls" "sd_limits d = L"
  using assms by (simp_all add: covers_def)

lemma flush_covers:
  assumes sane: "sane_limits L" and cov: "covers L ls (em @ evs) d"
  shows "if within L (ls @ [[]])
    then \<exists>evs' d'. flush_event (evs, d) = (Inr (), evs', d') \<and> covers L (ls @ [[]]) (em @ evs') d'
      \<and> sd_buffer d' = sd_buffer d \<and> sd_stream_bytes d' = sd_stream_bytes d
    else \<exists>e st. flush_event (evs, d) = (Inl e, st)"
proof -
  note wi = coversD [OF cov]
  have len: "length (complete_events ls) = length em + length evs" by (simp flip: wi(4))
  have op: "length (open_payload ls) \<le> sl_max_event_bytes L"
    using wi(1) by (simp add: within_def blocks_within)
  have le: "length (complete_events ls) < usize_max" "length (complete_events ls) \<le> sl_max_events L"
    using sane wi(1) by (auto simp: sane_limits_def within_def)
  then have plus: "usize_sat_add (length (complete_events ls)) (Suc 0) = Suc (length (complete_events ls))"
    by (simp add: usize_sat_add_def)
  show ?thesis
  proof (cases "open_payload ls = []")
    case True
    then have "within L (ls @ [[]])" using wi(1) le
      by (simp add: within_snoc complete_events_snoc open_payload_snoc)
    with True wi len show ?thesis
      by (auto simp: flush_event_def covers_def complete_events_snoc open_payload_snoc)
  next
    case False
    with wi le len op show ?thesis
      by (auto simp: flush_event_def covers_def complete_events_snoc open_payload_snoc within_snoc
          plus [unfolded len] Let_def simp flip: append_assoc)
  qed
qed

lemma process_line_covers:
  assumes sane: "sane_limits L" and cov: "covers L ls (em @ evs) d"
  shows "if within L (ls @ [l])
    then \<exists>evs' d'. process_line l (evs, d) = (Inr (), evs', d') \<and> covers L (ls @ [l]) (em @ evs') d'
      \<and> sd_buffer d' = sd_buffer d \<and> sd_stream_bytes d' = sd_stream_bytes d
    else \<exists>e st. process_line l (evs, d) = (Inl e, st)"
proof (cases "l = []")
  case True
  then show ?thesis using flush_covers [OF assms] by (auto simp: process_line_def split: if_splits)
next
  case False
  note wi = coversD [OF cov]
  have len: "length (complete_events ls) = length em + length evs" by (simp flip: wi(4))
  have op: "length (open_payload ls) \<le> sl_max_event_bytes L"
    using wi(1) by (simp add: within_def blocks_within)
  have le: "length (complete_events ls) \<le> sl_max_events L" using wi(1) by (simp add: within_def)
  have cmp: "sl_max_event_bytes L < usize_sat_add a b \<longleftrightarrow> sl_max_event_bytes L < a + b" for a b
    using sane by (auto simp: sane_limits_def usize_sat_add_def)
  show ?thesis
  proof (cases "data_value l")
    case None
    moreover from None wi(1) False le op have "within L (ls @ [l])"
      by (simp add: within_snoc complete_events_snoc open_payload_snoc)
    ultimately show ?thesis using False wi len
      by (auto simp: process_line_def covers_def complete_events_snoc open_payload_snoc)
  next
    case (Some v)
    then have "\<not> starts_with '':'' l" using data_value_comment by auto
    with Some False wi le len op show ?thesis
      by (auto simp: process_line_def covers_def complete_events_snoc open_payload_snoc within_snoc
          cmp Let_def)
  qed
qed

section \<open>Pushing chunks\<close>

lemma split_all_once:
  "split_all c s = (case split_once c s of None \<Rightarrow> [s] | Some (a, b) \<Rightarrow> a # split_all c b)"
  by (induction s) (auto split: option.splits list.splits)

lemma split_all_append:
  "split_all c (s @ t) =
     butlast (split_all c s) @ (last (split_all c s) @ hd (split_all c t)) # tl (split_all c t)"
  by (induction s) (auto split: list.splits)

definition full_lines :: "string \<Rightarrow> string list" where
  "full_lines s = map strip_cr (butlast (split_all CHR 10 s))"

definition open_line :: "string \<Rightarrow> string" where
  "open_line s = last (split_all CHR 10 s)"

lemma split_all_last: "c \<notin> set (last (split_all c s))"
  by (induction s) (auto split: list.splits)

lemma split_all_open:
  "split_all CHR 10 (open_line s @ t) = (open_line s @ hd (split_all CHR 10 t)) # tl (split_all CHR 10 t)"
proof -
  have "split_once CHR 10 (open_line s) = None"
    using split_all_last [of "CHR 10" s] by (simp only: open_line_def split_once_None_iff not_False_eq_True)
  then have "split_all CHR 10 (open_line s) = [open_line s]"
    by (simp add: split_all_once [of _ "open_line s"])
  then show ?thesis by (simp add: split_all_append)
qed

lemma full_lines_append: "full_lines (s @ t) = full_lines s @ full_lines (open_line s @ t)"
  unfolding full_lines_def split_all_open
  unfolding split_all_append open_line_def by (simp add: butlast_append)

lemma open_line_append: "open_line (s @ t) = open_line (open_line s @ t)"
  unfolding open_line_def [of "open_line s @ t"] split_all_open
  unfolding open_line_def split_all_append by simp

lemma covers_cong:
  "sd_data d' = sd_data d \<Longrightarrow> sd_events d' = sd_events d \<Longrightarrow> sd_limits d' = sd_limits d
   \<Longrightarrow> covers L ls es d' = covers L ls es d"
  by (simp only: covers_def)

lemma drain_covers:
  assumes sane: "sane_limits L" and cov: "covers L ls (em @ evs) d"
  shows "if list_all utf8_valid (full_lines (sd_buffer d)) \<and> within L (ls @ full_lines (sd_buffer d))
    then \<exists>evs' d'. drain_lines (evs, d) = (Inr (), evs', d')
      \<and> covers L (ls @ full_lines (sd_buffer d)) (em @ evs') d'
      \<and> sd_buffer d' = open_line (sd_buffer d) \<and> sd_stream_bytes d' = sd_stream_bytes d
    else \<exists>e st. drain_lines (evs, d) = (Inl e, st)"
  using cov
proof (induction "(evs, d)" arbitrary: evs d ls rule: drain_lines.induct)
  case (1 evs d)
  show ?case
  proof (cases "split_once CHR 10 (sd_buffer d)")
    case None
    then have "full_lines (sd_buffer d) = []" "open_line (sd_buffer d) = sd_buffer d"
      by (simp_all add: full_lines_def open_line_def split_all_once [of _ "sd_buffer d"])
    moreover have "drain_lines (evs, d) = (Inr (), evs, d)"
      using None by (subst drain_lines.simps) simp
    ultimately show ?thesis using "1.prems" coversD(1) [OF "1.prems"] by auto
  next
    case (Some p)
    then obtain line rest where p: "split_once CHR 10 (sd_buffer d) = Some (line, rest)" by (cases p) auto
    define d1 where "d1 = d\<lparr>sd_buffer := rest\<rparr>"
    let ?l = "strip_cr line"
    have full: "full_lines (sd_buffer d) = ?l # full_lines rest" "open_line (sd_buffer d) = open_line rest"
      by (simp_all add: full_lines_def open_line_def split_all_once [of _ "sd_buffer d"] p)
    have cov1: "covers L ls (em @ evs) d1" using "1.prems" covers_cong [of d1 d] by (simp add: d1_def)
    have step: "drain_lines (evs, d) =
        (if \<not> utf8_valid ?l then (Inl (sse_error ''SSE response is not valid UTF-8''), evs, d1)
         else (case process_line ?l (evs, d1) of (Inl e, st) \<Rightarrow> (Inl e, st) | (Inr _, st) \<Rightarrow> drain_lines st))"
      by (subst drain_lines.simps) (simp add: p d1_def)
    show ?thesis
    proof (cases "utf8_valid ?l \<and> within L (ls @ [?l])")
      case True
      with process_line_covers [OF sane cov1, of ?l] obtain evs1 d2 where
        run: "process_line ?l (evs, d1) = (Inr (), evs1, d2)"
        and cov2: "covers L (ls @ [?l]) (em @ evs1) d2"
        and frame: "sd_buffer d2 = rest" "sd_stream_bytes d2 = sd_stream_bytes d"
        by (auto simp: d1_def)
      from step True run have eq: "drain_lines (evs, d) = drain_lines (evs1, d2)" by simp
      have nn: "\<not> \<not> utf8_valid ?l" using True by simp
      have "if list_all utf8_valid (full_lines rest) \<and> within L ((ls @ [?l]) @ full_lines rest)
        then \<exists>evs' d'. drain_lines (evs1, d2) = (Inr (), evs', d')
          \<and> covers L ((ls @ [?l]) @ full_lines rest) (em @ evs') d'
          \<and> sd_buffer d' = open_line rest \<and> sd_stream_bytes d' = sd_stream_bytes d
        else \<exists>e st. drain_lines (evs1, d2) = (Inl e, st)"
        using "1.hyps" [OF p refl d1_def nn run [symmetric] refl cov2] unfolding frame .
      with True show ?thesis
        unfolding full eq by (simp only: append.assoc append_Cons append_Nil list.pred_inject simp_thms)
    next
      case False
      then have "\<not> (list_all utf8_valid (full_lines (sd_buffer d)) \<and> within L (ls @ full_lines (sd_buffer d)))"
        using within_append [of L "ls @ [?l]" "full_lines rest"] by (auto simp: full)
      moreover have "\<exists>e st. drain_lines (evs, d) = (Inl e, st)"
        using step False process_line_covers [OF sane cov1, of ?l] by (auto split: if_splits)
      ultimately show ?thesis by (simp only: if_False)
    qed
  qed
qed

text \<open>
  A decoder that has received the bytes \<open>s\<close>. Every later push sees the open line of \<open>s\<close> and
  the new chunk.
\<close>

definition received :: "sse_limits \<Rightarrow> string \<Rightarrow> string list \<Rightarrow> sse_decoder \<Rightarrow> bool" where
  "received L s evs d \<longleftrightarrow>
     covers L (full_lines s) evs d \<and> sd_buffer d = open_line s \<and> sd_stream_bytes d = length s
     \<and> list_all utf8_valid (full_lines s) \<and> length s \<le> sl_max_stream_bytes L"

definition push_fits :: "sse_limits \<Rightarrow> string \<Rightarrow> string \<Rightarrow> bool" where
  "push_fits L s c \<longleftrightarrow>
     length (open_line s) + length c \<le> sl_max_line_bytes L
     \<and> length (s @ c) \<le> sl_max_stream_bytes L
     \<and> list_all utf8_valid (full_lines (s @ c)) \<and> within L (full_lines (s @ c))"

lemma push_received:
  assumes sane: "sane_limits L" and rec: "received L s em d"
  shows "if push_fits L s c
    then \<exists>evs d'. sse_push c d = (Inr evs, d') \<and> received L (s @ c) (em @ evs) d'
    else \<exists>e d'. sse_push c d = (Inl e, d')"
proof -
  have cov: "covers L (full_lines s) em d" and buf: "sd_buffer d = open_line s"
    and bytes: "sd_stream_bytes d = length s" and utf: "list_all utf8_valid (full_lines s)"
    and stream: "length s \<le> sl_max_stream_bytes L"
    using rec by (auto simp: received_def)
  have lim: "sd_limits d = L" by (rule coversD(5) [OF cov])
  have caps: "sl_max_stream_bytes L < usize_max" "sl_max_line_bytes L < usize_max"
    using sane by (auto simp: sane_limits_def)
  define d1 where "d1 = d\<lparr>sd_stream_bytes := length (s @ c), sd_buffer := open_line s @ c\<rparr>"
  have d1: "covers L (full_lines s) (em @ []) d1" "sd_buffer d1 = open_line s @ c"
    "sd_stream_bytes d1 = length (s @ c)"
    using cov covers_cong [of d1 d] by (simp_all add: d1_def)
  have guard: "\<exists>e d'. sse_push c d = (Inl e, d')"
    if "\<not> (length (s @ c) \<le> sl_max_stream_bytes L \<and> length (open_line s) + length c \<le> sl_max_line_bytes L)"
    using that caps by (auto simp: sse_push_def lim bytes buf usize_sat_add_def Let_def)
  have run: "sse_push c d = (case drain_lines ([], d1) of (Inl e, _, d2) \<Rightarrow> (Inl e, d2)
      | (Inr _, evs, d2) \<Rightarrow> (Inr evs, d2))"
    if "length (s @ c) \<le> sl_max_stream_bytes L" "length (open_line s) + length c \<le> sl_max_line_bytes L"
    using that caps by (auto simp: sse_push_def lim bytes buf usize_sat_add_def Let_def d1_def)
  have drain: "if list_all utf8_valid (full_lines (s @ c)) \<and> within L (full_lines (s @ c))
    then \<exists>evs d'. drain_lines ([], d1) = (Inr (), evs, d') \<and> covers L (full_lines (s @ c)) (em @ evs) d'
      \<and> sd_buffer d' = open_line (s @ c) \<and> sd_stream_bytes d' = length (s @ c)
    else \<exists>e st. drain_lines ([], d1) = (Inl e, st)"
    using drain_covers [OF sane d1(1)] utf
    unfolding d1(2,3) full_lines_append [of s c] open_line_append [of s c]
    by (simp only: list_all_append simp_thms)
  show ?thesis
  proof (cases "length (s @ c) \<le> sl_max_stream_bytes L
      \<and> length (open_line s) + length c \<le> sl_max_line_bytes L")
    case True
    show ?thesis
    proof (cases "push_fits L s c")
      case fits: True
      with drain obtain evs d' where "drain_lines ([], d1) = (Inr (), evs, d')"
        and "covers L (full_lines (s @ c)) (em @ evs) d'" "sd_buffer d' = open_line (s @ c)"
          "sd_stream_bytes d' = length (s @ c)"
        by (auto simp: push_fits_def)
      with fits True run show ?thesis by (auto simp: push_fits_def received_def)
    next
      case False
      with drain True obtain e st where "drain_lines ([], d1) = (Inl e, st)"
        by (auto simp: push_fits_def split: if_splits)
      with True run False show ?thesis by (cases st) auto
    qed
  next
    case False
    with guard show ?thesis by (auto simp: push_fits_def)
  qed
qed

section \<open>The whole stream\<close>

fun pushes_fit :: "sse_limits \<Rightarrow> string \<Rightarrow> string list \<Rightarrow> bool" where
  "pushes_fit L s [] = True"
| "pushes_fit L s (c # cs) = (push_fits L s c \<and> pushes_fit L (s @ c) cs)"

lemma push_all_received:
  assumes sane: "sane_limits L" and rec: "received L s em d"
  shows "if pushes_fit L s chunks
    then \<exists>evs d'. push_all chunks d = (Inr evs, d') \<and> received L (s @ concat chunks) (em @ evs) d'
    else \<exists>e d'. push_all chunks d = (Inl e, d')"
  using rec
proof (induction chunks arbitrary: s em d)
  case Nil
  then show ?case by auto
next
  case (Cons c cs)
  show ?case
  proof (cases "push_fits L s c")
    case True
    with push_received [OF sane Cons.prems, of c] obtain evs d1 where
      push: "sse_push c d = (Inr evs, d1)" and rec1: "received L (s @ c) (em @ evs) d1" by auto
    show ?thesis using Cons.IH [OF rec1] True push by (auto split: if_splits)
  next
    case False
    with push_received [OF sane Cons.prems, of c] show ?thesis by auto
  qed
qed

lemma stream_lines_full:
  "stream_lines s = full_lines s @ (if open_line s = [] then [] else [trim_end_cr (open_line s)])"
  by (simp add: stream_lines_def full_lines_def open_line_def Let_def)

lemma sse_events_complete: "sse_events s = complete_events (stream_lines s @ [[]])"
  by (simp add: sse_events_def complete_events_def split_blocks_snoc)

definition finish_fits :: "sse_limits \<Rightarrow> string \<Rightarrow> bool" where
  "finish_fits L s \<longleftrightarrow> utf8_valid (open_line s) \<and> within L (stream_lines s @ [[]])"

lemma finish_received:
  assumes sane: "sane_limits L" and rec: "received L s em d"
  shows "if finish_fits L s then \<exists>evs. sse_finish d = Inr evs \<and> em @ evs = sse_events s
    else \<exists>e. sse_finish d = Inl e"
proof -
  have buf: "sd_buffer d = open_line s" using rec by (simp add: received_def)
  define r where "r = (if sd_buffer d = [] then (Inr (), [], d)
      else if \<not> utf8_valid (sd_buffer d)
      then (Inl (sse_error ''SSE response is not valid UTF-8''), [], d\<lparr>sd_buffer := []\<rparr>)
      else process_line (trim_end_cr (sd_buffer d)) ([], d\<lparr>sd_buffer := []\<rparr>))"
  have fin: "sse_finish d = (case r of (Inl e, _) \<Rightarrow> Inl e
      | (Inr _, st) \<Rightarrow> (case flush_event st of (Inl e, _) \<Rightarrow> Inl e | (Inr _, evs, _) \<Rightarrow> Inr evs))"
    by (simp add: sse_finish_def r_def)
  have cov: "covers L (full_lines s) (em @ []) d" "covers L (full_lines s) (em @ []) (d\<lparr>sd_buffer := []\<rparr>)"
    using rec covers_cong [of "d\<lparr>sd_buffer := []\<rparr>" d] by (simp_all add: received_def)
  have last: "if utf8_valid (open_line s) \<and> within L (stream_lines s)
    then \<exists>evs d'. r = (Inr (), evs, d') \<and> covers L (stream_lines s) (em @ evs) d'
    else \<exists>e st. r = (Inl e, st)"
    using process_line_covers [OF sane cov(2), of "trim_end_cr (open_line s)"] cov(1) coversD(1) [OF cov(1)]
    by (cases "open_line s = []") (auto simp: r_def buf stream_lines_full split: if_splits)
  show ?thesis
  proof (cases "utf8_valid (open_line s) \<and> within L (stream_lines s)")
    case True
    with last obtain evs d' where run: "r = (Inr (), evs, d')"
      and cov': "covers L (stream_lines s) (em @ evs) d'" by auto
    show ?thesis
      using flush_covers [OF sane cov'] True
      by (auto simp: fin run finish_fits_def sse_events_complete dest: coversD(4) split: if_splits)
  next
    case False
    with last have "\<exists>e. sse_finish d = Inl e" by (auto simp: fin split: if_splits)
    moreover have "\<not> finish_fits L s"
      using False within_append [of L "stream_lines s" "[[]]"] by (auto simp: finish_fits_def)
    ultimately show ?thesis by simp
  qed
qed

lemma received_Nil: "received L [] [] (sse_new L)"
  by (simp add: received_def covers_def sse_new_def full_lines_def open_line_def)

lemma decode_stream_iff:
  assumes "sane_limits L"
  shows "decode_stream L chunks = Inr evs \<longleftrightarrow>
    pushes_fit L [] chunks \<and> finish_fits L (concat chunks) \<and> evs = sse_events (concat chunks)"
proof (cases "pushes_fit L [] chunks")
  case True
  with push_all_received [OF assms received_Nil, of chunks] obtain evs1 d where
    push: "push_all chunks (sse_new L) = (Inr evs1, d)" and rec: "received L (concat chunks) evs1 d" by auto
  with finish_received [OF assms rec] True show ?thesis
    by (auto simp: decode_stream_def split: if_splits)
next
  case False
  with push_all_received [OF assms received_Nil, of chunks] show ?thesis
    by (auto simp: decode_stream_def)
qed

section \<open>UTF-8 line by line\<close>

lemma utf8_valid_ascii: "byte c < 128 \<Longrightarrow> utf8_valid (a @ c # b) = (utf8_valid a \<and> utf8_valid b)"
proof (induction "length a" arbitrary: a rule: less_induct)
  case less
  have IH: "utf8_valid (t @ c # b) = (utf8_valid t \<and> utf8_valid b)" if "length t < length a" for t
    using less that by blast
  have c: "\<not> is_cont (byte c)" using less(2) by (simp add: is_cont_def)
  consider "a = []" | x where "a = [x]" | x y where "a = [x, y]" | x y z where "a = [x, y, z]"
    | x y z w t where "a = x # y # z # w # t"
    by (metis list.exhaust)
  then show ?case
  proof cases
    case 1
    then show ?thesis using less(2) by simp
  next
    case 2
    then show ?thesis using IH [of "[]"] c less(2) by (cases b) (auto simp: Let_def split: list.splits)
  next
    case 3
    then show ?thesis using IH [of "[]"] IH [of "[y]" for y] c less(2) by (cases b) (auto simp: Let_def split: list.splits)
  next
    case 4
    then show ?thesis
      using IH [of "[]"] IH [of "[z]"] IH [of "[y, z]"] c less(2) by (simp add: Let_def)
  next
    case 5
    then show ?thesis
      using IH [of t] IH [of "w # t"] IH [of "z # w # t"] IH [of "y # z # w # t"] by (simp add: Let_def)
  qed
qed

lemma utf8_valid_strip_cr [simp]: "utf8_valid (strip_cr l) = utf8_valid l"
proof (cases "l \<noteq> [] \<and> last l = CHR 13")
  case True
  then have l: "l = butlast l @ [CHR 13]" by (metis append_butlast_last_id)
  have "utf8_valid (butlast l @ [CHR 13]) = utf8_valid (butlast l)"
    by (subst utf8_valid_ascii) simp_all
  with True l show ?thesis by (simp add: strip_cr_def)
next
  case False
  then show ?thesis by (simp only: strip_cr_def if_False)
qed

lemma utf8_valid_lines: "utf8_valid s \<longleftrightarrow> list_all utf8_valid (full_lines s) \<and> utf8_valid (open_line s)"
proof (induction "length s" arbitrary: s rule: less_induct)
  case less
  show ?case
  proof (cases "split_once CHR 10 s")
    case None
    then show ?thesis by (simp add: full_lines_def open_line_def split_all_once [of _ s])
  next
    case (Some p)
    then obtain a b where p: "split_once CHR 10 s = Some (a, b)" by (cases p) auto
    then have s: "s = a @ CHR 10 # b" by (simp only: split_once_Some_iff)
    have "utf8_valid s \<longleftrightarrow> utf8_valid a \<and> utf8_valid b" unfolding s by (rule utf8_valid_ascii) simp
    moreover have "full_lines s = strip_cr a # full_lines b" "open_line s = open_line b"
      by (simp_all add: full_lines_def open_line_def split_all_once [of _ s] p)
    ultimately show ?thesis using less [of b] s by simp
  qed
qed

section \<open>The properties\<close>

text \<open>Each chunk has to fit in the buffer behind the line that is still open.\<close>

fun buffer_fits :: "sse_limits \<Rightarrow> string \<Rightarrow> string list \<Rightarrow> bool" where
  "buffer_fits L s [] = True"
| "buffer_fits L s (c # cs) =
     (length (open_line s) + length c \<le> sl_max_line_bytes L \<and> buffer_fits L (s @ c) cs)"

text \<open>The streams the decoder accepts, by their bytes alone but for the line buffer.\<close>

definition acceptable :: "sse_limits \<Rightarrow> string list \<Rightarrow> bool" where
  "acceptable L chunks \<longleftrightarrow>
     (let s = concat chunks in
      buffer_fits L [] chunks \<and> length s \<le> sl_max_stream_bytes L \<and> utf8_valid s
      \<and> (\<forall>b \<in> set (split_blocks (stream_lines s)). length (payload b) \<le> sl_max_event_bytes L)
      \<and> length (sse_events s) \<le> sl_max_events L)"

lemma within_stream:
  "within L (stream_lines s @ [[]]) \<longleftrightarrow>
     (\<forall>b \<in> set (split_blocks (stream_lines s)). length (payload b) \<le> sl_max_event_bytes L)
     \<and> length (sse_events s) \<le> sl_max_events L"
  by (simp add: within_def sse_events_complete split_blocks_snoc)

lemma pushes_fit_iff:
  assumes "list_all utf8_valid (full_lines (s @ concat chunks))" "within L (full_lines (s @ concat chunks))"
    and "length (s @ concat chunks) \<le> sl_max_stream_bytes L"
  shows "pushes_fit L s chunks \<longleftrightarrow> buffer_fits L s chunks"
  using assms
proof (induction chunks arbitrary: s)
  case (Cons c cs)
  have "full_lines (s @ c @ concat cs) = full_lines (s @ c) @ full_lines (open_line (s @ c) @ concat cs)"
    using full_lines_append [of "s @ c" "concat cs"] by simp
  then have "list_all utf8_valid (full_lines (s @ c))" "within L (full_lines (s @ c))"
    using Cons.prems within_append by simp_all
  then show ?case using Cons.IH [of "s @ c"] Cons.prems by (auto simp: push_fits_def)
qed simp

lemma pushes_fit_stream:
  "pushes_fit L s chunks \<Longrightarrow> length s \<le> sl_max_stream_bytes L \<Longrightarrow> list_all utf8_valid (full_lines s)
   \<Longrightarrow> within L (full_lines s)
   \<Longrightarrow> length (s @ concat chunks) \<le> sl_max_stream_bytes L
     \<and> list_all utf8_valid (full_lines (s @ concat chunks)) \<and> within L (full_lines (s @ concat chunks))"
proof (induction chunks arbitrary: s)
  case (Cons c cs)
  then show ?case using Cons.IH [of "s @ c"] by (simp add: push_fits_def)
qed simp

lemma acceptable_iff:
  "pushes_fit L [] chunks \<and> finish_fits L (concat chunks) \<longleftrightarrow> acceptable L chunks"
proof -
  let ?s = "concat chunks"
  have "within L (full_lines ?s)" if "within L (stream_lines ?s @ [[]])"
    using that within_append [of L "full_lines ?s"] unfolding stream_lines_full append.assoc by blast
  moreover have "full_lines [] = []" by (simp add: full_lines_def)
  ultimately show ?thesis
    using pushes_fit_iff [of "[]" chunks L] pushes_fit_stream [of L "[]" chunks]
    unfolding acceptable_def finish_fits_def Let_def utf8_valid_lines [of ?s] within_stream
    by auto
qed

lemma acceptable_decodes:
  "sane_limits L \<Longrightarrow> acceptable L chunks \<Longrightarrow> evs = sse_events (concat chunks)
   \<Longrightarrow> decode_stream L chunks = Inr evs"
  by (simp add: decode_stream_iff flip: acceptable_iff)


definition short_limits :: sse_limits where
  "short_limits = \<lparr>sl_max_stream_bytes = 60, sl_max_line_bytes = 16, sl_max_events = 4,
     sl_max_event_bytes = 8\<rparr>"

lemma short_limits_sane: "sane_limits short_limits"
  by (simp add: sane_limits_def short_limits_def usize_max_def)

lemma default_limits_sane: "sane_limits default_sse_limits"
  by (simp add: sane_limits_def default_sse_limits_def usize_max_def)

definition cut_stream :: "string list" where
  "cut_stream = [''da'', ''ta: a'', [CHR 13, CHR 10] @ ''data:b'', [CHR 10, CHR 10] @ '':x'', [CHR 10] @ ''data: c'']"


lemma open_line_length: "length (open_line s) \<le> length s"
  by (induction s) (auto simp: open_line_def split: list.splits)

lemma buffer_fits_short:
  "length (s @ concat chunks) \<le> sl_max_line_bytes L \<Longrightarrow> buffer_fits L s chunks"
proof (induction chunks arbitrary: s)
  case (Cons c cs)
  with open_line_length [of s] show ?case by simp
qed simp

text \<open>The events depend on the bytes of the stream only: two ways of cutting the same bytes
  never decode to different events, and when the whole stream fits in the line buffer one
  succeeds exactly when the other does.\<close>

lemma sse_chunking_irrelevant:
  assumes "sane_limits L" "concat chunks = concat chunks'"
  shows "(decode_stream L chunks = Inr evs \<longrightarrow> decode_stream L chunks' = Inr evs' \<longrightarrow> evs = evs')
    \<and> (length (concat chunks) \<le> sl_max_line_bytes L \<longrightarrow>
         (decode_stream L chunks = Inr evs \<longleftrightarrow> decode_stream L chunks' = Inr evs))"
  using assms(2) buffer_fits_short [of "[]" chunks L] buffer_fits_short [of "[]" chunks' L]
  unfolding decode_stream_iff [OF assms(1)] acceptable_iff acceptable_def conj_assoc [symmetric]
  by (auto simp: acceptable_iff acceptable_def Let_def)

lemma sse_chunking_irrelevant_witness:
  "decode_stream (short_limits\<lparr>sl_max_line_bytes := 60\<rparr>) [concat cut_stream] = Inr [''a'' @ [CHR 10] @ ''b'', ''c'']"
proof -
  let ?L = "short_limits\<lparr>sl_max_line_bytes := 60\<rparr>"
  have sane: "sane_limits ?L" by (simp add: sane_limits_def short_limits_def usize_max_def)
  have fit: "acceptable ?L cut_stream" "length (concat cut_stream) \<le> sl_max_line_bytes ?L" by code_simp+
  have evs: "[''a'' @ [CHR 10] @ ''b'', ''c''] = sse_events (concat cut_stream)" by code_simp
  have "decode_stream ?L cut_stream = Inr [''a'' @ [CHR 10] @ ''b'', ''c'']"
    by (rule acceptable_decodes [OF sane fit(1) evs])
  moreover have "concat cut_stream = concat [concat cut_stream]" by simp
  note sse_chunking_irrelevant [OF sane this, THEN conjunct2, THEN mp, OF fit(2)]
  ultimately show ?thesis by (rule iffD1 [rotated])
qed

text \<open>Between two chunks the decoder keeps at most one line and one event within their limits,
  whatever arrives.\<close>

lemma sse_memory_bounded:
  assumes "sane_limits L" "push_all chunks (sse_new L) = (Inr evs, d)"
  shows "length (sd_buffer d) \<le> sl_max_line_bytes L \<and> length (sd_data d) \<le> sl_max_event_bytes L
    \<and> sd_events d = length evs \<and> length evs \<le> sl_max_events L
    \<and> (\<forall>e \<in> set evs. e \<noteq> [] \<and> length e \<le> sl_max_event_bytes L)"
proof -
  have fit: "pushes_fit L [] chunks" and rec: "received L (concat chunks) evs d"
    using push_all_received [OF assms(1) received_Nil, of chunks] assms(2) by (auto split: if_splits)
  have cov: "covers L (full_lines (concat chunks)) evs d" and buf: "sd_buffer d = open_line (concat chunks)"
    using rec by (auto simp: received_def)
  have "length (open_line (s @ concat chunks)) \<le> sl_max_line_bytes L"
    if "pushes_fit L s chunks" "length (open_line s) \<le> sl_max_line_bytes L" for s
    using that
  proof (induction chunks arbitrary: s)
    case (Cons c cs)
    have "length (open_line (s @ c)) \<le> length (open_line s) + length c"
      using open_line_length [of "open_line s @ c"] by (simp flip: open_line_append)
    with Cons show ?case using Cons.IH [of "s @ c"] by (simp add: push_fits_def)
  qed simp
  from this [OF fit] have "length (sd_buffer d) \<le> sl_max_line_bytes L"
    by (simp add: buf) (simp add: open_line_def)
  moreover have "length (sd_data d) \<le> sl_max_event_bytes L" "length evs \<le> sl_max_events L"
    "\<forall>e \<in> set evs. e \<noteq> [] \<and> length e \<le> sl_max_event_bytes L"
    using coversD [OF cov] unfolding within_def blocks_within complete_events_def by auto
  moreover have "sd_events d = length evs" using cov by (simp add: covers_def)
  ultimately show ?thesis by blast
qed

lemma sse_memory_bounded_witness:
  "length (sd_data (snd (push_all [''data:ab'', [CHR 10]] (sse_new short_limits)))) \<le> 8"
proof -
  have "pushes_fit short_limits [] [''data:ab'', [CHR 10]]" by code_simp
  then obtain evs d where p: "push_all [''data:ab'', [CHR 10]] (sse_new short_limits) = (Inr evs, d)"
    using push_all_received [OF short_limits_sane received_Nil, of "[''data:ab'', [CHR 10]]"] by metis
  from sse_memory_bounded [OF short_limits_sane p]
  have "length (sd_data d) \<le> 8" by (simp add: short_limits_def)
  with p show ?thesis by (simp only: snd_conv)
qed

text \<open>The limit on lines is applied to everything behind the last line feed and the new chunk
  together: a chunk of short lines is refused although each of its lines is within the limit.\<close>

definition comment_lines :: "string list" where
  "comment_lines = replicate 6 ('':x'' @ [CHR 10])"

lemma sse_line_limit_counts_chunk:
  "(\<forall>l \<in> set (split_all CHR 10 (concat comment_lines)). length l \<le> 2)
   \<and> fst (sse_push (concat comment_lines) (sse_new short_limits)) =
       Inl (sse_error ''SSE line exceeds the configured limit'')
   \<and> decode_stream short_limits comment_lines = Inr []"
proof (intro conjI)
  have "list_all (\<lambda>l. length l \<le> 2) (split_all CHR 10 (concat comment_lines))" by code_simp
  then show "\<forall>l \<in> set (split_all CHR 10 (concat comment_lines)). length l \<le> 2" by (simp only: list_all_iff)
  define chunk where "chunk = concat comment_lines"
  have "length chunk = 18" unfolding chunk_def by code_simp
  then have "fst (sse_push chunk (sse_new short_limits)) =
       Inl (sse_error ''SSE line exceeds the configured limit'')"
    by (simp add: sse_push_def sse_new_def short_limits_def usize_sat_add_def usize_max_def)
  then show "fst (sse_push (concat comment_lines) (sse_new short_limits)) =
       Inl (sse_error ''SSE line exceeds the configured limit'')"
    by (simp only: chunk_def)
  have "acceptable short_limits comment_lines" "[] = sse_events (concat comment_lines)" by code_simp+
  then show "decode_stream short_limits comment_lines = Inr []"
    by (rule acceptable_decodes [OF short_limits_sane])
qed

end
