(* ===== verification/Codex_Events.thy ===== *)
theory Codex_Events
  imports Response Capabilities
begin

text \<open>
  \<open>crates/codex-responses/src/events.rs\<close>: the interpretation of the events of a Codex Responses
  stream. The state accumulates over the events; an operation that can fail returns its
  result together with the state it leaves. The parser of \<open>serde_json\<close> is a parameter.
\<close>

definition max_revised_prompt_bytes :: usize where
  "max_revised_prompt_bytes = 128 * 1024"

definition codex_protocol_error :: "string \<Rightarrow> bridge_error" where
  "codex_protocol_error message = with_provider ''codex-responses'' (error_new Protocol message)"

record event_state =
  es_final_image :: "string option"
  es_next_partial_index :: u8
  es_revised_prompt :: "string option"
  es_usage :: usage
  es_failure :: "bridge_error option"
  es_completed :: bool
  es_output_item_types :: "string btree_set"
  es_message_content_types :: "string btree_set"
  es_image_call_statuses :: "string btree_set"

definition default_event_state :: event_state where
  "default_event_state = \<lparr>es_final_image = None, es_next_partial_index = 0, es_revised_prompt = None,
     es_usage = default_usage, es_failure = None, es_completed = False, es_output_item_types = [],
     es_message_content_types = [], es_image_call_statuses = []\<rparr>"

record call_result =
  cr_b64_json :: string
  cr_revised_prompt :: "string option"
  cr_usage :: usage
  cr_attempts :: u8

record partial_image_data =
  pd_partial_index :: u8
  pd_b64_json :: string

section \<open>Upstream failures\<close>

definition code_char :: "char \<Rightarrow> bool" where
  "code_char c = (is_ascii_alphanumeric c \<or> c = CHR ''_'' \<or> c = CHR ''-'')"

definition sanitize_code :: "string \<Rightarrow> string" where
  "sanitize_code raw =
     (let v = filter code_char (take_chars 64 raw) in if v = [] then ''upstream_failure'' else v)"

definition classify_code :: "string \<Rightarrow> error_code \<times> bool" where
  "classify_code lower =
     (if contains_str ''auth'' lower \<or> contains_str ''token'' lower then (Authentication, False)
      else if contains_str ''permission'' lower \<or> contains_str ''entitlement'' lower
        \<or> contains_str ''forbidden'' lower then (PermissionDenied, False)
      else if contains_str ''safety'' lower \<or> contains_str ''content_policy'' lower
        \<or> contains_str ''moderation'' lower then (SafetyRejected, False)
      else if contains_str ''rate'' lower \<or> contains_str ''quota'' lower then (RateLimited, True)
      else if contains_str ''unsupported'' lower \<or> contains_str ''capability'' lower
        \<or> contains_str ''invalid_model'' lower then (UnsupportedCapability, False)
      else if contains_str ''schema'' lower \<or> contains_str ''protocol'' lower then (Protocol, False)
      else if contains_str ''unavailable'' lower \<or> contains_str ''overloaded'' lower
        \<or> contains_str ''server_error'' lower then (Upstream, True)
      else (Upstream, False))"

definition classified_upstream_error :: "string \<Rightarrow> bridge_error" where
  "classified_upstream_error raw_code =
     (let safe_code = sanitize_code raw_code;
          (code, again) = classify_code (to_ascii_lowercase safe_code);
          error = (if code = SafetyRejected
                   then safety_rejected ''Codex Responses rejected the image request''
                   else retryable again (error_new code ''Codex Responses reported a failure''))
      in with_detail ''upstream_code'' (JStr safe_code) (with_provider ''codex-responses'' error))"

definition or_else :: "'a option \<Rightarrow> 'a option \<Rightarrow> 'a option" where
  "or_else x y = (case x of None \<Rightarrow> y | Some a \<Rightarrow> Some a)"

definition public_category :: "string \<Rightarrow> bool" where
  "public_category c = (c \<in> {''harassment'', ''self-harm'', ''sexual'', ''violence''})"

definition public_categories :: "json \<Rightarrow> string list" where
  "public_categories details =
     take 8 (filter public_category
       (List.map_filter as_str (case Option.bind (json_get details ''categories'') as_array of
          None \<Rightarrow> [] | Some xs \<Rightarrow> xs)))"

definition with_moderation_details :: "bridge_error \<Rightarrow> json option \<Rightarrow> bridge_error" where
  "with_moderation_details error upstream =
     (if err_code error \<noteq> SafetyRejected then error
      else (case Option.bind upstream (\<lambda>v.
              or_else (json_get v ''moderation_details'') (json_get v ''moderationDetails'')) of
          None \<Rightarrow> error
        | Some details \<Rightarrow>
            let stage = Option.bind (or_else (json_get details ''moderation_stage'')
                                       (json_get details ''moderationStage'')) as_str;
                error1 = (case stage of
                    None \<Rightarrow> error
                  | Some s \<Rightarrow> if s \<in> {''input'', ''output'', ''unknown''}
                             then with_detail ''moderation_stage'' (JStr s) error else error);
                categories = public_categories details
            in if categories \<noteq> []
               then with_detail ''moderation_categories'' (JArr (map JStr categories)) error1
               else error1))"

section \<open>Output items\<close>

definition item_type_name :: "json \<Rightarrow> string" where
  "item_type_name item = (case as_str (json_index item ''type'') of
     None \<Rightarrow> ''missing''
   | Some t \<Rightarrow> if t \<in> {''image_generation_call'', ''message'', ''reasoning'', ''function_call'',
                     ''web_search_call'', ''computer_call''} then t else ''other'')"

definition status_name :: "json \<Rightarrow> string" where
  "status_name item = (case as_str (json_index item ''status'') of
     None \<Rightarrow> ''missing''
   | Some t \<Rightarrow> if t \<in> {''in_progress'', ''generating'', ''completed'', ''failed''} then t else ''other'')"

definition content_type_name :: "json \<Rightarrow> string" where
  "content_type_name part = (case as_str (json_index part ''type'') of
     None \<Rightarrow> ''missing''
   | Some t \<Rightarrow> if t \<in> {''refusal'', ''output_text''} then t else ''other'')"

definition record_output_item :: "json \<Rightarrow> event_state \<Rightarrow> event_state" where
  "record_output_item item st =
     (let item_type = item_type_name item;
          st1 = st\<lparr>es_output_item_types := btree_insert item_type (es_output_item_types st)\<rparr>;
          st2 = (if item_type = ''image_generation_call''
                 then st1\<lparr>es_image_call_statuses :=
                        btree_insert (status_name item) (es_image_call_statuses st1)\<rparr>
                 else st1)
      in (if item_type = ''message''
          then (case as_array (json_index item ''content'') of
              None \<Rightarrow> st2
            | Some content \<Rightarrow>
                st2\<lparr>es_message_content_types :=
                      fold (\<lambda>part. btree_insert (content_type_name part)) content
                        (es_message_content_types st2)\<rparr>)
          else st2))"

definition check_base64_size :: "string \<Rightarrow> usize \<Rightarrow> unit result" where
  "check_base64_size v maximum =
     require (length v \<le> maximum) (codex_protocol_error ''Codex image base64 exceeds the configured limit'')"

definition nonempty_str :: "json \<Rightarrow> string option" where
  "nonempty_str v = Option.bind (as_str v) (\<lambda>s. if s = [] then None else Some s)"

definition capture_final_image :: "json \<Rightarrow> usize \<Rightarrow> event_state \<Rightarrow> unit result \<times> event_state" where
  "capture_final_image item maximum st =
     (case nonempty_str (json_index item ''result'') of
        None \<Rightarrow> (Inr (), st)
      | Some v \<Rightarrow>
          (case check_base64_size v maximum of
             Inl e \<Rightarrow> (Inl e, st)
           | Inr _ \<Rightarrow>
               if (case es_final_image st of None \<Rightarrow> False | Some existing \<Rightarrow> existing \<noteq> v)
               then (Inl (codex_protocol_error
                       ''Codex Responses returned multiple final images for one tool call''), st)
               else (Inr (), st\<lparr>es_final_image := Some v\<rparr>)))"

definition capture_image_item :: "json \<Rightarrow> usize \<Rightarrow> event_state \<Rightarrow> unit result \<times> event_state" where
  "capture_image_item item maximum st =
     (case capture_final_image item maximum st of
        (Inl e, st1) \<Rightarrow> (Inl e, st1)
      | (Inr _, st1) \<Rightarrow>
          (case Option.bind (or_else (as_str (json_index item ''revised_prompt''))
                                     (as_str (json_index item ''revisedPrompt'')))
                  (\<lambda>s. if s = [] then None else Some s) of
             None \<Rightarrow> (Inr (), st1)
           | Some revised \<Rightarrow>
               if max_revised_prompt_bytes < length revised
               then (Inl (codex_protocol_error ''Codex revised prompt exceeds the configured limit''), st1)
               else (Inr (), st1\<lparr>es_revised_prompt := Some revised\<rparr>)))"

definition is_image_call :: "json \<Rightarrow> bool" where
  "is_image_call item = (as_str (json_index item ''type'') = Some ''image_generation_call'')"

definition output_item :: "json \<Rightarrow> usize \<Rightarrow> event_state \<Rightarrow> unit result \<times> event_state" where
  "output_item item maximum st =
     (let st1 = record_output_item item st in
      if is_image_call item then capture_image_item item maximum st1 else (Inr (), st1))"

fun output_items :: "json list \<Rightarrow> usize \<Rightarrow> event_state \<Rightarrow> unit result \<times> event_state" where
  "output_items [] maximum st = (Inr (), st)"
| "output_items (item # items) maximum st =
     (case output_item item maximum st of
        (Inl e, st1) \<Rightarrow> (Inl e, st1)
      | (Inr _, st1) \<Rightarrow> output_items items maximum st1)"

definition capture_usage :: "json \<Rightarrow> usage \<Rightarrow> usage" where
  "capture_usage v u = u\<lparr>us_input_tokens := as_u64 (json_index v ''input_tokens''),
     us_output_tokens := as_u64 (json_index v ''output_tokens''),
     us_total_tokens := as_u64 (json_index v ''total_tokens'')\<rparr>"

definition add_optional :: "u64 option \<Rightarrow> u64 option \<Rightarrow> u64 option" where
  "add_optional a b = (case (a, b) of
     (None, None) \<Rightarrow> None
   | _ \<Rightarrow> Some (sat_add (case a of None \<Rightarrow> 0 | Some x \<Rightarrow> x) (case b of None \<Rightarrow> 0 | Some y \<Rightarrow> y)))"

definition merge_usage :: "usage \<Rightarrow> usage \<Rightarrow> usage" where
  "merge_usage u additional = u\<lparr>
     us_input_tokens := add_optional (us_input_tokens u) (us_input_tokens additional),
     us_output_tokens := add_optional (us_output_tokens u) (us_output_tokens additional),
     us_total_tokens := add_optional (us_total_tokens u) (us_total_tokens additional)\<rparr>"

section \<open>One event\<close>

type_synonym event_outcome = "partial_image_data option result \<times> event_state"

definition partial_index_of :: "json \<Rightarrow> u8 option result" where
  "partial_index_of event =
     (case or_else (as_u64 (json_index event ''partial_image_index''))
                   (as_u64 (json_index event ''partialImageIndex'')) of
        None \<Rightarrow> Inr None
      | Some v \<Rightarrow> if unat v < 256 then Inr (Some (ucast v))
                  else Inl (codex_protocol_error
                              ''Codex partial image index is outside the supported range''))"

definition partial_event :: "json \<Rightarrow> usize \<Rightarrow> event_state \<Rightarrow> event_outcome" where
  "partial_event event maximum st =
     (case or_else (as_str (json_index event ''partial_image_b64''))
                   (as_str (json_index event ''partial_image'')) of
        None \<Rightarrow> (Inr None, st)
      | Some partial \<Rightarrow>
          (case and_then (check_base64_size partial maximum) (\<lambda>_. partial_index_of event) of
             Inl e \<Rightarrow> (Inl e, st)
           | Inr explicit \<Rightarrow>
               let i = (case explicit of None \<Rightarrow> es_next_partial_index st | Some i \<Rightarrow> i)
               in (Inr (Some \<lparr>pd_partial_index = i, pd_b64_json = partial\<rparr>),
                   st\<lparr>es_next_partial_index := sat_add i 1\<rparr>)))"

definition completed_event :: "json \<Rightarrow> usize \<Rightarrow> event_state \<Rightarrow> event_outcome" where
  "completed_event event maximum st =
     (let response = json_index event ''response'';
          st1 = st\<lparr>es_completed := True\<rparr>
      in (case output_items
              (case as_array (json_index response ''output'') of None \<Rightarrow> [] | Some output \<Rightarrow> output)
              maximum st1 of
            (Inl e, st2) \<Rightarrow> (Inl e, st2)
          | (Inr _, st2) \<Rightarrow>
              (Inr None, st2\<lparr>es_usage := capture_usage (json_index response ''usage'') (es_usage st2)\<rparr>)))"

definition failed_event :: "json \<Rightarrow> event_state \<Rightarrow> event_outcome" where
  "failed_event event st =
     (let error = or_else (json_get event ''error'')
                    (Option.bind (json_get event ''response'') (\<lambda>v. json_get v ''error''));
          code = (case or_else (Option.bind (Option.bind error (\<lambda>v. json_get v ''code'')) as_str)
                               (as_str (json_index event ''code'')) of
                    None \<Rightarrow> ''upstream_failure'' | Some c \<Rightarrow> c)
      in (Inr None,
          st\<lparr>es_failure := Some (with_moderation_details (classified_upstream_error code) error)\<rparr>))"

definition process_json :: "json \<Rightarrow> usize \<Rightarrow> event_state \<Rightarrow> event_outcome" where
  "process_json event maximum st =
     (let kind = (case as_str (json_index event ''type'') of None \<Rightarrow> [] | Some t \<Rightarrow> t) in
      if kind = ''response.output_item.done''
      then (case output_item (json_index event ''item'') maximum st of
              (Inl e, st1) \<Rightarrow> (Inl e, st1) | (Inr _, st1) \<Rightarrow> (Inr None, st1))
      else if kind = ''response.image_generation_call.partial_image''
      then partial_event event maximum st
      else if kind = ''response.completed'' then completed_event event maximum st
      else if kind \<in> {''response.failed'', ''response.incomplete'', ''error''} then failed_event event st
      else (Inr None, st))"

definition process_event ::
  "(string \<Rightarrow> json option) \<Rightarrow> string \<Rightarrow> usize \<Rightarrow> event_state \<Rightarrow> event_outcome" where
  "process_event parse data maximum st =
     (if trim data = ''[DONE]'' \<or> trim data = [] then (Inr None, st)
      else (case parse data of
          None \<Rightarrow> (Inl (codex_protocol_error ''Codex Responses sent malformed JSON event''), st)
        | Some event \<Rightarrow> process_json event maximum st))"

section \<open>The end of the stream\<close>

definition with_names :: "string \<Rightarrow> string btree_set \<Rightarrow> bridge_error \<Rightarrow> bridge_error" where
  "with_names k names e = (if names \<noteq> [] then with_detail k (JArr (map JStr names)) e else e)"

definition missing_image_error :: "event_state \<Rightarrow> bridge_error" where
  "missing_image_error st =
     with_names ''image_call_statuses'' (es_image_call_statuses st)
      (with_names ''message_content_types'' (es_message_content_types st)
        (with_names ''output_item_types'' (es_output_item_types st)
          (with_provider ''codex-responses''
            (if btree_contains (es_message_content_types st) ''refusal''
             then with_detail ''upstream_code'' (JStr ''completed_with_refusal'')
                    (safety_rejected ''Codex Responses declined the image request'')
             else if btree_contains (es_image_call_statuses st) ''failed''
             then with_detail ''upstream_code'' (JStr ''image_call_failed'')
                    (retryable True (error_new Upstream ''Codex Responses image generation tool failed''))
             else with_detail ''upstream_code'' (JStr ''completed_without_image'')
                    (retryable True (error_new Upstream
                       ''Codex Responses completed without final image data''))))))"

definition event_finish :: "event_state \<Rightarrow> call_result result" where
  "event_finish st =
     (case es_failure st of
        Some error \<Rightarrow> Inl error
      | None \<Rightarrow>
          if \<not> es_completed st
          then Inl (codex_protocol_error ''Codex Responses stream ended before response.completed'')
          else and_then (ok_or (missing_image_error st) (es_final_image st)) (\<lambda>b64_json.
            Inr \<lparr>cr_b64_json = b64_json, cr_revised_prompt = es_revised_prompt st,
                 cr_usage = es_usage st, cr_attempts = 1\<rparr>))"

section \<open>What a state has seen\<close>

text \<open>The output items an event carries, and the image data among them.\<close>

definition event_kind :: "json \<Rightarrow> string" where
  "event_kind event = (case as_str (json_index event ''type'') of None \<Rightarrow> [] | Some t \<Rightarrow> t)"

definition items_of :: "json \<Rightarrow> json list" where
  "items_of event =
     (if event_kind event = ''response.output_item.done'' then [json_index event ''item'']
      else if event_kind event = ''response.completed''
      then (case as_array (json_index (json_index event ''response'') ''output'') of
              None \<Rightarrow> [] | Some output \<Rightarrow> output)
      else [])"

definition final_images :: "json list \<Rightarrow> string set" where
  "final_images items =
     {v. \<exists>item \<in> set items. is_image_call item \<and> nonempty_str (json_index item ''result'') = Some v}"

definition failing :: "json \<Rightarrow> bool" where
  "failing event \<longleftrightarrow> event_kind event \<in> {''response.failed'', ''response.incomplete'', ''error''}"

definition image_state :: "usize \<Rightarrow> json list \<Rightarrow> event_state \<Rightarrow> bool" where
  "image_state maximum items st \<longleftrightarrow>
     final_images items = set_option (es_final_image st)
     \<and> pred_option (\<lambda>v. v \<noteq> [] \<and> length v \<le> maximum) (es_final_image st)
     \<and> pred_option (\<lambda>p. p \<noteq> [] \<and> length p \<le> max_revised_prompt_bytes) (es_revised_prompt st)"

text \<open>The part of the state that only whole events touch.\<close>

definition same_control :: "event_state \<Rightarrow> event_state \<Rightarrow> bool" where
  "same_control st st' \<longleftrightarrow> es_failure st' = es_failure st \<and> es_completed st' = es_completed st"

lemma same_control_trans: "same_control a b \<Longrightarrow> same_control b c \<Longrightarrow> same_control a c"
  by (simp add: same_control_def)

lemma record_output_item_frame [simp]:
  "es_final_image (record_output_item item st) = es_final_image st"
  "es_revised_prompt (record_output_item item st) = es_revised_prompt st"
  "es_failure (record_output_item item st) = es_failure st"
  "es_completed (record_output_item item st) = es_completed st"
  by (auto simp: record_output_item_def Let_def split: option.splits)

lemma nonempty_str_Some: "nonempty_str v = Some s \<Longrightarrow> s \<noteq> []"
  by (auto simp: nonempty_str_def bind_eq_Some_conv split: if_splits)

lemma capture_final_image_Inr:
  "capture_final_image item maximum st = (Inr u, st') \<Longrightarrow>
     same_control st st' \<and> es_revised_prompt st' = es_revised_prompt st
     \<and> (case nonempty_str (json_index item ''result'') of
          None \<Rightarrow> es_final_image st' = es_final_image st
        | Some v \<Rightarrow> es_final_image st' = Some v \<and> length v \<le> maximum
                   \<and> (es_final_image st = None \<or> es_final_image st = Some v))"
  by (auto simp: capture_final_image_def check_base64_size_def same_control_def
      split: option.splits sum.splits if_splits)

lemma capture_image_item_Inr:
  assumes "capture_image_item item maximum st = (Inr u, st')" "is_image_call item"
    and "image_state maximum items st"
  shows "same_control st st' \<and> image_state maximum (items @ [item]) st'"
proof -
  from assms(1) obtain st1 where final: "capture_final_image item maximum st = (Inr (), st1)"
    and rest: "same_control st1 st'" "es_final_image st' = es_final_image st1"
    and revised: "es_revised_prompt st' = es_revised_prompt st1 \<or>
       (es_revised_prompt st' \<noteq> None
        \<and> pred_option (\<lambda>p. p \<noteq> [] \<and> length p \<le> max_revised_prompt_bytes) (es_revised_prompt st'))"
    by (auto simp: capture_image_item_def same_control_def bind_eq_Some_conv
        split: prod.splits sum.splits option.splits if_splits)
  have images: "final_images (items @ [item]) =
      final_images items \<union> set_option (nonempty_str (json_index item ''result''))"
    using assms(2) by (auto simp: final_images_def elem_set)
  note first = capture_final_image_Inr [OF final]
  have "same_control st st'" using first rest(1) same_control_trans by blast
  moreover have "final_images (items @ [item]) = set_option (es_final_image st')"
    using first rest(2) assms(3) unfolding image_state_def images
    by (auto split: option.splits)
  moreover have "pred_option (\<lambda>v. v \<noteq> [] \<and> length v \<le> maximum) (es_final_image st')"
    using first rest(2) assms(3) nonempty_str_Some unfolding image_state_def
    by (auto split: option.splits)
  moreover have "pred_option (\<lambda>p. p \<noteq> [] \<and> length p \<le> max_revised_prompt_bytes) (es_revised_prompt st')"
    using first revised assms(3) unfolding image_state_def by auto
  ultimately show ?thesis by (simp add: image_state_def)
qed

lemma output_item_Inr:
  assumes "output_item item maximum st = (Inr u, st')" "image_state maximum items st"
  shows "same_control st st' \<and> image_state maximum (items @ [item]) st'"
proof -
  let ?st1 = "record_output_item item st"
  have st1: "image_state maximum items ?st1" "same_control st ?st1"
    using assms(2) by (simp_all add: image_state_def same_control_def)
  show ?thesis
  proof (cases "is_image_call item")
    case True
    with assms(1) have "capture_image_item item maximum ?st1 = (Inr u, st')"
      by (simp add: output_item_def Let_def)
    from capture_image_item_Inr [OF this True st1(1)] st1(2) show ?thesis
      using same_control_trans by blast
  next
    case False
    with assms(1) have "st' = ?st1" by (simp add: output_item_def Let_def)
    moreover from False have "final_images (items @ [item]) = final_images items"
      by (auto simp: final_images_def)
    ultimately show ?thesis using st1 by (simp add: image_state_def)
  qed
qed

lemma output_items_Inr:
  "output_items new maximum st = (Inr u, st') \<Longrightarrow> image_state maximum items st
   \<Longrightarrow> same_control st st' \<and> image_state maximum (items @ new) st'"
proof (induction new arbitrary: st items)
  case Nil
  then show ?case by (simp add: same_control_def)
next
  case (Cons item new)
  from Cons.prems(1) obtain st1 where one: "output_item item maximum st = (Inr (), st1)"
    and rest: "output_items new maximum st1 = (Inr u, st')"
    by (auto split: prod.splits sum.splits)
  from output_item_Inr [OF one Cons.prems(2)] Cons.IH [OF rest, of "items @ [item]"]
  show ?case using same_control_trans by auto
qed

definition saw :: "usize \<Rightarrow> json list \<Rightarrow> event_state \<Rightarrow> bool" where
  "saw maximum events st \<longleftrightarrow>
     image_state maximum (concat (map items_of events)) st
     \<and> (es_completed st \<longleftrightarrow> (\<exists>e \<in> set events. event_kind e = ''response.completed''))
     \<and> (es_failure st \<noteq> None \<longleftrightarrow> (\<exists>e \<in> set events. failing e))"

lemma saw_default: "saw maximum [] default_event_state"
  by (simp add: saw_def image_state_def default_event_state_def final_images_def)

lemma process_json_Inr:
  assumes "process_json event maximum st = (Inr p, st')" "saw maximum events st"
  shows "saw maximum (events @ [event]) st'"
proof -
  have img: "image_state maximum (concat (map items_of events)) st" using assms(2) by (simp add: saw_def)
  consider (item) "event_kind event = ''response.output_item.done''"
    | (completed) "event_kind event = ''response.completed''"
    | (partial) "event_kind event = ''response.image_generation_call.partial_image''"
    | (failed) "failing event"
    | (other) "event_kind event \<noteq> ''response.output_item.done''" "event_kind event \<noteq> ''response.completed''"
        "event_kind event \<noteq> ''response.image_generation_call.partial_image''" "\<not> failing event"
    by blast
  then show ?thesis
  proof cases
    case item
    with assms(1) obtain u where "output_item (json_index event ''item'') maximum st = (Inr u, st')"
      by (auto simp: process_json_def event_kind_def [symmetric] split: prod.splits sum.splits)
    from output_item_Inr [OF this img] item assms(2) show ?thesis
      by (auto simp: saw_def items_of_def same_control_def failing_def)
  next
    case completed
    define out where "out = items_of event"
    from completed assms(1) obtain st2 u where
      run: "output_items out maximum (st\<lparr>es_completed := True\<rparr>) = (Inr u, st2)"
      and st': "st' = st2\<lparr>es_usage := capture_usage (json_index (json_index event ''response'') ''usage'') (es_usage st2)\<rparr>"
      by (auto simp: process_json_def completed_event_def event_kind_def [symmetric] out_def items_of_def
          Let_def split: prod.splits sum.splits)
    have "image_state maximum (concat (map items_of events)) (st\<lparr>es_completed := True\<rparr>)"
      using img by (simp add: image_state_def)
    from output_items_Inr [OF run this] completed assms(2) st' show ?thesis
      by (auto simp: saw_def out_def same_control_def failing_def image_state_def)
  next
    case partial
    with assms(1) have "partial_event event maximum st = (Inr p, st')"
      by (simp add: process_json_def event_kind_def [symmetric])
    then have "es_final_image st' = es_final_image st \<and> es_revised_prompt st' = es_revised_prompt st
        \<and> same_control st st'"
      by (auto simp: partial_event_def same_control_def Let_def split: option.splits sum.splits)
    with partial assms(2) show ?thesis
      by (auto simp: saw_def items_of_def same_control_def failing_def image_state_def)
  next
    case failed
    with assms(1) have "failed_event event st = (Inr p, st')"
      by (auto simp: process_json_def event_kind_def [symmetric] failing_def)
    then have "es_final_image st' = es_final_image st \<and> es_revised_prompt st' = es_revised_prompt st
        \<and> es_completed st' = es_completed st \<and> es_failure st' \<noteq> None"
      by (auto simp: failed_event_def Let_def)
    moreover from failed have "items_of event = []" "event_kind event \<noteq> ''response.completed''"
      by (auto simp: items_of_def failing_def)
    ultimately show ?thesis using failed assms(2) by (auto simp: saw_def image_state_def)
  next
    case other
    with assms(1) have "st' = st"
      by (auto simp: process_json_def event_kind_def [symmetric] failing_def)
    with other assms(2) show ?thesis by (auto simp: saw_def items_of_def)
  qed
qed

text \<open>The events a list of payloads denotes.\<close>

definition ignorable :: "string \<Rightarrow> bool" where
  "ignorable data \<longleftrightarrow> trim data = ''[DONE]'' \<or> trim data = []"

definition parsed_events :: "(string \<Rightarrow> json option) \<Rightarrow> string list \<Rightarrow> json list" where
  "parsed_events parse datas = List.map_filter parse (filter (\<lambda>d. \<not> ignorable d) datas)"

lemma process_event_Inr:
  assumes "process_event parse data maximum st = (Inr p, st')" "saw maximum (parsed_events parse datas) st"
  shows "saw maximum (parsed_events parse (datas @ [data])) st'"
proof (cases "ignorable data")
  case True
  with assms show ?thesis
    by (auto simp: process_event_def ignorable_def parsed_events_def)
next
  case False
  with assms(1) obtain event where parse: "parse data = Some event"
    and run: "process_json event maximum st = (Inr p, st')"
    by (auto simp: process_event_def ignorable_def split: option.splits)
  from process_json_Inr [OF run assms(2)] False parse show ?thesis
    by (simp add: parsed_events_def List.map_filter_def)
qed

section \<open>Redaction of upstream failures\<close>

lemma code_char_not_cont: "code_char c \<Longrightarrow> \<not> is_cont (byte c)"
proof -
  assume c: "code_char c"
  then consider "is_ascii_alphanumeric c" | "c = CHR ''_''" | "c = CHR ''-''"
    by (auto simp: code_char_def)
  then have "byte c < 128"
    by cases (auto simp: is_ascii_alphanumeric_def is_ascii_digit_def is_ascii_lowercase_def
        is_ascii_uppercase_def)
  then show ?thesis by (simp add: is_cont_def)
qed

lemma sanitize_code_safe:
  "list_all code_char (sanitize_code raw) \<and> sanitize_code raw \<noteq> [] \<and> length (sanitize_code raw) \<le> 64"
proof -
  have "filter code_char xs = filter code_char (filter (\<lambda>c. \<not> is_cont (byte c)) xs)" for xs
    by (induction xs) (auto dest: code_char_not_cont)
  then have "length (filter code_char (take_chars 64 raw)) \<le> 64"
    using length_filter_le [of code_char "filter (\<lambda>c. \<not> is_cont (byte c)) (take_chars 64 raw)"]
      length_take_chars_ascii [of 64 raw] by (metis le_trans)
  moreover have "list_all code_char ''upstream_failure''" by code_simp
  moreover have "list_all code_char (filter code_char xs)" for xs by (simp add: list_all_iff)
  ultimately show ?thesis by (simp add: sanitize_code_def Let_def)
qed

lemma classify_code_retry: "classify_code c = (code, True) \<Longrightarrow> code = RateLimited \<or> code = Upstream"
  by (auto simp: classify_code_def split: if_splits)

lemma classified_upstream_error_simps:
  "err_code (classified_upstream_error raw) = fst (classify_code (to_ascii_lowercase (sanitize_code raw)))"
  "err_retryable (classified_upstream_error raw) \<Longrightarrow>
     err_code (classified_upstream_error raw) \<in> {RateLimited, Upstream}"
  "err_provider (classified_upstream_error raw) = Some ''codex-responses''"
  using classify_code_retry [of "to_ascii_lowercase (sanitize_code raw)"]
  by (auto simp: classified_upstream_error_def Let_def split: prod.splits if_splits)

text \<open>What a caller can learn from the details of a reported failure.\<close>

definition public_details :: "string set" where
  "public_details = {''upstream_code'', ''safety_category'', ''recovery'', ''retry_same_request'',
     ''safety_controls_relaxed'', ''moderation_stage'', ''moderation_categories''}"

definition redacted :: "bridge_error \<Rightarrow> bool" where
  "redacted e \<longleftrightarrow>
     err_provider e = Some ''codex-responses''
     \<and> err_message e \<in> {''Codex Responses reported a failure'', ''Codex Responses rejected the image request''}
     \<and> dom (err_details e) \<subseteq> public_details
     \<and> (\<exists>c. err_details e ''upstream_code'' = Some (JStr c) \<and> list_all code_char c \<and> length c \<le> 64)
     \<and> pred_option (\<lambda>v. \<exists>s \<in> {''input'', ''output'', ''unknown''}. v = JStr s)
         (err_details e ''moderation_stage'')
     \<and> pred_option (\<lambda>v. \<exists>cs. v = JArr (map JStr cs) \<and> list_all public_category cs \<and> length cs \<le> 8)
         (err_details e ''moderation_categories'')"

lemma classified_redacted: "redacted (classified_upstream_error raw)"
proof -
  obtain code again where c: "classify_code (to_ascii_lowercase (sanitize_code raw)) = (code, again)"
    by fastforce
  show ?thesis
    using sanitize_code_safe [of raw]
    by (auto simp: redacted_def classified_upstream_error_def c Let_def public_details_def
        safety_rejected_def with_detail_def with_provider_def retryable_def error_new_def
        split: if_splits)
qed

lemma public_detail_keys:
  "''moderation_stage'' \<in> public_details" "''moderation_categories'' \<in> public_details"
  by (simp_all add: public_details_def)

lemma stage_redacted:
  assumes "redacted e" "s \<in> {''input'', ''output'', ''unknown''}"
  shows "redacted (with_detail ''moderation_stage'' (JStr s) e)"
  using assms(1) bexI [of "\<lambda>t. JStr s = JStr t", OF refl assms(2)] public_detail_keys
  unfolding redacted_def builder_details builder_provider
  by (simp add: with_detail_def)

lemma categories_redacted:
  assumes "redacted e" "list_all public_category cs" "length cs \<le> 8"
  shows "redacted (with_detail ''moderation_categories'' (JArr (map JStr cs)) e)"
  using assms public_detail_keys
  unfolding redacted_def builder_details builder_provider
  by (auto simp: with_detail_def)

lemma public_categories_safe: "list_all public_category (public_categories details) \<and> length (public_categories details) \<le> 8"
  by (auto simp: public_categories_def list_all_iff dest: in_set_takeD)

lemma moderation_redacted:
  assumes "redacted e"
  shows "redacted (with_moderation_details e upstream)"
  using public_categories_safe assms
  unfolding with_moderation_details_def Let_def
  by (auto intro!: stage_redacted categories_redacted split: option.splits simp del: insert_iff)

section \<open>Properties\<close>

text \<open>A failure the upstream reports is passed on redacted: one of two messages, a sanitized code of
  at most 64 safe bytes, public moderation stages and categories, and nothing else; it is
  retryable only as rate limiting or as an upstream failure.\<close>

lemma upstream_failure_redacted:
  assumes "failing event" "process_json event maximum st = (Inr p, st')"
  shows "\<exists>e. es_failure st' = Some e \<and> redacted e
    \<and> (err_retryable e \<longrightarrow> err_code e \<in> {RateLimited, Upstream})"
proof -
  have "process_json event maximum st = failed_event event st"
    using assms(1) by (auto simp: process_json_def failing_def simp flip: event_kind_def)
  with assms(2) obtain code upstream where
    f: "es_failure st' = Some (with_moderation_details (classified_upstream_error code) upstream)"
    by (auto simp: failed_event_def Let_def)
  have "err_retryable (with_moderation_details e u) = err_retryable e"
    "err_code (with_moderation_details e u) = err_code e" for e u
    by (auto simp: with_moderation_details_def Let_def split: option.splits)
  with f classified_upstream_error_simps(2) [of code] moderation_redacted [OF classified_redacted]
  show ?thesis by auto
qed

definition refused_event :: json where
  "refused_event = JObj [(''type'', JStr ''response.failed''), (''response'', JObj [(''error'',
     JObj [(''code'', JStr ''moderation blocked!''),
           (''moderation_details'', JObj [(''categories'', JArr [JStr ''violence'', JStr ''secret''])])])])]"

lemma upstream_failure_redacted_witness:
  "\<exists>e. es_failure (snd (process_json refused_event 10 default_event_state)) = Some e \<and> redacted e"
proof -
  have f: "failing refused_event" by (simp add: failing_def event_kind_def refused_event_def json_index_def)
  obtain p st' where p: "process_json refused_event 10 default_event_state = (Inr p, st')"
    by (auto simp: process_json_def refused_event_def json_index_def failed_event_def Let_def)
  from upstream_failure_redacted [OF f p] p show ?thesis by auto
qed

end
