(* ===== verification/Inspect.thy ===== *)
theory Inspect
  imports Response
begin

text \<open>
  \<open>crates/artifacts/src/inspect.rs\<close>: the verification of encoded images. The image libraries,
  the digest and the base64 codec are a record of functions.
\<close>

datatype image_type = Type_Png | Type_Jpeg | Type_Webp | Type_Other

record image_limits =
  il_max_encoded_bytes :: u64
  il_max_edge :: u32
  il_max_pixels :: u64
  il_max_decode_alloc :: u64

definition default_image_limits :: image_limits where
  "default_image_limits = \<lparr>il_max_encoded_bytes = 32 * 1024 * 1024, il_max_edge = 16384,
     il_max_pixels = 64 * 1024 * 1024, il_max_decode_alloc = 256 * 1024 * 1024\<rparr>"

record image_metadata =
  im_format :: output_format
  im_width :: u32
  im_height :: u32
  im_bytes :: u64
  im_sha256 :: string

text \<open>
  The external functions: the type and the dimensions \<open>imagesize\<close> reads from the header, the
  dimensions of the completely decoded image under the limits of the decoder, a thumbnail of
  it encoded as PNG, the hexadecimal digest, and base64.
\<close>

record codec =
  cd_image_type :: "string \<Rightarrow> image_type option"
  cd_blob_size :: "string \<Rightarrow> (nat \<times> nat) option"
  cd_decode :: "output_format \<Rightarrow> u32 \<Rightarrow> u64 \<Rightarrow> string \<Rightarrow> (u32 \<times> u32) option"
  cd_thumbnail :: "u32 \<Rightarrow> output_format \<Rightarrow> u32 \<Rightarrow> u64 \<Rightarrow> string \<Rightarrow> string option option"
  cd_sha256 :: "string \<Rightarrow> string"
  cd_b64_encode :: "string \<Rightarrow> string"
  cd_b64_decode :: "string \<Rightarrow> string option"

definition image_error :: "string \<Rightarrow> bridge_error" where
  "image_error message = error_new Input message"

definition image_type_format :: "image_type \<Rightarrow> output_format option" where
  "image_type_format t = (case t of
     Type_Png \<Rightarrow> Some Output_Format_Png
   | Type_Jpeg \<Rightarrow> Some Output_Format_Jpeg
   | Type_Webp \<Rightarrow> Some Output_Format_Webp
   | Type_Other \<Rightarrow> None)"

definition u32_try_from :: "nat \<Rightarrow> u32 option" where
  "u32_try_from n = (if n < 2 ^ 32 then Some (of_nat n) else None)"

text \<open>The header checks, all made before the decoder runs.\<close>

definition probe_image :: "codec \<Rightarrow> string \<Rightarrow> image_limits \<Rightarrow> (output_format \<times> u32 \<times> u32) result" where
  "probe_image cd bytes limits =
     (if bytes = [] \<or> unat (il_max_encoded_bytes limits) < length bytes
      then Inl (image_error ''encoded image exceeds the configured size limit'')
      else
        and_then (ok_or (image_error ''input is not a supported PNG, JPEG, or WebP image'')
            (cd_image_type cd bytes)) (\<lambda>image_type.
        and_then (ok_or (image_error ''input image format is not enabled'')
            (image_type_format image_type)) (\<lambda>format.
        and_then (ok_or (image_error ''could not read image dimensions'') (cd_blob_size cd bytes))
            (\<lambda>(w, h).
        and_then (ok_or (image_error ''image width is outside the supported range'') (u32_try_from w))
            (\<lambda>width.
        and_then (ok_or (image_error ''image height is outside the supported range'') (u32_try_from h))
            (\<lambda>height.
          if width = 0 \<or> height = 0 \<or> il_max_edge limits < width \<or> il_max_edge limits < height
             \<or> il_max_pixels limits < (ucast width :: u64) * ucast height
          then Inl (image_error ''image dimensions exceed configured limits'')
          else Inr (format, width, height)))))))"

definition inspect_image :: "codec \<Rightarrow> string \<Rightarrow> image_limits \<Rightarrow> image_metadata result" where
  "inspect_image cd bytes limits =
     (if 2 ^ 64 \<le> length bytes then Inl (image_error ''image is too large'')
      else
        and_then (probe_image cd bytes limits) (\<lambda>(format, width, height).
        and_then (ok_or (image_error ''image payload is malformed or incomplete'')
            (cd_decode cd format (il_max_edge limits) (il_max_decode_alloc limits) bytes))
          (\<lambda>decoded.
            if decoded \<noteq> (width, height)
            then Inl (image_error ''image headers and decoded dimensions disagree'')
            else Inr \<lparr>im_format = format, im_width = width, im_height = height,
                      im_bytes = of_nat (length bytes), im_sha256 = cd_sha256 cd bytes\<rparr>)))"

text \<open>A thumbnail is inspected again under the limits of the thumbnail.\<close>

definition thumbnail_png :: "codec \<Rightarrow> string \<Rightarrow> u32 \<Rightarrow> image_limits \<Rightarrow> string result" where
  "thumbnail_png cd bytes maximum_edge limits =
     (if maximum_edge < 32 \<or> 2048 < maximum_edge
      then Inl (image_error ''thumbnail edge must be between 32 and 2048 pixels'')
      else
        and_then (inspect_image cd bytes limits) (\<lambda>metadata.
        and_then (ok_or (image_error ''image could not be decoded for thumbnailing'')
            (cd_thumbnail cd maximum_edge (im_format metadata) (il_max_edge limits)
              (il_max_decode_alloc limits) bytes)) (\<lambda>encoded.
        and_then (ok_or (image_error ''thumbnail could not be encoded'') encoded) (\<lambda>output.
        and_then (inspect_image cd output
            \<lparr>il_max_encoded_bytes = il_max_encoded_bytes limits, il_max_edge = maximum_edge,
             il_max_pixels = ucast maximum_edge * ucast maximum_edge,
             il_max_decode_alloc = il_max_decode_alloc limits\<rparr>) (\<lambda>_. Inr output)))))"

section \<open>Properties\<close>

lemma product_no_overflow:
  "unat ((ucast (w :: u32) :: u64) * ucast (h :: u32)) = unat w * unat h"
proof -
  have "unat w * unat h \<le> (2 ^ 32 - 1) * (2 ^ 32 - 1)"
    using unat_u32_less [of w] unat_u32_less [of h] by (intro mult_mono) auto
  then have "unat w * unat h < 2 ^ 64" by simp
  moreover have "unat (ucast v :: u64) = unat v" for v :: u32
    using unat_u32_less [of v] by (simp add: unsigned_ucast_eq take_bit_nat_eq_self_iff)
  ultimately show ?thesis by (simp add: unat_word_ariths)
qed

lemma probe_image_Inr:
  assumes "probe_image cd bytes limits = Inr (format, width, height)"
  shows "bytes \<noteq> []" "length bytes \<le> unat (il_max_encoded_bytes limits)"
    "0 < width" "0 < height" "width \<le> il_max_edge limits" "height \<le> il_max_edge limits"
    "unat width * unat height \<le> unat (il_max_pixels limits)"
    "cd_blob_size cd bytes = Some (unat width, unat height)"
    "Option.bind (cd_image_type cd bytes) image_type_format = Some format"
proof -
  have "il_max_pixels limits \<ge> (ucast width :: u64) * ucast height"
    and conj: "bytes \<noteq> [] \<and> length bytes \<le> unat (il_max_encoded_bytes limits)
      \<and> 0 < width \<and> 0 < height \<and> width \<le> il_max_edge limits \<and> height \<le> il_max_edge limits
      \<and> cd_blob_size cd bytes = Some (unat width, unat height)
      \<and> Option.bind (cd_image_type cd bytes) image_type_format = Some format"
    using assms
    by (auto simp: probe_image_def result_simps u32_try_from_def word_gt_0 not_less unat_of_nat
        split: if_splits prod.splits)
  then show "unat width * unat height \<le> unat (il_max_pixels limits)"
    by (simp add: word_le_nat_alt product_no_overflow)
  from conj show "bytes \<noteq> []" "length bytes \<le> unat (il_max_encoded_bytes limits)"
    "0 < width" "0 < height" "width \<le> il_max_edge limits" "height \<le> il_max_edge limits"
    "cd_blob_size cd bytes = Some (unat width, unat height)"
    "Option.bind (cd_image_type cd bytes) image_type_format = Some format" by auto
qed

lemma inspect_image_Inr:
  "inspect_image cd bytes limits = Inr m \<longleftrightarrow>
     length bytes < 2 ^ 64 \<and> probe_image cd bytes limits = Inr (im_format m, im_width m, im_height m)
     \<and> cd_decode cd (im_format m) (il_max_edge limits) (il_max_decode_alloc limits) bytes =
         Some (im_width m, im_height m)
     \<and> im_bytes m = of_nat (length bytes) \<and> im_sha256 m = cd_sha256 cd bytes"
  by (cases m) (auto simp: inspect_image_def result_simps not_le)

text \<open>An image is verified only when its header and its complete decoding agree on positive
  dimensions within the limits on edges, pixels and encoded bytes, computed without overflow;
  the reported size and digest are those of the bytes. The decoder is not run on an image
  whose header fails a check.\<close>

lemma inspected_image_verified:
  assumes "inspect_image cd bytes limits = Inr m"
  shows "0 < im_width m \<and> 0 < im_height m
    \<and> im_width m \<le> il_max_edge limits \<and> im_height m \<le> il_max_edge limits
    \<and> unat (im_width m) * unat (im_height m) \<le> unat (il_max_pixels limits)
    \<and> cd_blob_size cd bytes = Some (unat (im_width m), unat (im_height m))
    \<and> cd_decode cd (im_format m) (il_max_edge limits) (il_max_decode_alloc limits) bytes =
        Some (im_width m, im_height m)
    \<and> unat (im_bytes m) = length bytes \<and> length bytes \<le> unat (il_max_encoded_bytes limits)
    \<and> im_sha256 m = cd_sha256 cd bytes
    \<and> (probe_image cd bytes' limits = Inl e \<and> length bytes' < 2 ^ 64 \<longrightarrow>
         inspect_image (cd\<lparr>cd_decode := decode\<rparr>) bytes' limits = Inl e)"
proof -
  have "probe_image (cd\<lparr>cd_decode := decode\<rparr>) bytes' limits = probe_image cd bytes' limits"
    by (simp add: probe_image_def)
  then show ?thesis
    using assms probe_image_Inr unfolding inspect_image_Inr
    by (auto simp: inspect_image_def unat_of_nat not_le take_bit_nat_eq_self)
qed

definition tiny_codec :: codec where
  "tiny_codec = \<lparr>cd_image_type = (\<lambda>_. Some Type_Png), cd_blob_size = (\<lambda>_. Some (3, 2)),
     cd_decode = (\<lambda>_ _ _ _. Some (3, 2)), cd_thumbnail = (\<lambda>_ _ _ _ bytes. Some (Some bytes)),
     cd_sha256 = (\<lambda>_. ''00''), cd_b64_encode = (\<lambda>bytes. bytes), cd_b64_decode = (\<lambda>s. Some s)\<rparr>"

lemma inspected_image_verified_witness:
  "\<exists>m. inspect_image tiny_codec ''png'' default_image_limits = Inr m \<and> unat (im_bytes m) = 3"
proof -
  have "\<exists>m. inspect_image tiny_codec ''png'' default_image_limits = Inr m"
    by (simp add: inspect_image_def probe_image_def tiny_codec_def u32_try_from_def image_type_format_def
        default_image_limits_def word_le_nat_alt word_less_nat_alt)
  then obtain m where m: "inspect_image tiny_codec ''png'' default_image_limits = Inr m" by blast
  from inspected_image_verified [OF this] m show ?thesis by auto
qed

end
