(* ===== verification/Codex_Responses.thy ===== *)
theory Codex_Responses
  imports Codex_Events Codex_Capabilities Negotiation Validation Sse Inspect
begin

text \<open>
  \<open>crates/codex-responses/src/provider.rs\<close>: the driver of the Codex Responses provider, from the
  checks of its configuration over the body of the request, one call with its event stream
  and the retry loop to the fan-out over the requested outputs. What the network does is an
  argument: the outcome of sending the request, the sequence of observations on the response
  body, the clock readings, and the order in which concurrent calls complete. The consumer of
  partial images is a predicate that tells which of the sends it accepts.
\<close>

section \<open>Configuration\<close>

record responses_config =
  rc_endpoint_scheme :: string
  rc_endpoint_host :: "string option"
  rc_responses_model :: string
  rc_image_model :: string
  rc_image_limits :: image_limits
  rc_sse_limits :: sse_limits
  rc_max_base64_chars :: usize
  rc_max_reference_bytes :: u64
  rc_max_outputs :: u8
  rc_max_parallel_outputs :: usize
  rc_max_transient_attempts :: u8
  rc_transient_retry_backoff :: nat

definition second_ns :: nat where
  "second_ns = 1000000000"

definition duration_max :: nat where
  "duration_max = (2 ^ 64 - 1) * second_ns + 999999999"

text \<open>The guards of the constructor; the HTTP client it builds may fail to initialize.\<close>

definition responses_new :: "bool \<Rightarrow> responses_config \<Rightarrow> responses_config result" where
  "responses_new client_ok cfg =
     (if rc_endpoint_scheme cfg \<noteq> ''https''
         \<and> rc_endpoint_host cfg \<notin> {Some ''127.0.0.1'', Some ''localhost'', Some ''::1''}
      then Inl (error_new Configuration ''Codex Responses endpoint must use HTTPS'')
      else if rc_max_outputs cfg = 0 \<or> rc_max_parallel_outputs cfg = 0
         \<or> unat (rc_max_outputs cfg) < rc_max_parallel_outputs cfg
      then Inl (error_new Configuration
             ''Codex Responses parallel output capacity must be positive and no greater than max_outputs'')
      else if rc_max_transient_attempts cfg < 1 \<or> 2 < rc_max_transient_attempts cfg
      then Inl (error_new Configuration
             ''Codex Responses transient attempt limit must be between 1 and 2'')
      else if 30 * second_ns < rc_transient_retry_backoff cfg
      then Inl (error_new Configuration
             ''Codex Responses transient retry backoff must not exceed 30 seconds'')
      else if \<not> client_ok
      then Inl (error_new Configuration ''could not initialize Codex Responses HTTP client'')
      else Inr cfg)"

section \<open>The request body\<close>

definition request_images :: "image_request \<Rightarrow> image_input list" where
  "request_images request = (case req_operation request of
     Op_Generate reference_images \<Rightarrow> reference_images
   | Op_Edit images _ reference_images \<Rightarrow> images @ reference_images)"

definition contextual_prompt :: "image_request \<Rightarrow> string" where
  "contextual_prompt request = (case req_operation request of
     Op_Generate reference_images \<Rightarrow>
       if reference_images \<noteq> []
       then ''Generate an image using the '' @ show_nat (length reference_images)
            @ '' attached image(s) as visual references. Prompt: '' @ req_prompt request
       else req_prompt request
   | Op_Edit images _ reference_images \<Rightarrow>
       if reference_images = [] then req_prompt request
       else ''Edit the first '' @ show_nat (length images)
            @ '' attached source image(s) according to the prompt. The following ''
            @ show_nat (length reference_images)
            @ '' attached image(s) are visual references only. Prompt: '' @ req_prompt request)"

record loaded_image =
  li_bytes :: string
  li_metadata :: image_metadata

definition image_data_url :: "codec \<Rightarrow> loaded_image \<Rightarrow> string" where
  "image_data_url cd img =
     (let media_type = (case im_format (li_metadata img) of
          Output_Format_Png \<Rightarrow> ''image/png''
        | Output_Format_Jpeg \<Rightarrow> ''image/jpeg''
        | Output_Format_Webp \<Rightarrow> ''image/webp'')
      in ''data:'' @ media_type @ '';base64,'' @ cd_b64_encode cd (li_bytes img))"

text \<open>
  The input loader and the optional fetcher of remote images are arguments; the aggregate
  size is checked after each image.
\<close>

definition load_input ::
  "(string \<Rightarrow> loaded_image result) option \<Rightarrow> (image_input \<Rightarrow> loaded_image result) \<Rightarrow> image_input
   \<Rightarrow> loaded_image result" where
  "load_input fetcher loader inp = (case in_source inp of
     Source_Url url \<Rightarrow>
       (case fetcher of
          None \<Rightarrow> Inl (error_new Input ''remote image inputs are disabled'')
        | Some fetch \<Rightarrow> fetch url)
   | _ \<Rightarrow> loader inp)"

fun input_images ::
  "responses_config \<Rightarrow> codec \<Rightarrow> (image_input \<Rightarrow> loaded_image result) \<Rightarrow> u64 \<Rightarrow> image_input list
   \<Rightarrow> json list result" where
  "input_images cfg cd load acc [] = Inr []"
| "input_images cfg cd load acc (inp # inputs) =
     and_then (load inp) (\<lambda>img.
       let bytes = im_bytes (li_metadata img) in
       if 2 ^ 64 \<le> unat acc + unat bytes
       then Inl (error_new Input ''reference image bytes overflowed'')
       else if rc_max_reference_bytes cfg < acc + bytes
       then Inl (error_new Input ''aggregate reference images exceed the configured byte limit'')
       else and_then (input_images cfg cd load (acc + bytes) inputs) (\<lambda>content.
         Inr (JObj [(''type'', JStr ''input_image''), (''image_url'', JStr (image_data_url cd img)),
                    (''detail'', JStr ''auto'')] # content)))"

definition input_content ::
  "responses_config \<Rightarrow> codec \<Rightarrow> (image_input \<Rightarrow> loaded_image result) \<Rightarrow> image_request \<Rightarrow> json list result" where
  "input_content cfg cd load request =
     and_then (input_images cfg cd load 0 (request_images request)) (\<lambda>content.
     Inr (JObj [(''type'', JStr ''input_text''), (''text'', JStr (contextual_prompt request))] # content))"

text \<open>The optional fields of the tool object, in the order in which the source adds them.\<close>

definition field_when :: "bool \<Rightarrow> string \<Rightarrow> json \<Rightarrow> (string \<times> json) list" where
  "field_when c k v = (if c then [(k, v)] else [])"

definition tool_object :: "image_request \<Rightarrow> string \<Rightarrow> json" where
  "tool_object request image_model =
     (let p = req_parameters request in
      JObj ([(''type'', JStr ''image_generation''), (''model'', JStr image_model),
             (''size'', JStr (size_str (gp_size p))),
             (''output_format'', JStr (output_format_wire (gp_output_format p)))]
        @ field_when (gp_quality p \<noteq> Quality_Auto) ''quality'' (JStr (quality_wire (gp_quality p)))
        @ field_when (gp_background p \<noteq> Background_Auto) ''background''
            (JStr (background_wire (gp_background p)))
        @ field_when (gp_moderation p \<noteq> Moderation_Auto) ''moderation''
            (JStr (moderation_wire (gp_moderation p)))
        @ field_when (gp_action p \<noteq> Image_Action_Auto) ''action'' (JStr (image_action_wire (gp_action p)))
        @ (case gp_output_compression p of
             None \<Rightarrow> [] | Some c \<Rightarrow> [(''output_compression'', JUInt (ucast c))])
        @ field_when (0 < gp_partial_images p) ''partial_images'' (JUInt (ucast (gp_partial_images p)))
        @ (case gp_input_fidelity p of
             None \<Rightarrow> []
           | Some f \<Rightarrow> field_when (image_model \<noteq> ''gpt-image-2'') ''input_fidelity''
                        (JStr (input_fidelity_wire f)))))"

definition request_body :: "responses_config \<Rightarrow> image_request \<Rightarrow> string \<Rightarrow> json list \<Rightarrow> json" where
  "request_body cfg request image_model user_content =
     JObj [(''model'', JStr (rc_responses_model cfg)),
           (''instructions'', JStr ''You are an image generation assistant.''),
           (''input'', JArr [JObj [(''type'', JStr ''message''), (''role'', JStr ''user''),
                                  (''content'', JArr user_content)]]),
           (''tools'', JArr [tool_object request image_model]),
           (''tool_choice'', JObj [(''type'', JStr ''image_generation'')]),
           (''stream'', JBool True), (''store'', JBool False)]"

section \<open>Failures of a call\<close>

definition status_error :: "nat \<Rightarrow> bridge_error" where
  "status_error status =
     (let (code, again) =
        (if status = 401 then (Authentication, False)
         else if status = 403 then (PermissionDenied, False)
         else if status = 408 then (Timeout, False)
         else if status = 413 then (Input, False)
         else if status = 429 then (RateLimited, True)
         else if 500 \<le> status \<and> status \<le> 599 then (Upstream, True)
         else (Upstream, False))
      in with_detail ''http_status'' (JUInt (of_nat status))
           (with_provider ''codex-responses''
             (retryable again (error_new code (''Codex Responses returned HTTP '' @ show_nat status)))))"

definition safe_transient_retry :: "bridge_error \<Rightarrow> bool" where
  "safe_transient_retry e =
     (err_retryable e \<and> \<not> outcome_unknown e \<and> err_code e \<in> {RateLimited, Overloaded, Upstream})"

definition post_dispatch_unknown :: "error_code \<Rightarrow> string \<Rightarrow> bridge_error" where
  "post_dispatch_unknown code message =
     with_detail ''outcome'' (JStr ''unknown'')
       (with_provider ''codex-responses'' (retryable False (error_new code message)))"

definition http_transport_error :: "bool \<Rightarrow> bridge_error" where
  "http_transport_error is_timeout =
     post_dispatch_unknown (if is_timeout then Timeout else Upstream) ''Codex Responses transport failed''"

definition annotate_safety_rejection :: "bridge_error \<Rightarrow> image_request \<Rightarrow> bridge_error" where
  "annotate_safety_rejection e request =
     (if err_code e \<noteq> SafetyRejected then e
      else with_detail ''input_images_present'' (JBool (request_images request \<noteq> []))
             (with_detail ''requested_moderation''
               (JStr (moderation_wire (gp_moderation (req_parameters request)))) e))"

section \<open>The event stream of a call\<close>

datatype observation =
    Obs_Chunk string
  | Obs_Transport bool
  | Obs_Cancelled
  | Obs_Deadline

text \<open>The partial images sent so far; an operation extends them and returns its result.\<close>

type_synonym 'a io = "provider_event list \<Rightarrow> 'a result \<times> provider_event list"

record call_context =
  cc_parse :: "string \<Rightarrow> json option"
  cc_sink :: "(nat \<Rightarrow> bool) option"
  cc_output_index :: u8

fun forward_events ::
  "responses_config \<Rightarrow> call_context \<Rightarrow> string list \<Rightarrow> event_state \<Rightarrow> event_state io" where
  "forward_events cfg ctx [] st sent = (Inr st, sent)"
| "forward_events cfg ctx (data # datas) st sent =
     (case process_event (cc_parse ctx) data (rc_max_base64_chars cfg) st of
        (Inl e, _) \<Rightarrow> (Inl e, sent)
      | (Inr None, st1) \<Rightarrow> forward_events cfg ctx datas st1 sent
      | (Inr (Some partial), st1) \<Rightarrow>
          (case cc_sink ctx of
             None \<Rightarrow> forward_events cfg ctx datas st1 sent
           | Some accepts \<Rightarrow>
               if accepts (length sent)
               then forward_events cfg ctx datas st1
                      (sent @ [Event_Partial_Image (cc_output_index ctx) (pd_partial_index partial)
                                 (pd_b64_json partial)])
               else (Inl (with_provider ''codex-responses''
                            (error_new Cancelled
                               ''image event consumer disconnected during Codex generation'')), sent)))"

text \<open>The loop of \<open>consume_stream\<close>; the stream ends with the list of observations.\<close>

fun stream_loop ::
  "responses_config \<Rightarrow> call_context \<Rightarrow> observation list \<Rightarrow> sse_decoder \<Rightarrow> event_state \<Rightarrow> call_result io" where
  "stream_loop cfg ctx [] decoder st sent =
     (case sse_finish decoder of
        Inl e \<Rightarrow> (Inl e, sent)
      | Inr datas \<Rightarrow>
          (case forward_events cfg ctx datas st sent of
             (Inl e, sent1) \<Rightarrow> (Inl e, sent1)
           | (Inr st1, sent1) \<Rightarrow> (event_finish st1, sent1)))"
| "stream_loop cfg ctx (Obs_Cancelled # obs) decoder st sent =
     (Inl (post_dispatch_unknown Cancelled ''Codex Responses stream was cancelled''), sent)"
| "stream_loop cfg ctx (Obs_Deadline # obs) decoder st sent =
     (Inl (post_dispatch_unknown Timeout ''Codex Responses stream timed out''), sent)"
| "stream_loop cfg ctx (Obs_Transport is_timeout # obs) decoder st sent =
     (Inl (http_transport_error is_timeout), sent)"
| "stream_loop cfg ctx (Obs_Chunk chunk # obs) decoder st sent =
     (case sse_push chunk decoder of
        (Inl e, _) \<Rightarrow> (Inl e, sent)
      | (Inr datas, decoder1) \<Rightarrow>
          (case forward_events cfg ctx datas st sent of
             (Inl e, sent1) \<Rightarrow> (Inl e, sent1)
           | (Inr st1, sent1) \<Rightarrow> stream_loop cfg ctx obs decoder1 st1 sent1))"

definition consume_stream :: "responses_config \<Rightarrow> call_context \<Rightarrow> observation list \<Rightarrow> call_result io" where
  "consume_stream cfg ctx obs = stream_loop cfg ctx obs (sse_new (rc_sse_limits cfg)) default_event_state"

section \<open>One call and its retries\<close>

datatype send_outcome =
    Send_Cancelled
  | Send_Failed bool
  | Send_Response nat "observation list"

text \<open>What one call meets: its credentials, the deadline, and the answer of the endpoint.\<close>

record call_env =
  ce_credentials :: "unit result"
  ce_deadline_passed :: bool
  ce_send :: send_outcome

definition call_once :: "responses_config \<Rightarrow> call_context \<Rightarrow> call_env \<Rightarrow> call_result io" where
  "call_once cfg ctx env sent =
     (case ce_credentials env of
        Inl e \<Rightarrow> (Inl e, sent)
      | Inr _ \<Rightarrow>
          if ce_deadline_passed env then (Inl (error_new Timeout ''request deadline elapsed''), sent)
          else (case ce_send env of
              Send_Cancelled \<Rightarrow> (Inl (error_new Cancelled ''Codex Responses request was cancelled''), sent)
            | Send_Failed is_timeout \<Rightarrow> (Inl (http_transport_error is_timeout), sent)
            | Send_Response status obs \<Rightarrow>
                if 200 \<le> status \<and> status \<le> 299 then consume_stream cfg ctx obs sent
                else (Inl (status_error status), sent)))"

text \<open>
  Between two attempts: the time left to the deadline, and whether the request is cancelled
  before the delay is over.
\<close>

record retry_env =
  re_call :: call_env
  re_remaining :: nat
  re_cancelled :: bool

fun retry_loop ::
  "responses_config \<Rightarrow> call_context \<Rightarrow> (nat \<Rightarrow> retry_env) \<Rightarrow> nat list \<Rightarrow> call_result io" where
  "retry_loop cfg ctx envs [] sent =
     (Inl (with_provider ''codex-responses''
        (error_new Internal ''Codex Responses retry loop produced no attempts'')), sent)"
| "retry_loop cfg ctx envs (attempt # attempts) sent =
     (case call_once cfg ctx (re_call (envs attempt)) sent of
        (Inr result, sent1) \<Rightarrow> (Inr (result\<lparr>cr_attempts := of_nat attempt\<rparr>), sent1)
      | (Inl e, sent1) \<Rightarrow>
          if attempt < unat (rc_max_transient_attempts cfg) \<and> safe_transient_retry e
          then
            let delay = min duration_max (rc_transient_retry_backoff cfg * attempt) in
            if re_remaining (envs attempt) \<le> delay
            then (Inl (with_detail ''provider_attempts'' (JUInt (of_nat attempt)) e), sent1)
            else if re_cancelled (envs attempt)
            then (Inl (with_detail ''provider_attempts'' (JUInt (of_nat attempt))
                    (with_provider ''codex-responses''
                      (error_new Cancelled ''Codex Responses retry was cancelled before dispatch''))), sent1)
            else retry_loop cfg ctx envs attempts sent1
          else (Inl (with_detail ''provider_attempts'' (JUInt (of_nat attempt)) e), sent1))"

definition call_resilient :: "responses_config \<Rightarrow> call_context \<Rightarrow> (nat \<Rightarrow> retry_env) \<Rightarrow> call_result io" where
  "call_resilient cfg ctx envs =
     retry_loop cfg ctx envs [1..<Suc (unat (rc_max_transient_attempts cfg))]"

section \<open>The outputs of a request\<close>

definition normalized_image :: "responses_config \<Rightarrow> codec \<Rightarrow> string \<Rightarrow> generated_image result" where
  "normalized_image cfg cd encoded =
     (if rc_max_base64_chars cfg < length encoded
      then Inl (codex_protocol_error ''Codex image base64 exceeds the configured limit'')
      else
        and_then (ok_or (codex_protocol_error ''Codex returned malformed base64 image data'')
            (cd_b64_decode cd (trim encoded))) (\<lambda>bytes.
        and_then (case inspect_image cd bytes (rc_image_limits cfg) of
              Inl e \<Rightarrow> Inl (e\<lparr>err_code := Protocol, err_provider := Some ''codex-responses''\<rparr>)
            | Inr metadata \<Rightarrow> Inr metadata) (\<lambda>metadata.
        Inr \<lparr>gi_index = 0, gi_payload = Payload_B64_Json encoded, gi_format = im_format metadata,
             gi_width = im_width metadata, gi_height = im_height metadata,
             gi_bytes = im_bytes metadata, gi_sha256 = im_sha256 metadata,
             gi_generation_ms = None, gi_metadata_name = None\<rparr>)))"

record indexed_output =
  io_index :: u8
  io_generation_ms :: u64
  io_result :: "(call_result \<times> generated_image) result"

text \<open>What one output meets: its attempts, the consumer of its events, and the time it takes.\<close>

record output_env =
  oe_attempts :: "nat \<Rightarrow> retry_env"
  oe_sink :: "(nat \<Rightarrow> bool) option"
  oe_generation_ms :: u64

definition run_output ::
  "responses_config \<Rightarrow> codec \<Rightarrow> (string \<Rightarrow> json option) \<Rightarrow> image_request \<Rightarrow> (u8 \<Rightarrow> output_env) \<Rightarrow> u8
   \<Rightarrow> indexed_output" where
  "run_output cfg cd parse request envs index =
     (let ctx = \<lparr>cc_parse = parse, cc_sink = oe_sink (envs index), cc_output_index = index\<rparr>;
          call = fst (call_resilient cfg ctx (oe_attempts (envs index)) [])
      in \<lparr>io_index = index, io_generation_ms = oe_generation_ms (envs index),
          io_result = (case call of
              Inl e \<Rightarrow> Inl (annotate_safety_rejection e request)
            | Inr call \<Rightarrow> and_then (normalized_image cfg cd (cr_b64_json call)) (\<lambda>img. Inr (call, img)))\<rparr>)"

definition locate_error :: "indexed_output \<Rightarrow> bridge_error \<Rightarrow> bridge_error" where
  "locate_error output e =
     with_detail ''generation_ms'' (JUInt (io_generation_ms output))
       (with_detail ''output_index'' (JUInt (ucast (io_index output))) e)"

definition batch_ambiguous :: "bridge_error \<Rightarrow> bridge_error" where
  "batch_ambiguous e =
     with_detail ''retry_scope'' (JStr ''do_not_retry_full_batch'')
       (with_detail ''outcome'' (JStr ''unknown'') (retryable False e))"

text \<open>The loop over the outputs in the order in which they complete.\<close>

fun collect_outputs ::
  "responses_config \<Rightarrow> image_request \<Rightarrow> indexed_output list \<Rightarrow> indexed_output list
   \<Rightarrow> indexed_output list result" where
  "collect_outputs cfg request acc [] = Inr acc"
| "collect_outputs cfg request acc (output # outputs) =
     (case io_result output of
        Inr _ \<Rightarrow> collect_outputs cfg request (acc @ [output]) outputs
      | Inl e \<Rightarrow>
          if gp_failure_policy (req_parameters request) = Failure_Policy_FailFast
          then
            let sibling_may_have_run = 1 < gp_n (req_parameters request)
                  \<and> (1 < rc_max_parallel_outputs cfg \<or> list_ex (\<lambda>o'. is_ok (io_result o')) acc)
            in Inl (if sibling_may_have_run then batch_ambiguous (locate_error output e)
                    else locate_error output e)
          else collect_outputs cfg request (acc @ [output\<lparr>io_result := Inl (locate_error output e)\<rparr>]) outputs)"

record gathered =
  ga_images :: "generated_image list"
  ga_failures :: "image_failure list"
  ga_retry_used :: bool
  ga_revised_prompt :: "string option"
  ga_usage :: usage

definition gather_output :: "indexed_output \<Rightarrow> gathered \<Rightarrow> gathered" where
  "gather_output output g =
     (case io_result output of
        Inr (result, img) \<Rightarrow>
          g\<lparr>ga_images := ga_images g @ [img\<lparr>gi_index := io_index output,
                            gi_generation_ms := Some (io_generation_ms output)\<rparr>],
            ga_retry_used := (ga_retry_used g \<or> 1 < cr_attempts result),
            ga_revised_prompt := or_else (cr_revised_prompt result) (ga_revised_prompt g),
            ga_usage := merge_usage (ga_usage g) (cr_usage result)\<rparr>
      | Inl e \<Rightarrow>
          g\<lparr>ga_failures := ga_failures g @ [\<lparr>if_index = io_index output, if_error = e,
                              if_generation_ms = io_generation_ms output\<rparr>]\<rparr>)"

definition gather_outputs :: "indexed_output list \<Rightarrow> gathered" where
  "gather_outputs outputs =
     fold gather_output outputs
       \<lparr>ga_images = [], ga_failures = [], ga_retry_used = False, ga_revised_prompt = None,
        ga_usage = default_usage\<rparr>"

text \<open>The clock readings that end up in the response.\<close>

record response_clock =
  ck_created :: u64
  ck_elapsed :: u64

definition assemble_response ::
  "string \<Rightarrow> string \<Rightarrow> response_clock \<Rightarrow> negotiated_request \<Rightarrow> gathered \<Rightarrow> failure + image_response" where
  "assemble_response request_id image_model clock negotiated g =
     (let request = ng_effective_request negotiated; p = req_parameters request;
          revised = pol_revised_prompt (req_policies request) in
      if ga_images g = []
      then (case ga_failures g of
          [] \<Rightarrow> Inl Panicked
        | f # _ \<Rightarrow> Inl (Failed (with_detail ''failed_outputs'' (JUInt (ucast (gp_n p)))
                                (with_detail ''all_outputs_failed'' (JBool True) (if_error f)))))
      else if revised = Revised_Prompt_Policy_Require \<and> ga_revised_prompt g = None
      then Inl (Failed (with_provider ''codex-responses''
             (error_new Upstream ''Codex response did not include the required revised prompt'')))
      else Inr
        \<lparr>rs_id = request_id, rs_created = ck_created clock, rs_provider = ''codex-responses'',
         rs_model = image_model, rs_requested = ng_requested negotiated, rs_effective = p,
         rs_normalizations = ng_normalizations negotiated, rs_attempts = [],
         rs_data = ga_images g, rs_failures = ga_failures g,
         rs_revised_prompt =
           (if revised = Revised_Prompt_Policy_Omit then None else ga_revised_prompt g),
         rs_usage = Some (ga_usage g), rs_session = None,
         rs_timings = default_timings\<lparr>tm_provider_ms := ck_elapsed clock, tm_total_ms := ck_elapsed clock\<rparr>,
         rs_warnings =
           (if ga_failures g \<noteq> [] then [''partial_output_failure''] else [])
           @ (if ga_retry_used g then [''transient_provider_retry_used''] else [])\<rparr>)"

record execution_env =
  xe_outputs :: "u8 \<Rightarrow> output_env"
  xe_completion :: "u8 list \<Rightarrow> u8 list"
  xe_clock :: response_clock

definition output_indices :: "u8 \<Rightarrow> u8 list" where
  "output_indices n = map of_nat [0..<unat n]"

definition responses_execute ::
  "responses_config \<Rightarrow> codec \<Rightarrow> (string \<Rightarrow> json option) \<Rightarrow> (image_input \<Rightarrow> loaded_image result)
   \<Rightarrow> execution_env \<Rightarrow> string \<Rightarrow> image_request \<Rightarrow> failure + image_response" where
  "responses_execute cfg cd parse load env request_id request =
     and_then (fail_with (validate_request request default_request_limits)) (\<lambda>_.
     and_then (fail_with (selected_image_model (rc_image_model cfg) (rt_model (req_routing request))))
       (\<lambda>image_model.
     and_then (fail_with (responses_capabilities image_model (rc_max_outputs cfg)
                            (rc_max_parallel_outputs cfg))) (\<lambda>caps.
     and_then (negotiate_request request caps) (\<lambda>negotiated.
       let effective = ng_effective_request negotiated in
     and_then (fail_with (input_content cfg cd load effective)) (\<lambda>_.
       let completed = map (run_output cfg cd parse effective (xe_outputs env))
             (xe_completion env (output_indices (gp_n (req_parameters effective)))) in
     and_then (fail_with (collect_outputs cfg effective [] completed)) (\<lambda>outputs.
       assemble_response request_id image_model (xe_clock env) negotiated
         (gather_outputs (sort_key io_index outputs))))))))"

end
