(* ===== verification/Codex_Responses_Properties.thy ===== *)
theory Codex_Responses_Properties
  imports Codex_Responses Negotiation_Properties "HOL-Library.Multiset"
begin

text \<open>
  The properties of the Codex Responses driver: what a successful call proves about the bytes
  of its stream, when a call is retried, and what becomes of the outputs of a request.
\<close>

section \<open>From the bytes of a stream to the result of a call\<close>

lemma forward_events_append:
  "forward_events cfg ctx (xs @ ys) st sent =
     (case forward_events cfg ctx xs st sent of
        (Inl e, sent1) \<Rightarrow> (Inl e, sent1)
      | (Inr st1, sent1) \<Rightarrow> forward_events cfg ctx ys st1 sent1)"
  by (induction xs arbitrary: st sent) (auto split: prod.splits sum.splits option.splits)

lemma stream_loop_chunks:
  "stream_loop cfg ctx (map Obs_Chunk chunks) d st sent = (Inr r, sent') \<longleftrightarrow>
     (\<exists>evs d' later st'. push_all chunks d = (Inr evs, d') \<and> sse_finish d' = Inr later
        \<and> forward_events cfg ctx (evs @ later) st sent = (Inr st', sent') \<and> event_finish st' = Inr r)"
proof (induction chunks arbitrary: d st sent)
  case Nil
  then show ?case by (auto split: prod.splits sum.splits)
next
  case (Cons c cs)
  show ?case
  proof (cases "sse_push c d")
    case (Pair p d1)
    show ?thesis
    proof (cases p)
      case (Inl e)
      with Pair show ?thesis by simp
    next
      case (Inr datas)
      show ?thesis
      proof (cases "forward_events cfg ctx datas st sent")
        case fwd: (Pair q sent1)
        show ?thesis
        proof (cases q)
          case (Inl e)
          with Pair Inr fwd show ?thesis
            by (auto simp: forward_events_append split: prod.splits sum.splits)
        next
          case st1: (Inr st1)
          show ?thesis
            using Cons.IH [of d1 st1 sent1] Pair Inr fwd st1
            by (auto simp: forward_events_append split: prod.splits sum.splits)
        qed
      qed
    qed
  qed
qed

lemma stream_loop_Inr_chunks:
  "stream_loop cfg ctx obs d st sent = (Inr r, sent') \<Longrightarrow> \<exists>chunks. obs = map Obs_Chunk chunks"
proof (induction obs arbitrary: d st sent)
  case (Cons ob obs)
  then obtain chunk where ob: "ob = Obs_Chunk chunk" by (cases ob) auto
  with Cons.prems obtain d1 st1 sent1 where "stream_loop cfg ctx obs d1 st1 sent1 = (Inr r, sent')"
    by (auto split: prod.splits sum.splits)
  from Cons.IH [OF this] obtain chunks where "obs = map Obs_Chunk chunks" by blast
  then show ?case using ob by (intro exI [of _ "chunk # chunks"]) simp
qed simp

lemma consume_stream_iff:
  assumes "sane_limits (rc_sse_limits cfg)"
  shows "consume_stream cfg ctx (map Obs_Chunk chunks) sent = (Inr r, sent') \<longleftrightarrow>
     acceptable (rc_sse_limits cfg) chunks
     \<and> (\<exists>st. forward_events cfg ctx (sse_events (concat chunks)) default_event_state sent = (Inr st, sent')
             \<and> event_finish st = Inr r)"
proof -
  let ?L = "rc_sse_limits cfg"
  have "(\<exists>evs d' later. push_all chunks (sse_new ?L) = (Inr evs, d') \<and> sse_finish d' = Inr later \<and> datas = evs @ later)
      \<longleftrightarrow> decode_stream ?L chunks = Inr datas" for datas
    by (auto simp: decode_stream_def and_then_Inr_iff split: prod.splits sum.splits)
  then have run: "(\<exists>evs d' later. push_all chunks (sse_new ?L) = (Inr evs, d') \<and> sse_finish d' = Inr later \<and> datas = evs @ later)
      \<longleftrightarrow> acceptable ?L chunks \<and> datas = sse_events (concat chunks)" for datas
    by (simp add: decode_stream_iff [OF assms] flip: acceptable_iff)
  have "consume_stream cfg ctx (map Obs_Chunk chunks) sent = (Inr r, sent') \<longleftrightarrow>
      (\<exists>datas st. (\<exists>evs d' later. push_all chunks (sse_new ?L) = (Inr evs, d') \<and> sse_finish d' = Inr later
            \<and> datas = evs @ later)
        \<and> forward_events cfg ctx datas default_event_state sent = (Inr st, sent') \<and> event_finish st = Inr r)"
    unfolding consume_stream_def stream_loop_chunks by (intro iffI) (elim exE conjE, blast)+
  then show ?thesis unfolding run by simp
qed

lemma forward_events_saw:
  assumes "forward_events cfg ctx datas st sent = (Inr st', sent')"
    and "saw (rc_max_base64_chars cfg) (parsed_events (cc_parse ctx) before) st"
  shows "saw (rc_max_base64_chars cfg) (parsed_events (cc_parse ctx) (before @ datas)) st'"
  using assms
proof (induction datas arbitrary: st sent before)
  case (Cons data datas)
  from Cons.prems(1) obtain p st1 sent1 where
    one: "process_event (cc_parse ctx) data (rc_max_base64_chars cfg) st = (Inr p, st1)"
    and rest: "forward_events cfg ctx datas st1 sent1 = (Inr st', sent')"
    by (auto split: prod.splits sum.splits option.splits if_splits)
  from Cons.IH [OF rest process_event_Inr [OF one Cons.prems(2)]] show ?case by simp
qed simp

text \<open>What the client makes of a stream is a function of its bytes: cut into chunks in any way
  the decoder accepts, it succeeds with the same result and the same partial images.\<close>

lemma call_result_from_bytes:
  assumes "sane_limits (rc_sse_limits cfg)"
    and "consume_stream cfg ctx (map Obs_Chunk chunks) sent = (Inr r, sent')"
    and "concat chunks' = concat chunks" "buffer_fits (rc_sse_limits cfg) [] chunks'"
  shows "consume_stream cfg ctx (map Obs_Chunk chunks') sent = (Inr r, sent')"
proof -
  have "acceptable (rc_sse_limits cfg) chunks'"
    using assms consume_stream_iff [OF assms(1)] by (simp add: acceptable_def Let_def)
  with assms(2,3) show ?thesis unfolding consume_stream_iff [OF assms(1)] by simp
qed

text \<open>C36. Only a complete stream yields an image: when a call succeeds, every observation was a chunk,
  the stream contained a completion and no failure, and the result is the only final image in
  it, nonempty and within the limits; a partial image never takes its place.\<close>

theorem call_image_authentic:
  assumes "sane_limits (rc_sse_limits cfg)"
    and "consume_stream cfg ctx obs sent = (Inr r, sent')"
  shows "\<exists>chunks. obs = map Obs_Chunk chunks
    \<and> (let events = parsed_events (cc_parse ctx) (sse_events (concat chunks)) in
        (\<exists>e \<in> set events. event_kind e = ''response.completed'')
        \<and> (\<forall>e \<in> set events. \<not> failing e)
        \<and> final_images (concat (map items_of events)) = {cr_b64_json r}
        \<and> cr_b64_json r \<noteq> [] \<and> length (cr_b64_json r) \<le> rc_max_base64_chars cfg
        \<and> pred_option (\<lambda>p. length p \<le> max_revised_prompt_bytes) (cr_revised_prompt r))"
proof -
  from assms(2) obtain chunks where obs: "obs = map Obs_Chunk chunks"
    using stream_loop_Inr_chunks unfolding consume_stream_def by blast
  with assms consume_stream_iff [OF assms(1)] obtain st where
    fwd: "forward_events cfg ctx (sse_events (concat chunks)) default_event_state sent = (Inr st, sent')"
    and fin: "event_finish st = Inr r" by blast
  have "saw (rc_max_base64_chars cfg) (parsed_events (cc_parse ctx) []) default_event_state"
    by (simp add: saw_default parsed_events_def List.map_filter_def)
  from forward_events_saw [OF fwd this] have
    saw: "saw (rc_max_base64_chars cfg) (parsed_events (cc_parse ctx) (sse_events (concat chunks))) st"
    by simp
  from fin have r: "es_failure st = None" "es_completed st" "es_final_image st = Some (cr_b64_json r)"
    "es_revised_prompt st = cr_revised_prompt r"
    by (auto simp: event_finish_def result_simps split: option.splits if_splits)
  from saw r show ?thesis
    unfolding saw_def image_state_def
    by (intro exI [of _ chunks])
      (auto simp: obs Let_def intro: option.pred_mono_strong)
qed

section \<open>A concrete stream\<close>

text \<open>A configuration, a parser of two events, and a stream of them, for the witnesses.\<close>

definition demo_config :: responses_config where
  "demo_config = \<lparr>rc_endpoint_scheme = ''https'', rc_endpoint_host = None, rc_responses_model = ''gpt-5.5'',
     rc_image_model = ''gpt-image-2'', rc_image_limits = default_image_limits,
     rc_sse_limits = short_limits, rc_max_base64_chars = 8, rc_max_reference_bytes = 100,
     rc_max_outputs = 4, rc_max_parallel_outputs = 2, rc_max_transient_attempts = 2,
     rc_transient_retry_backoff = 0\<rparr>"

definition demo_parse :: "string \<Rightarrow> json option" where
  "demo_parse s =
     (if s = ''i'' then Some (JObj [(''type'', JStr ''response.output_item.done''),
        (''item'', JObj [(''type'', JStr ''image_generation_call''), (''result'', JStr ''AAAA'')])])
      else if s = ''c'' then Some (JObj [(''type'', JStr ''response.completed'')]) else None)"

definition demo_context :: call_context where
  "demo_context = \<lparr>cc_parse = demo_parse, cc_sink = None, cc_output_index = 0\<rparr>"

definition demo_chunks :: "string list" where
  "demo_chunks = [''data: i'', [CHR 10, CHR 10], ''data: c'']"

lemma demo_stream:
  "\<exists>r. consume_stream demo_config demo_context (map Obs_Chunk demo_chunks) [] = (Inr r, []) \<and> cr_b64_json r = ''AAAA''"
proof -
  have sane: "sane_limits (rc_sse_limits demo_config)" by (simp add: demo_config_def short_limits_sane)
  have "case forward_events demo_config demo_context (sse_events (concat demo_chunks)) default_event_state [] of
      (Inl _, _) \<Rightarrow> False
    | (Inr st, sent) \<Rightarrow> sent = []
        \<and> (case event_finish st of Inl _ \<Rightarrow> False | Inr r \<Rightarrow> cr_b64_json r = ''AAAA'')"
    by code_simp
  moreover have "acceptable (rc_sse_limits demo_config) demo_chunks" by code_simp
  ultimately show ?thesis
    unfolding consume_stream_iff [OF sane] by (auto split: prod.splits sum.splits)
qed

lemma call_result_from_bytes_witness:
  "\<exists>r. consume_stream demo_config demo_context [Obs_Chunk (''data: i'' @ [CHR 10, CHR 10]), Obs_Chunk ''data: c''] []
     = (Inr r, [])"
proof -
  obtain r where r: "consume_stream demo_config demo_context (map Obs_Chunk demo_chunks) [] = (Inr r, [])"
    using demo_stream by blast
  let ?cut = "[''data: i'' @ [CHR 10, CHR 10], ''data: c'']"
  have sane: "sane_limits (rc_sse_limits demo_config)" by (simp add: demo_config_def short_limits_sane)
  have "concat ?cut = concat demo_chunks" "buffer_fits (rc_sse_limits demo_config) [] ?cut" by code_simp+
  from call_result_from_bytes [OF sane r this] show ?thesis by auto
qed

theorem call_image_authentic_witness:
  "final_images (concat (map items_of (parsed_events demo_parse (sse_events (concat demo_chunks))))) = {''AAAA''}"
proof -
  obtain r where r: "consume_stream demo_config demo_context (map Obs_Chunk demo_chunks) [] = (Inr r, [])"
    and b64: "cr_b64_json r = ''AAAA''" using demo_stream by blast
  have sane: "sane_limits (rc_sse_limits demo_config)" by (simp add: demo_config_def short_limits_sane)
  have "cs = demo_chunks" if "map Obs_Chunk demo_chunks = map Obs_Chunk cs" for cs
    using that inj_map_eq_map [of Obs_Chunk cs demo_chunks] by (simp add: inj_def)
  with call_image_authentic [OF sane r] b64 show ?thesis by (auto simp: demo_context_def Let_def)
qed

section \<open>Retries\<close>

lemma process_event_Inl: "process_event parse data m st = (Inl e, st') \<Longrightarrow> err_code e = Protocol"
proof -
  have item: "output_item item m st = (Inl e, st') \<Longrightarrow> err_code e = Protocol" for item st st'
    by (auto simp: output_item_def capture_image_item_def capture_final_image_def check_base64_size_def
        require_def codex_protocol_error_def Let_def split: prod.splits sum.splits option.splits if_splits)
  have items: "output_items xs m st = (Inl e, st') \<Longrightarrow> err_code e = Protocol" for xs st st'
    by (induction xs arbitrary: st) (auto dest: item split: prod.splits sum.splits)
  assume "process_event parse data m st = (Inl e, st')"
  then show ?thesis
    by (auto simp: process_event_def process_json_def partial_event_def completed_event_def failed_event_def
        check_base64_size_def require_def partial_index_of_def codex_protocol_error_def Let_def and_then_Inl_iff
        dest: item items split: prod.splits sum.splits option.splits if_splits)
qed

lemma process_line_Inl: "process_line l st = (Inl e, st') \<Longrightarrow> err_code e = Protocol"
  by (auto simp: process_line_def flush_event_def sse_error_def Let_def
      split: prod.splits option.splits if_splits)

lemma drain_lines_Inl: "drain_lines st = (Inl e, st') \<Longrightarrow> err_code e = Protocol"
proof (induction st rule: drain_lines.induct)
  case (1 evs d)
  then show ?case
    by (subst (asm) drain_lines.simps)
      (auto simp: sse_error_def Let_def dest: process_line_Inl
        split: prod.splits option.splits if_splits sum.splits)
qed

lemma sse_push_Inl: "sse_push c d = (Inl e, d') \<Longrightarrow> err_code e = Protocol"
  by (auto simp: sse_push_def sse_error_def Let_def dest: drain_lines_Inl
      split: prod.splits if_splits sum.splits)

lemma forward_events_Inl:
  "forward_events cfg ctx datas st sent = (Inl e, sent') \<Longrightarrow> err_code e \<in> {Protocol, Cancelled}"
  by (induction datas arbitrary: st sent)
    (auto dest: process_event_Inl split: prod.splits sum.splits option.splits if_splits)

definition is_chunk :: "observation \<Rightarrow> bool" where
  "is_chunk ob = (case ob of Obs_Chunk _ \<Rightarrow> True | _ \<Rightarrow> False)"

lemma post_dispatch_unknown_simps [simp]:
  "err_code (post_dispatch_unknown c m) = c" "\<not> err_retryable (post_dispatch_unknown c m)"
  "outcome_unknown (post_dispatch_unknown c m)"
  by (simp_all add: post_dispatch_unknown_def outcome_unknown_def)

lemma stream_interrupted:
  "\<not> list_all is_chunk obs \<Longrightarrow>
     \<exists>e sent'. stream_loop cfg ctx obs d st sent = (Inl e, sent') \<and> \<not> safe_transient_retry e"
proof (induction obs arbitrary: d st sent)
  case (Cons ob obs)
  show ?case
  proof (cases ob)
    case (Obs_Chunk c)
    with Cons show ?thesis
      by (auto simp: is_chunk_def safe_transient_retry_def dest: sse_push_Inl forward_events_Inl
          split: prod.splits sum.splits)
  qed (auto simp: safe_transient_retry_def http_transport_error_def)
qed simp

text \<open>A call whose response was interrupted, by a transport error, a cancellation or the
  deadline, is never repeated: its error is returned after the first attempt, whatever a
  second one would have met.\<close>

lemma interrupted_call_not_retried:
  assumes "1 \<le> rc_max_transient_attempts cfg"
    and "ce_credentials (re_call (envs 1)) = Inr ()" "\<not> ce_deadline_passed (re_call (envs 1))"
    and "ce_send (re_call (envs 1)) = Send_Response status obs" "200 \<le> status" "status \<le> 299"
    and "\<not> list_all is_chunk obs"
  shows "\<exists>e sent'. consume_stream cfg ctx obs sent = (Inl e, sent') \<and> \<not> safe_transient_retry e
    \<and> call_resilient cfg ctx envs sent = (Inl (with_detail ''provider_attempts'' (JUInt 1) e), sent')"
proof -
  obtain e sent' where e: "consume_stream cfg ctx obs sent = (Inl e, sent')" "\<not> safe_transient_retry e"
    using stream_interrupted [OF assms(7)] unfolding consume_stream_def by blast
  with assms have "call_once cfg ctx (re_call (envs 1)) sent = (Inl e, sent')"
    by (simp add: call_once_def)
  moreover have "[1..<Suc (unat (rc_max_transient_attempts cfg))] = 1 # [2..<Suc (unat (rc_max_transient_attempts cfg))]"
    using assms(1) by (subst upt_conv_Cons) (auto simp: word_le_nat_alt numeral_2_eq_2)
  ultimately show ?thesis using e by (auto simp: call_resilient_def)
qed

definition demo_attempts :: "nat \<Rightarrow> retry_env" where
  "demo_attempts attempt =
     \<lparr>re_call = \<lparr>ce_credentials = Inr (), ce_deadline_passed = False,
        ce_send = Send_Response 200 (if attempt = 1 then [Obs_Chunk '': ping'', Obs_Transport True]
                                     else map Obs_Chunk demo_chunks)\<rparr>,
      re_remaining = second_ns, re_cancelled = False\<rparr>"

lemma interrupted_call_not_retried_witness:
  "\<exists>e sent'. call_resilient demo_config demo_context demo_attempts [] = (Inl e, sent')"
  using interrupted_call_not_retried [of demo_config demo_attempts 200 "[Obs_Chunk '': ping'', Obs_Transport True]"
      demo_context "[]"]
  by (auto simp: demo_attempts_def demo_config_def is_chunk_def)

section \<open>The outputs of a request\<close>

lemma collect_outputs_Inr:
  assumes "collect_outputs cfg request acc outputs = Inr res"
  shows "\<exists>new. res = acc @ new \<and> map io_index new = map io_index outputs
    \<and> map (is_ok \<circ> io_result) new = map (is_ok \<circ> io_result) outputs
    \<and> (gp_failure_policy (req_parameters request) = Failure_Policy_FailFast
         \<longrightarrow> list_all (is_ok \<circ> io_result) new)"
  using assms
proof (induction outputs arbitrary: acc)
  case (Cons out1 outs)
  show ?case
  proof (cases "io_result out1")
    case (Inr x)
    with Cons.prems have "collect_outputs cfg request (acc @ [out1]) outs = Inr res" by simp
    from Cons.IH [OF this] Inr show ?thesis by auto
  next
    case (Inl e)
    let ?o = "out1\<lparr>io_result := Inl (locate_error out1 e)\<rparr>"
    from Inl Cons.prems have "gp_failure_policy (req_parameters request) \<noteq> Failure_Policy_FailFast"
      and "collect_outputs cfg request (acc @ [?o]) outs = Inr res"
      by (auto simp: Let_def split: if_splits)
    with Cons.IH [OF this(2)] Inl show ?thesis by auto
  qed
qed simp

lemma gather_outputs_indices:
  "map gi_index (ga_images (gather_outputs outputs)) = map io_index (filter (is_ok \<circ> io_result) outputs)"
  "map if_index (ga_failures (gather_outputs outputs)) = map io_index (filter (Not \<circ> is_ok \<circ> io_result) outputs)"
proof -
  have "map gi_index (ga_images (fold gather_output outputs g)) =
      map gi_index (ga_images g) @ map io_index (filter (is_ok \<circ> io_result) outputs)
    \<and> map if_index (ga_failures (fold gather_output outputs g)) =
      map if_index (ga_failures g) @ map io_index (filter (Not \<circ> is_ok \<circ> io_result) outputs)" for g
    by (induction outputs arbitrary: g) (auto simp: gather_output_def split: sum.splits)
  then show "map gi_index (ga_images (gather_outputs outputs)) = map io_index (filter (is_ok \<circ> io_result) outputs)"
    "map if_index (ga_failures (gather_outputs outputs)) = map io_index (filter (Not \<circ> is_ok \<circ> io_result) outputs)"
    by (simp_all add: gather_outputs_def)
qed

text \<open>The indices of a complete set of outputs, split into two ascending lists.\<close>

definition splits_outputs :: "u8 \<Rightarrow> u8 list \<Rightarrow> u8 list \<Rightarrow> bool" where
  "splits_outputs n images failures \<longleftrightarrow>
     sorted_wrt (<) images \<and> sorted_wrt (<) failures \<and> set images \<inter> set failures = {}
     \<and> set images \<union> set failures = {i. i < n}"

lemma output_indices_mset:
  "set (output_indices n) = {i. i < n}" "distinct (output_indices n)"
proof -
  have "i \<in> (of_nat :: nat \<Rightarrow> u8) ` {0..<unat n} \<longleftrightarrow> i < n" for i
  proof
    assume "i < n"
    then have "unat i < unat n" by (simp add: word_less_nat_alt)
    then have "of_nat (unat i) \<in> (of_nat :: nat \<Rightarrow> u8) ` {0..<unat n}" by (intro imageI) simp
    then show "i \<in> (of_nat :: nat \<Rightarrow> u8) ` {0..<unat n}" by simp
  next
    assume "i \<in> (of_nat :: nat \<Rightarrow> u8) ` {0..<unat n}"
    then obtain k where k: "i = of_nat k" "k < unat n" by auto
    moreover have "k < 2 ^ 8" using k(2) unat_u8_less [of n] by simp
    ultimately show "i < n" by (simp add: word_less_nat_alt unat_of_nat)
  qed
  then show "set (output_indices n) = {i. i < n}" by (auto simp: output_indices_def)
  show "distinct (output_indices n)"
    unfolding output_indices_def distinct_map
    using unat_u8_less [of n] by (auto intro!: inj_onI dest: word_of_nat_eq_iff [THEN iffD1] simp: take_bit_nat_eq_self)
qed

lemma splits_sorted:
  assumes "mset (map io_index outputs) = mset (output_indices n)"
  shows "splits_outputs n (map io_index (filter P (sort_key io_index outputs)))
           (map io_index (filter (Not \<circ> P) (sort_key io_index outputs)))"
proof -
  let ?s = "sort_key io_index outputs"
  have "mset (map io_index ?s) = mset (output_indices n)" using assms by simp
  then have set: "set (map io_index ?s) = {i. i < n}" and dist: "distinct (map io_index ?s)"
    using output_indices_mset mset_eq_setD mset_eq_imp_distinct_iff by metis+
  have "sorted_wrt (<) (map io_index ?s)" using dist by (simp add: strict_sorted_iff)
  then have "sorted_wrt (\<lambda>a b. io_index a < io_index b) ?s" by (simp add: sorted_wrt_map)
  then have filt: "sorted_wrt (<) (map io_index (filter Q ?s))" for Q
    by (auto simp: sorted_wrt_map intro: sorted_wrt_filter)
  moreover have "set (map io_index (filter P ?s)) \<inter> set (map io_index (filter (Not \<circ> P) ?s)) = {}"
    using dist by (auto simp: distinct_map inj_on_def)
  moreover have "set (map io_index (filter P ?s)) \<union> set (map io_index (filter (Not \<circ> P) ?s)) = {i. i < n}"
    unfolding set [symmetric] by auto
  ultimately show ?thesis by (simp add: splits_outputs_def)
qed

lemma assemble_response_Inr:
  assumes "assemble_response request_id model clock ng g = Inr response"
  shows "rs_data response = ga_images g" "rs_failures response = ga_failures g"
    "rs_effective response = req_parameters (ng_effective_request ng)"
    "rs_requested response = ng_requested ng" "rs_normalizations response = ng_normalizations ng"
    "ga_images g \<noteq> []" "rs_id response = request_id" "rs_model response = model"
  using assms by (auto simp: assemble_response_def Let_def split: list.splits if_splits)

lemma assemble_response_total:
  assumes "ga_images g \<noteq> []"
    and "pol_revised_prompt (req_policies (ng_effective_request ng)) \<noteq> Revised_Prompt_Policy_Require"
  shows "\<exists>response. assemble_response request_id model clock ng g = Inr response"
  using assms by (simp add: assemble_response_def Let_def)

text \<open>Every requested output is accounted for: the response carries the indices of all outputs, in
  ascending order, each either as an image or as a failure and at least one as an image; under
  the fail-fast policy there are only images. Concurrent calls may complete in any order.\<close>

lemma outputs_accounted_for:
  assumes "\<forall>xs. mset (xe_completion env xs) = mset xs"
    and "responses_execute cfg cd parse load env request_id request = Inr response"
  shows "splits_outputs (gp_n (rs_effective response))
           (map gi_index (rs_data response)) (map if_index (rs_failures response))
    \<and> rs_data response \<noteq> []
    \<and> (gp_failure_policy (rs_effective response) = Failure_Policy_FailFast \<longrightarrow> rs_failures response = [])"
proof -
  from assms(2) obtain model caps ng outs where
    collect: "collect_outputs cfg (ng_effective_request ng) []
        (map (run_output cfg cd parse (ng_effective_request ng) (xe_outputs env))
           (xe_completion env (output_indices (gp_n (req_parameters (ng_effective_request ng)))))) = Inr outs"
    and asm: "assemble_response request_id model (xe_clock env) ng
        (gather_outputs (sort_key io_index outs)) = Inr response"
    unfolding responses_execute_def Let_def and_then_Inr_iff fail_with_Inr_iff
    by blast
  let ?n = "gp_n (req_parameters (ng_effective_request ng))"
  have "io_index (run_output cfg cd parse r e i) = i" for r e i
    by (simp add: run_output_def Let_def)
  with collect_outputs_Inr [OF collect] have
    idx: "map io_index outs = xe_completion env (output_indices ?n)"
    and ok: "gp_failure_policy (req_parameters (ng_effective_request ng)) = Failure_Policy_FailFast
      \<longrightarrow> list_all (is_ok \<circ> io_result) outs"
    by (auto simp: comp_def)
  have "splits_outputs ?n (map io_index (filter (is_ok \<circ> io_result) (sort_key io_index outs)))
           (map io_index (filter (Not \<circ> (is_ok \<circ> io_result)) (sort_key io_index outs)))"
    by (rule splits_sorted) (use assms(1) idx in simp)
  moreover have "filter (Not \<circ> is_ok \<circ> io_result) (sort_key io_index outs) = []"
    if "list_all (is_ok \<circ> io_result) outs"
    using that by (auto simp: filter_empty_conv list_all_iff)
  moreover have "(map if_index fs = []) = (fs = [])" for fs by simp
  ultimately show ?thesis
    using assemble_response_Inr [OF asm] ok
      gather_outputs_indices [of "sort_key io_index outs"]
    by (metis comp_assoc list.map_disc_iff)
qed

definition demo_codec :: codec where
  "demo_codec = \<lparr>cd_image_type = (\<lambda>_. Some Type_Png), cd_blob_size = (\<lambda>_. Some (1, 1)),
     cd_decode = (\<lambda>_ _ _ _. Some (1, 1)), cd_thumbnail = (\<lambda>_ _ _ _ bytes. Some (Some bytes)),
     cd_sha256 = (\<lambda>_. ''00''), cd_b64_encode = (\<lambda>bytes. bytes), cd_b64_decode = (\<lambda>s. Some s)\<rparr>"

definition demo_env :: execution_env where
  "demo_env = \<lparr>xe_outputs = (\<lambda>_. \<lparr>oe_attempts = (\<lambda>_. demo_attempts 2), oe_sink = None, oe_generation_ms = 5\<rparr>),
     xe_completion = rev, xe_clock = \<lparr>ck_created = 1, ck_elapsed = 9\<rparr>\<rparr>"

lemma demo_negotiation:
  "\<exists>caps. responses_capabilities ''gpt-image-2'' 4 2 = Inr caps
    \<and> negotiate_request (request_generate ''p'') caps =
        Inr \<lparr>ng_requested = default_generation_parameters, ng_effective_request = request_generate ''p'',
             ng_normalizations = []\<rparr>"
proof -
  obtain caps where c: "responses_capabilities ''gpt-image-2'' 4 2 = Inr caps"
    by (rule responses_capabilities_total [of "''gpt-image-2''" 2 4]) (simp_all add: supported_image_models_def)
  have v: "capabilities_validate caps = Inr ()"
    using responses_capabilities_validate [OF c] by simp
  have f: "pc_model caps = Some ''gpt-image-2'' \<and> pc_generation caps \<and> sc_auto (pc_sizes caps)
      \<and> set (pc_qualities caps) = {Quality_Auto, Quality_Low, Quality_Medium, Quality_High}
      \<and> set (pc_moderation caps) = {Moderation_Auto, Moderation_Low}
      \<and> set (pc_actions caps) = {Image_Action_Auto, Image_Action_Generate, Image_Action_Edit}"
    using c unfolding responses_capabilities_def
    by (auto simp: and_then_Inr_iff simp del: btree_insert.simps split: if_splits)
  show ?thesis
    by (intro exI [of _ caps] conjI c)
      (simp add: negotiation_defs request_defaults v f responses_capabilities_fields [OF c])
qed

lemma demo_trim: "trim ''AAAA'' = ''AAAA''"
  by code_simp

lemma demo_image:
  "\<exists>img. normalized_image demo_config demo_codec ''AAAA'' = Inr img"
  by (simp add: normalized_image_def demo_trim demo_config_def demo_codec_def inspect_image_def probe_image_def
      u32_try_from_def default_image_limits_def image_type_format_def word_le_nat_alt word_less_nat_alt)

lemma demo_call:
  "\<exists>r. fst (call_resilient demo_config \<lparr>cc_parse = demo_parse, cc_sink = None, cc_output_index = i\<rparr>
          (\<lambda>_. demo_attempts 2) []) = Inr r \<and> cr_b64_json r = ''AAAA''" if "i = 0"
proof -
  obtain r where "consume_stream demo_config demo_context (map Obs_Chunk demo_chunks) [] = (Inr r, [])"
    and "cr_b64_json r = ''AAAA''" using demo_stream by blast
  then have "call_once demo_config demo_context (re_call (demo_attempts 2)) [] = (Inr r, [])"
    by (simp add: call_once_def demo_attempts_def)
  moreover have "[1..<Suc (unat (rc_max_transient_attempts demo_config))] = [1, 2]"
    by (simp add: demo_config_def upt_rec)
  ultimately show ?thesis
    using that \<open>cr_b64_json r = ''AAAA''\<close> by (simp add: call_resilient_def demo_context_def)
qed

lemma demo_execution:
  "\<exists>response. responses_execute demo_config demo_codec demo_parse (\<lambda>_. Inl (image_error ''none'')) demo_env ''r''
     (request_generate ''p'') = Inr response"
proof -
  obtain caps where caps: "responses_capabilities ''gpt-image-2'' 4 2 = Inr caps"
    and ng: "negotiate_request (request_generate ''p'') caps =
      Inr \<lparr>ng_requested = default_generation_parameters, ng_effective_request = request_generate ''p'',
           ng_normalizations = []\<rparr>"
    using demo_negotiation by blast
  have v: "validate_request (request_generate ''p'') default_request_limits = Inr ()"
    unfolding validate_request_Inr_iff by (simp add: well_formed_defs request_defaults)
  have sel: "selected_image_model (rc_image_model demo_config) (rt_model (req_routing (request_generate ''p''))) =
      Inr ''gpt-image-2''"
    by (simp add: selected_image_model_def demo_config_def request_defaults supported_image_models_def)
  define ng where "ng = \<lparr>ng_requested = default_generation_parameters,
    ng_effective_request = request_generate ''p'', ng_normalizations = []\<rparr>"
  define o1 where "o1 = run_output demo_config demo_codec demo_parse (request_generate ''p'') (xe_outputs demo_env) 0"
  obtain r img where ok: "io_result o1 = Inr (r, img)" "io_index o1 = 0"
    using demo_call [OF refl] demo_image by (auto simp: o1_def run_output_def demo_env_def Let_def)
  obtain c where content: "input_content demo_config demo_codec (\<lambda>_. Inl (image_error ''none'')) (request_generate ''p'') = Inr c"
    by (simp add: input_content_def request_images_def request_generate_def)
  have eff: "ng_effective_request ng = request_generate ''p''" by (simp add: ng_def)
  have idx: "xe_completion demo_env (output_indices (gp_n (req_parameters (ng_effective_request ng)))) = [0]"
    by (simp add: demo_env_def output_indices_def request_defaults eff)
  have limits: "rc_max_outputs demo_config = 4" "rc_max_parallel_outputs demo_config = 2"
    by (simp_all add: demo_config_def)
  have collected: "collect_outputs demo_config (ng_effective_request ng) []
      (map (run_output demo_config demo_codec demo_parse (ng_effective_request ng) (xe_outputs demo_env))
        (xe_completion demo_env (output_indices (gp_n (req_parameters (ng_effective_request ng)))))) = Inr [o1]"
    unfolding idx by (simp add: ok eff flip: o1_def)
  have "ga_images (gather_outputs [o1]) \<noteq> []"
    using gather_outputs_indices(1) [of "[o1]"] ok by auto
  moreover have "pol_revised_prompt (req_policies (ng_effective_request ng)) \<noteq> Revised_Prompt_Policy_Require"
    by (simp add: eff request_defaults)
  ultimately obtain response where
    "assemble_response ''r'' ''gpt-image-2'' (xe_clock demo_env) ng (gather_outputs (sort_key io_index [o1])) = Inr response"
    using assemble_response_total by fastforce
  then have "responses_execute demo_config demo_codec demo_parse (\<lambda>_. Inl (image_error ''none'')) demo_env ''r''
      (request_generate ''p'') = Inr response"
    unfolding responses_execute_def Let_def and_then_Inr_iff fail_with_Inr_iff limits
    using caps ng [folded ng_def] v sel content [folded eff] collected by blast
  then show ?thesis by blast
qed

lemma outputs_accounted_for_witness:
  "\<exists>response. responses_execute demo_config demo_codec demo_parse (\<lambda>_. Inl (image_error ''none'')) demo_env ''r''
       (request_generate ''p'') = Inr response
     \<and> splits_outputs (gp_n (rs_effective response))
         (map gi_index (rs_data response)) (map if_index (rs_failures response))"
proof -
  obtain response where r: "responses_execute demo_config demo_codec demo_parse (\<lambda>_. Inl (image_error ''none''))
      demo_env ''r'' (request_generate ''p'') = Inr response" using demo_execution by blast
  have "\<forall>xs. mset (xe_completion demo_env xs) = mset xs" by (simp add: demo_env_def)
  from outputs_accounted_for [OF this r] r show ?thesis by blast
qed

text \<open>A failed batch of several concurrent calls is ambiguous: under the fail-fast policy its
  error says that the outcome is unknown and is not retryable, since a sibling may have run.\<close>

lemma fail_fast_batch_ambiguous:
  assumes "collect_outputs cfg request acc outputs = Inl e"
    and "1 < gp_n (req_parameters request)" "1 < rc_max_parallel_outputs cfg"
  shows "outcome_unknown e \<and> \<not> err_retryable e
    \<and> (\<exists>output \<in> set outputs. err_details e ''output_index'' = Some (JUInt (ucast (io_index output))))"
  using assms
proof (induction outputs arbitrary: acc)
  case (Cons out1 outs)
  then show ?case
    by (auto simp: batch_ambiguous_def locate_error_def outcome_unknown_def Let_def
        split: sum.splits if_splits)
qed simp

lemma fail_fast_batch_ambiguous_witness:
  "\<exists>e. collect_outputs demo_config ((request_generate ''p'')\<lparr>req_parameters := default_generation_parameters\<lparr>gp_n := 2\<rparr>\<rparr>)
      [] [\<lparr>io_index = 1, io_generation_ms = 5, io_result = Inl (status_error 503)\<rparr>] = Inl e \<and> outcome_unknown e"
proof -
  let ?r = "(request_generate ''p'')\<lparr>req_parameters := default_generation_parameters\<lparr>gp_n := 2\<rparr>\<rparr>"
  let ?o = "\<lparr>io_index = 1, io_generation_ms = 5, io_result = Inl (status_error 503)\<rparr>"
  obtain e where e: "collect_outputs demo_config ?r [] [?o] = Inl e"
    by (simp add: request_defaults Let_def)
  from fail_fast_batch_ambiguous [OF e] have "outcome_unknown e" by (simp add: demo_config_def)
  with e show ?thesis by blast
qed

end
