(* ===== verification/Chroma.thy ===== *)
theory Chroma
  imports Inspect
begin

text \<open>
  \<open>crates/artifacts/src/chroma.rs\<close>: chroma keys, the alpha matte computed for every pixel of
  a decoded image, the validation of the result, and the key sampled from the border of an
  image. The narrow arithmetic of the matte is done on naturals and integers; the lemmas
  show that no intermediate value leaves the type of the source.
\<close>

section \<open>Keys\<close>

datatype chroma_key = Chroma_Key u8 u8 u8

definition chroma_error :: "string \<Rightarrow> bridge_error" where
  "chroma_error message =
     with_detail ''stage'' (JStr ''transparent_background'') (error_new Artifact message)"

definition hex_digit_val :: "char \<Rightarrow> nat" where
  "hex_digit_val c =
     (if is_ascii_digit c then byte c - 48
      else if 97 \<le> byte c then byte c - 87 else byte c - 55)"

text \<open>\<open>u8::from_str_radix(s, 16)\<close> on two hexadecimal digits.\<close>

definition hex_channel :: "char \<Rightarrow> char \<Rightarrow> u8 result" where
  "hex_channel hi lo =
     (if is_ascii_hexdigit hi \<and> is_ascii_hexdigit lo
      then Inr (of_nat (16 * hex_digit_val hi + hex_digit_val lo))
      else Inl (chroma_error ''chroma key contains an invalid RGB channel''))"

definition chroma_parse :: "string \<Rightarrow> chroma_key result" where
  "chroma_parse value0 =
     (let v = (case strip_prefix ''#'' value0 of None \<Rightarrow> value0 | Some w \<Rightarrow> w) in
      if length v \<noteq> 6 \<or> \<not> list_all is_ascii_hexdigit v
      then Inl (chroma_error ''chroma key must be a hex RGB color like #00ff00'')
      else
        and_then (hex_channel (v ! 0) (v ! 1)) (\<lambda>r.
        and_then (hex_channel (v ! 2) (v ! 3)) (\<lambda>g.
        and_then (hex_channel (v ! 4) (v ! 5)) (\<lambda>b. Inr (Chroma_Key r g b)))))"

definition hex_char :: "nat \<Rightarrow> char" where
  "hex_char d = char_of (if d < 10 then 48 + d else 87 + d)"

definition hex2 :: "u8 \<Rightarrow> string" where
  "hex2 v = [hex_char (unat v div 16), hex_char (unat v mod 16)]"

definition chroma_hex :: "chroma_key \<Rightarrow> string" where
  "chroma_hex k = (case k of Chroma_Key r g b \<Rightarrow> ''#'' @ hex2 r @ hex2 g @ hex2 b)"

record chroma_options =
  co_key :: chroma_key
  co_transparent_threshold :: u8
  co_opaque_threshold :: u8
  co_despill :: bool

definition default_chroma_options :: chroma_options where
  "default_chroma_options = \<lparr>co_key = Chroma_Key 0 255 0, co_transparent_threshold = 12,
     co_opaque_threshold = 96, co_despill = True\<rparr>"

definition chroma_options_validate :: "chroma_options \<Rightarrow> unit result" where
  "chroma_options_validate opts =
     require (co_transparent_threshold opts < co_opaque_threshold opts)
       (chroma_error ''transparent threshold must be lower than opaque threshold'')"

section \<open>The matte of one pixel\<close>

type_synonym rgb = "u8 list"

definition abs_diff :: "u8 \<Rightarrow> u8 \<Rightarrow> u8" where
  "abs_diff a b = (if a \<le> b then b - a else a - b)"

definition max_or_zero :: "u8 list \<Rightarrow> u8" where
  "max_or_zero vs = fold max vs 0"

definition min_or_zero :: "u8 list \<Rightarrow> u8" where
  "min_or_zero vs = (case vs of [] \<Rightarrow> 0 | v # rest \<Rightarrow> fold min rest v)"

definition channel_distance :: "rgb \<Rightarrow> rgb \<Rightarrow> u8" where
  "channel_distance rgb key = max_or_zero (map2 abs_diff rgb key)"

definition spill_channels :: "rgb \<Rightarrow> bool list" where
  "spill_channels key =
     (let maximum = max_or_zero key in
      if maximum < 128 then replicate 3 False
      else map (\<lambda>v. sat_sub maximum 16 \<le> v \<and> 128 \<le> v) key)"

definition selected :: "bool list \<Rightarrow> rgb \<Rightarrow> u8 list" where
  "selected channels rgb = map snd (filter fst (zip channels rgb))"

definition non_key_strength :: "rgb \<Rightarrow> rgb \<Rightarrow> u8" where
  "non_key_strength rgb key = max_or_zero (selected (map Not (spill_channels key)) rgb)"

definition key_dominance :: "rgb \<Rightarrow> rgb \<Rightarrow> int" where
  "key_dominance rgb key =
     (let spill = spill_channels key in
      if \<not> list_ex (\<lambda>s. s) spill then 0
      else int (unat (min_or_zero (selected spill rgb))) - int (unat (non_key_strength rgb key)))"

definition looks_key_colored :: "rgb \<Rightarrow> rgb \<Rightarrow> u8 \<Rightarrow> bool" where
  "looks_key_colored rgb key distance = (distance \<le> 32 \<or> 16 \<le> key_dominance rgb key)"

definition u8_or_max :: "nat \<Rightarrow> u8" where
  "u8_or_max n = (if n < 256 then of_nat n else - 1)"

definition alpha_scale :: nat where
  "alpha_scale = 65535"

definition smooth_ratio :: "nat \<Rightarrow> nat" where
  "smooth_ratio ratio =
     ratio * ratio * (3 * alpha_scale - 2 * ratio) div (alpha_scale * alpha_scale)"

definition soft_alpha :: "u8 \<Rightarrow> u8 \<Rightarrow> u8 \<Rightarrow> u8" where
  "soft_alpha distance transparent opaque =
     (if distance \<le> transparent then 0
      else if opaque \<le> distance then 255
      else
        let ratio = unat (distance - transparent) * alpha_scale div unat (opaque - transparent)
        in u8_or_max ((smooth_ratio ratio * 255 + alpha_scale div 2) div alpha_scale))"

definition dominance_alpha :: "rgb \<Rightarrow> rgb \<Rightarrow> u8" where
  "dominance_alpha rgb key =
     (let dominance = key_dominance rgb key in
      if dominance \<le> 0 then 255
      else
        let denominator = max 1 (int (unat (max_or_zero key)) - int (unat (non_key_strength rgb key)));
            remaining = denominator - min dominance denominator
        in u8_or_max (nat ((remaining * 255 + denominator div 2) div denominator)))"

definition cleanup_spill :: "rgb \<Rightarrow> rgb \<Rightarrow> u8 \<Rightarrow> rgb" where
  "cleanup_spill rgb key alpha =
     (if 252 \<le> alpha then rgb
      else
        let spill = spill_channels key; anchor = sat_sub (non_key_strength rgb key) 1
        in map2 (\<lambda>s v. if s then min v anchor else v) spill rgb)"

text \<open>A pixel is the list of its four channels.\<close>

record pixel =
  px_rgb :: rgb
  px_alpha :: u8

definition matte_alpha :: "chroma_options \<Rightarrow> rgb \<Rightarrow> rgb \<Rightarrow> u8" where
  "matte_alpha opts key rgb =
     (let distance = channel_distance rgb key in
      if looks_key_colored rgb key distance
      then min (soft_alpha distance (co_transparent_threshold opts) (co_opaque_threshold opts))
               (dominance_alpha rgb key)
      else 255)"

definition key_rgb :: "chroma_key \<Rightarrow> rgb" where
  "key_rgb k = (case k of Chroma_Key r g b \<Rightarrow> [r, g, b])"

definition key_pixel :: "chroma_options \<Rightarrow> pixel \<Rightarrow> pixel" where
  "key_pixel opts p =
     (let rgb = px_rgb p; key = key_rgb (co_key opts);
          alpha0 = u8_or_max ((unat (matte_alpha opts key rgb) * unat (px_alpha p) + 127) div 255);
          alpha = (if alpha0 \<le> 8 then 0 else alpha0)
      in if alpha = 0 then \<lparr>px_rgb = [0, 0, 0], px_alpha = 0\<rparr>
         else \<lparr>px_rgb = (if co_despill opts \<and> looks_key_colored rgb key (channel_distance rgb key)
                        then cleanup_spill rgb key alpha else rgb),
               px_alpha = alpha\<rparr>)"

section \<open>Images\<close>

record rgba_image =
  ri_width :: u32
  ri_height :: u32
  ri_pixels :: "pixel list"

definition get_pixel :: "rgba_image \<Rightarrow> nat \<Rightarrow> nat \<Rightarrow> pixel" where
  "get_pixel img x y = ri_pixels img ! (y * unat (ri_width img) + x)"

text \<open>The codec extended by the decoder to pixels and the encoder from pixels.\<close>

record pixel_codec = codec +
  cd_rgba :: "output_format \<Rightarrow> u32 \<Rightarrow> u64 \<Rightarrow> string \<Rightarrow> rgba_image option"
  cd_encode :: "output_format \<Rightarrow> rgba_image \<Rightarrow> string option"

record alpha_summary =
  as_total_pixels :: u64
  as_transparent_pixels :: u64
  as_partial_pixels :: u64
  as_opaque_pixels :: u64
  as_transparent_corners :: u8

definition count_pixels :: "(u8 \<Rightarrow> bool) \<Rightarrow> rgba_image \<Rightarrow> u64" where
  "count_pixels P img = of_nat (length (filter (P \<circ> px_alpha) (ri_pixels img)))"

definition corners :: "rgba_image \<Rightarrow> (nat \<times> nat) list" where
  "corners img =
     (let mx = unat (sat_sub (ri_width img) 1); my = unat (sat_sub (ri_height img) 1)
      in [(0, 0), (mx, 0), (0, my), (mx, my)])"

definition summarize_alpha :: "rgba_image \<Rightarrow> alpha_summary" where
  "summarize_alpha img =
     \<lparr>as_total_pixels = ucast (ri_width img) * ucast (ri_height img),
      as_transparent_pixels = count_pixels (\<lambda>a. a = 0) img,
      as_partial_pixels = count_pixels (\<lambda>a. a \<noteq> 0 \<and> a \<noteq> 255) img,
      as_opaque_pixels = count_pixels (\<lambda>a. a = 255) img,
      as_transparent_corners =
        of_nat (length (filter (\<lambda>(x, y). px_alpha (get_pixel img x y) = 0) (corners img)))\<rparr>"

definition validate_alpha :: "alpha_summary \<Rightarrow> bool \<Rightarrow> unit result" where
  "validate_alpha s require_transparent_corners =
     (let minimum_region = max 1 (as_total_pixels s div 1000) in
      if as_transparent_pixels s < minimum_region
      then Inl (with_detail ''total_pixels'' (JUInt (as_total_pixels s))
             (with_detail ''transparent_pixels'' (JUInt (as_transparent_pixels s))
               (chroma_error ''background removal produced no meaningful transparent region'')))
      else if as_opaque_pixels s + as_partial_pixels s < minimum_region
      then Inl (chroma_error ''background removal erased the entire visible subject'')
      else if require_transparent_corners \<and> as_transparent_corners s < 2
      then Inl (with_detail ''transparent_corners'' (JUInt (ucast (as_transparent_corners s)))
             (chroma_error ''background removal left an opaque border around the generated subject''))
      else Inr ())"

record chroma_key_result =
  ck_bytes :: string
  ck_metadata :: image_metadata
  ck_alpha :: alpha_summary

definition decode_rgba :: "pixel_codec \<Rightarrow> string \<Rightarrow> image_limits \<Rightarrow> string \<Rightarrow> rgba_image result" where
  "decode_rgba pc bytes limits message =
     and_then (inspect_image (codec.truncate pc) bytes limits) (\<lambda>source.
     ok_or (chroma_error message)
       (cd_rgba pc (im_format source) (il_max_edge limits) (il_max_decode_alloc limits) bytes))"

definition remove_chroma_key ::
  "pixel_codec \<Rightarrow> string \<Rightarrow> output_format \<Rightarrow> chroma_options \<Rightarrow> image_limits \<Rightarrow> chroma_key_result result" where
  "remove_chroma_key pc bytes output_format opts limits =
     and_then (chroma_options_validate opts) (\<lambda>_.
     if output_format = Output_Format_Jpeg
     then Inl (chroma_error ''transparent output requires PNG or WebP encoding'')
     else
       and_then (decode_rgba pc bytes limits ''image could not be decoded for background removal'')
         (\<lambda>rgba.
         let keyed = rgba\<lparr>ri_pixels := map (key_pixel opts) (ri_pixels rgba)\<rparr>;
             alpha = summarize_alpha keyed in
       and_then (validate_alpha alpha True) (\<lambda>_.
       and_then (ok_or (chroma_error ''transparent image could not be encoded'')
           (cd_encode pc output_format keyed)) (\<lambda>encoded.
       and_then (inspect_image (codec.truncate pc) encoded limits) (\<lambda>metadata.
       Inr \<lparr>ck_bytes = encoded, ck_metadata = metadata, ck_alpha = alpha\<rparr>)))))"

definition inspect_transparent_alpha ::
  "pixel_codec \<Rightarrow> string \<Rightarrow> image_limits \<Rightarrow> alpha_summary result" where
  "inspect_transparent_alpha pc bytes limits =
     and_then (decode_rgba pc bytes limits ''image could not be decoded for alpha validation'') (\<lambda>rgba.
       let summary = summarize_alpha rgba in
       and_then (validate_alpha summary False) (\<lambda>_. Inr summary))"

section \<open>The key of a border\<close>

definition stepped :: "nat \<Rightarrow> nat \<Rightarrow> nat list" where
  "stepped n step = filter (\<lambda>i. i mod step = 0) [0..<n]"

definition border_samples :: "rgba_image \<Rightarrow> rgb list" where
  "border_samples img =
     (let w = unat (ri_width img); h = unat (ri_height img); short = min w h;
          band = max 1 (min 6 short); step = max 1 (short div 256)
      in concat (map (\<lambda>x. concat (map (\<lambda>off. [px_rgb (get_pixel img x off),
                       px_rgb (get_pixel img x (h - 1 - off))]) [0..<band])) (stepped w step))
         @ concat (map (\<lambda>y. concat (map (\<lambda>off. [px_rgb (get_pixel img off y),
                       px_rgb (get_pixel img (w - 1 - off) y)]) [0..<band])) (stepped h step)))"

definition median :: "u8 list \<Rightarrow> u8" where
  "median vs = sort vs ! (length vs div 2)"

definition detect_border_chroma_key :: "pixel_codec \<Rightarrow> string \<Rightarrow> image_limits \<Rightarrow> chroma_key result" where
  "detect_border_chroma_key pc bytes limits =
     and_then (decode_rgba pc bytes limits ''image could not be decoded for key detection'') (\<lambda>rgba.
       let samples = border_samples rgba in
       if samples = [] then Inl (chroma_error ''image border did not contain sampleable pixels'')
       else Inr (Chroma_Key (median (map (\<lambda>p. p ! 0) samples)) (median (map (\<lambda>p. p ! 1) samples))
                            (median (map (\<lambda>p. p ! 2) samples))))"

section \<open>Spelling of a key\<close>

lemma hex_digit_char: "d < 16 \<Longrightarrow> is_ascii_hexdigit (hex_char d) \<and> hex_digit_val (hex_char d) = d"
  by (auto simp: hex_char_def is_ascii_hexdigit_def hex_digit_val_def is_ascii_digit_def)

lemma hex_channel_hex2 [simp]:
  "hex_channel (hex_char (unat v div 16)) (hex_char (unat v mod 16)) = Inr v"
proof -
  have v: "unat v < 256" by (rule unat_u8_less)
  have "unat v div 16 < 16" "unat v mod 16 < 16" using v by auto
  then show ?thesis by (simp add: hex_channel_def hex_digit_char)
qed

lemma hexdigit_hex2: "list_all is_ascii_hexdigit (hex2 v)"
  using unat_u8_less [of v] by (simp add: hex2_def hex_digit_char less_mult_imp_div_less)

lemma chroma_parse_hex: "chroma_parse (chroma_hex k) = Inr k"
proof (cases k)
  case (Chroma_Key r g b)
  then show ?thesis
    using hexdigit_hex2 [of r] hexdigit_hex2 [of g] hexdigit_hex2 [of b]
    by (simp add: chroma_parse_def chroma_hex_def hex2_def)
qed

section \<open>The ramp of the matte\<close>

definition smooth_numerator :: "nat \<Rightarrow> nat" where
  "smooth_numerator r = r * r * (3 * alpha_scale - 2 * r)"

lemma smooth_ratio_numerator: "smooth_ratio r = smooth_numerator r div (alpha_scale * alpha_scale)"
  by (simp add: smooth_ratio_def smooth_numerator_def)

lemma cubic_mono:
  assumes "a \<le> b" "b \<le> (s :: nat)"
  shows "a * a * (3 * s - 2 * a) \<le> b * b * (3 * s - 2 * b)"
proof -
  define A B S where "A = int a" and "B = int b" and "S = int s"
  have ord: "0 \<le> A" "A \<le> B" "B \<le> S" using assms by (simp_all add: A_def B_def S_def)
  have "2 * (A * A) \<le> 2 * (S * A)" "2 * (B * B) \<le> 2 * (S * B)" "A * B \<le> S * A" "A * B \<le> S * B"
    using ord by (auto intro: mult_mono mult_right_mono simp: mult.commute)
  then have "0 \<le> 3 * S * (A + B) - 2 * (A * A + A * B + B * B)"
    by (simp add: algebra_simps)
  then have "0 \<le> (B - A) * (3 * S * (A + B) - 2 * (A * A + A * B + B * B))"
    using ord by simp
  then have "A * A * (3 * S - 2 * A) \<le> B * B * (3 * S - 2 * B)"
    by (simp add: algebra_simps)
  moreover have "int (3 * s - 2 * a) = 3 * S - 2 * A" "int (3 * s - 2 * b) = 3 * S - 2 * B"
    using assms by (simp_all add: A_def B_def S_def)
  ultimately have "int (a * a * (3 * s - 2 * a)) \<le> int (b * b * (3 * s - 2 * b))"
    by (simp add: A_def B_def)
  then show ?thesis by linarith
qed

text \<open>No intermediate value of the ramp leaves the 64-bit type of the source.\<close>

lemma smooth_numerator_mono: "a \<le> b \<Longrightarrow> b \<le> alpha_scale \<Longrightarrow> smooth_numerator a \<le> smooth_numerator b"
  by (simp add: smooth_numerator_def cubic_mono)

lemma smooth_numerator_top: "smooth_numerator alpha_scale = alpha_scale * alpha_scale * alpha_scale"
  by (simp add: smooth_numerator_def alpha_scale_def)

lemma smooth_numerator_u64: "r \<le> alpha_scale \<Longrightarrow> smooth_numerator r < 2 ^ 64"
  using smooth_numerator_mono [of r alpha_scale] smooth_numerator_top by (simp add: alpha_scale_def)

lemma smooth_ratio_mono: "a \<le> b \<Longrightarrow> b \<le> alpha_scale \<Longrightarrow> smooth_ratio a \<le> smooth_ratio b"
  by (simp add: smooth_ratio_numerator smooth_numerator_mono div_le_mono)

lemma smooth_ratio_le: "r \<le> alpha_scale \<Longrightarrow> smooth_ratio r \<le> alpha_scale"
proof -
  assume "r \<le> alpha_scale"
  then have "smooth_ratio r \<le> smooth_ratio alpha_scale" by (simp add: smooth_ratio_mono)
  also have "\<dots> = alpha_scale" by (simp add: smooth_ratio_def alpha_scale_def)
  finally show ?thesis .
qed

definition ramp_alpha :: "nat \<Rightarrow> nat" where
  "ramp_alpha r = (smooth_ratio r * 255 + alpha_scale div 2) div alpha_scale"

lemma ramp_alpha_mono: "a \<le> b \<Longrightarrow> b \<le> alpha_scale \<Longrightarrow> ramp_alpha a \<le> ramp_alpha b"
  by (simp add: ramp_alpha_def smooth_ratio_mono div_le_mono)

lemma ramp_alpha_le: "r \<le> alpha_scale \<Longrightarrow> ramp_alpha r \<le> 255"
  using smooth_ratio_le [of r] by (simp add: ramp_alpha_def alpha_scale_def)

lemma u8_or_max_mono: "a \<le> b \<Longrightarrow> u8_or_max a \<le> u8_or_max b"
  by (auto simp: u8_or_max_def word_le_nat_alt unat_of_nat take_bit_nat_eq_self unsigned_minus_1_eq_mask
      mask_eq_exp_minus_1)

lemma unat_u8_or_max: "n < 256 \<Longrightarrow> unat (u8_or_max n) = n"
  by (simp add: u8_or_max_def unat_of_nat)

text \<open>The position of a distance between the two thresholds, out of \<open>alpha_scale\<close>.\<close>

definition ramp_position :: "u8 \<Rightarrow> u8 \<Rightarrow> u8 \<Rightarrow> nat" where
  "ramp_position d t u = unat (d - t) * alpha_scale div unat (u - t)"

lemma soft_alpha_ramp:
  "t < d \<Longrightarrow> d < u \<Longrightarrow> soft_alpha d t u = u8_or_max (ramp_alpha (ramp_position d t u))"
  by (auto simp: soft_alpha_def ramp_alpha_def ramp_position_def Let_def)

lemma ramp_position_mono:
  "t \<le> a \<Longrightarrow> a \<le> b \<Longrightarrow> ramp_position a t u \<le> ramp_position b t u"
  unfolding ramp_position_def
  by (intro div_le_mono mult_le_mono1) (simp add: unat_sub word_le_nat_alt)

lemma ramp_position_le: "t \<le> d \<Longrightarrow> d \<le> u \<Longrightarrow> t < u \<Longrightarrow> ramp_position d t u \<le> alpha_scale"
proof -
  assume h: "t \<le> d" "d \<le> u" "t < u"
  then have "unat (d - t) \<le> unat (u - t)" "0 < unat (u - t)"
    by (auto simp: unat_sub word_le_nat_alt word_less_nat_alt)
  then have "unat (d - t) * alpha_scale div unat (u - t) \<le> unat (u - t) * alpha_scale div unat (u - t)"
    by (intro div_le_mono mult_le_mono1)
  with \<open>0 < unat (u - t)\<close> show ?thesis by (simp add: ramp_position_def)
qed

lemma soft_alpha_mono:
  assumes "t < u" "a \<le> b"
  shows "soft_alpha a t u \<le> soft_alpha b t u"
proof -
  consider "a \<le> t" | "u \<le> b" | "t < a" "b < u" by fastforce
  then show ?thesis
  proof cases
    case 1
    then show ?thesis by (simp add: soft_alpha_def)
  next
    case 2
    then have "soft_alpha b t u = - 1" using assms(1) by (auto simp: soft_alpha_def)
    then show ?thesis by simp
  next
    case 3
    with assms have "soft_alpha a t u = u8_or_max (ramp_alpha (ramp_position a t u))"
      "soft_alpha b t u = u8_or_max (ramp_alpha (ramp_position b t u))"
      by (auto intro!: soft_alpha_ramp)
    moreover have "ramp_position a t u \<le> ramp_position b t u" "ramp_position b t u \<le> alpha_scale"
      using 3 assms by (auto intro!: ramp_position_mono ramp_position_le)
    ultimately show ?thesis by (simp add: u8_or_max_mono ramp_alpha_mono)
  qed
qed

section \<open>One pixel\<close>

definition pixel_ok :: "pixel \<Rightarrow> bool" where
  "pixel_ok p = (length (px_rgb p) = 3)"

lemma length_key_rgb [simp]: "length (key_rgb k) = 3"
  by (cases k) (simp add: key_rgb_def)

lemma length_spill_channels [simp]: "length key = 3 \<Longrightarrow> length (spill_channels key) = 3"
  by (simp add: spill_channels_def Let_def)

text \<open>Scaling an alpha by another, as the source rounds it, stays below it.\<close>

definition scaled_alpha :: "u8 \<Rightarrow> u8 \<Rightarrow> u8" where
  "scaled_alpha m a = u8_or_max ((unat m * unat a + 127) div 255)"

lemma unat_scaled_alpha: "unat (scaled_alpha m a) = (unat m * unat a + 127) div 255"
proof -
  have "unat m * unat a \<le> 255 * 255"
    using unat_u8_less [of m] unat_u8_less [of a] by (intro mult_le_mono) auto
  then show ?thesis by (simp add: scaled_alpha_def unat_u8_or_max)
qed

lemma scaled_alpha_le: "scaled_alpha m a \<le> a"
proof -
  have "unat m * unat a \<le> 255 * unat a" using unat_u8_less [of m] by (intro mult_le_mono1) simp
  then have "unat m * unat a + 127 < unat a * 255 + 255" by linarith
  then have "unat m * unat a + 127 < Suc (unat a) * 255" by simp
  then have "(unat m * unat a + 127) div 255 \<le> unat a"
    by (simp only: less_mult_imp_div_less less_Suc_eq_le [symmetric])
  then show ?thesis by (simp add: word_le_nat_alt unat_scaled_alpha)
qed

lemma scaled_alpha_0 [simp]: "scaled_alpha 0 a = 0"
  by (simp add: scaled_alpha_def u8_or_max_def)

lemma scaled_alpha_255 [simp]: "scaled_alpha 255 a = a"
  by (rule word_unat_eq_iff [THEN iffD2]) (simp add: unat_scaled_alpha)

lemma key_pixel_alpha:
  "px_alpha (key_pixel opts p) =
     (let a = scaled_alpha (matte_alpha opts (key_rgb (co_key opts)) (px_rgb p)) (px_alpha p)
      in if a \<le> 8 then 0 else a)"
  by (simp add: key_pixel_def scaled_alpha_def Let_def)

lemma cleanup_spill_le:
  assumes "length rgb = 3" "length key = 3" "i < 3"
  shows "cleanup_spill rgb key a ! i \<le> rgb ! i"
  using assms by (simp add: cleanup_spill_def Let_def)

lemma key_pixel_shape: "pixel_ok p \<Longrightarrow> pixel_ok (key_pixel opts p)"
  by (simp add: pixel_ok_def key_pixel_def Let_def cleanup_spill_def)

lemma max_or_zero_zeros: "max_or_zero (map2 abs_diff xs xs) = 0"
proof -
  have "fold max (map2 abs_diff xs xs) (0 :: u8) = 0" by (induction xs) (auto simp: abs_diff_def)
  then show ?thesis by (simp add: max_or_zero_def)
qed

lemma matte_alpha_key: "matte_alpha opts key key = 0"
  by (simp add: matte_alpha_def channel_distance_def max_or_zero_zeros looks_key_colored_def
      soft_alpha_def Let_def)

lemma key_pixel_key:
  "px_rgb p = key_rgb (co_key opts) \<Longrightarrow> key_pixel opts p = \<lparr>px_rgb = [0, 0, 0], px_alpha = 0\<rparr>"
  by (simp add: key_pixel_def matte_alpha_key u8_or_max_def Let_def)

lemma key_pixel_other:
  assumes "\<not> looks_key_colored (px_rgb p) (key_rgb (co_key opts))
      (channel_distance (px_rgb p) (key_rgb (co_key opts)))" and "8 < px_alpha p"
  shows "key_pixel opts p = p"
proof -
  have m: "matte_alpha opts (key_rgb (co_key opts)) (px_rgb p) = 255"
    using assms(1) by (simp add: matte_alpha_def)
  have "u8_or_max ((unat (255 :: u8) * unat (px_alpha p) + 127) div 255) = px_alpha p"
    using scaled_alpha_255 [of "px_alpha p"] unfolding scaled_alpha_def .
  with assms m show ?thesis by (auto simp: key_pixel_def Let_def)
qed

text \<open>C32. Background removal only removes: no pixel gains opacity and no channel of a pixel grows.
  A pixel of the key colour becomes the transparent black pixel whatever its opacity, a pixel
  that is not like the key and is not almost transparent is left exactly as it was, and no
  pixel keeps an opacity between 1 and 8.\<close>

theorem keying_only_removes:
  assumes "pixel_ok p"
  shows "px_alpha (key_pixel opts p) \<le> px_alpha p
    \<and> list_all2 (\<le>) (px_rgb (key_pixel opts p)) (px_rgb p)
    \<and> (px_rgb p = key_rgb (co_key opts) \<longrightarrow> key_pixel opts p = \<lparr>px_rgb = [0, 0, 0], px_alpha = 0\<rparr>)
    \<and> (\<not> looks_key_colored (px_rgb p) (key_rgb (co_key opts))
           (channel_distance (px_rgb p) (key_rgb (co_key opts))) \<and> 8 < px_alpha p \<longrightarrow>
         key_pixel opts p = p)
    \<and> (px_alpha (key_pixel opts p) = 0 \<or> 8 < px_alpha (key_pixel opts p))"
proof -
  let ?key = "key_rgb (co_key opts)" and ?rgb = "px_rgb p"
  have len: "length ?rgb = 3" using assms by (simp add: pixel_ok_def)
  have alpha: "px_alpha (key_pixel opts p) \<le> px_alpha p"
    by (simp add: key_pixel_alpha Let_def scaled_alpha_le)
  have channels: "list_all2 (\<le>) (px_rgb (key_pixel opts p)) ?rgb"
    using len cleanup_spill_le [OF len length_key_rgb]
    by (auto simp: list_all2_conv_all_nth key_pixel_def Let_def less_Suc_eq numeral_3_eq_3 cleanup_spill_def)
  have "px_alpha (key_pixel opts p) = 0 \<or> 8 < px_alpha (key_pixel opts p)"
    by (auto simp: key_pixel_alpha Let_def not_le)
  with alpha channels show ?thesis using key_pixel_key key_pixel_other by blast
qed

theorem keying_only_removes_witness:
  "key_pixel default_chroma_options \<lparr>px_rgb = [0, 255, 0], px_alpha = 255\<rparr> =
     \<lparr>px_rgb = [0, 0, 0], px_alpha = 0\<rparr>"
  using keying_only_removes [of "\<lparr>px_rgb = [0, 255, 0], px_alpha = 255\<rparr>" default_chroma_options]
  by (simp add: pixel_ok_def default_chroma_options_def key_rgb_def)

section \<open>Verified results\<close>

lemma count_partition:
  "length (filter (P \<circ> px_alpha) ps) + length (filter (\<lambda>p. \<not> P (px_alpha p)) ps) = length ps"
  using sum_length_filter_compl [of "P \<circ> px_alpha" ps] by simp

definition visible_pixels :: "rgba_image \<Rightarrow> nat" where
  "visible_pixels img = length (filter (\<lambda>p. px_alpha p \<noteq> 0) (ri_pixels img))"

definition transparent_pixels :: "rgba_image \<Rightarrow> nat" where
  "transparent_pixels img = length (filter (\<lambda>p. px_alpha p = 0) (ri_pixels img))"

lemma visible_split:
  "visible_pixels img = length (filter (\<lambda>p. px_alpha p = 255) (ri_pixels img))
     + length (filter (\<lambda>p. px_alpha p \<noteq> 0 \<and> px_alpha p \<noteq> 255) (ri_pixels img))"
proof -
  have "length (filter (\<lambda>p. px_alpha p \<noteq> 0) ps) = length (filter (\<lambda>p. px_alpha p = 255) ps)
     + length (filter (\<lambda>p. px_alpha p \<noteq> 0 \<and> px_alpha p \<noteq> 255) ps)" for ps
    by (induction ps) auto
  then show ?thesis by (simp add: visible_pixels_def)
qed

definition image_ok :: "rgba_image \<Rightarrow> bool" where
  "image_ok img = (length (ri_pixels img) = unat (ri_width img) * unat (ri_height img))"

lemma unat_total_pixels:
  "unat (as_total_pixels (summarize_alpha img)) = unat (ri_width img) * unat (ri_height img)"
  by (simp add: summarize_alpha_def product_no_overflow)

lemma image_pixels_u64: "image_ok img \<Longrightarrow> length (ri_pixels img) < 2 ^ 64"
proof -
  assume "image_ok img"
  then have "length (ri_pixels img) = unat (as_total_pixels (summarize_alpha img))"
    by (simp add: image_ok_def unat_total_pixels)
  then show ?thesis using unsigned_less [of "as_total_pixels (summarize_alpha img)", where 'a = nat] by simp
qed

lemma unat_count_pixels:
  assumes "image_ok img"
  shows "unat (count_pixels P img) = length (filter (P \<circ> px_alpha) (ri_pixels img))"
proof -
  have "length (filter (P \<circ> px_alpha) (ri_pixels img)) < 2 ^ 64"
    using image_pixels_u64 [OF assms] length_filter_le le_less_trans by blast
  then show ?thesis by (simp add: count_pixels_def unat_of_nat take_bit_nat_eq_self)
qed

lemma validated_regions:
  assumes "image_ok img" "validate_alpha (summarize_alpha img) corner = Inr ()"
  shows "max 1 (length (ri_pixels img) div 1000) \<le> transparent_pixels img
    \<and> max 1 (length (ri_pixels img) div 1000) \<le> visible_pixels img
    \<and> transparent_pixels img + visible_pixels img = length (ri_pixels img)"
proof -
  let ?s = "summarize_alpha img"
  have total: "unat (as_total_pixels ?s) = length (ri_pixels img)"
    using assms(1) by (simp add: unat_total_pixels image_ok_def)
  have region: "unat (max 1 (as_total_pixels ?s div 1000)) = max 1 (length (ri_pixels img) div 1000)"
    by (simp add: max_def word_le_nat_alt unat_div total)
  have t: "unat (as_transparent_pixels ?s) = transparent_pixels img"
    using assms(1) by (simp add: summarize_alpha_def unat_count_pixels transparent_pixels_def comp_def)
  have split: "transparent_pixels img + visible_pixels img = length (ri_pixels img)"
    using sum_length_filter_compl [of "\<lambda>p. px_alpha p = 0" "ri_pixels img"]
    by (simp add: transparent_pixels_def visible_pixels_def)
  have parts: "unat (as_opaque_pixels ?s) + unat (as_partial_pixels ?s) = visible_pixels img"
    using assms(1) by (simp add: summarize_alpha_def unat_count_pixels visible_split comp_def)
  have "visible_pixels img < 2 ^ 64" using split image_pixels_u64 [OF assms(1)] by simp
  with parts have v: "unat (as_opaque_pixels ?s + as_partial_pixels ?s) = visible_pixels img"
    by (simp add: unat_word_ariths)
  from assms(2) have "max 1 (as_total_pixels ?s div 1000) \<le> as_transparent_pixels ?s"
    "max 1 (as_total_pixels ?s div 1000) \<le> as_opaque_pixels ?s + as_partial_pixels ?s"
    unfolding validate_alpha_def Let_def by (auto simp only: not_less split: if_splits)
  then show ?thesis using region t v split unfolding word_le_nat_alt by simp
qed

definition transparent_corners :: "rgba_image \<Rightarrow> nat" where
  "transparent_corners img =
     length (filter (\<lambda>(x, y). px_alpha (get_pixel img x y) = 0) (corners img))"

lemma validated_corners:
  "validate_alpha (summarize_alpha img) True = Inr () \<Longrightarrow> 2 \<le> transparent_corners img"
proof -
  have "transparent_corners img \<le> length (corners img)" by (simp add: transparent_corners_def)
  then have "transparent_corners img < 256" by (simp add: corners_def Let_def)
  then have "unat (as_transparent_corners (summarize_alpha img)) = transparent_corners img"
    by (simp add: summarize_alpha_def transparent_corners_def unat_of_nat take_bit_nat_eq_self)
  moreover assume "validate_alpha (summarize_alpha img) True = Inr ()"
  then have "2 \<le> as_transparent_corners (summarize_alpha img)"
    unfolding validate_alpha_def Let_def by (auto simp only: not_less split: if_splits)
  ultimately show ?thesis by (simp add: word_le_nat_alt)
qed

lemma remove_chroma_key_Inr:
  assumes "remove_chroma_key pc bytes fmt opts limits = Inr r"
  obtains img keyed where
    "fmt \<noteq> Output_Format_Jpeg" "co_transparent_threshold opts < co_opaque_threshold opts"
    "decode_rgba pc bytes limits ''image could not be decoded for background removal'' = Inr img"
    "keyed = img\<lparr>ri_pixels := map (key_pixel opts) (ri_pixels img)\<rparr>"
    "ck_alpha r = summarize_alpha keyed" "validate_alpha (summarize_alpha keyed) True = Inr ()"
    "cd_encode pc fmt keyed = Some (ck_bytes r)"
    "inspect_image (codec.truncate pc) (ck_bytes r) limits = Inr (ck_metadata r)"
  using assms
  by (auto simp: remove_chroma_key_def result_simps chroma_options_validate_def Let_def split: if_splits)

text \<open>A decoded image has as many pixels as its dimensions say.\<close>

definition faithful_decoder :: "pixel_codec \<Rightarrow> bool" where
  "faithful_decoder pc \<longleftrightarrow> (\<forall>f edge alloc b img. cd_rgba pc f edge alloc b = Some img \<longrightarrow> image_ok img)"

text \<open>C31. A background is reported as removed only when the result really has a transparent and a
  visible part, each of at least one pixel and a thousandth of the image, and two transparent
  corners, in a format with an alpha channel; the returned bytes are the encoding of the keyed
  pixels and have been verified like any other image, and the reported counters add up to the
  whole image. This rests on the decoder returning as many pixels as its dimensions say.\<close>

theorem removed_background_verified:
  assumes "faithful_decoder pc"
    and "remove_chroma_key pc bytes fmt opts limits = Inr r"
  shows "\<exists>img keyed. decode_rgba pc bytes limits ''image could not be decoded for background removal'' = Inr img
    \<and> keyed = img\<lparr>ri_pixels := map (key_pixel opts) (ri_pixels img)\<rparr>
    \<and> fmt \<noteq> Output_Format_Jpeg \<and> cd_encode pc fmt keyed = Some (ck_bytes r)
    \<and> inspect_image (codec.truncate pc) (ck_bytes r) limits = Inr (ck_metadata r)
    \<and> max 1 (length (ri_pixels img) div 1000) \<le> transparent_pixels keyed
    \<and> max 1 (length (ri_pixels img) div 1000) \<le> visible_pixels keyed
    \<and> 2 \<le> transparent_corners keyed
    \<and> unat (as_transparent_pixels (ck_alpha r)) + unat (as_partial_pixels (ck_alpha r))
        + unat (as_opaque_pixels (ck_alpha r)) = unat (as_total_pixels (ck_alpha r))"
proof -
  from assms(2) obtain img keyed where run: "fmt \<noteq> Output_Format_Jpeg"
    "decode_rgba pc bytes limits ''image could not be decoded for background removal'' = Inr img"
    and keyed: "keyed = img\<lparr>ri_pixels := map (key_pixel opts) (ri_pixels img)\<rparr>"
    and alpha: "ck_alpha r = summarize_alpha keyed" "validate_alpha (summarize_alpha keyed) True = Inr ()"
    and out: "cd_encode pc fmt keyed = Some (ck_bytes r)"
      "inspect_image (codec.truncate pc) (ck_bytes r) limits = Inr (ck_metadata r)"
    by (rule remove_chroma_key_Inr)
  from run(2) have "image_ok img" by (auto simp: decode_rgba_def result_simps intro: assms(1) [unfolded faithful_decoder_def, rule_format])
  then have ok: "image_ok keyed" and len: "length (ri_pixels keyed) = length (ri_pixels img)"
    by (simp_all add: keyed image_ok_def)
  have "unat (as_transparent_pixels (ck_alpha r)) + unat (as_partial_pixels (ck_alpha r))
        + unat (as_opaque_pixels (ck_alpha r)) = transparent_pixels keyed + visible_pixels keyed"
    using ok by (simp add: alpha(1) summarize_alpha_def unat_count_pixels visible_split
        transparent_pixels_def comp_def)
  also have "\<dots> = unat (as_total_pixels (ck_alpha r))"
    using validated_regions [OF ok alpha(2)] ok by (simp add: alpha(1) unat_total_pixels image_ok_def)
  finally show ?thesis
    using run keyed out validated_regions [OF ok alpha(2)] validated_corners [OF alpha(2)] len
    by (intro exI [of _ img] exI [of _ keyed]) simp
qed

text \<open>A picture of one green row over one red row.\<close>

definition tiny_rgba :: rgba_image where
  "tiny_rgba = \<lparr>ri_width = 3, ri_height = 2,
     ri_pixels =
       [\<lparr>px_rgb = [0, 255, 0], px_alpha = 255\<rparr>, \<lparr>px_rgb = [0, 255, 0], px_alpha = 255\<rparr>,
        \<lparr>px_rgb = [0, 255, 0], px_alpha = 255\<rparr>, \<lparr>px_rgb = [220, 30, 20], px_alpha = 255\<rparr>,
        \<lparr>px_rgb = [220, 30, 20], px_alpha = 255\<rparr>, \<lparr>px_rgb = [220, 30, 20], px_alpha = 255\<rparr>]\<rparr>"

definition tiny_pixel_codec :: pixel_codec where
  "tiny_pixel_codec = codec.extend tiny_codec
     \<lparr>cd_rgba = (\<lambda>_ _ _ _. Some tiny_rgba), cd_encode = (\<lambda>_ _. Some ''keyed'')\<rparr>"

lemma tiny_pixel_codec_fields:
  "cd_rgba tiny_pixel_codec f e a b = Some tiny_rgba" "cd_encode tiny_pixel_codec f img = Some ''keyed''"
  by (simp_all add: tiny_pixel_codec_def codec.defs)

lemma default_chroma_options_valid: "chroma_options_validate default_chroma_options = Inr ()"
  by (simp add: chroma_options_validate_def default_chroma_options_def)

lemma tiny_truncate: "codec.truncate tiny_pixel_codec = tiny_codec"
  by (simp add: tiny_pixel_codec_def codec.defs tiny_codec_def)

lemma inspect_tiny: "length b < 100 \<Longrightarrow> b \<noteq> [] \<Longrightarrow> \<exists>m. inspect_image tiny_codec b default_image_limits = Inr m"
  by (simp add: inspect_image_def probe_image_def tiny_codec_def u32_try_from_def image_type_format_def
      default_image_limits_def word_le_nat_alt word_less_nat_alt)

lemma tiny_pixels:
  "key_pixel default_chroma_options \<lparr>px_rgb = [0, 255, 0], px_alpha = 255\<rparr> = \<lparr>px_rgb = [0, 0, 0], px_alpha = 0\<rparr>"
  "key_pixel default_chroma_options \<lparr>px_rgb = [220, 30, 20], px_alpha = 255\<rparr> =
     \<lparr>px_rgb = [220, 30, 20], px_alpha = 255\<rparr>"
  by (rule key_pixel_key, simp add: default_chroma_options_def key_rgb_def)
    (rule key_pixel_other, simp_all add: default_chroma_options_def key_rgb_def looks_key_colored_def
      channel_distance_def max_or_zero_def abs_diff_def key_dominance_def spill_channels_def sat_sub_def
      non_key_strength_def selected_def min_or_zero_def)

lemma tiny_validated:
  "validate_alpha (summarize_alpha (tiny_rgba\<lparr>ri_pixels := map (key_pixel default_chroma_options)
     (ri_pixels tiny_rgba)\<rparr>)) True = Inr ()"
  by (simp add: tiny_rgba_def tiny_pixels summarize_alpha_def validate_alpha_def count_pixels_def
      corners_def get_pixel_def Let_def sat_sub_def)

lemma remove_tiny:
  "\<exists>r. remove_chroma_key tiny_pixel_codec ''png'' Output_Format_Png default_chroma_options
     default_image_limits = Inr r"
proof -
  obtain m where "inspect_image tiny_codec ''png'' default_image_limits = Inr m"
    using inspect_tiny [of "''png''"] by auto
  moreover obtain m' where "inspect_image tiny_codec ''keyed'' default_image_limits = Inr m'"
    using inspect_tiny [of "''keyed''"] by auto
  ultimately show ?thesis
    using tiny_validated
    by (simp add: remove_chroma_key_def decode_rgba_def tiny_truncate Let_def default_chroma_options_valid
        tiny_pixel_codec_fields)
qed

theorem removed_background_verified_witness:
  "\<exists>r. remove_chroma_key tiny_pixel_codec ''png'' Output_Format_Png default_chroma_options
     default_image_limits = Inr r
   \<and> unat (as_transparent_pixels (ck_alpha r)) + unat (as_partial_pixels (ck_alpha r))
        + unat (as_opaque_pixels (ck_alpha r)) = unat (as_total_pixels (ck_alpha r))"
proof -
  obtain r where r: "remove_chroma_key tiny_pixel_codec ''png'' Output_Format_Png default_chroma_options
     default_image_limits = Inr r" using remove_tiny by blast
  have "faithful_decoder tiny_pixel_codec"
    by (simp add: faithful_decoder_def tiny_pixel_codec_fields image_ok_def tiny_rgba_def)
  from removed_background_verified [OF this r]
  have "unat (as_transparent_pixels (ck_alpha r)) + unat (as_partial_pixels (ck_alpha r))
    + unat (as_opaque_pixels (ck_alpha r)) = unat (as_total_pixels (ck_alpha r))"
    by (elim exE conjE)
  with r show ?thesis by blast
qed

end
