(* ===== verification/Transparency.thy ===== *)
theory Transparency
  imports Chroma Negotiation Validation Codex_Capabilities
begin

text \<open>
  \<open>crates/runtime/src/transparency.rs\<close>: how a request for a transparent background is prepared
  for a provider, natively or as a generation on a key colour that is removed afterwards.
\<close>

section \<open>The choice of the key\<close>

text \<open>\<open>Iterator::min_by_key\<close> returns the first of several minimal elements.\<close>

fun min_by_key :: "('a \<Rightarrow> nat) \<Rightarrow> 'a list \<Rightarrow> 'a option" where
  "min_by_key f [] = None"
| "min_by_key f (x # xs) =
     (case min_by_key f xs of None \<Rightarrow> Some x | Some y \<Rightarrow> if f x \<le> f y then Some x else Some y)"

definition key_candidates :: "(chroma_key \<times> string list) list" where
  "key_candidates =
     [(Chroma_Key 0 255 0, [''green'', ''verde'', ''lime'', ''emerald'', ''smeraldo'', ''forest'']),
      (Chroma_Key 255 0 255, [''magenta'', ''pink'', ''rosa'', ''purple'', ''viola'', ''fuchsia'']),
      (Chroma_Key 0 0 255, [''blue'', ''blu'', ''azzurro'', ''cyan'', ''cobalt'', ''navy''])]"

definition word_matches :: "string \<Rightarrow> string list \<Rightarrow> nat" where
  "word_matches prompt words = sum_list (map (\<lambda>w. count_matches_from 0 w prompt) words)"

definition select_key :: "string \<Rightarrow> chroma_key" where
  "select_key prompt0 =
     (let prompt = to_ascii_lowercase prompt0 in
      case min_by_key (\<lambda>(_, words). word_matches prompt words) key_candidates of
        None \<Rightarrow> Chroma_Key 0 255 0
      | Some (key, _) \<Rightarrow> key)"

section \<open>Preparation\<close>

record prepared_transparency =
  pt_provider_request :: image_request
  pt_plan :: "chroma_options option"
  pt_normalizations :: "normalization list"

definition unsupported_transparency ::
  "provider_capabilities \<Rightarrow> string \<Rightarrow> string \<Rightarrow> bridge_error" where
  "unsupported_transparency c field message =
     with_detail ''field'' (JStr field)
       (with_provider (pc_provider c) (error_new UnsupportedCapability message))"

definition effective_mode :: "transparency_mode \<Rightarrow> bool \<Rightarrow> transparency_mode" where
  "effective_mode requested native =
     (case requested of
        Transparency_Mode_Auto \<Rightarrow> if native then Transparency_Mode_Native else Transparency_Mode_ChromaKey
      | explicit \<Rightarrow> explicit)"

definition effective_background :: "provider_capabilities \<Rightarrow> background result" where
  "effective_background c =
     (if btree_contains (pc_backgrounds c) Background_Auto then Inr Background_Auto
      else if btree_contains (pc_backgrounds c) Background_Opaque then Inr Background_Opaque
      else Inl (unsupported_transparency c ''parameters.background''
             ''selected provider/model cannot generate a chroma-key background''))"

definition newlines2 :: string where
  "newlines2 = [CHR 0x0A, CHR 0x0A]"

definition key_instruction :: "string \<Rightarrow> string" where
  "key_instruction key =
     newlines2 @ ''TRANSPARENT BACKGROUND WORKFLOW: Render the complete subject isolated on a perfectly flat, uniform solid ''
     @ key @ '' background. The background must contain only that exact color: no gradient, texture, pattern, horizon, environment, floor, cast shadow, glow, reflection, or extra objects. Keep every part of the subject away from the image edges and preserve clean antialiased contours. Do not use ''
     @ key @ '' anywhere in the subject.''"

definition requested_key :: "image_request \<Rightarrow> chroma_key result" where
  "requested_key r =
     (case tr_key_color (out_transparency (req_output r)) of
        None \<Rightarrow> Inr (select_key (req_prompt r))
      | Some text \<Rightarrow> chroma_parse text)"

text \<open>JPEG has no alpha channel: the request is refused, or moved to PNG without compression.\<close>

definition alpha_format ::
  "provider_capabilities \<Rightarrow> image_request \<times> normalization list \<Rightarrow> (image_request \<times> normalization list) result"
where
  "alpha_format c st = (case st of (r, ns) \<Rightarrow>
     if gp_output_format (req_parameters r) \<noteq> Output_Format_Jpeg then Inr (r, ns)
     else if strict r
     then Inl (unsupported_transparency c ''parameters.output_format''
            ''transparent output cannot be encoded as JPEG'')
     else Inr (upd_params (\<lambda>p. p\<lparr>gp_output_format := Output_Format_Png, gp_output_compression := None\<rparr>) r,
               ns @ [\<lparr>nz_field = ''parameters.output_format'',
                      nz_requested = Some (JStr (output_format_wire Output_Format_Jpeg)),
                      nz_effective = Some (JStr (output_format_wire Output_Format_Png)),
                      nz_reason = ''transparent_output_requires_alpha_capable_format''\<rparr>]))"

definition chroma_plan :: "image_request \<Rightarrow> chroma_key \<Rightarrow> chroma_options" where
  "chroma_plan r key =
     (let t = out_transparency (req_output r) in
      \<lparr>co_key = key, co_transparent_threshold = tr_transparent_threshold t,
       co_opaque_threshold = tr_opaque_threshold t, co_despill = tr_despill t\<rparr>)"

definition mode_normalization :: "transparency_mode \<Rightarrow> transparency_mode \<Rightarrow> normalization" where
  "mode_normalization requested mode =
     \<lparr>nz_field = ''output.transparency.mode'',
      nz_requested = Some (JStr (transparency_mode_wire requested)),
      nz_effective = Some (JStr (transparency_mode_wire mode)),
      nz_reason = (if mode = Transparency_Mode_Native then ''provider_supports_native_alpha''
                   else ''provider_alpha_emulated_with_local_chroma_key'')\<rparr>"

definition key_normalizations :: "image_request \<Rightarrow> chroma_key \<Rightarrow> normalization list" where
  "key_normalizations r key =
     (let color = tr_key_color (out_transparency (req_output r)) in
      [\<lparr>nz_field = ''parameters.background'',
        nz_requested = Some (JStr (background_wire Background_Transparent)),
        nz_effective = Some (JStr (background_wire Background_Transparent)),
        nz_reason = ''transparent_result_via_chroma_key_postprocessing''\<rparr>,
       \<lparr>nz_field = ''output.transparency.key_color'', nz_requested = map_option JStr color,
        nz_effective = Some (JStr (chroma_hex key)),
        nz_reason = (if color \<noteq> None then ''explicit_chroma_key''
                     else ''prompt_aware_chroma_key_selection'')\<rparr>])"

definition prepare_transparency ::
  "image_request \<Rightarrow> provider_capabilities \<Rightarrow> prepared_transparency result" where
  "prepare_transparency r c =
     (let requested = tr_mode (out_transparency (req_output r));
          native = (pc_transparent_background c = Support_Native) in
      if gp_background (req_parameters r) \<noteq> Background_Transparent
      then Inr \<lparr>pt_provider_request = r, pt_plan = None, pt_normalizations = []\<rparr>
      else if requested = Transparency_Mode_Auto \<and> pc_transparent_background c = Support_Unsupported
      then Inl (unsupported_transparency c ''parameters.background''
             ''selected provider/model does not support transparent output'')
      else
        let mode = effective_mode requested native; ns = [mode_normalization requested mode] in
        if mode = Transparency_Mode_Native then
          (if \<not> native
           then Inl (with_detail ''requested'' (JStr ''native'')
                  (unsupported_transparency c ''output.transparency.mode''
                    ''selected provider/model does not support native transparent output''))
           else Inr \<lparr>pt_provider_request = r, pt_plan = None, pt_normalizations = ns\<rparr>)
        else
          and_then (alpha_format c (r, ns)) (\<lambda>(r', ns').
          and_then (requested_key r) (\<lambda>key.
          and_then (effective_background c) (\<lambda>background.
            Inr \<lparr>pt_provider_request =
                   (upd_params (\<lambda>p. p\<lparr>gp_background := background\<rparr>) r')
                     \<lparr>req_prompt := req_prompt r @ key_instruction (chroma_hex key)\<rparr>,
                 pt_plan = Some (chroma_plan r key),
                 pt_normalizations = ns' @ key_normalizations r key\<rparr>))))"

section \<open>Properties\<close>

lemma alpha_format_Inr:
  "alpha_format c (r, ns) = Inr (r', ns') \<Longrightarrow>
     gp_output_format (req_parameters r) \<noteq> Output_Format_Jpeg \<and> r' = r
     \<or> gp_output_format (req_parameters r) = Output_Format_Jpeg \<and> \<not> strict r
       \<and> r' = upd_params (\<lambda>p. p\<lparr>gp_output_format := Output_Format_Png, gp_output_compression := None\<rparr>) r"
  by (auto simp: alpha_format_def split: if_splits)

lemma prepare_chroma_Inr:
  assumes "prepare_transparency r c = Inr p" "pt_plan p = Some opts"
  obtains r' ns' key background where
    "gp_background (req_parameters r) = Background_Transparent"
    "alpha_format c (r, [mode_normalization (tr_mode (out_transparency (req_output r)))
        Transparency_Mode_ChromaKey]) = Inr (r', ns')"
    "requested_key r = Inr key" "effective_background c = Inr background"
    "pt_provider_request p = (upd_params (\<lambda>p. p\<lparr>gp_background := background\<rparr>) r')
       \<lparr>req_prompt := req_prompt r @ key_instruction (chroma_hex key)\<rparr>"
    "opts = chroma_plan r key"
proof -
  have mode: "effective_mode m n \<noteq> Transparency_Mode_Native \<Longrightarrow>
      effective_mode m n = Transparency_Mode_ChromaKey" for m n
    by (cases m) (auto simp: effective_mode_def)
  from assms that show ?thesis
    by (auto simp: prepare_transparency_def Let_def result_simps mode split: if_splits)
qed

lemma effective_background_Inr:
  "effective_background c = Inr b \<Longrightarrow>
     b \<in> set (pc_backgrounds c) \<and> (b = Background_Auto \<or> b = Background_Opaque)"
  by (auto simp: effective_background_def split: if_splits)

lemma well_formed_transparency:
  "well_formed_request r limits \<Longrightarrow> transparency_ok (out_transparency (req_output r))"
  by (simp add: well_formed_request_def)

lemma valid_color_parses: "valid_hex_color text \<Longrightarrow> \<exists>key. chroma_parse text = Inr key"
proof -
  assume "valid_hex_color text"
  then obtain v where v: "(case strip_prefix ''#'' text of None \<Rightarrow> text | Some rest \<Rightarrow> rest) = v"
    "length v = 6" "list_all is_ascii_hexdigit v" by (simp add: valid_hex_color_def Let_def)
  then have "is_ascii_hexdigit (v ! i)" if "i < 6" for i using that by (simp add: list_all_length)
  with v show ?thesis by (simp add: chroma_parse_def hex_channel_def)
qed

text \<open>What the chroma workflow hands to the provider, and what it changes.\<close>

definition keyed_request :: "image_request \<Rightarrow> provider_capabilities \<Rightarrow> chroma_options \<Rightarrow> image_request \<Rightarrow> bool" where
  "keyed_request r c opts q \<longleftrightarrow>
     gp_background (req_parameters q) \<in> set (pc_backgrounds c)
     \<and> (gp_background (req_parameters q) = Background_Auto \<or> gp_background (req_parameters q) = Background_Opaque)
     \<and> gp_output_format (req_parameters q) \<noteq> Output_Format_Jpeg
     \<and> (gp_output_format (req_parameters r) \<noteq> Output_Format_Jpeg \<longrightarrow>
          gp_output_format (req_parameters q) = gp_output_format (req_parameters r)
          \<and> gp_output_compression (req_parameters q) = gp_output_compression (req_parameters r))
     \<and> req_prompt q = req_prompt r @ key_instruction (chroma_hex (co_key opts))
     \<and> (upd_params (\<lambda>p. p\<lparr>gp_background := gp_background (req_parameters r),
           gp_output_format := gp_output_format (req_parameters r),
           gp_output_compression := gp_output_compression (req_parameters r)\<rparr>) q)
         \<lparr>req_prompt := req_prompt r\<rparr> = r"

lemma prepare_keyed:
  assumes "prepare_transparency r c = Inr p" "pt_plan p = Some opts"
  shows "keyed_request r c opts (pt_provider_request p)"
proof -
  from assms obtain r' ns' key background where run:
    "alpha_format c (r, [mode_normalization (tr_mode (out_transparency (req_output r)))
        Transparency_Mode_ChromaKey]) = Inr (r', ns')"
    "effective_background c = Inr background"
    "pt_provider_request p = (upd_params (\<lambda>p. p\<lparr>gp_background := background\<rparr>) r')
       \<lparr>req_prompt := req_prompt r @ key_instruction (chroma_hex key)\<rparr>"
    "opts = chroma_plan r key"
    by (rule prepare_chroma_Inr)
  from alpha_format_Inr [OF run(1)] effective_background_Inr [OF run(2)] show ?thesis
    by (elim disjE conjE) (simp_all add: keyed_request_def upd_params_def chroma_plan_def run(3,4) Let_def)
qed

lemma requested_key_valid:
  "transparency_ok (out_transparency (req_output r)) \<Longrightarrow> \<exists>key. requested_key r = Inr key"
  by (cases "tr_key_color (out_transparency (req_output r))")
    (auto simp: requested_key_def transparency_ok_def dest: valid_color_parses)

lemma chroma_plan_valid:
  "transparency_ok (out_transparency (req_output r)) \<Longrightarrow> chroma_options_validate (chroma_plan r key) = Inr ()"
  by (simp add: chroma_options_validate_def chroma_plan_def transparency_ok_def Let_def)

lemma prepare_error:
  assumes "transparency_ok (out_transparency (req_output r))" "prepare_transparency r c = Inl e"
  shows "unsupported_by c e"
proof -
  obtain key where "requested_key r = Inr key" using requested_key_valid [OF assms(1)] by blast
  with assms(2) show ?thesis
    by (auto simp: prepare_transparency_def Let_def result_simps alpha_format_def effective_background_def
        unsupported_transparency_def unsupported_by_def split: if_splits)
qed

lemma prepare_plain:
  assumes "prepare_transparency r c = Inr p" "pt_plan p = None"
  shows "pt_provider_request p = r
    \<and> (gp_background (req_parameters r) = Background_Transparent \<longrightarrow> pc_transparent_background c = Support_Native)"
  using assms by (auto simp: prepare_transparency_def Let_def result_simps split: if_splits)

lemma prepare_emulated:
  assumes "transparency_ok (out_transparency (req_output r))" "capabilities_validate c = Inr ()"
    and "pc_transparent_background c = Support_Emulated"
    and "gp_background (req_parameters r) = Background_Transparent"
    and "tr_mode (out_transparency (req_output r)) \<noteq> Transparency_Mode_Native"
    and "\<not> (strict r \<and> gp_output_format (req_parameters r) = Output_Format_Jpeg)"
  shows "\<exists>p opts. prepare_transparency r c = Inr p \<and> pt_plan p = Some opts"
proof -
  obtain key where key: "requested_key r = Inr key" using requested_key_valid [OF assms(1)] by blast
  have "is_ok (effective_background c)"
    using capabilities_validate_transparency(2) [OF assms(2,3)] by (auto simp: effective_background_def)
  then obtain background where b: "effective_background c = Inr background" by (auto simp: is_ok_iff)
  have f: "\<exists>r' ns'. alpha_format c (r, ns) = Inr (r', ns')" for ns
    using assms(6) by (auto simp: alpha_format_def)
  have "effective_mode (tr_mode (out_transparency (req_output r))) False = Transparency_Mode_ChromaKey"
    using assms(5) by (cases "tr_mode (out_transparency (req_output r))") (simp_all add: effective_mode_def)
  moreover obtain r' ns' where "alpha_format c (r, [mode_normalization (tr_mode (out_transparency (req_output r)))
      Transparency_Mode_ChromaKey]) = Inr (r', ns')" using f by blast
  ultimately show ?thesis using assms(3,4,5) key b by (simp add: prepare_transparency_def Let_def)
qed

text \<open>For a valid request and a consistent provider, preparation of a transparent background
  fails only as an unsupported capability of that provider. When no key is planned the request is
  passed on unchanged, and a transparent background only to a provider that draws it natively.
  When one is planned, its options are accepted by the removal, the provider is asked for a
  background it declares, automatic or opaque, in a format with an alpha channel, the prompt
  names exactly the key that will be removed, and nothing else of the request is changed. A
  provider that emulates transparency always gets a plan, unless the request is for strict JPEG
  or native alpha.\<close>

lemma transparent_request_prepared:
  assumes "validate_request r limits = Inr ()" and "capabilities_validate c = Inr ()"
  shows "(case prepare_transparency r c of
      Inl e \<Rightarrow> unsupported_by c e
    | Inr p \<Rightarrow> (case pt_plan p of
        None \<Rightarrow> pt_provider_request p = r
          \<and> (gp_background (req_parameters r) = Background_Transparent \<longrightarrow>
               Background_Transparent \<in> set (pc_backgrounds c))
      | Some opts \<Rightarrow> chroma_options_validate opts = Inr () \<and> keyed_request r c opts (pt_provider_request p)))
    \<and> (gp_background (req_parameters r) = Background_Transparent
       \<and> pc_transparent_background c = Support_Emulated
       \<and> tr_mode (out_transparency (req_output r)) \<noteq> Transparency_Mode_Native
       \<and> \<not> (strict r \<and> gp_output_format (req_parameters r) = Output_Format_Jpeg) \<longrightarrow>
         (\<exists>p opts. prepare_transparency r c = Inr p \<and> pt_plan p = Some opts))"
proof -
  have ok: "transparency_ok (out_transparency (req_output r))"
    using assms(1) by (simp add: validate_request_Inr_iff well_formed_transparency)
  have "case prepare_transparency r c of
      Inl e \<Rightarrow> unsupported_by c e
    | Inr p \<Rightarrow> (case pt_plan p of
        None \<Rightarrow> pt_provider_request p = r
          \<and> (gp_background (req_parameters r) = Background_Transparent \<longrightarrow>
               Background_Transparent \<in> set (pc_backgrounds c))
      | Some opts \<Rightarrow> chroma_options_validate opts = Inr () \<and> keyed_request r c opts (pt_provider_request p))"
    using prepare_error [OF ok] prepare_plain prepare_keyed chroma_plan_valid [OF ok]
      capabilities_validate_transparency(1) [OF assms(2)] prepare_chroma_Inr
    by (auto split: sum.split option.split) metis+
  then show ?thesis using prepare_emulated [OF ok assms(2)] by blast
qed

definition transparent_request :: image_request where
  "transparent_request =
     upd_params (\<lambda>p. p\<lparr>gp_background := Background_Transparent\<rparr>) (request_generate ''a green fox'')"

lemma transparent_request_prepared_witness:
  "\<exists>p opts. prepare_transparency transparent_request app_server_capabilities = Inr p \<and> pt_plan p = Some opts"
proof -
  have "validate_request transparent_request default_request_limits = Inr ()"
    unfolding validate_request_Inr_iff
    by (simp add: transparent_request_def upd_params_def well_formed_defs request_defaults)
  from transparent_request_prepared [OF this app_server_capabilities_valid] show ?thesis
    by (simp add: transparent_request_def upd_params_def request_defaults app_server_capabilities_simps
        strict_def)
qed

end
