(* ===== verification/Admission.thy ===== *)
theory Admission
  imports Errors
begin

text \<open>
  \<open>crates/runtime/src/admission.rs\<close>: a concurrency gate, a semaphore with a counted and bounded
  waiting room. The semaphore of tokio is its number of free permits and its closed flag;
  every atomic access of the source is one operation. A caller of \<open>acquire\<close> passes through the
  phases of its code, and the step relation interleaves any number of callers; a dropped
  future gives up from any phase. The abstract pool at the end states what the gate promises.
\<close>

section \<open>The gate and its atomic operations\<close>

record gate =
  ag_permits :: nat
  ag_closed :: bool
  ag_queued :: usize
  ag_max_queued :: usize
  ag_label :: string

definition semaphore_max_permits :: nat where
  "semaphore_max_permits = usize_max div 8"

definition gate_permits :: "usize \<Rightarrow> nat" where
  "gate_permits max_concurrent =
     (if max_concurrent = usize_max then semaphore_max_permits else max_concurrent)"

text \<open>\<open>Semaphore::new\<close> panics beyond its maximum.\<close>

definition gate_new :: "usize \<Rightarrow> usize \<Rightarrow> string \<Rightarrow> failure + gate" where
  "gate_new max_concurrent max_queued label =
     (if max_concurrent = 0
      then Inl (Failed (error_new Configuration ''concurrency limits must be greater than zero''))
      else if semaphore_max_permits < gate_permits max_concurrent then Inl Panicked
      else Inr \<lparr>ag_permits = gate_permits max_concurrent, ag_closed = False, ag_queued = 0,
                ag_max_queued = max_queued, ag_label = label\<rparr>)"

text \<open>\<open>Semaphore::try_acquire_owned\<close>: a permit if the semaphore is open and one is free.\<close>

definition try_acquire :: "gate \<Rightarrow> gate option" where
  "try_acquire g =
     (if ag_closed g \<or> ag_permits g = 0 then None else Some (g\<lparr>ag_permits := ag_permits g - 1\<rparr>))"

definition queue_full :: "gate \<Rightarrow> bool" where
  "queue_full g = (ag_max_queued g \<noteq> usize_max \<and> ag_max_queued g \<le> ag_queued g)"

definition queue_error :: "gate \<Rightarrow> bridge_error" where
  "queue_error g =
     with_detail ''limit'' (JStr (ag_label g))
       (retryable True (error_new Overloaded ''runtime queue capacity is exhausted''))"

text \<open>The compare-and-exchange loop of \<open>reserve_queue\<close> succeeds on the value it has checked.\<close>

definition reserve_queue :: "gate \<Rightarrow> unit result \<times> gate" where
  "reserve_queue g =
     (if queue_full g then (Inl (queue_error g), g)
      else (Inr (), g\<lparr>ag_queued := ag_queued g + 1\<rparr>))"

definition drop_reservation :: "gate \<Rightarrow> gate" where
  "drop_reservation g = g\<lparr>ag_queued := ag_queued g - 1\<rparr>"

definition release_permit :: "gate \<Rightarrow> gate" where
  "release_permit g = g\<lparr>ag_permits := ag_permits g + 1\<rparr>"

definition close_gate :: "gate \<Rightarrow> gate" where
  "close_gate g = g\<lparr>ag_closed := True\<rparr>"

definition gate_timeout :: "gate \<Rightarrow> bridge_error" where
  "gate_timeout g =
     with_detail ''limit'' (JStr (ag_label g))
       (retryable True (error_new Timeout ''request deadline elapsed while waiting for capacity''))"

definition gate_cancelled :: bridge_error where
  "gate_cancelled = error_new Cancelled ''request was cancelled while waiting for capacity''"

definition gate_shutdown :: bridge_error where
  "gate_shutdown = error_new Cancelled ''runtime is shutting down''"

section \<open>One caller\<close>

text \<open>
  Where a caller of \<open>acquire\<close> stands: the fast path failed; its place in the queue is reserved;
  its deadline had not elapsed by then and it waits; the semaphore gave it a permit while the reservation is still held; it holds the permit.
\<close>

datatype caller = Reserving | Reserved | Waiting | Granted | Holding

text \<open>What ends a wait: the semaphore answers, the operation is cancelled, the deadline elapses.\<close>

datatype wake = Wake_Semaphore | Wake_Cancelled | Wake_Deadline

datatype acquired = Next caller | Failed_Acquire bridge_error

definition acquire_first :: "gate \<Rightarrow> acquired \<times> gate" where
  "acquire_first g =
     (case try_acquire g of Some g' \<Rightarrow> (Next Holding, g') | None \<Rightarrow> (Next Reserving, g))"

definition acquire_reserve :: "gate \<Rightarrow> acquired \<times> gate" where
  "acquire_reserve g =
     (case reserve_queue g of
        (Inl e, g') \<Rightarrow> (Failed_Acquire e, g')
      | (Inr _, g') \<Rightarrow> (Next Reserved, g'))"

definition acquire_check :: "bool \<Rightarrow> gate \<Rightarrow> acquired \<times> gate" where
  "acquire_check deadline_elapsed g =
     (if deadline_elapsed then (Failed_Acquire (gate_timeout g), drop_reservation g) else (Next Waiting, g))"

text \<open>A wait goes on as long as the semaphore is open and has no permit.\<close>

definition acquire_wait :: "wake \<Rightarrow> gate \<Rightarrow> acquired \<times> gate" where
  "acquire_wait w g =
     (case w of
        Wake_Semaphore \<Rightarrow>
          if ag_closed g then (Failed_Acquire gate_shutdown, drop_reservation g)
          else (case try_acquire g of None \<Rightarrow> (Next Waiting, g) | Some g' \<Rightarrow> (Next Granted, g'))
      | Wake_Cancelled \<Rightarrow> (Failed_Acquire gate_cancelled, drop_reservation g)
      | Wake_Deadline \<Rightarrow> (Failed_Acquire (gate_timeout g), drop_reservation g))"

definition acquire_return :: "gate \<Rightarrow> acquired \<times> gate" where
  "acquire_return g = (Next Holding, drop_reservation g)"

text \<open>Dropping the future of a caller, or the permit it holds, gives back what it has.\<close>

definition give_up :: "caller \<Rightarrow> gate \<Rightarrow> gate" where
  "give_up c g =
     (case c of
        Reserving \<Rightarrow> g
      | Reserved \<Rightarrow> drop_reservation g
      | Waiting \<Rightarrow> drop_reservation g
      | Granted \<Rightarrow> release_permit (drop_reservation g)
      | Holding \<Rightarrow> release_permit g)"

section \<open>Interleaved callers\<close>

type_synonym gate_world = "gate \<times> (nat \<rightharpoonup> caller)"

text \<open>The callers are numbered; an answer moves or removes the caller.\<close>

definition settle :: "nat \<Rightarrow> acquired \<Rightarrow> (nat \<rightharpoonup> caller) \<Rightarrow> (nat \<rightharpoonup> caller)" where
  "settle i a cs = (case a of Next c \<Rightarrow> cs(i \<mapsto> c) | Failed_Acquire _ \<Rightarrow> cs(i := None))"

inductive gate_step :: "gate_world \<Rightarrow> gate_world \<Rightarrow> bool" where
  first: "cs i = None \<Longrightarrow> acquire_first g = (a, g') \<Longrightarrow> gate_step (g, cs) (g', settle i a cs)"
| reserve: "cs i = Some Reserving \<Longrightarrow> acquire_reserve g = (a, g') \<Longrightarrow> gate_step (g, cs) (g', settle i a cs)"
| check: "cs i = Some Reserved \<Longrightarrow> acquire_check late g = (a, g') \<Longrightarrow> gate_step (g, cs) (g', settle i a cs)"
| wait: "cs i = Some Waiting \<Longrightarrow> acquire_wait w g = (a, g') \<Longrightarrow> gate_step (g, cs) (g', settle i a cs)"
| return: "cs i = Some Granted \<Longrightarrow> acquire_return g = (a, g') \<Longrightarrow> gate_step (g, cs) (g', settle i a cs)"
| leave: "cs i = Some c \<Longrightarrow> gate_step (g, cs) (give_up c g, cs(i := None))"
| close: "gate_step (g, cs) (close_gate g, cs)"

inductive gate_reach :: "usize \<Rightarrow> usize \<Rightarrow> string \<Rightarrow> gate_world \<Rightarrow> bool" for mc mq label where
  start: "gate_new mc mq label = Inr g \<Longrightarrow> gate_reach mc mq label (g, Map.empty)"
| step: "gate_reach mc mq label w \<Longrightarrow> gate_step w w' \<Longrightarrow> gate_reach mc mq label w'"

inductive_cases gate_step_cases: "gate_step (g, cs) w'"

text \<open>The number of callers in a phase.\<close>

definition callers :: "caller set \<Rightarrow> (nat \<rightharpoonup> caller) \<Rightarrow> nat" where
  "callers A cs = card {i. \<exists>c \<in> A. cs i = Some c}"

definition running :: "(nat \<rightharpoonup> caller) \<Rightarrow> nat" where
  "running = callers {Granted, Holding}"

definition queueing :: "(nat \<rightharpoonup> caller) \<Rightarrow> nat" where
  "queueing = callers {Reserved, Waiting, Granted}"

lemma callers_finite: "finite (dom cs) \<Longrightarrow> finite {i. \<exists>c \<in> A. cs i = Some c}"
  by (rule finite_subset [of _ "dom cs"]) auto

lemma callers_upd:
  assumes "finite (dom cs)"
  shows "callers A (cs(i := x)) + (case cs i of None \<Rightarrow> 0 | Some c \<Rightarrow> if c \<in> A then 1 else 0) =
         callers A cs + (case x of None \<Rightarrow> 0 | Some c \<Rightarrow> if c \<in> A then 1 else 0)"
proof -
  define S where "S = {j. j \<noteq> i \<and> (\<exists>c \<in> A. cs j = Some c)}"
  have fin: "finite S" using callers_finite [OF assms, of A] by (auto simp: S_def intro: finite_subset)
  have split: "callers A f = card S + (case f i of None \<Rightarrow> 0 | Some c \<Rightarrow> if c \<in> A then 1 else 0)"
    if "\<And>j. j \<noteq> i \<Longrightarrow> f j = cs j" for f
  proof -
    have "{j. \<exists>c \<in> A. f j = Some c} = (if \<exists>c \<in> A. f i = Some c then insert i S else S)"
      using that by (auto simp: S_def) metis+
    then show ?thesis using fin by (auto simp: callers_def S_def split: option.split)
  qed
  from split [of "cs(i := x)"] split [of cs] show ?thesis by simp
qed

lemma callers_empty [simp]: "callers A Map.empty = 0"
  by (simp add: callers_def)

section \<open>The abstract pool\<close>

text \<open>
  What the gate promises: at most \<open>capacity\<close> callers run, at most \<open>room\<close> wait (without bound
  when the room is unlimited), and a slot that is left is free again.
\<close>

record pool =
  po_running :: nat
  po_queueing :: nat
  po_closed :: bool

inductive pool_step :: "nat \<Rightarrow> nat option \<Rightarrow> pool \<Rightarrow> pool \<Rightarrow> bool" for capacity room where
  idle: "pool_step capacity room p p"
| enter: "\<not> po_closed p \<Longrightarrow> po_running p < capacity \<Longrightarrow>
    pool_step capacity room p (p\<lparr>po_running := po_running p + 1\<rparr>)"
| queue: "(\<And>m. room = Some m \<Longrightarrow> po_queueing p < m) \<Longrightarrow>
    pool_step capacity room p (p\<lparr>po_queueing := po_queueing p + 1\<rparr>)"
| unqueue: "0 < po_queueing p \<Longrightarrow> pool_step capacity room p (p\<lparr>po_queueing := po_queueing p - 1\<rparr>)"
| exit: "0 < po_running p \<Longrightarrow> pool_step capacity room p (p\<lparr>po_running := po_running p - 1\<rparr>)"
| quit: "0 < po_running p \<Longrightarrow> 0 < po_queueing p \<Longrightarrow>
    pool_step capacity room p (p\<lparr>po_running := po_running p - 1, po_queueing := po_queueing p - 1\<rparr>)"
| shut: "pool_step capacity room p (p\<lparr>po_closed := True\<rparr>)"

definition pool_of :: "gate_world \<Rightarrow> pool" where
  "pool_of w = (case w of (g, cs) \<Rightarrow>
     \<lparr>po_running = running cs, po_queueing = queueing cs, po_closed = ag_closed g\<rparr>)"

definition room_of :: "usize \<Rightarrow> nat option" where
  "room_of mq = (if mq = usize_max then None else Some mq)"

section \<open>The invariant\<close>

text \<open>Every permit is free or with a caller, and the queue counter counts the reservations.\<close>

definition gate_inv :: "usize \<Rightarrow> usize \<Rightarrow> gate_world \<Rightarrow> bool" where
  "gate_inv mc mq w \<longleftrightarrow> (case w of (g, cs) \<Rightarrow>
     finite (dom cs) \<and> ag_max_queued g = mq
     \<and> ag_permits g + running cs = gate_permits mc \<and> ag_queued g = queueing cs)"

lemmas gate_ops =
  acquire_first_def acquire_reserve_def acquire_check_def acquire_wait_def acquire_return_def give_up_def try_acquire_def
  reserve_queue_def drop_reservation_def release_permit_def close_gate_def queue_full_def settle_def

lemma counts_upd:
  assumes "finite (dom cs)"
  shows "running (cs(i := x)) + (case cs i of Some Granted \<Rightarrow> 1 | Some Holding \<Rightarrow> 1 | _ \<Rightarrow> 0) =
         running cs + (case x of Some Granted \<Rightarrow> 1 | Some Holding \<Rightarrow> 1 | _ \<Rightarrow> 0)"
    and "queueing (cs(i := x)) + (case cs i of Some Reserved \<Rightarrow> 1 | Some Waiting \<Rightarrow> 1 | Some Granted \<Rightarrow> 1 | _ \<Rightarrow> 0) =
         queueing cs + (case x of Some Reserved \<Rightarrow> 1 | Some Waiting \<Rightarrow> 1 | Some Granted \<Rightarrow> 1 | _ \<Rightarrow> 0)"
  using callers_upd [OF assms, of "{Granted, Holding}" i x] callers_upd [OF assms, of "{Reserved, Waiting, Granted}" i x]
  by (auto simp: running_def queueing_def split: option.splits caller.splits)

text \<open>A step of the gate keeps the invariant and is a step of the pool.\<close>

definition sound_step :: "usize \<Rightarrow> usize \<Rightarrow> gate_world \<Rightarrow> gate_world \<Rightarrow> bool" where
  "sound_step mc mq w w' \<longleftrightarrow>
     gate_inv mc mq w' \<and> pool_step (gate_permits mc) (room_of mq) (pool_of w) (pool_of w')"

lemma pool_eqI: "pool_of w' = p' \<Longrightarrow> pool_step c r (pool_of w) p' \<Longrightarrow> pool_step c r (pool_of w) (pool_of w')"
  by simp

lemma first_sound:
  assumes "gate_inv mc mq (g, cs)" "cs i = None" "acquire_first g = (a, g')"
  shows "sound_step mc mq (g, cs) (g', settle i a cs)"
proof (cases "try_acquire g")
  case None
  then have "g' = g" "settle i a cs = cs(i \<mapsto> Reserving)"
    using assms(3) by (auto simp: acquire_first_def settle_def)
  then show ?thesis using assms(1,2) counts_upd [of cs i "Some Reserving"]
    by (auto simp: sound_step_def gate_inv_def pool_of_def intro: pool_step.idle)
next
  case (Some g1)
  then have g: "\<not> ag_closed g" "0 < ag_permits g" "g' = g\<lparr>ag_permits := ag_permits g - 1\<rparr>"
    "settle i a cs = cs(i \<mapsto> Holding)"
    using assms(3) by (auto simp: gate_ops split: if_splits)
  with assms(1,2) have "pool_of (g', settle i a cs) =
      (pool_of (g, cs))\<lparr>po_running := po_running (pool_of (g, cs)) + 1\<rparr>"
    using counts_upd [of cs i "Some Holding"] by (auto simp: gate_inv_def pool_of_def)
  moreover have "pool_step (gate_permits mc) (room_of mq) (pool_of (g, cs)) \<dots>"
    using assms(1) g by (intro pool_step.enter) (auto simp: gate_inv_def pool_of_def)
  ultimately show ?thesis using assms(1,2) g counts_upd [of cs i "Some Holding"]
    by (auto simp: sound_step_def gate_inv_def)
qed

lemma reserve_sound:
  assumes "gate_inv mc mq (g, cs)" "cs i = Some Reserving" "acquire_reserve g = (a, g')"
  shows "sound_step mc mq (g, cs) (g', settle i a cs)"
proof (cases "queue_full g")
  case True
  then have "g' = g" "settle i a cs = cs(i := None)"
    using assms(3) by (auto simp: gate_ops split: if_splits)
  then show ?thesis using assms(1,2) counts_upd [of cs i None]
    by (auto simp: sound_step_def gate_inv_def pool_of_def intro: pool_step.idle)
next
  case False
  then have g: "g' = g\<lparr>ag_queued := ag_queued g + 1\<rparr>" "settle i a cs = cs(i \<mapsto> Reserved)"
    using assms(3) by (auto simp: gate_ops split: if_splits)
  with assms(1,2) have "pool_of (g', settle i a cs) =
      (pool_of (g, cs))\<lparr>po_queueing := po_queueing (pool_of (g, cs)) + 1\<rparr>"
    using counts_upd [of cs i "Some Reserved"] by (auto simp: gate_inv_def pool_of_def)
  moreover have "pool_step (gate_permits mc) (room_of mq) (pool_of (g, cs)) \<dots>"
    using assms(1) False
    by (intro pool_step.queue) (auto simp: gate_inv_def pool_of_def room_of_def queue_full_def split: if_splits)
  ultimately show ?thesis using assms(1,2) g counts_upd [of cs i "Some Reserved"]
    by (auto simp: sound_step_def gate_inv_def)
qed

text \<open>A caller that leaves the queue without a permit.\<close>

lemma unqueue_sound:
  assumes "gate_inv mc mq (g, cs)" "cs i = Some c" "c = Reserved \<or> c = Waiting"
  shows "sound_step mc mq (g, cs) (drop_reservation g, cs(i := None))"
proof -
  from assms have "pool_of (drop_reservation g, cs(i := None)) =
      (pool_of (g, cs))\<lparr>po_queueing := po_queueing (pool_of (g, cs)) - 1\<rparr>"
    using counts_upd [of cs i None] by (auto simp: gate_inv_def pool_of_def drop_reservation_def)
  moreover have "0 < queueing cs" using assms counts_upd [of cs i None] by (auto simp: gate_inv_def)
  then have "pool_step (gate_permits mc) (room_of mq) (pool_of (g, cs))
      ((pool_of (g, cs))\<lparr>po_queueing := po_queueing (pool_of (g, cs)) - 1\<rparr>)"
    by (intro pool_step.unqueue) (simp add: pool_of_def)
  ultimately show ?thesis using assms counts_upd [of cs i None]
    by (auto simp: sound_step_def gate_inv_def drop_reservation_def)
qed

lemma check_sound:
  assumes "gate_inv mc mq (g, cs)" "cs i = Some Reserved" "acquire_check late g = (a, g')"
  shows "sound_step mc mq (g, cs) (g', settle i a cs)"
proof (cases late)
  case True
  then show ?thesis using unqueue_sound [OF assms(1,2)] assms(3) by (auto simp: acquire_check_def settle_def)
next
  case False
  then have "g' = g" "settle i a cs = cs(i \<mapsto> Waiting)" using assms(3) by (auto simp: acquire_check_def settle_def)
  then show ?thesis using assms(1,2) counts_upd [of cs i "Some Waiting"]
    by (auto simp: sound_step_def gate_inv_def pool_of_def intro: pool_step.idle)
qed

lemma wait_sound:
  assumes "gate_inv mc mq (g, cs)" "cs i = Some Waiting" "acquire_wait w g = (a, g')"
  shows "sound_step mc mq (g, cs) (g', settle i a cs)"
proof (cases "w = Wake_Semaphore \<and> \<not> ag_closed g")
  case False
  then have "g' = drop_reservation g" "settle i a cs = cs(i := None)"
    using assms(3) by (auto simp: acquire_wait_def settle_def split: wake.splits if_splits option.splits)
  then show ?thesis using unqueue_sound [OF assms(1,2)] by simp
next
  case wake: True
  show ?thesis
  proof (cases "try_acquire g")
    case None
    with wake have "g' = g" "settle i a cs = cs"
      using assms(2,3) by (auto simp: acquire_wait_def settle_def)
    then show ?thesis using assms(1) by (simp add: sound_step_def pool_step.idle)
  next
    case (Some g1)
    with wake have g: "0 < ag_permits g" "g' = g\<lparr>ag_permits := ag_permits g - 1\<rparr>"
      "settle i a cs = cs(i \<mapsto> Granted)"
      using assms(3) by (auto simp: gate_ops split: if_splits)
    with assms(1,2) have "pool_of (g', settle i a cs) =
        (pool_of (g, cs))\<lparr>po_running := po_running (pool_of (g, cs)) + 1\<rparr>"
      using counts_upd [of cs i "Some Granted"] by (auto simp: gate_inv_def pool_of_def)
    moreover have "pool_step (gate_permits mc) (room_of mq) (pool_of (g, cs)) \<dots>"
      using assms(1) g wake by (intro pool_step.enter) (auto simp: gate_inv_def pool_of_def)
    ultimately show ?thesis using assms(1,2) g counts_upd [of cs i "Some Granted"]
      by (auto simp: sound_step_def gate_inv_def)
  qed
qed

lemma return_sound:
  assumes "gate_inv mc mq (g, cs)" "cs i = Some Granted" "acquire_return g = (a, g')"
  shows "sound_step mc mq (g, cs) (g', settle i a cs)"
proof -
  from assms(3) have g: "g' = drop_reservation g" "settle i a cs = cs(i \<mapsto> Holding)"
    by (auto simp: acquire_return_def settle_def)
  with assms(1,2) have "pool_of (g', settle i a cs) =
      (pool_of (g, cs))\<lparr>po_queueing := po_queueing (pool_of (g, cs)) - 1\<rparr>"
    using counts_upd [of cs i "Some Holding"] by (auto simp: gate_inv_def pool_of_def drop_reservation_def)
  moreover have "0 < queueing cs" using assms counts_upd [of cs i "Some Holding"] by (auto simp: gate_inv_def)
  then have "pool_step (gate_permits mc) (room_of mq) (pool_of (g, cs))
      ((pool_of (g, cs))\<lparr>po_queueing := po_queueing (pool_of (g, cs)) - 1\<rparr>)"
    by (intro pool_step.unqueue) (simp add: pool_of_def)
  ultimately show ?thesis using assms(1,2) g counts_upd [of cs i "Some Holding"]
    by (auto simp: sound_step_def gate_inv_def drop_reservation_def)
qed

lemma leave_sound:
  assumes "gate_inv mc mq (g, cs)" "cs i = Some c"
  shows "sound_step mc mq (g, cs) (give_up c g, cs(i := None))"
proof (cases c)
  case Reserving
  then show ?thesis using assms counts_upd [of cs i None]
    by (auto simp: sound_step_def gate_inv_def pool_of_def give_up_def intro: pool_step.idle)
next
  case Reserved
  then show ?thesis using assms unqueue_sound by (simp add: give_up_def)
next
  case Waiting
  then show ?thesis using assms unqueue_sound by (simp add: give_up_def)
next
  case Granted
  with assms have "pool_of (give_up c g, cs(i := None)) = (pool_of (g, cs))
      \<lparr>po_running := po_running (pool_of (g, cs)) - 1, po_queueing := po_queueing (pool_of (g, cs)) - 1\<rparr>"
    using counts_upd [of cs i None]
    by (auto simp: gate_inv_def pool_of_def give_up_def release_permit_def drop_reservation_def)
  moreover have "0 < queueing cs" "0 < running cs"
    using assms Granted counts_upd [of cs i None] by (auto simp: gate_inv_def)
  then have "pool_step (gate_permits mc) (room_of mq) (pool_of (g, cs)) ((pool_of (g, cs))
      \<lparr>po_running := po_running (pool_of (g, cs)) - 1, po_queueing := po_queueing (pool_of (g, cs)) - 1\<rparr>)"
    by (intro pool_step.quit) (simp_all add: pool_of_def)
  ultimately show ?thesis using assms Granted counts_upd [of cs i None]
    by (auto simp: sound_step_def gate_inv_def give_up_def release_permit_def drop_reservation_def)
next
  case Holding
  with assms have "pool_of (give_up c g, cs(i := None)) =
      (pool_of (g, cs))\<lparr>po_running := po_running (pool_of (g, cs)) - 1\<rparr>"
    using counts_upd [of cs i None] by (auto simp: gate_inv_def pool_of_def give_up_def release_permit_def)
  moreover have "0 < running cs" using assms Holding counts_upd [of cs i None] by (auto simp: gate_inv_def)
  then have "pool_step (gate_permits mc) (room_of mq) (pool_of (g, cs))
      ((pool_of (g, cs))\<lparr>po_running := po_running (pool_of (g, cs)) - 1\<rparr>)"
    by (intro pool_step.exit) (simp add: pool_of_def)
  ultimately show ?thesis using assms Holding counts_upd [of cs i None]
    by (auto simp: sound_step_def gate_inv_def give_up_def release_permit_def)
qed

lemma close_sound: "gate_inv mc mq (g, cs) \<Longrightarrow> sound_step mc mq (g, cs) (close_gate g, cs)"
  using pool_step.shut [of "gate_permits mc" "room_of mq" "pool_of (g, cs)"]
  by (simp add: sound_step_def gate_inv_def pool_of_def close_gate_def)

lemma gate_step_sound: "gate_inv mc mq w \<Longrightarrow> gate_step w w' \<Longrightarrow> sound_step mc mq w w'"
  by (cases w, cases w')
    (auto elim!: gate_step_cases intro: first_sound reserve_sound check_sound wait_sound return_sound leave_sound close_sound)

lemma gate_reach_inv: "gate_reach mc mq label w \<Longrightarrow> gate_inv mc mq w"
proof (induction rule: gate_reach.induct)
  case (start g)
  then show ?case by (auto simp: gate_new_def gate_inv_def running_def queueing_def split: if_splits)
next
  case (step w w')
  then show ?case using gate_step_sound by (simp add: sound_step_def)
qed

text \<open>The bounds the pool keeps.\<close>

definition pool_bounded :: "nat \<Rightarrow> nat option \<Rightarrow> pool \<Rightarrow> bool" where
  "pool_bounded capacity room p \<longleftrightarrow>
     po_running p \<le> capacity \<and> (\<forall>m. room = Some m \<longrightarrow> po_queueing p \<le> m)"

lemma pool_step_bounded: "pool_step c r p p' \<Longrightarrow> pool_bounded c r p \<Longrightarrow> pool_bounded c r p'"
  by (induction rule: pool_step.induct) (auto simp: pool_bounded_def Suc_le_eq)

lemma gate_reach_bounded:
  "gate_reach mc mq label w \<Longrightarrow> pool_bounded (gate_permits mc) (room_of mq) (pool_of w)"
proof (induction rule: gate_reach.induct)
  case (start g)
  then show ?case by (simp add: pool_bounded_def pool_of_def running_def queueing_def)
next
  case (step w w')
  then have "sound_step mc mq w w'" by (blast intro: gate_step_sound gate_reach_inv)
  with step.IH show ?case unfolding sound_step_def by (blast intro: pool_step_bounded)
qed

text \<open>C30. The gate refines the abstract pool: under any interleaving of callers that try, queue, are
  woken, cancelled or dropped, or give their permit back, every step of the gate is a step of a
  pool with the configured capacity and waiting room, which never runs or queues more callers
  than they allow.\<close>

theorem gate_refines_pool:
  assumes "gate_reach mc mq label w" and "gate_step w w'"
  shows "pool_step (gate_permits mc) (room_of mq) (pool_of w) (pool_of w')
    \<and> pool_bounded (gate_permits mc) (room_of mq) (pool_of w')"
  using gate_step_sound [OF gate_reach_inv [OF assms(1)] assms(2)]
    pool_step_bounded gate_reach_bounded [OF assms(1)]
  by (auto simp: sound_step_def)

text \<open>A gate for one call with room for one more.\<close>

definition single_gate :: gate where
  "single_gate = \<lparr>ag_permits = 1, ag_closed = False, ag_queued = 0, ag_max_queued = 1, ag_label = ''global''\<rparr>"

lemma single_gate_reach: "gate_reach 1 1 ''global'' (single_gate, Map.empty)"
  by (rule gate_reach.start) (simp add: gate_new_def single_gate_def gate_permits_def semaphore_max_permits_def usize_max_def)

lemma single_gate_first:
  "gate_step (single_gate, Map.empty) (single_gate\<lparr>ag_permits := 0\<rparr>, [0 \<mapsto> Holding])"
  using gate_step.first [of Map.empty 0 single_gate "Next Holding" "single_gate\<lparr>ag_permits := 0\<rparr>"]
  by (simp add: gate_ops single_gate_def)

theorem gate_refines_pool_witness:
  "pool_step (gate_permits 1) (room_of 1) (pool_of (single_gate, Map.empty))
     (pool_of (single_gate\<lparr>ag_permits := 0\<rparr>, [0 \<mapsto> Holding]))"
  using gate_refines_pool [OF single_gate_reach single_gate_first] by blast

text \<open>No permit and no place in the queue is ever lost: when every caller has returned, failed or
  been dropped, all permits of the gate are free and its queue counter is zero; a caller is refused
  for lack of room only while the room is full, and fails to get a permit at once only if the gate
  is closed or all its permits are with callers.\<close>

lemma gate_leaks_nothing:
  assumes "gate_reach mc mq label (g, cs)"
  shows "(cs = Map.empty \<longrightarrow> ag_permits g = gate_permits mc \<and> ag_queued g = 0)
    \<and> (is_ok (fst (reserve_queue g)) \<longleftrightarrow> mq = usize_max \<or> queueing cs < mq)
    \<and> (fst (acquire_first g) = Next Holding \<longleftrightarrow> \<not> ag_closed g \<and> running cs < gate_permits mc)"
proof -
  have inv: "ag_max_queued g = mq" "ag_permits g + running cs = gate_permits mc" "ag_queued g = queueing cs"
    using gate_reach_inv [OF assms] by (simp_all add: gate_inv_def)
  have "is_ok (fst (reserve_queue g)) \<longleftrightarrow> mq = usize_max \<or> queueing cs < mq"
    using inv by (auto simp: reserve_queue_def queue_full_def)
  moreover have "fst (acquire_first g) = Next Holding \<longleftrightarrow> \<not> ag_closed g \<and> running cs < gate_permits mc"
    using inv by (auto simp: acquire_first_def try_acquire_def)
  ultimately show ?thesis using inv by (auto simp: running_def queueing_def)
qed

lemma gate_leaks_nothing_witness:
  "fst (acquire_first single_gate) = Next Holding \<and> running Map.empty < gate_permits 1"
  using gate_leaks_nothing [OF single_gate_reach] by (simp add: single_gate_def gate_ops)

end
