(* ===== verification/Registry.thy ===== *)
theory Registry
  imports Capabilities
begin

text \<open>
  \<open>crates/runtime/src/registry.rs\<close>: the immutable set of providers. A provider is what its trait
  object answers: its descriptor, its capability document for a model and its readiness. The
  \<open>BTreeMap\<close> is the list of its entries in ascending order of their names.
\<close>

record provider_descriptor =
  pd_name :: string
  pd_display_name :: string
  pd_version :: string
  pd_experimental :: bool
  pd_models :: "string list"

record provider =
  pv_descriptor :: provider_descriptor
  pv_capabilities :: "string option \<Rightarrow> provider_capabilities result"
  pv_ready :: "unit result"

record registry =
  rg_providers :: "(string \<times> provider) list"
  rg_default :: string

definition max_provider_name_bytes :: usize where
  "max_provider_name_bytes = 64"

definition registry_error :: "string \<Rightarrow> bridge_error" where
  "registry_error message = error_new Configuration message"

definition valid_provider_name :: "string \<Rightarrow> bool" where
  "valid_provider_name name =
     (name \<noteq> [] \<and> length name \<le> max_provider_name_bytes \<and> is_ascii_lowercase (hd name)
      \<and> list_all (\<lambda>c. is_ascii_lowercase c \<or> is_ascii_digit c \<or> c = CHR ''-'') name)"

definition validate_provider_name :: "string \<Rightarrow> unit result" where
  "validate_provider_name name =
     require (valid_provider_name name)
       (registry_error ''provider names must be lowercase ASCII identifiers'')"

text \<open>Insertion into the map keeps the order of the names and replaces an equal one.\<close>

fun insert_provider :: "string \<Rightarrow> provider \<Rightarrow> (string \<times> provider) list \<Rightarrow> (string \<times> provider) list" where
  "insert_provider k p [] = [(k, p)]"
| "insert_provider k p ((k', p') # ps) =
     (if k < k' then (k, p) # (k', p') # ps
      else if k = k' then (k, p) # ps
      else (k', p') # insert_provider k p ps)"

definition quoted :: "string \<Rightarrow> string" where
  "quoted name = [CHR 0x27] @ name @ [CHR 0x27]"

fun register_all :: "provider list \<Rightarrow> (string \<times> provider) list \<Rightarrow> (string \<times> provider) list result" where
  "register_all [] registered = Inr registered"
| "register_all (p # ps) registered =
     (let name = pd_name (pv_descriptor p) in
      and_then (validate_provider_name name) (\<lambda>_.
        if map_of registered name \<noteq> None
        then Inl (registry_error (''provider '' @ quoted name @ '' is registered more than once''))
        else register_all ps (insert_provider name p registered)))"

definition registry_new :: "provider list \<Rightarrow> string \<Rightarrow> registry result" where
  "registry_new providers dflt =
     and_then (register_all providers []) (\<lambda>registered.
       if registered = [] then Inl (registry_error ''at least one provider must be registered'')
       else
         and_then (validate_provider_name dflt) (\<lambda>_.
           if map_of registered dflt = None
           then Inl (registry_error (''default provider '' @ quoted dflt @ '' is not registered''))
           else Inr \<lparr>rg_providers = registered, rg_default = dflt\<rparr>))"

definition resolve_provider :: "registry \<Rightarrow> string option \<Rightarrow> provider result" where
  "resolve_provider reg requested =
     (let name = (case requested of None \<Rightarrow> rg_default reg | Some n \<Rightarrow> n) in
      and_then (validate_provider_name name) (\<lambda>_.
        ok_or (with_detail ''provider'' (JStr name)
            (error_new Configuration ''requested provider is not registered''))
          (map_of (rg_providers reg) name)))"

definition descriptors :: "registry \<Rightarrow> provider_descriptor list" where
  "descriptors reg = map (pv_descriptor \<circ> snd) (rg_providers reg)"

definition identity_error :: "string \<Rightarrow> bridge_error" where
  "identity_error name =
     with_provider name
       (error_new Protocol ''provider capability identity does not match its registry identity'')"

definition registry_capabilities ::
  "registry \<Rightarrow> string option \<Rightarrow> string option \<Rightarrow> provider_capabilities result" where
  "registry_capabilities reg requested model =
     and_then (resolve_provider reg requested) (\<lambda>p.
     and_then (pv_capabilities p model) (\<lambda>c.
       if pc_provider c \<noteq> pd_name (pv_descriptor p)
       then Inl (identity_error (pd_name (pv_descriptor p)))
       else and_then (capabilities_validate c) (\<lambda>_. Inr c)))"

text \<open>The readiness of a provider is its status, the error kept as it is.\<close>

definition registry_readiness :: "registry \<Rightarrow> (string \<times> unit result) list" where
  "registry_readiness reg = map (\<lambda>(name, p). (name, pv_ready p)) (rg_providers reg)"

section \<open>The invariant of a registry\<close>

definition registered_ok :: "(string \<times> provider) list \<Rightarrow> bool" where
  "registered_ok ps \<longleftrightarrow>
     sorted_wrt (<) (map fst ps)
     \<and> (\<forall>(k, p) \<in> set ps. k = pd_name (pv_descriptor p) \<and> valid_provider_name k)"

lemma set_insert_provider:
  "map_of ps k = None \<Longrightarrow> set (insert_provider k p ps) = insert (k, p) (set ps)"
  by (induction k p ps rule: insert_provider.induct) (auto split: if_splits)

lemma keys_insert_provider: "fst ` set (insert_provider k p ps) = insert k (fst ` set ps)"
  by (induction k p ps rule: insert_provider.induct) auto

lemma sorted_insert_provider:
  "sorted_wrt (<) (map fst ps) \<Longrightarrow> sorted_wrt (<) (map fst (insert_provider k p ps))"
proof (induction k p ps rule: insert_provider.induct)
  case (2 k p k' p' ps)
  then show ?case using keys_insert_provider [of k p ps]
    by (auto simp: image_iff)
qed simp

lemma insert_provider_ok:
  assumes "registered_ok ps" "map_of ps (pd_name (pv_descriptor p)) = None"
    "valid_provider_name (pd_name (pv_descriptor p))"
  shows "registered_ok (insert_provider (pd_name (pv_descriptor p)) p ps)"
  using assms sorted_insert_provider
  by (auto simp: registered_ok_def set_insert_provider)

lemma register_all_ok:
  "register_all ps acc = Inr registered \<Longrightarrow> registered_ok acc \<Longrightarrow>
     registered_ok registered \<and> set registered = set acc \<union> (\<lambda>p. (pd_name (pv_descriptor p), p)) ` set ps"
proof (induction ps arbitrary: acc)
  case (Cons p ps)
  let ?k = "pd_name (pv_descriptor p)"
  from Cons.prems have *: "valid_provider_name ?k" "map_of acc ?k = None"
    "register_all ps (insert_provider ?k p acc) = Inr registered"
    by (auto simp: Let_def result_simps validate_provider_name_def split: if_splits)
  from Cons.IH [OF *(3) insert_provider_ok [OF Cons.prems(2) *(2,1)]] show ?case
    by (auto simp: set_insert_provider [OF *(2)])
qed simp

lemma registry_new_Inr:
  assumes "registry_new ps dflt = Inr reg"
  shows "registered_ok (rg_providers reg)" "valid_provider_name (rg_default reg)"
    "map_of (rg_providers reg) (rg_default reg) \<noteq> None" "rg_default reg = dflt"
    "set (rg_providers reg) = (\<lambda>p. (pd_name (pv_descriptor p), p)) ` set ps"
proof -
  from assms have run: "register_all ps [] = Inr (rg_providers reg)"
    and rest: "valid_provider_name (rg_default reg)" "map_of (rg_providers reg) (rg_default reg) \<noteq> None"
      "rg_default reg = dflt"
    by (auto simp: registry_new_def result_simps validate_provider_name_def split: if_splits)
  have "registered_ok []" by (simp add: registered_ok_def)
  from register_all_ok [OF run this] rest
  show "registered_ok (rg_providers reg)" "valid_provider_name (rg_default reg)"
    "map_of (rg_providers reg) (rg_default reg) \<noteq> None" "rg_default reg = dflt"
    "set (rg_providers reg) = (\<lambda>p. (pd_name (pv_descriptor p), p)) ` set ps" by auto
qed

text \<open>A resolved provider is registered under its own name.\<close>

lemma resolve_provider_name:
  assumes "registered_ok (rg_providers reg)" "resolve_provider reg requested = Inr p"
  shows "pd_name (pv_descriptor p) = (case requested of None \<Rightarrow> rg_default reg | Some n \<Rightarrow> n)"
  using assms by (auto simp: resolve_provider_def registered_ok_def Let_def result_simps dest!: map_of_SomeD)

lemma resolve_provider_error:
  "resolve_provider reg requested = Inl e \<Longrightarrow> err_code e = Configuration"
  by (auto simp: resolve_provider_def Let_def result_simps validate_provider_name_def registry_error_def)

lemma resolve_default:
  "registry_new ps dflt = Inr reg \<Longrightarrow> \<exists>p. resolve_provider reg None = Inr p"
  using registry_new_Inr [of ps dflt reg]
  by (auto simp: resolve_provider_def Let_def validate_provider_name_def require_def)

end
