(* ===== verification/Orchestrator.thy ===== *)
theory Orchestrator
  imports Registry Admission Transparency Circuit_Breaker Idempotency
begin

text \<open>
  \<open>crates/runtime/src/orchestrator.rs\<close>: one request through the runtime. What the scheduler and the
  outside decide is a script: for every awaited future how its race against the cancellation of
  the caller, the shutdown and the deadline ended, the instants at which the circuit breaker was
  asked and told, and what other calls did to the breaker in between. The state of the runtime
  that a request changes is passed on: the circuit breakers here, the idempotency table in the
  composition. Every provider call that may have been dispatched is logged.
\<close>

section \<open>Configuration\<close>

record concurrency_limit =
  cl_max_concurrent :: usize
  cl_max_queued :: usize

definition default_concurrency_limit :: concurrency_limit where
  "default_concurrency_limit = \<lparr>cl_max_concurrent = usize_max, cl_max_queued = usize_max\<rparr>"

text \<open>Durations are nanoseconds; the \<open>BTreeMap\<close>s are association lists in key order.\<close>

record runtime_config =
  rc_request_limits :: request_limits
  rc_default_timeout :: nat
  rc_cancellation_grace :: nat
  rc_shutdown_grace :: nat
  rc_global_limit :: concurrency_limit
  rc_default_provider_limit :: concurrency_limit
  rc_provider_limits :: "(string \<times> concurrency_limit) list"
  rc_default_circuit_breaker :: circuit_config
  rc_circuit_breakers :: "(string \<times> circuit_config) list"
  rc_idempotency :: idempotency_config

definition default_runtime_config :: runtime_config where
  "default_runtime_config =
     \<lparr>rc_request_limits = default_request_limits, rc_default_timeout = 5 * 60 * nanos_per_sec,
      rc_cancellation_grace = nanos_per_sec, rc_shutdown_grace = 10 * nanos_per_sec,
      rc_global_limit = default_concurrency_limit, rc_default_provider_limit = default_concurrency_limit,
      rc_provider_limits = [], rc_default_circuit_breaker = default_circuit_config,
      rc_circuit_breakers = [], rc_idempotency = default_idempotency_config\<rparr>"

definition configuration_error :: "string \<Rightarrow> bridge_error" where
  "configuration_error message = error_new Configuration message"

definition assoc_or :: "'a \<Rightarrow> (string \<times> 'a) list \<Rightarrow> string \<Rightarrow> 'a" where
  "assoc_or d xs k = (case map_of xs k of None \<Rightarrow> d | Some x \<Rightarrow> x)"

definition breaker_config :: "runtime_config \<Rightarrow> string \<Rightarrow> circuit_config" where
  "breaker_config cfg name = assoc_or (rc_default_circuit_breaker cfg) (rc_circuit_breakers cfg) name"

definition provider_limit :: "runtime_config \<Rightarrow> string \<Rightarrow> concurrency_limit" where
  "provider_limit cfg name = assoc_or (rc_default_provider_limit cfg) (rc_provider_limits cfg) name"

record runtime =
  rn_registry :: registry
  rn_config :: runtime_config
  rn_global_gate :: gate
  rn_provider_gates :: "(string \<times> gate) list"
  rn_circuit_breakers :: "(string \<times> inner) list"
  rn_idempotency :: idem_state

definition provider_gate :: "runtime_config \<Rightarrow> string \<Rightarrow> failure + gate" where
  "provider_gate cfg name =
     gate_new (cl_max_concurrent (provider_limit cfg name)) (cl_max_queued (provider_limit cfg name))
       (''provider:'' @ name)"

text \<open>\<open>ImagegenRuntime::new\<close>; the result of the constructor of the materializer is an argument.\<close>

definition runtime_new :: "unit result \<Rightarrow> registry \<Rightarrow> runtime_config \<Rightarrow> failure + runtime" where
  "runtime_new materializer reg cfg =
     (if rc_default_timeout cfg = 0
         \<or> unat (lim_max_timeout_ms (rc_request_limits cfg)) * 1000000 < rc_default_timeout cfg
      then Inl (Failed (configuration_error ''default timeout must be within the configured request limit''))
      else if rc_cancellation_grace cfg = 0 \<or> 30 * nanos_per_sec < rc_cancellation_grace cfg
      then Inl (Failed (configuration_error ''cancellation grace must be greater than zero and at most 30 seconds''))
      else if rc_shutdown_grace cfg = 0 \<or> 5 * 60 * nanos_per_sec < rc_shutdown_grace cfg
      then Inl (Failed (configuration_error ''shutdown grace must be greater than zero and at most five minutes''))
      else
        and_then (fail_with (traverse (\<lambda>(name, _). resolve_provider reg (Some name)) (rc_provider_limits cfg))) (\<lambda>_.
        and_then (fail_with (traverse (\<lambda>(name, _). resolve_provider reg (Some name)) (rc_circuit_breakers cfg))) (\<lambda>_.
        and_then (gate_new (cl_max_concurrent (rc_global_limit cfg)) (cl_max_queued (rc_global_limit cfg))
            ''global'') (\<lambda>global_gate.
        and_then (traverse (\<lambda>(name, _).
            and_then (provider_gate cfg name) (\<lambda>g.
            and_then (fail_with (circuit_new (breaker_config cfg name))) (\<lambda>b. Inr ((name, g), (name, b)))))
            (rg_providers reg)) (\<lambda>pools.
        and_then (fail_with (idem_new (rc_idempotency cfg))) (\<lambda>idem.
        and_then (fail_with materializer) (\<lambda>_.
          Inr \<lparr>rn_registry = reg, rn_config = cfg, rn_global_gate = global_gate,
               rn_provider_gates = map fst pools, rn_circuit_breakers = map snd pools,
               rn_idempotency = idem\<rparr>)))))))"

section \<open>Races\<close>

text \<open>
  How an awaited future ended: the deadline had elapsed before it was polled, it completed, or
  the caller, the shutdown or the deadline interrupted it; then it may still return something
  within the grace period of the cancellation.
\<close>

datatype 'a race =
    Race_Expired
  | Race_Done "'a result"
  | Race_External "'a result option"
  | Race_Shutdown "'a result option"
  | Race_Deadline "'a result option"

definition deadline_error :: bridge_error where
  "deadline_error = retryable True (error_new Timeout ''request deadline elapsed'')"

definition cancelled_error :: "string \<Rightarrow> bridge_error" where
  "cancelled_error message = error_new Cancelled message"

definition unknown_outcome_error :: "error_code \<Rightarrow> string \<Rightarrow> bridge_error" where
  "unknown_outcome_error code message =
     with_detail ''outcome'' (JStr ''unknown'') (retryable False (error_new code message))"

definition await_controlled :: "string \<Rightarrow> 'a race \<Rightarrow> 'a result" where
  "await_controlled message r =
     (case r of
        Race_Expired \<Rightarrow> Inl deadline_error
      | Race_Done result \<Rightarrow> result
      | Race_External _ \<Rightarrow> Inl (cancelled_error message)
      | Race_Shutdown _ \<Rightarrow> Inl (cancelled_error ''runtime is shutting down'')
      | Race_Deadline _ \<Rightarrow> Inl deadline_error)"

definition interruption :: "error_code \<Rightarrow> bool" where
  "interruption c = (c = Timeout \<or> c = Cancelled)"

definition classify_provider_execution_result :: "'a result \<Rightarrow> 'a result" where
  "classify_provider_execution_result r =
     (case r of
        Inr a \<Rightarrow> Inr a
      | Inl e \<Rightarrow>
          if interruption (err_code e) \<and> \<not> outcome_unknown e
          then Inl (with_detail ''outcome'' (JStr ''unknown'') (retryable False e))
          else Inl e)"

text \<open>After an interruption a value or a known error of the grace period is kept.\<close>

definition within_grace :: "error_code \<Rightarrow> string \<Rightarrow> 'a result option \<Rightarrow> 'a result" where
  "within_grace code message late =
     (case late of
        Some (Inr value0) \<Rightarrow> Inr value0
      | Some (Inl e) \<Rightarrow>
          if interruption (err_code e) then Inl (unknown_outcome_error code message) else Inl e
      | None \<Rightarrow> Inl (unknown_outcome_error code message))"

definition await_provider_execution :: "'a race \<Rightarrow> 'a result" where
  "await_provider_execution r =
     (case r of
        Race_Expired \<Rightarrow> Inl deadline_error
      | Race_Done result \<Rightarrow> classify_provider_execution_result result
      | Race_External late \<Rightarrow>
          within_grace Cancelled ''request was cancelled during provider execution'' late
      | Race_Shutdown late \<Rightarrow>
          within_grace Cancelled ''runtime shut down during provider execution'' late
      | Race_Deadline late \<Rightarrow>
          within_grace Timeout ''request deadline elapsed during provider execution'' late)"

definition attach_provider :: "string \<Rightarrow> bridge_error \<Rightarrow> bridge_error" where
  "attach_provider name e = (if err_provider e = None then e\<lparr>err_provider := Some name\<rparr> else e)"

definition map_err :: "('e \<Rightarrow> 'f) \<Rightarrow> 'e + 'a \<Rightarrow> 'f + 'a" where
  "map_err f r = (case r of Inl e \<Rightarrow> Inl (f e) | Inr a \<Rightarrow> Inr a)"

section \<open>The fallback policy\<close>

definition never_rerouted :: "error_code \<Rightarrow> bool" where
  "never_rerouted c =
     (case c of
        InvalidRequest \<Rightarrow> True | PermissionDenied \<Rightarrow> True | SafetyRejected \<Rightarrow> True
      | Cancelled \<Rightarrow> True | Session \<Rightarrow> True | IdempotencyConflict \<Rightarrow> True | _ \<Rightarrow> False)"

definition unavailable :: "error_code \<Rightarrow> bool" where
  "unavailable c =
     (case c of
        Configuration \<Rightarrow> True | Authentication \<Rightarrow> True | UnsupportedCapability \<Rightarrow> True
      | RateLimited \<Rightarrow> True | Overloaded \<Rightarrow> True | _ \<Rightarrow> False)"

definition failed_after_dispatch :: "error_code \<Rightarrow> bool" where
  "failed_after_dispatch c =
     (case c of
        Upstream \<Rightarrow> True | Protocol \<Rightarrow> True | Artifact \<Rightarrow> True | Input \<Rightarrow> True | Internal \<Rightarrow> True
      | _ \<Rightarrow> False)"

definition should_fallback :: "bridge_error \<Rightarrow> fallback_policy \<Rightarrow> bool" where
  "should_fallback e policy =
     (if outcome_unknown e then False
      else if never_rerouted (err_code e) then False
      else if unavailable (err_code e) then True
      else policy = Fallback_Policy_OnError \<and> failed_after_dispatch (err_code e))"

section \<open>One route\<close>

record route_script =
  ro_acquired_at :: nat
  ro_gate :: "unit race"
  ro_capabilities :: "provider_capabilities race"
  ro_execute :: "image_request \<Rightarrow> image_response race"
  ro_materialize :: "image_response \<Rightarrow> image_request \<Rightarrow> image_request \<Rightarrow> chroma_options option \<Rightarrow> image_response race"
  ro_others :: "inner \<Rightarrow> inner"
  ro_finished_at :: nat
  ro_queue_ms :: u64
  ro_provider_ms :: u64
  ro_artifact_ms :: u64
  ro_duration_ms :: u64

record route_execution =
  re_response :: image_response
  re_effective_request :: image_request

definition protocol_error :: "string \<Rightarrow> bridge_error" where
  "protocol_error message = error_new Protocol message"

definition routed_request :: "image_request \<Rightarrow> provider_route \<Rightarrow> image_request" where
  "routed_request request route =
     request\<lparr>req_routing := (req_routing request)
       \<lparr>rt_provider := Some (route_provider route), rt_model := route_model route, rt_fallbacks := []\<rparr>\<rparr>"

text \<open>Everything before the provider is called.\<close>

record prepared_route =
  pr_capabilities :: provider_capabilities
  pr_transparency :: prepared_transparency
  pr_negotiated :: negotiated_request

definition prepare_route ::
  "request_limits \<Rightarrow> image_request \<Rightarrow> provider_route \<Rightarrow> string \<Rightarrow> provider_capabilities race
   \<Rightarrow> failure + prepared_route" where
  "prepare_route limits request route name discovery =
     and_then (fail_with (map_err (attach_provider name)
         (await_controlled ''request was cancelled during capability discovery'' discovery))) (\<lambda>c.
     if pc_provider c \<noteq> name then Inl (Failed (identity_error name))
     else
       and_then (fail_with (prepare_transparency (routed_request request route) c)) (\<lambda>prepared.
       and_then (fail_with (validate_request (pt_provider_request prepared) limits)) (\<lambda>_.
       and_then (negotiate_request (pt_provider_request prepared) c) (\<lambda>negotiated.
         Inr \<lparr>pr_capabilities = c, pr_transparency = prepared, pr_negotiated = negotiated\<rparr>))))"

definition check_response_model :: "provider_capabilities \<Rightarrow> string \<Rightarrow> image_response \<Rightarrow> unit result" where
  "check_response_model c name response =
     (case pc_model c of
        None \<Rightarrow> Inr ()
      | Some expected \<Rightarrow>
          if rs_model response = expected then Inr ()
          else Inl (with_detail ''actual_model'' (JStr (rs_model response))
                 (with_detail ''expected_model'' (JStr expected)
                   (with_provider name
                     (protocol_error ''provider response model does not match discovered capabilities'')))))"

text \<open>The response as the runtime reports it, before its outputs are delivered.\<close>

definition reported_response ::
  "string \<Rightarrow> string \<Rightarrow> image_request \<Rightarrow> prepared_route \<Rightarrow> route_script \<Rightarrow> image_response \<Rightarrow> image_response" where
  "reported_response request_id name request p sc response =
     (let effective = ng_effective_request (pr_negotiated p);
          planned = (pt_plan (pr_transparency p) \<noteq> None);
          params = req_parameters effective
      in response\<lparr>rs_id := request_id, rs_provider := name, rs_requested := req_parameters request,
           rs_effective := (if planned then params\<lparr>gp_background := Background_Transparent\<rparr> else params),
           rs_warnings := rs_warnings response
             @ (if planned then [''transparent_background_postprocessed''] else []),
           rs_normalizations := pt_normalizations (pr_transparency p)
             @ ng_normalizations (pr_negotiated p) @ rs_normalizations response,
           rs_revised_prompt :=
             (if pol_revised_prompt (req_policies effective) = Revised_Prompt_Policy_Omit then None
              else rs_revised_prompt response),
           rs_timings := (rs_timings response)\<lparr>tm_queue_ms := ro_queue_ms sc, tm_provider_ms := ro_provider_ms sc\<rparr>\<rparr>)"

definition deliver_route ::
  "string \<Rightarrow> string \<Rightarrow> image_request \<Rightarrow> prepared_route \<Rightarrow> route_script \<Rightarrow> image_response
   \<Rightarrow> route_execution result" where
  "deliver_route request_id name request p sc response =
     (let effective = ng_effective_request (pr_negotiated p) in
      and_then (check_response_model (pr_capabilities p) name response) (\<lambda>_.
      and_then (await_controlled ''request was cancelled during output materialization''
          (ro_materialize sc (reported_response request_id name request p sc response) request effective
            (pt_plan (pr_transparency p)))) (\<lambda>delivered.
        Inr \<lparr>re_response = delivered\<lparr>rs_timings := (rs_timings delivered)\<lparr>tm_artifact_ms := ro_artifact_ms sc\<rparr>\<rparr>,
             re_effective_request = effective\<rparr>)))"

text \<open>The calls of a provider: its name and the request it was given.\<close>

type_synonym dispatch = "string \<times> image_request"

definition polled :: "'a race \<Rightarrow> bool" where
  "polled r = (case r of Race_Expired \<Rightarrow> False | _ \<Rightarrow> True)"

definition execute_route_admitted ::
  "request_limits \<Rightarrow> image_request \<Rightarrow> string \<Rightarrow> provider_route \<Rightarrow> string \<Rightarrow> route_script
   \<Rightarrow> (failure + route_execution) \<times> dispatch list" where
  "execute_route_admitted limits request request_id route name sc =
     (case prepare_route limits request route name (ro_capabilities sc) of
        Inl f \<Rightarrow> (Inl f, [])
      | Inr p \<Rightarrow>
          let effective = ng_effective_request (pr_negotiated p); r = ro_execute sc effective in
          (fail_with (and_then (map_err (attach_provider name) (await_provider_execution r))
             (deliver_route request_id name request p sc)),
           if polled r then [(name, effective)] else []))"

text \<open>
  The breaker admits the call before the provider's gate is asked; a call that got no permit
  of the gate, or panicked, drops the breaker's permit, any other finishes it with its result.
\<close>

definition finish_kind :: "(failure + 'a) \<Rightarrow> permit_end" where
  "finish_kind r =
     (case r of
        Inr _ \<Rightarrow> Finished (Inr ())
      | Inl (Failed e) \<Rightarrow> Finished (Inl e)
      | Inl Panicked \<Rightarrow> Dropped)"

type_synonym breakers = "string \<rightharpoonup> inner"

definition execute_route ::
  "runtime \<Rightarrow> image_request \<Rightarrow> string \<Rightarrow> provider_route \<Rightarrow> route_script \<Rightarrow> breakers
   \<Rightarrow> (failure + route_execution) \<times> breakers \<times> dispatch list" where
  "execute_route rt request request_id route sc brs =
     (case resolve_provider (rn_registry rt) (Some (route_provider route)) of
        Inl e \<Rightarrow> (Inl (Failed e), brs, [])
      | Inr p \<Rightarrow>
          let name = pd_name (pv_descriptor p); cfg = breaker_config (rn_config rt) name in
     (case brs name of
        None \<Rightarrow> (Inl (Failed (configuration_error ''provider has no configured circuit breaker'')), brs, [])
      | Some b \<Rightarrow>
     (case acquire cfg name (ro_acquired_at sc) b of
        (Inl e, b1) \<Rightarrow> (Inl (Failed e), brs(name \<mapsto> b1), [])
      | (Inr permit, b1) \<Rightarrow>
          let settle_breaker = (\<lambda>how b. end_permit cfg (ro_finished_at sc) permit how (ro_others sc b)) in
          if map_of (rn_provider_gates rt) name = None
          then (Inl (Failed (configuration_error ''provider has no configured admission gate'')),
                brs(name \<mapsto> settle_breaker Dropped b1), [])
          else
     (case await_controlled ''request was cancelled while waiting for capacity'' (ro_gate sc) of
        Inl e \<Rightarrow> (Inl (Failed e), brs(name \<mapsto> settle_breaker Dropped b1), [])
      | Inr _ \<Rightarrow>
     (case execute_route_admitted (rc_request_limits (rn_config rt)) request request_id route name sc of
        (result, calls) \<Rightarrow> (result, brs(name \<mapsto> settle_breaker (finish_kind result) b1), calls))))))"

section \<open>The routes of a request\<close>

definition request_routes :: "runtime \<Rightarrow> image_request \<Rightarrow> provider_route list" where
  "request_routes rt request =
     \<lparr>route_provider = (case rt_provider (req_routing request) of
         None \<Rightarrow> rg_default (rn_registry rt) | Some p \<Rightarrow> p),
      route_model = rt_model (req_routing request)\<rparr>
     # rt_fallbacks (req_routing request)"

definition duplicate_route_error :: "nat \<Rightarrow> provider_route \<Rightarrow> bridge_error" where
  "duplicate_route_error index route =
     with_detail ''model'' (json_of_option JStr (route_model route))
       (with_detail ''provider'' (JStr (route_provider route))
         (with_detail ''field'' (JStr (''routing.fallbacks['' @ show_nat (index - 1) @ '']''))
           (error_new InvalidRequest ''provider routing contains a duplicate resolved route'')))"

fun check_unique_routes :: "nat \<Rightarrow> provider_route set \<Rightarrow> provider_route list \<Rightarrow> unit result" where
  "check_unique_routes index seen [] = Inr ()"
| "check_unique_routes index seen (route # routes) =
     (if route \<in> seen then Inl (duplicate_route_error index route)
      else check_unique_routes (Suc index) (insert route seen) routes)"

definition success_attempt :: "image_response \<Rightarrow> u64 \<Rightarrow> provider_attempt" where
  "success_attempt response duration =
     \<lparr>at_provider = rs_provider response, at_model = Some (rs_model response),
      at_outcome = Attempt_Succeeded, at_error_code = None, at_duration_ms = duration\<rparr>"

definition failed_attempt :: "provider_route \<Rightarrow> bridge_error \<Rightarrow> u64 \<Rightarrow> provider_attempt" where
  "failed_attempt route e duration =
     \<lparr>at_provider = route_provider route, at_model = route_model route,
      at_outcome = Attempt_Failed, at_error_code = Some (err_code e), at_duration_ms = duration\<rparr>"

definition attempt_outcome_wire :: "attempt_outcome \<Rightarrow> string" where
  "attempt_outcome_wire x =
     (case x of Attempt_Succeeded \<Rightarrow> ''succeeded'' | Attempt_Failed \<Rightarrow> ''failed'')"

text \<open>The serialized form of an attempt: absent options are left out.\<close>

definition attempt_json :: "provider_attempt \<Rightarrow> json" where
  "attempt_json a =
     JObj ([(''provider'', JStr (at_provider a))]
       @ (case at_model a of None \<Rightarrow> [] | Some m \<Rightarrow> [(''model'', JStr m)])
       @ [(''outcome'', JStr (attempt_outcome_wire (at_outcome a)))]
       @ (case at_error_code a of None \<Rightarrow> [] | Some c \<Rightarrow> [(''error_code'', JStr (error_code_wire c))])
       @ [(''duration_ms'', JUInt (at_duration_ms a))])"

definition fallback_note :: "string \<Rightarrow> string \<Rightarrow> normalization" where
  "fallback_note primary provider =
     \<lparr>nz_field = ''routing.provider'', nz_requested = Some (JStr primary),
      nz_effective = Some (JStr provider), nz_reason = ''provider_fallback''\<rparr>"

text \<open>What the leader adds to the response of the route that succeeded.\<close>

definition leader_response ::
  "image_request \<Rightarrow> string \<Rightarrow> nat \<Rightarrow> provider_attempt list \<Rightarrow> u64 \<Rightarrow> u64 \<Rightarrow> image_response \<Rightarrow> image_response" where
  "leader_response request primary index attempts global_queue_ms total_ms response =
     (let fallback = (0 < index) in
      response
        \<lparr>rs_normalizations :=
           (if fallback then [fallback_note primary (rs_provider response)] else []) @ rs_normalizations response,
         rs_warnings := rs_warnings response @ (if fallback then [''provider_fallback_used''] else []),
         rs_attempts := (if rt_fallbacks (req_routing request) \<noteq> [] then attempts else rs_attempts response),
         rs_timings := (rs_timings response)
           \<lparr>tm_queue_ms := sat_add (tm_queue_ms (rs_timings response)) global_queue_ms,
            tm_total_ms := total_ms\<rparr>\<rparr>)"

text \<open>The script of a request; \<open>ls_attach\<close> is the metadata step of the materializer.\<close>

record leader_script =
  ls_global :: "unit race"
  ls_global_queue_ms :: u64
  ls_total_ms :: u64
  ls_routes :: "nat \<Rightarrow> route_script"
  ls_attach :: "image_request \<Rightarrow> image_request \<Rightarrow> image_response \<Rightarrow> image_response result"

text \<open>
  The loop over the routes: its result, the breakers, the attempts it recorded in order, and a
  log of the routes it executed with their results and provider calls.
\<close>

record route_log =
  rl_route :: provider_route
  rl_result :: "failure + route_execution"
  rl_calls :: "dispatch list"

record leader_run =
  lr_result :: "failure + image_response"
  lr_breakers :: breakers
  lr_attempts :: "provider_attempt list"
  lr_log :: "route_log list"

definition routes_exhausted :: "provider_attempt list \<Rightarrow> bridge_error option \<Rightarrow> bridge_error" where
  "routes_exhausted attempts final_error =
     with_detail ''attempts'' (JArr (map attempt_json attempts))
       (case final_error of
          None \<Rightarrow> configuration_error ''provider routing produced no attempts''
        | Some e \<Rightarrow> e)"

fun run_routes ::
  "runtime \<Rightarrow> image_request \<Rightarrow> string \<Rightarrow> string \<Rightarrow> leader_script \<Rightarrow> nat \<Rightarrow> provider_attempt list
   \<Rightarrow> route_log list \<Rightarrow> bridge_error option \<Rightarrow> breakers \<Rightarrow> provider_route list \<Rightarrow> leader_run" where
  "run_routes rt request request_id primary ls index attempts trace final_error brs [] =
     \<lparr>lr_result = Inl (Failed (routes_exhausted attempts final_error)),
      lr_breakers = brs, lr_attempts = attempts, lr_log = trace\<rparr>"
| "run_routes rt request request_id primary ls index attempts trace final_error brs (route # routes) =
     (let sc = ls_routes ls index in
      case execute_route rt request request_id route sc brs of
        (result, brs', calls) \<Rightarrow>
          let trace' = trace @ [\<lparr>rl_route = route, rl_result = result, rl_calls = calls\<rparr>] in
          (case result of
             Inr execution \<Rightarrow>
               let attempts' = attempts @ [success_attempt (re_response execution) (ro_duration_ms sc)];
                   response = leader_response request primary index attempts' (ls_global_queue_ms ls)
                     (ls_total_ms ls) (re_response execution)
               in \<lparr>lr_result = fail_with (ls_attach ls request (re_effective_request execution) response),
                   lr_breakers = brs', lr_attempts = attempts', lr_log = trace'\<rparr>
           | Inl Panicked \<Rightarrow>
               \<lparr>lr_result = Inl Panicked, lr_breakers = brs', lr_attempts = attempts, lr_log = trace'\<rparr>
           | Inl (Failed e) \<Rightarrow>
               let attempts' = attempts @ [failed_attempt route e (ro_duration_ms sc)] in
               if routes = [] \<or> \<not> should_fallback e (rt_fallback_policy (req_routing request))
               then \<lparr>lr_result = Inl (Failed (routes_exhausted attempts' (Some e))),
                     lr_breakers = brs', lr_attempts = attempts', lr_log = trace'\<rparr>
               else run_routes rt request request_id primary ls (Suc index) attempts' trace' (Some e) brs' routes))"

definition execute_leader ::
  "runtime \<Rightarrow> image_request \<Rightarrow> string \<Rightarrow> leader_script \<Rightarrow> breakers \<Rightarrow> leader_run" where
  "execute_leader rt request request_id ls brs =
     (let refused = (\<lambda>e. \<lparr>lr_result = Inl (Failed e), lr_breakers = brs, lr_attempts = [], lr_log = []\<rparr>);
          routes = request_routes rt request
      in (case await_controlled ''request was cancelled while waiting for capacity'' (ls_global ls) of
            Inl e \<Rightarrow> refused e
          | Inr _ \<Rightarrow>
              (case check_unique_routes 0 {} routes of
                 Inl e \<Rightarrow> refused e
               | Inr _ \<Rightarrow>
                   run_routes rt request request_id (route_provider (hd routes)) ls 0 [] [] None brs routes)))"

section \<open>A request with its key\<close>

definition valid_request_id :: "string \<Rightarrow> bool" where
  "valid_request_id v =
     (v \<noteq> [] \<and> length v \<le> 128
      \<and> list_all (\<lambda>c. is_ascii_alphanumeric c \<or> c = CHR ''-'' \<or> c = CHR ''_'' \<or> c = CHR ''.'' \<or> c = CHR '':'') v)"

definition validated_request_id :: "string \<Rightarrow> string option \<Rightarrow> string result" where
  "validated_request_id fresh given =
     (case given of
        None \<Rightarrow> Inr fresh
      | Some v \<Rightarrow>
          if valid_request_id v then Inr v else Inl (error_new InvalidRequest ''request ID is invalid''))"

text \<open>
  The script of a call: the shutdown flag as it is read, a fresh identifier, whether the deadline
  is representable, the instants of the two table operations, what other calls do to the
  table in between, the weight of the response, and the race of a waiter.
\<close>

record call_script =
  cs_shutdown :: bool
  cs_fresh_id :: string
  cs_deadline_fits :: bool
  cs_begun_at :: nat
  cs_other_calls :: "idem_state \<Rightarrow> idem_state"
  cs_ended_at :: nat
  cs_weight :: "usize option"
  cs_wait :: "nat \<Rightarrow> image_response race"
  cs_leader :: leader_script

record execution_context =
  xc_request_id :: "string option"
  xc_scope :: string

definition default_execution_context :: execution_context where
  "default_execution_context = \<lparr>xc_request_id = None, xc_scope = ''default''\<rparr>"

record call_run =
  cr_result :: "failure + image_response"
  cr_breakers :: breakers
  cr_idempotency :: idem_state
  cr_log :: "route_log list"

definition settle_token ::
  "idempotency_config \<Rightarrow> call_script \<Rightarrow> idem_token option \<Rightarrow> failure + image_response \<Rightarrow> idem_state \<Rightarrow> idem_state" where
  "settle_token cfg cs token result st =
     (case token of
        None \<Rightarrow> st
      | Some t \<Rightarrow>
          (case result of
             Inr response \<Rightarrow> idem_complete cfg (cs_ended_at cs) t response (cs_weight cs) (cs_other_calls cs st)
           | Inl (Failed e) \<Rightarrow> idem_fail cfg (cs_ended_at cs) t e (cs_other_calls cs st)
           | Inl Panicked \<Rightarrow> cs_other_calls cs st))"

definition lead ::
  "runtime \<Rightarrow> image_request \<Rightarrow> string \<Rightarrow> idem_token option \<Rightarrow> call_script \<Rightarrow> breakers \<Rightarrow> idem_state \<Rightarrow> call_run"
where
  "lead rt request request_id token cs brs st =
     (let run = execute_leader rt request request_id (cs_leader cs) brs in
      \<lparr>cr_result = lr_result run, cr_breakers = lr_breakers run,
       cr_idempotency = settle_token (rc_idempotency (rn_config rt)) cs token (lr_result run) st,
       cr_log = lr_log run\<rparr>)"

definition execute_with ::
  "runtime \<Rightarrow> (image_request \<Rightarrow> string result) \<Rightarrow> image_request \<Rightarrow> execution_context \<Rightarrow> call_script
   \<Rightarrow> breakers \<Rightarrow> idem_state \<Rightarrow> call_run" where
  "execute_with rt digest request context cs brs st =
     (let answer = (\<lambda>r st'. \<lparr>cr_result = fail_with r, cr_breakers = brs, cr_idempotency = st', cr_log = []\<rparr>) in
      if cs_shutdown cs then answer (Inl (cancelled_error ''runtime is shutting down'')) st
      else
     (case validate_request request (rc_request_limits (rn_config rt)) of
        Inl e \<Rightarrow> answer (Inl e) st
      | Inr _ \<Rightarrow>
     (case validated_request_id (cs_fresh_id cs) (xc_request_id context) of
        Inl e \<Rightarrow> answer (Inl e) st
      | Inr request_id \<Rightarrow>
          if \<not> cs_deadline_fits cs then answer (Inl (configuration_error ''request deadline overflowed'')) st
          else
     (case req_idempotency_key request of
        None \<Rightarrow> lead rt request request_id None cs brs st
      | Some key \<Rightarrow>
     (case idem_begin (rc_idempotency (rn_config rt)) digest (cs_begun_at cs) (xc_scope context) key request st of
        (Inl e, st') \<Rightarrow> answer (Inl e) st'
      | (Inr (Act_Leader token), st') \<Rightarrow> lead rt request request_id (Some token) cs brs st'
      | (Inr (Act_Cached response), st') \<Rightarrow> answer (Inr response) st'
      | (Inr (Act_Wait channel), st') \<Rightarrow>
          answer (await_controlled ''request was cancelled while waiting for idempotent result''
              (cs_wait cs channel)) st')))))"

section \<open>Shutdown\<close>

text \<open>
  The first shutdown closes the gates, waits for the activity to cease for at most the grace
  period, shuts every provider down in name order and stores its result for later ones.
\<close>

definition first_error :: "bridge_error option \<Rightarrow> unit result list \<Rightarrow> bridge_error option" where
  "first_error initial results =
     fold (\<lambda>r acc. case (acc, r) of (None, Inl e) \<Rightarrow> Some e | _ \<Rightarrow> acc) results initial"

definition shutdown_timeout :: bridge_error where
  "shutdown_timeout =
     retryable True (error_new Timeout ''runtime shutdown grace elapsed with active operations'')"

definition runtime_shutdown ::
  "bool \<Rightarrow> (provider \<Rightarrow> unit result) \<Rightarrow> runtime \<Rightarrow> unit result option \<Rightarrow> unit result \<times> runtime" where
  "runtime_shutdown idle_in_time provider_shutdown rt stored =
     (case stored of
        Some result \<Rightarrow> (result, rt)
      | None \<Rightarrow>
          ((case first_error (if idle_in_time then None else Some shutdown_timeout)
               (map (provider_shutdown \<circ> snd) (rg_providers (rn_registry rt))) of
              None \<Rightarrow> Inr ()
            | Some e \<Rightarrow> Inl e),
           rt\<lparr>rn_global_gate := close_gate (rn_global_gate rt),
              rn_provider_gates := map (\<lambda>(n, g). (n, close_gate g)) (rn_provider_gates rt)\<rparr>))"

end
