(* ===== verification/Orchestrator_Properties.thy ===== *)
theory Orchestrator_Properties
  imports Orchestrator Negotiation_Properties Idempotency_Leaders
begin

text \<open>
  The properties of the orchestrator: when a request may move on to another provider, what a
  provider is asked, and how an interrupted call, the fallback policy and the idempotency table
  together keep an operation of unknown outcome from being repeated.
\<close>

section \<open>The log of a run\<close>

lemma polled_simps [simp]:
  "\<not> polled Race_Expired" "polled (Race_Done r)" "polled (Race_External l)" "polled (Race_Shutdown l)"
  "polled (Race_Deadline l)"
  by (simp_all add: polled_def)

text \<open>
  The breakers a route finds: those the routes before it left. A logged route was executed with the script
  of its index and these breakers.
\<close>

fun breakers_after ::
  "runtime \<Rightarrow> image_request \<Rightarrow> string \<Rightarrow> leader_script \<Rightarrow> nat \<Rightarrow> breakers \<Rightarrow> provider_route list \<Rightarrow> breakers" where
  "breakers_after rt request request_id ls index brs [] = brs"
| "breakers_after rt request request_id ls index brs (route # routes) =
     (case execute_route rt request request_id route (ls_routes ls index) brs of
        (_, brs', _) \<Rightarrow> breakers_after rt request request_id ls (Suc index) brs' routes)"

definition logged ::
  "runtime \<Rightarrow> image_request \<Rightarrow> string \<Rightarrow> leader_script \<Rightarrow> nat \<Rightarrow> breakers \<Rightarrow> route_log \<Rightarrow> bool" where
  "logged rt request request_id ls index brs entry \<longleftrightarrow>
     (\<exists>brs'. execute_route rt request request_id (rl_route entry) (ls_routes ls index) brs
        = (rl_result entry, brs', rl_calls entry))"

text \<open>
  The log of a run over some routes: they are the first of the routes in order, every entry but
  the last failed in a way that allows a fallback, and the last one decides the result.
\<close>

definition moved_on :: "fallback_policy \<Rightarrow> route_log \<Rightarrow> bool" where
  "moved_on policy entry \<longleftrightarrow> (\<exists>e. rl_result entry = Inl (Failed e) \<and> should_fallback e policy)"

text \<open>The attempts that a log reports, with the durations of the script; a panic reports none.\<close>

fun attempts_of :: "leader_script \<Rightarrow> nat \<Rightarrow> route_log list \<Rightarrow> provider_attempt list" where
  "attempts_of ls index [] = []"
| "attempts_of ls index (entry # entries) =
     (case rl_result entry of
        Inr execution \<Rightarrow> [success_attempt (re_response execution) (ro_duration_ms (ls_routes ls index))]
      | Inl (Failed e) \<Rightarrow> [failed_attempt (rl_route entry) e (ro_duration_ms (ls_routes ls index))]
      | Inl Panicked \<Rightarrow> [])
     @ attempts_of ls (Suc index) entries"

definition ends_with ::
  "image_request \<Rightarrow> string \<Rightarrow> leader_script \<Rightarrow> nat \<Rightarrow> provider_attempt list \<Rightarrow> route_log
   \<Rightarrow> failure + image_response \<Rightarrow> bool" where
  "ends_with request primary ls index attempts entry result \<longleftrightarrow>
     result = (case rl_result entry of
        Inr execution \<Rightarrow>
          fail_with (ls_attach ls request (re_effective_request execution)
            (leader_response request primary index attempts (ls_global_queue_ms ls) (ls_total_ms ls)
              (re_response execution)))
      | Inl Panicked \<Rightarrow> Inl Panicked
      | Inl (Failed e) \<Rightarrow> Inl (Failed (routes_exhausted attempts (Some e))))"

lemma run_routes_log:
  assumes "run = run_routes rt request request_id primary ls index attempts trace final_error brs routes"
    and "routes \<noteq> []"
  shows "\<exists>new. new \<noteq> [] \<and> lr_log run = trace @ new \<and> length new \<le> length routes
    \<and> map rl_route new = take (length new) routes
    \<and> (\<forall>i. Suc i < length new \<longrightarrow> moved_on (rt_fallback_policy (req_routing request)) (new ! i))
    \<and> (\<forall>i < length new. logged rt request request_id ls (index + i)
         (breakers_after rt request request_id ls index brs (take i routes)) (new ! i))
    \<and> ends_with request primary ls (index + (length new - 1)) (lr_attempts run) (last new) (lr_result run)
    \<and> lr_attempts run = attempts @ attempts_of ls index new
    \<and> (length new < length routes \<longrightarrow>
         \<not> moved_on (rt_fallback_policy (req_routing request)) (last new))"
  using assms
proof (induction routes arbitrary: run index attempts trace final_error brs)
  case (Cons route routes)
  obtain result brs' calls where ex: "execute_route rt request request_id route (ls_routes ls index) brs
      = (result, brs', calls)" using prod_cases3 by blast
  define entry where "entry = \<lparr>rl_route = route, rl_result = result, rl_calls = calls\<rparr>"
  have lg: "logged rt request request_id ls index brs entry"
    unfolding logged_def entry_def using ex by auto
  show ?case
  proof (cases "\<exists>e. result = Inl (Failed e) \<and> routes \<noteq> [] \<and> should_fallback e (rt_fallback_policy (req_routing request))")
    case False
    then show ?thesis
      using Cons.prems(1) ex lg
      by (intro exI [of _ "[entry]"])
        (auto simp: entry_def Let_def ends_with_def moved_on_def
          split: sum.splits failure.splits if_splits)
  next
    case True
    then obtain e where e: "result = Inl (Failed e)" "routes \<noteq> []"
      "should_fallback e (rt_fallback_policy (req_routing request))" by blast
    have "run = run_routes rt request request_id primary ls (Suc index)
        (attempts @ [failed_attempt route e (ro_duration_ms (ls_routes ls index))]) (trace @ [entry])
        (Some e) brs' routes"
      using Cons.prems(1) ex e by (simp add: entry_def Let_def)
    from Cons.IH [OF this e(2)] obtain new where new: "new \<noteq> []" "lr_log run = trace @ entry # new"
      "length new \<le> length routes" "map rl_route new = take (length new) routes"
      "\<forall>i. Suc i < length new \<longrightarrow> moved_on (rt_fallback_policy (req_routing request)) (new ! i)"
      "\<forall>i < length new. logged rt request request_id ls (Suc index + i)
         (breakers_after rt request request_id ls (Suc index) brs' (take i routes)) (new ! i)"
      "ends_with request primary ls (Suc index + (length new - 1)) (lr_attempts run) (last new) (lr_result run)"
      "lr_attempts run = attempts @ [failed_attempt route e (ro_duration_ms (ls_routes ls index))]
        @ attempts_of ls (Suc index) new"
      "length new < length routes \<longrightarrow> \<not> moved_on (rt_fallback_policy (req_routing request)) (last new)"
      by auto
    have m: "moved_on (rt_fallback_policy (req_routing request)) entry"
      using e by (simp add: moved_on_def entry_def)
    have "moved_on (rt_fallback_policy (req_routing request)) ((entry # new) ! i)"
      if "Suc i < length (entry # new)" for i
      using that m new(5) by (cases i) auto
    moreover have "logged rt request request_id ls (index + i)
        (breakers_after rt request request_id ls index brs (take i (route # routes))) ((entry # new) ! i)"
      if "i < length (entry # new)" for i
      using that lg new(6) ex by (cases i) auto
    moreover have "ends_with request primary ls (index + (length (entry # new) - 1)) (lr_attempts run)
        (last (entry # new)) (lr_result run)"
      using new(1,7) by (cases new) auto
    moreover have "lr_attempts run = attempts @ attempts_of ls index (entry # new)"
      using new(8) e by (simp add: entry_def)
    ultimately show ?thesis using new(1-4,9)
      by (intro exI [of _ "entry # new"]) (auto simp: entry_def)
  qed
qed simp

lemma check_unique_routes_Inr:
  "check_unique_routes i seen routes = Inr () \<longleftrightarrow> distinct routes \<and> seen \<inter> set routes = {}"
  by (induction routes arbitrary: i seen) auto

lemma await_controlled_Inr: "await_controlled m r = Inr a \<longleftrightarrow> r = Race_Done (Inr a)"
  by (cases r) (auto simp: await_controlled_def)

lemma request_routes_nonempty [simp]: "request_routes rt request \<noteq> []"
  by (simp add: request_routes_def)

text \<open>An executed leader got its global permit and its routes are distinct, or it did nothing.\<close>

lemma execute_leader_cases:
  obtains (refused) e where "execute_leader rt request request_id ls brs =
      \<lparr>lr_result = Inl (Failed e), lr_breakers = brs, lr_attempts = [], lr_log = []\<rparr>"
  | (ran) "ls_global ls = Race_Done (Inr ())" "distinct (request_routes rt request)"
    "execute_leader rt request request_id ls brs =
       run_routes rt request request_id (route_provider (hd (request_routes rt request))) ls 0 [] [] None brs
         (request_routes rt request)"
proof (cases "\<exists>e. execute_leader rt request request_id ls brs =
      \<lparr>lr_result = Inl (Failed e), lr_breakers = brs, lr_attempts = [], lr_log = []\<rparr>")
  case False
  then have "ls_global ls = Race_Done (Inr ())"
    "check_unique_routes 0 {} (request_routes rt request) = Inr ()"
    by (auto simp: execute_leader_def Let_def await_controlled_Inr split: sum.splits)
  with ran show thesis
    by (simp add: execute_leader_def Let_def await_controlled_def check_unique_routes_Inr)
qed (use refused in blast)

lemma execute_leader_log:
  assumes "run = execute_leader rt request request_id ls brs" and "lr_log run \<noteq> []"
  shows "distinct (map rl_route (lr_log run))
    \<and> map rl_route (lr_log run) = take (length (lr_log run)) (request_routes rt request)
    \<and> (\<forall>i. Suc i < length (lr_log run) \<longrightarrow>
         moved_on (rt_fallback_policy (req_routing request)) (lr_log run ! i))
    \<and> (\<forall>i < length (lr_log run). logged rt request request_id ls i
         (breakers_after rt request request_id ls 0 brs (take i (request_routes rt request))) (lr_log run ! i))
    \<and> ends_with request (route_provider (hd (request_routes rt request))) ls (length (lr_log run) - 1)
        (lr_attempts run) (last (lr_log run)) (lr_result run)
    \<and> lr_attempts run = attempts_of ls 0 (lr_log run)
    \<and> (length (lr_log run) < length (request_routes rt request) \<longrightarrow>
         \<not> moved_on (rt_fallback_policy (req_routing request)) (last (lr_log run)))"
proof (cases rule: execute_leader_cases [of rt request request_id ls brs])
  case (refused e)
  then show ?thesis using assms by simp
next
  case ran
  with assms(1) have run: "run = run_routes rt request request_id (route_provider (hd (request_routes rt request)))
      ls 0 [] [] None brs (request_routes rt request)" by simp
  from run_routes_log [OF this request_routes_nonempty] ran(2) show ?thesis
    by (auto simp: distinct_take)
qed

lemma execute_leader_empty:
  assumes "run = execute_leader rt request request_id ls brs" and "lr_log run = []"
  shows "\<exists>e. lr_result run = Inl (Failed e)"
proof (cases rule: execute_leader_cases [of rt request request_id ls brs])
  case (refused e)
  then show ?thesis using assms by simp
next
  case ran
  with assms(1) have run: "run = run_routes rt request request_id (route_provider (hd (request_routes rt request)))
      ls 0 [] [] None brs (request_routes rt request)" by simp
  from run_routes_log [OF this request_routes_nonempty] assms(2) show ?thesis by auto
qed

section \<open>Provider calls\<close>

lemma fail_with_Failed [simp]: "fail_with r = Inl (Failed e) \<longleftrightarrow> r = Inl e"
  by (cases r) (auto simp: fail_with_def)

lemma fail_with_not_panicked [simp]: "fail_with r \<noteq> Inl Panicked"
  by (cases r) (auto simp: fail_with_def)

text \<open>A route with a provider call passed the breaker, the gate, the discovery and the negotiation.\<close>

lemma execute_route_call:
  assumes "execute_route rt request request_id route sc brs = (result, brs', calls)" "calls \<noteq> []"
  shows "\<exists>p b b1 permit pr name.
    name = pd_name (pv_descriptor p)
    \<and> resolve_provider (rn_registry rt) (Some (route_provider route)) = Inr p
    \<and> brs name = Some b
    \<and> acquire (breaker_config (rn_config rt) name) name (ro_acquired_at sc) b = (Inr permit, b1)
    \<and> ro_gate sc = Race_Done (Inr ())
    \<and> prepare_route (rc_request_limits (rn_config rt)) request route name (ro_capabilities sc) = Inr pr
    \<and> polled (ro_execute sc (ng_effective_request (pr_negotiated pr)))
    \<and> calls = [(name, ng_effective_request (pr_negotiated pr))]
    \<and> result = fail_with (and_then (map_err (attach_provider name)
         (await_provider_execution (ro_execute sc (ng_effective_request (pr_negotiated pr)))))
       (deliver_route request_id name request pr sc))"
  using assms
  by (auto simp: execute_route_def execute_route_admitted_def Let_def await_controlled_Inr
      split: sum.splits option.splits prod.splits if_splits)

lemma execute_route_calls_le: "execute_route rt request request_id route sc brs = (result, brs', calls) \<Longrightarrow> length calls \<le> 1"
  by (cases "calls = []") (auto dest!: execute_route_call)

lemma map_err_Inr [simp]: "map_err f r = Inr a \<longleftrightarrow> r = Inr a"
  by (cases r) (auto simp: map_err_def)

lemma map_err_Inl: "map_err f r = Inl e \<longleftrightarrow> (\<exists>e0. r = Inl e0 \<and> e = f e0)"
  by (cases r) (auto simp: map_err_def)

lemma prepare_route_Inr:
  "prepare_route limits request route name discovery = Inr pr \<longleftrightarrow>
     discovery = Race_Done (Inr (pr_capabilities pr)) \<and> pc_provider (pr_capabilities pr) = name
     \<and> prepare_transparency (routed_request request route) (pr_capabilities pr) = Inr (pr_transparency pr)
     \<and> validate_request (pt_provider_request (pr_transparency pr)) limits = Inr ()
     \<and> negotiate_request (pt_provider_request (pr_transparency pr)) (pr_capabilities pr) = Inr (pr_negotiated pr)"
  by (cases pr) (auto simp: prepare_route_def result_simps fail_with_Inr_iff await_controlled_Inr)

lemma upd_params_frame:
  "(upd_params f q)\<lparr>req_prompt := x\<rparr> = r \<Longrightarrow> req_routing q = req_routing r"
  by (auto simp: upd_params_def)

lemma same_frame_routing: "same_frame r r' \<Longrightarrow> req_routing r' = req_routing r"
proof -
  assume "same_frame r r'"
  then have "r' = r\<lparr>req_parameters := req_parameters r', req_prompt := req_prompt r',
      req_negative_prompt := req_negative_prompt r'\<rparr>" unfolding same_frame_def by blast
  then have "req_routing r' = req_routing (r\<lparr>req_parameters := req_parameters r', req_prompt := req_prompt r',
      req_negative_prompt := req_negative_prompt r'\<rparr>)" by (rule arg_cong)
  then show ?thesis by simp
qed

lemma prepared_routing:
  assumes "prepare_transparency r c = Inr p"
  shows "req_routing (pt_provider_request p) = req_routing r"
proof (cases "pt_plan p")
  case None
  then show ?thesis using prepare_plain [OF assms] by simp
next
  case (Some opts)
  from prepare_keyed [OF assms this] show ?thesis
    unfolding keyed_request_def by (elim conjE) (rule upd_params_frame)
qed

section \<open>Interrupted calls\<close>

lemma within_grace_interruption:
  "interruption code \<Longrightarrow> within_grace code message late = Inl e \<Longrightarrow> interruption (err_code e) \<Longrightarrow> outcome_unknown e"
  by (auto simp: within_grace_def unknown_outcome_error_def outcome_unknown_def split: option.splits sum.splits if_splits)

text \<open>A provider call that was polled and ends in a timeout or a cancellation has an unknown outcome.\<close>

lemma polled_interruption_unknown:
  assumes "polled r" "await_provider_execution r = Inl e" "interruption (err_code e)"
  shows "outcome_unknown e"
proof (cases r)
  case (Race_Done result)
  with assms show ?thesis
    by (auto simp: await_provider_execution_def classify_provider_execution_result_def outcome_unknown_def
        split: sum.splits if_splits)
next
  case (Race_External late)
  with assms show ?thesis
    by (auto simp: await_provider_execution_def interruption_def intro: within_grace_interruption)
next
  case (Race_Shutdown late)
  with assms show ?thesis
    by (auto simp: await_provider_execution_def interruption_def intro: within_grace_interruption)
next
  case (Race_Deadline late)
  with assms show ?thesis
    by (auto simp: await_provider_execution_def interruption_def intro: within_grace_interruption)
qed (use assms in simp)

lemma attach_provider_simps [simp]:
  "err_code (attach_provider n e) = err_code e" "err_details (attach_provider n e) = err_details e"
  "err_retryable (attach_provider n e) = err_retryable e"
  by (simp_all add: attach_provider_def)

lemma outcome_unknown_attach [simp]: "outcome_unknown (attach_provider n e) = outcome_unknown e"
  by (simp add: outcome_unknown_def)

lemma outcome_unknown_attempts [simp]:
  "outcome_unknown (with_detail ''attempts'' v e) = outcome_unknown e"
  by (simp add: outcome_unknown_def)

text \<open>
  A race that leaves the outcome open: the provider itself reports a timeout or a cancellation, or the
  caller, the shutdown or the deadline interrupts the call and within the grace period nothing arrives but
  perhaps a timeout or a cancellation. A value or another error that arrives in time settles the outcome.
\<close>

definition nothing_known :: "'a result option \<Rightarrow> bool" where
  "nothing_known late \<longleftrightarrow>
     (case late of None \<Rightarrow> True | Some (Inr _) \<Rightarrow> False | Some (Inl e) \<Rightarrow> interruption (err_code e))"

definition unresolved :: "'a race \<Rightarrow> bool" where
  "unresolved r \<longleftrightarrow>
     (case r of
        Race_Expired \<Rightarrow> False
      | Race_Done result \<Rightarrow> nothing_known (Some result)
      | Race_External late \<Rightarrow> nothing_known late
      | Race_Shutdown late \<Rightarrow> nothing_known late
      | Race_Deadline late \<Rightarrow> nothing_known late)"

definition unresolved_call :: "leader_script \<Rightarrow> nat \<Rightarrow> route_log \<Rightarrow> bool" where
  "unresolved_call ls index entry \<longleftrightarrow>
     (\<exists>(name, q) \<in> set (rl_calls entry). unresolved (ro_execute (ls_routes ls index) q))"

lemma unresolved_interruption:
  assumes "unresolved r"
  shows "\<exists>e. await_provider_execution r = Inl e \<and> interruption (err_code e)"
  using assms
  by (auto simp: unresolved_def nothing_known_def await_provider_execution_def within_grace_def
      classify_provider_execution_result_def unknown_outcome_error_def interruption_def
      split: race.splits option.splits sum.splits)

lemma interrupted_route:
  assumes "logged rt request request_id ls i brs entry" "unresolved_call ls i entry"
  obtains e where "rl_result entry = Inl (Failed e)" "outcome_unknown e"
proof -
  from assms(1) obtain brs' where ex: "execute_route rt request request_id (rl_route entry) (ls_routes ls i) brs
      = (rl_result entry, brs', rl_calls entry)" by (auto simp: logged_def)
  from assms(2) have "rl_calls entry \<noteq> []" by (auto simp: unresolved_call_def)
  from execute_route_call [OF ex this] obtain name pr where call:
    "polled (ro_execute (ls_routes ls i) (ng_effective_request (pr_negotiated pr)))"
    "rl_calls entry = [(name, ng_effective_request (pr_negotiated pr))]"
    "rl_result entry = fail_with (and_then (map_err (attach_provider name)
         (await_provider_execution (ro_execute (ls_routes ls i) (ng_effective_request (pr_negotiated pr)))))
       (deliver_route request_id name request pr (ls_routes ls i)))"
    by blast
  from assms(2) call(2) obtain e where e:
    "await_provider_execution (ro_execute (ls_routes ls i) (ng_effective_request (pr_negotiated pr))) = Inl e"
    "interruption (err_code e)" using unresolved_interruption by (fastforce simp: unresolved_call_def)
  with call(3) have "rl_result entry = Inl (Failed (attach_provider name e))"
    by (simp add: map_err_def)
  moreover have "outcome_unknown e" by (rule polled_interruption_unknown [OF call(1) e])
  ultimately show thesis using that [of "attach_provider name e"] by simp
qed

section \<open>The fallback policy\<close>

lemma should_fallback_known:
  "should_fallback e policy \<Longrightarrow>
     \<not> outcome_unknown e \<and> \<not> never_rerouted (err_code e) \<and> \<not> interruption (err_code e)
     \<and> (policy = Fallback_Policy_OnUnavailable \<longrightarrow> unavailable (err_code e))"
  by (cases "err_code e")
    (auto simp: should_fallback_def never_rerouted_def unavailable_def failed_after_dispatch_def
      interruption_def split: if_splits)

lemma leader_response_attempts:
  "rt_fallbacks (req_routing request) \<noteq> []
   \<Longrightarrow> rs_attempts (leader_response request primary index attempts queued elapsed response) = attempts"
  by (simp add: leader_response_def Let_def)

lemma ends_with_Inr:
  assumes "ends_with request primary ls index attempts entry (Inr response)"
  shows "\<exists>execution :: route_execution. ls_attach ls request (re_effective_request execution)
    (leader_response request primary index attempts (ls_global_queue_ms ls) (ls_total_ms ls) (re_response execution))
    = Inr response"
proof (cases "rl_result entry")
  case (Inl f)
  with assms show ?thesis by (simp add: ends_with_def split: failure.splits)
next
  case (Inr execution)
  with assms show ?thesis
    by (intro exI [of _ execution]) (simp add: ends_with_def eq_commute [of "Inr response"] fail_with_Inr_iff)
qed

text \<open>C4. A request moves on to another route only after a failure of known outcome that is neither a
  refusal of the request, of the permissions or of safety, nor a timeout or a cancellation, and under
  the policy \<open>on_unavailable\<close> only when the route was unavailable. The routes tried are the first
  of the requested ones, in order and without repetition, and they end early only where no fallback is
  allowed; each calls its provider at most once. Every route tried is reported as an attempt: in the
  response when fallbacks were requested, and in the details of the error otherwise, which is that of the
  last route. Of the metadata step only that it leaves the attempts alone is used.\<close>

theorem fallback_only_after_known_failure:
  assumes "run = execute_leader rt request request_id ls brs"
    and "\<forall>effective response delivered. ls_attach ls request effective response = Inr delivered
      \<longrightarrow> rs_attempts delivered = rs_attempts response"
  shows "(\<forall>i. Suc i < length (lr_log run) \<longrightarrow>
       (\<exists>e. rl_result (lr_log run ! i) = Inl (Failed e) \<and> \<not> outcome_unknown e
          \<and> \<not> never_rerouted (err_code e) \<and> \<not> interruption (err_code e)
          \<and> (rt_fallback_policy (req_routing request) = Fallback_Policy_OnUnavailable \<longrightarrow> unavailable (err_code e))))
    \<and> distinct (map rl_route (lr_log run))
    \<and> map rl_route (lr_log run) = take (length (lr_log run)) (request_routes rt request)
    \<and> (\<forall>e. lr_log run \<noteq> [] \<and> length (lr_log run) < length (request_routes rt request)
         \<and> rl_result (last (lr_log run)) = Inl (Failed e)
         \<longrightarrow> \<not> should_fallback e (rt_fallback_policy (req_routing request)))
    \<and> (\<forall>entry \<in> set (lr_log run). length (rl_calls entry) \<le> 1)
    \<and> (\<forall>response. lr_result run = Inr response \<and> rt_fallbacks (req_routing request) \<noteq> []
         \<longrightarrow> rs_attempts response = attempts_of ls 0 (lr_log run))
    \<and> (\<forall>e. lr_log run \<noteq> [] \<and> rl_result (last (lr_log run)) = Inl (Failed e) \<longrightarrow>
         lr_result run = Inl (Failed
           (with_detail ''attempts'' (JArr (map attempt_json (attempts_of ls 0 (lr_log run)))) e)))"
proof (cases "lr_log run = []")
  case True
  then have "\<exists>e. lr_result run = Inl (Failed e)" by (rule execute_leader_empty [OF assms(1)])
  with True show ?thesis by auto
next
  case False
  note log = execute_leader_log [OF assms(1) False]
  have "\<exists>e. rl_result (lr_log run ! i) = Inl (Failed e) \<and> \<not> outcome_unknown e
      \<and> \<not> never_rerouted (err_code e) \<and> \<not> interruption (err_code e)
      \<and> (rt_fallback_policy (req_routing request) = Fallback_Policy_OnUnavailable \<longrightarrow> unavailable (err_code e))"
    if "Suc i < length (lr_log run)" for i
    using that log should_fallback_known unfolding moved_on_def by blast
  moreover have "length (rl_calls entry) \<le> 1" if "entry \<in> set (lr_log run)" for entry
    using that log execute_route_calls_le unfolding logged_def in_set_conv_nth by metis
  moreover have "lr_result run = Inl (Failed
      (with_detail ''attempts'' (JArr (map attempt_json (attempts_of ls 0 (lr_log run)))) e))"
    if "rl_result (last (lr_log run)) = Inl (Failed e)" for e
    using that log by (simp add: ends_with_def routes_exhausted_def)
  moreover have "rs_attempts response = attempts_of ls 0 (lr_log run)"
    if "lr_result run = Inr response" "rt_fallbacks (req_routing request) \<noteq> []" for response
  proof -
    from log that(1) have "ends_with request (route_provider (hd (request_routes rt request))) ls
        (length (lr_log run) - 1) (lr_attempts run) (last (lr_log run)) (Inr response)" by metis
    from ends_with_Inr [OF this] obtain execution :: route_execution where
      "ls_attach ls request (re_effective_request execution)
         (leader_response request (route_provider (hd (request_routes rt request))) (length (lr_log run) - 1)
           (lr_attempts run) (ls_global_queue_ms ls) (ls_total_ms ls) (re_response execution)) = Inr response"
      by blast
    with assms(2) have "rs_attempts response = lr_attempts run"
      using leader_response_attempts [OF that(2)] by metis
    with log show ?thesis by simp
  qed
  ultimately show ?thesis using log unfolding moved_on_def by blast
qed

text \<open>C5. A provider is called only with a request it has declared to support: the discovery answered
  for this provider, the request routed to it was prepared for its transparency support, is valid
  and was negotiated; its operation, inputs, mask, model, session, user and every parameter are
  supported by the declared capabilities, and it names the route and no fallback. The circuit breaker of
  the provider, in the state the routes tried before had left it, and its gate had admitted the call.\<close>

theorem provider_call_supported:
  assumes "run = execute_leader rt request request_id ls brs"
    and "registered_ok (rg_providers (rn_registry rt))"
    and "i < length (lr_log run)" and "(name, q) \<in> set (rl_calls (lr_log run ! i))"
  shows "\<exists>c p. name = route_provider (rl_route (lr_log run ! i))
    \<and> ro_capabilities (ls_routes ls i) = Race_Done (Inr c) \<and> pc_provider c = name
    \<and> ro_gate (ls_routes ls i) = Race_Done (Inr ())
    \<and> (\<exists>b permit b'. breakers_after rt request request_id ls 0 brs (take i (request_routes rt request)) name = Some b
         \<and> acquire (breaker_config (rn_config rt) name) name (ro_acquired_at (ls_routes ls i)) b = (Inr permit, b'))
    \<and> prepare_transparency (routed_request request (rl_route (lr_log run ! i))) c = Inr p
    \<and> validate_request (pt_provider_request p) (rc_request_limits (rn_config rt)) = Inr ()
    \<and> request_supported c q \<and> same_frame (pt_provider_request p) q
    \<and> rt_provider (req_routing q) = Some name \<and> rt_model (req_routing q) = route_model (rl_route (lr_log run ! i))
    \<and> rt_fallbacks (req_routing q) = []"
proof -
  have "lr_log run \<noteq> []" using assms(3) by auto
  with execute_leader_log [OF assms(1)] assms(3)
  obtain br' where ex: "execute_route rt request request_id (rl_route (lr_log run ! i)) (ls_routes ls i)
      (breakers_after rt request request_id ls 0 brs (take i (request_routes rt request))) = (rl_result (lr_log run ! i), br', rl_calls (lr_log run ! i))" by (auto simp: logged_def)
  have "rl_calls (lr_log run ! i) \<noteq> []" using assms(4) by auto
  from execute_route_call [OF ex this] obtain p b b1 permit pr n where call:
    "n = pd_name (pv_descriptor p)"
    "resolve_provider (rn_registry rt) (Some (route_provider (rl_route (lr_log run ! i)))) = Inr p"
    "breakers_after rt request request_id ls 0 brs (take i (request_routes rt request)) n = Some b"
    "acquire (breaker_config (rn_config rt) n) n (ro_acquired_at (ls_routes ls i)) b = (Inr permit, b1)"
    "ro_gate (ls_routes ls i) = Race_Done (Inr ())"
    "prepare_route (rc_request_limits (rn_config rt)) request (rl_route (lr_log run ! i)) n
       (ro_capabilities (ls_routes ls i)) = Inr pr"
    "rl_calls (lr_log run ! i) = [(n, ng_effective_request (pr_negotiated pr))]"
    by blast
  have n: "name = route_provider (rl_route (lr_log run ! i))" "n = name"
    and q: "q = ng_effective_request (pr_negotiated pr)"
    using call(1,7) assms(4) resolve_provider_name [OF assms(2) call(2)] by auto
  note pr = call(6) [unfolded prepare_route_Inr n(2)]
  then have "negotiate_request (pt_provider_request (pr_transparency pr)) (pr_capabilities pr) = Inr (pr_negotiated pr)"
    by blast
  note neg = negotiate_supported [OF this, folded q]
  then have "req_routing q = req_routing (routed_request request (rl_route (lr_log run ! i)))"
    using prepared_routing pr by (metis (no_types, lifting) same_frame_routing)
  with neg pr call(3-5) n show ?thesis
    by (intro exI [of _ "pr_capabilities pr"] exI [of _ "pr_transparency pr"]) (auto simp: routed_request_def)
qed

section \<open>Interrupted calls and the idempotency table\<close>

text \<open>An interrupted provider call is the last of its run, and the error of the run is of unknown outcome.\<close>

lemma interrupted_run_unknown:
  assumes "run = execute_leader rt request request_id ls brs"
    and "i < length (lr_log run)" "unresolved_call ls i (lr_log run ! i)"
  shows "Suc i = length (lr_log run) \<and> (\<exists>e. lr_result run = Inl (Failed e) \<and> outcome_unknown e)"
proof -
  from assms(2) have "lr_log run \<noteq> []" by auto
  note log = execute_leader_log [OF assms(1) this]
  from log assms(2) have "logged rt request request_id ls i
      (breakers_after rt request request_id ls 0 brs (take i (request_routes rt request))) (lr_log run ! i)" by blast
  from interrupted_route [OF this assms(3)] obtain e
    where e: "rl_result (lr_log run ! i) = Inl (Failed e)" "outcome_unknown e" .
  have last: "Suc i = length (lr_log run)"
  proof (rule ccontr)
    assume "Suc i \<noteq> length (lr_log run)"
    with assms(2) log have "moved_on (rt_fallback_policy (req_routing request)) (lr_log run ! i)" by simp
    with e show False using should_fallback_known by (auto simp: moved_on_def)
  qed
  then have "lr_log run ! i = List.last (lr_log run)"
    using \<open>lr_log run \<noteq> []\<close> by (simp add: last_conv_nth flip: last)
  with e log have "lr_result run = Inl (Failed (routes_exhausted (lr_attempts run) (Some e)))"
    by (simp add: ends_with_def)
  moreover have "outcome_unknown (routes_exhausted (lr_attempts run) (Some e))"
    using e(2) by (simp add: routes_exhausted_def)
  ultimately show ?thesis using last by blast
qed

lemma execute_with_leads:
  assumes "run = execute_with rt digest request ctx cs brs st" "cr_log run \<noteq> []"
    and "req_idempotency_key request = Some key"
  obtains token st' request_id where
    "idem_begin (rc_idempotency (rn_config rt)) digest (cs_begun_at cs) (xc_scope ctx) key request st
       = (Inr (Act_Leader token), st')"
    "run = lead rt request request_id (Some token) cs brs st'"
  using assms that
  by (auto simp: execute_with_def Let_def split: if_splits sum.splits prod.splits idem_action.splits)

text \<open>C3. A provider call of open outcome is never repeated. When a keyed request leads its key and its call
  of a provider leaves the outcome open - the provider reports a timeout or a cancellation, or the caller,
  the deadline or the shutdown interrupts it and nothing but such a report arrives within the grace
  period - no fallback is tried and the request fails with an unknown outcome. Until its tombstone expires
  every request with the same key and body is answered with that error and none leads the key. This holds in
  every run of the coordinator whose leaders stay within the in-flight period, where the request is
  still a leader at work when it fails.\<close>

theorem interrupted_call_never_repeated:
  assumes "idem_new icfg = Inr st0" and "ic_max_completed_bytes icfg < usize_max"
    and "icfg = rc_idempotency (rn_config rt)"
    and "leader_steps icfg digest horizon (st0, {#}) (st, workers)" and "in_time icfg (cs_begun_at cs) workers"
    and "run = execute_with rt digest request ctx cs brs st" and "req_idempotency_key request = Some key"
    and "idem_begin icfg digest (cs_begun_at cs) (xc_scope ctx) key request st = (Inr (Act_Leader token), st1)"
    and "leader_steps icfg digest horizon1 (st1, add_mset (token, cs_begun_at cs) workers)
        (cs_other_calls cs st1, workers1)"
    and "(token, cs_begun_at cs) \<in># workers1"
    and "i < length (cr_log run)" and "unresolved_call (cs_leader cs) i (cr_log run ! i)"
    and "leader_steps icfg digest (cs_ended_at cs + ic_unknown_ttl icfg)
        (cr_idempotency run, workers1 - {#(token, cs_begun_at cs)#}) (st2, workers2)"
    and "later < cs_ended_at cs + ic_unknown_ttl icfg"
  shows "Suc i = length (cr_log run)
    \<and> (\<exists>e. cr_result run = Inl (Failed e) \<and> outcome_unknown e
        \<and> fst (idem_begin icfg digest later (xc_scope ctx) key request st2)
            = Inl (with_detail ''outcome'' (JStr ''unknown'') (retryable False e)))
    \<and> leaders_of \<lparr>rk_scope = xc_scope ctx, rk_key = key\<rparr> workers2 = {#}"
proof -
  have "cr_log run \<noteq> []" using assms(11) by auto
  from execute_with_leads [OF assms(6) this assms(7)] assms(8) obtain request_id where
    run: "run = lead rt request request_id (Some token) cs brs st1" by (auto simp: assms(3))
  define lrun where "lrun = execute_leader rt request request_id (cs_leader cs) brs"
  have "cr_log run = lr_log lrun" "cr_result run = lr_result lrun"
    by (simp_all add: run lead_def Let_def lrun_def)
  with interrupted_run_unknown [OF lrun_def] assms(11,12) obtain e where
    last: "Suc i = length (cr_log run)" and e: "cr_result run = Inl (Failed e)" "outcome_unknown e"
    by auto
  note new = idem_new_leaders [OF assms(1)]
  have ok: "leaders_ok icfg (st, workers)" by (rule leaders_ok_steps [OF assms(4) new(1) assms(2) new(2)])
  have "leader_step icfg digest (Suc (cs_begun_at cs)) (st, workers)
      (st1, elected (Inr (Act_Leader token)) (cs_begun_at cs) workers)"
    by (rule Begin [OF assms(8) lessI assms(5)])
  from leaders_ok_step [OF this ok assms(2) new(2)]
  have "leaders_ok icfg (st1, add_mset (token, cs_begun_at cs) workers)" by (simp add: elected_def)
  from leaders_ok_steps [OF assms(9) this assms(2) new(2)]
  have ok1: "leaders_ok icfg (cs_other_calls cs st1, workers1)" .
  have tab: "table_ok st" using ok by (simp add: leaders_ok_def)
  from begin_leader_entry [OF tab assms(8)]
  have key: "tk_record_key token = \<lparr>rk_scope = xc_scope ctx, rk_key = key\<rparr>"
    and fp: "request_fingerprint digest request = Inr (tk_fingerprint token)" by metis+
  have settled: "cr_idempotency run = idem_fail icfg (cs_ended_at cs) token e (cs_other_calls cs st1)"
    using e(1) by (simp add: run lead_def Let_def settle_token_def assms(3))
  from buried_after [OF ok1 assms(10) e(2) assms(13) [unfolded settled] assms(2) new(2) assms(14) key fp]
  show ?thesis using last e by blast
qed

section \<open>A late result\<close>

text \<open>A result that arrives after the deadline is lost without a trace: when the deadline interrupts a
  provider call and the provider returns its images within the grace period, the images are accepted
  from the provider but their delivery finds the deadline elapsed, and the request fails with a timeout
  that is marked retryable and not of unknown outcome, so that the idempotency key is free again.\<close>

lemma late_result_discarded:
  assumes "prepare_route limits request route name (ro_capabilities sc) = Inr p"
    and "ro_execute sc (ng_effective_request (pr_negotiated p)) = Race_Deadline (Some (Inr response))"
    and "check_response_model (pr_capabilities p) name response = Inr ()"
    and "\<And>reported effective plan. ro_materialize sc reported request effective plan = Race_Expired"
  shows "execute_route_admitted limits request request_id route name sc
      = (Inl (Failed deadline_error), [(name, ng_effective_request (pr_negotiated p))])
    \<and> err_retryable deadline_error \<and> \<not> outcome_unknown deadline_error
    \<and> (token_entry token st \<noteq> None \<longrightarrow>
         lookup_entry (tk_record_key token) (idem_fail icfg now token deadline_error st) = None)"
proof -
  have deadline: "err_retryable deadline_error" "\<not> outcome_unknown deadline_error"
    by (simp_all add: deadline_error_def outcome_unknown_def)
  moreover have "lookup_entry (tk_record_key token) (idem_fail icfg now token deadline_error st) = None"
    if "token_entry token st \<noteq> None"
    using that deadline(2)
    by (auto simp: idem_fail_def Let_def token_entry_def remove_entry_def lookup_entry_def map_of_eq_None_iff
        send_replace_def
        split: option.splits if_splits)
  ultimately show ?thesis
    using assms
    by (auto simp: execute_route_admitted_def Let_def await_provider_execution_def within_grace_def map_err_def
        deliver_route_def await_controlled_def fail_with_def)
qed

section \<open>A concrete runtime\<close>

definition demo_provider :: provider where
  "demo_provider = \<lparr>pv_descriptor = \<lparr>pd_name = ''codex-app-server'', pd_display_name = ''Codex'',
     pd_version = ''1'', pd_experimental = True, pd_models = []\<rparr>,
     pv_capabilities = (\<lambda>_. Inr app_server_capabilities), pv_ready = Inr ()\<rparr>"

definition demo_registry :: registry where
  "demo_registry = \<lparr>rg_providers = [(''codex-app-server'', demo_provider)], rg_default = ''codex-app-server''\<rparr>"

definition demo_runtime :: runtime where
  "demo_runtime = \<lparr>rn_registry = demo_registry, rn_config = default_runtime_config, rn_global_gate = single_gate,
     rn_provider_gates = [(''codex-app-server'', single_gate)], rn_circuit_breakers = [],
     rn_idempotency = \<lparr>st_entries = [], st_completed_bytes = 0, st_access_clock = 0,
       st_channels = (\<lambda>_. Out_Pending), st_next_channel = 0\<rparr>\<rparr>"

definition demo_breakers :: breakers where
  "demo_breakers = [''codex-app-server'' \<mapsto>
     \<lparr>ci_phase = Phase_Closed 0, ci_epoch = 0, ci_rejected_calls = 0, ci_transitions = 0\<rparr>]"

definition demo_request :: image_request where
  "demo_request = (request_generate ''p'')\<lparr>req_idempotency_key := Some ''k''\<rparr>"

text \<open>The provider is interrupted by the deadline; \<open>late\<close> is what it still returns.\<close>

definition demo_script :: "image_response result option \<Rightarrow> route_script" where
  "demo_script late = \<lparr>ro_acquired_at = 1, ro_gate = Race_Done (Inr ()),
     ro_capabilities = Race_Done (Inr app_server_capabilities), ro_execute = (\<lambda>_. Race_Deadline late),
     ro_materialize = (\<lambda>_ _ _ _. Race_Expired), ro_others = (\<lambda>b. b), ro_finished_at = 2,
     ro_queue_ms = 0, ro_provider_ms = 5, ro_artifact_ms = 0, ro_duration_ms = 6\<rparr>"

definition demo_leader :: "image_response result option \<Rightarrow> leader_script" where
  "demo_leader late = \<lparr>ls_global = Race_Done (Inr ()), ls_global_queue_ms = 0, ls_total_ms = 7,
     ls_routes = (\<lambda>_. demo_script late), ls_attach = (\<lambda>_ _ response. Inr response)\<rparr>"

definition demo_route :: provider_route where
  "demo_route = \<lparr>route_provider = ''codex-app-server'', route_model = None\<rparr>"

lemma demo_routes: "request_routes demo_runtime demo_request = [demo_route]"
  by (simp add: request_routes_def demo_runtime_def demo_registry_def demo_request_def demo_route_def
      request_defaults)

lemma demo_prepared:
  "\<exists>pr. prepare_route default_request_limits demo_request demo_route ''codex-app-server''
     (Race_Done (Inr app_server_capabilities)) = Inr pr"
proof -
  let ?r = "routed_request demo_request demo_route"
  have "prepare_transparency ?r app_server_capabilities = Inr \<lparr>pt_provider_request = ?r, pt_plan = None,
      pt_normalizations = []\<rparr>"
    by (simp add: prepare_transparency_def routed_request_def demo_request_def request_defaults Let_def)
  moreover have "validate_request ?r default_request_limits = Inr ()"
    unfolding validate_request_Inr_iff
    by (simp add: routed_request_def demo_request_def demo_route_def well_formed_defs request_defaults)
  moreover have "\<exists>ng. negotiate_request ?r app_server_capabilities = Inr ng"
    by (simp add: negotiation_defs routed_request_def demo_request_def demo_route_def request_defaults
        app_server_capabilities_valid)
  ultimately show ?thesis
    by (auto simp: prepare_route_def await_controlled_def map_err_def fail_with_def app_server_capabilities_simps)
qed

lemma demo_resolve: "resolve_provider demo_registry (Some ''codex-app-server'') = Inr demo_provider"
  by (simp add: resolve_provider_def demo_registry_def validate_provider_name_def require_def
      valid_provider_name_def max_provider_name_bytes_def is_ascii_lowercase_def is_ascii_digit_def)

lemma demo_execute_route:
  "\<exists>q result brs'. execute_route demo_runtime demo_request request_id demo_route (demo_script late) demo_breakers
       = (result, brs', [(''codex-app-server'', q)])"
proof -
  obtain pr where pr: "prepare_route default_request_limits demo_request demo_route ''codex-app-server''
     (Race_Done (Inr app_server_capabilities)) = Inr pr" using demo_prepared by blast
  have "\<exists>result. execute_route_admitted default_request_limits demo_request request_id demo_route
      ''codex-app-server'' (demo_script late)
      = (result, [(''codex-app-server'', ng_effective_request (pr_negotiated pr))])"
    using pr by (simp add: execute_route_admitted_def demo_script_def Let_def)
  then obtain result where "execute_route_admitted default_request_limits demo_request request_id demo_route
      ''codex-app-server'' (demo_script late)
      = (result, [(''codex-app-server'', ng_effective_request (pr_negotiated pr))])" by blast
  moreover have "acquire default_circuit_config ''codex-app-server'' 1
      \<lparr>ci_phase = Phase_Closed 0, ci_epoch = 0, ci_rejected_calls = 0, ci_transitions = 0\<rparr>
      = (Inr (Permit_Closed 0), \<lparr>ci_phase = Phase_Closed 0, ci_epoch = 0, ci_rejected_calls = 0, ci_transitions = 0\<rparr>)"
    by (simp add: acquire_def default_circuit_config_def half_open_when_due_def Let_def)
  ultimately have "\<exists>brs'. execute_route demo_runtime demo_request request_id demo_route (demo_script late) demo_breakers
       = (result, brs', [(''codex-app-server'', ng_effective_request (pr_negotiated pr))])"
    by (simp add: execute_route_def demo_runtime_def demo_resolve demo_route_def demo_provider_def
        demo_breakers_def breaker_config_def assoc_or_def default_runtime_config_def await_controlled_def
        demo_script_def Let_def)
  then show ?thesis by blast
qed

lemma demo_leader_log:
  "\<exists>q result. lr_log (execute_leader demo_runtime demo_request request_id (demo_leader late) demo_breakers)
       = [\<lparr>rl_route = demo_route, rl_result = result, rl_calls = [(''codex-app-server'', q)]\<rparr>]"
proof -
  obtain q result brs' where
    "execute_route demo_runtime demo_request request_id demo_route (demo_script late) demo_breakers
       = (result, brs', [(''codex-app-server'', q)])"
    using demo_execute_route by blast
  then have "lr_log (execute_leader demo_runtime demo_request request_id (demo_leader late) demo_breakers)
       = [\<lparr>rl_route = demo_route, rl_result = result, rl_calls = [(''codex-app-server'', q)]\<rparr>]"
    by (simp add: execute_leader_def demo_routes demo_leader_def await_controlled_def Let_def
        split: sum.split failure.split)
  then show ?thesis by blast
qed

definition late_response :: image_response where
  "late_response = \<lparr>rs_id = ''r'', rs_created = 0, rs_provider = ''codex-app-server'', rs_model = ''gpt-image-2'',
     rs_requested = default_generation_parameters, rs_effective = default_generation_parameters,
     rs_normalizations = [], rs_attempts = [], rs_data = [], rs_failures = [], rs_revised_prompt = None,
     rs_usage = None, rs_session = None, rs_timings = default_timings, rs_warnings = []\<rparr>"

text \<open>The primary provider is not registered, the fallback answers.\<close>

definition fallback_request :: image_request where
  "fallback_request = demo_request\<lparr>req_routing := (req_routing demo_request)
     \<lparr>rt_provider := Some ''absent'', rt_fallbacks := [demo_route]\<rparr>\<rparr>"

definition absent_route :: provider_route where
  "absent_route = \<lparr>route_provider = ''absent'', route_model = None\<rparr>"

definition answering_script :: route_script where
  "answering_script = (demo_script None)\<lparr>ro_execute := (\<lambda>_. Race_Done (Inr late_response)),
     ro_materialize := (\<lambda>response _ _ _. Race_Done (Inr response))\<rparr>"

definition fallback_leader :: leader_script where
  "fallback_leader = (demo_leader None)\<lparr>ls_routes := (\<lambda>_. answering_script)\<rparr>"

definition absent_error :: bridge_error where
  "absent_error = with_detail ''provider'' (JStr ''absent'')
     (error_new Configuration ''requested provider is not registered'')"

lemma fallback_routes: "request_routes demo_runtime fallback_request = [absent_route, demo_route]"
  by (simp add: request_routes_def demo_runtime_def demo_registry_def demo_request_def fallback_request_def
      absent_route_def request_defaults)

lemma absent_fails: "execute_route demo_runtime fallback_request request_id absent_route sc brs
    = (Inl (Failed absent_error), brs, [])"
  by (simp add: execute_route_def resolve_provider_def demo_runtime_def demo_registry_def absent_route_def
      validate_provider_name_def require_def valid_provider_name_def max_provider_name_bytes_def
      is_ascii_lowercase_def is_ascii_digit_def absent_error_def)

lemma absent_reroutes: "should_fallback absent_error policy"
  by (simp add: should_fallback_def absent_error_def outcome_unknown_def never_rerouted_def unavailable_def)

lemma fallback_admitted:
  "\<exists>execution q. execute_route_admitted default_request_limits fallback_request request_id demo_route
      ''codex-app-server'' answering_script = (Inr execution, [(''codex-app-server'', q)])
    \<and> rs_provider (re_response execution) = ''codex-app-server''"
proof -
  have "routed_request fallback_request demo_route = routed_request demo_request demo_route"
    by (simp add: routed_request_def fallback_request_def)
  moreover have "ro_capabilities answering_script = Race_Done (Inr app_server_capabilities)"
    by (simp add: answering_script_def demo_script_def)
  ultimately have "prepare_route default_request_limits fallback_request demo_route ''codex-app-server''
     (ro_capabilities answering_script)
    = prepare_route default_request_limits demo_request demo_route ''codex-app-server''
     (Race_Done (Inr app_server_capabilities))" by (simp only: prepare_route_def)
  with demo_prepared obtain pr where pr: "prepare_route default_request_limits fallback_request demo_route
     ''codex-app-server'' (ro_capabilities answering_script) = Inr pr" by metis
  then have "pr_capabilities pr = app_server_capabilities"
    by (simp add: prepare_route_Inr answering_script_def demo_script_def)
  then have "check_response_model (pr_capabilities pr) ''codex-app-server'' late_response = Inr ()"
    by (simp add: check_response_model_def app_server_capabilities_simps late_response_def)
  with pr show ?thesis
    by (simp add: execute_route_admitted_def Let_def answering_script_def await_provider_execution_def
        classify_provider_execution_result_def map_err_def deliver_route_def await_controlled_def fail_with_def
        reported_response_def)
qed

lemma fallback_answers:
  "\<exists>execution brs' q. execute_route demo_runtime fallback_request request_id demo_route answering_script demo_breakers
     = (Inr execution, brs', [(''codex-app-server'', q)])"
proof -
  from fallback_admitted obtain execution q where
    "execute_route_admitted default_request_limits fallback_request request_id demo_route
      ''codex-app-server'' answering_script = (Inr execution, [(''codex-app-server'', q)])" by blast
  moreover have "acquire default_circuit_config ''codex-app-server'' 1
      \<lparr>ci_phase = Phase_Closed 0, ci_epoch = 0, ci_rejected_calls = 0, ci_transitions = 0\<rparr>
      = (Inr (Permit_Closed 0), \<lparr>ci_phase = Phase_Closed 0, ci_epoch = 0, ci_rejected_calls = 0, ci_transitions = 0\<rparr>)"
    by (simp add: acquire_def default_circuit_config_def half_open_when_due_def Let_def)
  ultimately show ?thesis
    by (simp add: execute_route_def demo_runtime_def demo_resolve demo_route_def demo_provider_def
        demo_breakers_def breaker_config_def assoc_or_def default_runtime_config_def await_controlled_def
        demo_script_def answering_script_def Let_def)
qed

lemma other_route [simp]: "demo_route \<noteq> absent_route" "absent_route \<noteq> demo_route"
  by (simp_all add: demo_route_def absent_route_def)

lemma fallback_run:
  "\<exists>response entry1 entry2. lr_result (execute_leader demo_runtime fallback_request ''id'' fallback_leader demo_breakers)
      = Inr response
    \<and> lr_log (execute_leader demo_runtime fallback_request ''id'' fallback_leader demo_breakers) = [entry1, entry2]
    \<and> rl_result entry1 = Inl (Failed absent_error) \<and> (\<exists>execution. rl_result entry2 = Inr execution)"
proof -
  from fallback_answers [of "''id''"] obtain execution brs' q where
    "execute_route demo_runtime fallback_request ''id'' demo_route answering_script demo_breakers
     = (Inr execution, brs', [(''codex-app-server'', q)])" by blast
  then show ?thesis
    by (simp add: execute_leader_def fallback_routes fallback_leader_def demo_leader_def await_controlled_def Let_def
        absent_fails absent_reroutes fail_with_def)
qed

theorem fallback_only_after_known_failure_witness:
  "\<exists>response. lr_result (execute_leader demo_runtime fallback_request ''id'' fallback_leader demo_breakers) = Inr response
    \<and> map at_outcome (rs_attempts response) = [Attempt_Failed, Attempt_Succeeded]
    \<and> map at_error_code (rs_attempts response) = [Some Configuration, None]"
proof -
  let ?run = "execute_leader demo_runtime fallback_request ''id'' fallback_leader demo_breakers"
  from fallback_run obtain response entry1 entry2 execution where run: "lr_result ?run = Inr response"
    "lr_log ?run = [entry1, entry2]" "rl_result entry1 = Inl (Failed absent_error)" "rl_result entry2 = Inr execution"
    by blast
  have "\<forall>effective response delivered. ls_attach fallback_leader fallback_request effective response = Inr delivered
      \<longrightarrow> rs_attempts delivered = rs_attempts response"
    by (simp add: fallback_leader_def demo_leader_def)
  moreover have "rt_fallbacks (req_routing fallback_request) \<noteq> []" by (simp add: fallback_request_def)
  ultimately have "rs_attempts response = attempts_of fallback_leader 0 (lr_log ?run)"
    using fallback_only_after_known_failure [OF refl] run(1) by blast
  with run show ?thesis
    by (simp add: success_attempt_def failed_attempt_def absent_error_def)
qed

theorem provider_call_supported_witness:
  "\<exists>(q :: image_request) (c :: provider_capabilities). request_supported c q \<and> pc_provider c = ''codex-app-server''"
proof -
  obtain q result where "lr_log (execute_leader demo_runtime demo_request ''id'' (demo_leader None) demo_breakers)
       = [\<lparr>rl_route = demo_route, rl_result = result, rl_calls = [(''codex-app-server'', q)]\<rparr>]"
    using demo_leader_log by blast
  then have mem: "0 < length (lr_log (execute_leader demo_runtime demo_request ''id'' (demo_leader None) demo_breakers))"
    "(''codex-app-server'', q) \<in> set (rl_calls (lr_log (execute_leader demo_runtime demo_request ''id''
       (demo_leader None) demo_breakers) ! 0))" by simp_all
  have "registered_ok (rg_providers (rn_registry demo_runtime))"
    by (simp add: demo_runtime_def demo_registry_def registered_ok_def demo_provider_def valid_provider_name_def
        max_provider_name_bytes_def is_ascii_lowercase_def is_ascii_digit_def)
  from provider_call_supported [OF refl this mem] show ?thesis by blast
qed

lemma late_result_discarded_witness:
  "\<exists>q. execute_route_admitted default_request_limits demo_request ''id'' demo_route ''codex-app-server''
      (demo_script (Some (Inr late_response))) = (Inl (Failed deadline_error), [(''codex-app-server'', q)])"
proof -
  obtain pr where pr: "prepare_route default_request_limits demo_request demo_route ''codex-app-server''
     (ro_capabilities (demo_script (Some (Inr late_response)))) = Inr pr"
    using demo_prepared by (auto simp: demo_script_def)
  then have "pr_capabilities pr = app_server_capabilities"
    by (simp add: prepare_route_Inr demo_script_def)
  then have "check_response_model (pr_capabilities pr) ''codex-app-server'' late_response = Inr ()"
    by (simp add: check_response_model_def app_server_capabilities_simps late_response_def)
  with pr show ?thesis
    using late_result_discarded [OF pr, where request_id = "''id''" and response = late_response]
    by (auto simp: demo_script_def)
qed

text \<open>The call of the demonstration request on an empty table.\<close>

definition demo_call :: call_script where
  "demo_call = \<lparr>cs_shutdown = False, cs_fresh_id = ''id'', cs_deadline_fits = True, cs_begun_at = 0,
     cs_other_calls = (\<lambda>st. st), cs_ended_at = 3, cs_weight = None, cs_wait = (\<lambda>_. Race_Expired),
     cs_leader = demo_leader None\<rparr>"

lemma demo_begin:
  "\<exists>token st'. idem_begin default_idempotency_config (\<lambda>_. Inr ''d'') 0 ''default'' ''k'' demo_request
     (rn_idempotency demo_runtime) = (Inr (Act_Leader token), st')"
  by (simp add: idem_begin_def validate_scope_def request_fingerprint_def cleanup_def lookup_entry_def
      begin_new_def make_capacity_def demo_runtime_def default_idempotency_config_def Let_def)

lemma demo_valid: "validate_request demo_request default_request_limits = Inr ()"
  unfolding validate_request_Inr_iff
  by (simp add: demo_request_def well_formed_defs request_defaults)

lemma demo_call_log:
  "\<exists>q result. cr_log (execute_with demo_runtime (\<lambda>_. Inr ''d'') demo_request default_execution_context
      demo_call demo_breakers (rn_idempotency demo_runtime))
    = [\<lparr>rl_route = demo_route, rl_result = result, rl_calls = [(''codex-app-server'', q)]\<rparr>]"
proof -
  obtain token st' where b: "idem_begin default_idempotency_config (\<lambda>_. Inr ''d'') 0 ''default'' ''k'' demo_request
     (rn_idempotency demo_runtime) = (Inr (Act_Leader token), st')" using demo_begin by blast
  have "rn_config demo_runtime = default_runtime_config" "req_idempotency_key demo_request = Some ''k''"
    by (simp_all add: demo_runtime_def demo_request_def)
  then have "cr_log (execute_with demo_runtime (\<lambda>_. Inr ''d'') demo_request default_execution_context
      demo_call demo_breakers (rn_idempotency demo_runtime))
    = lr_log (execute_leader demo_runtime demo_request ''id'' (demo_leader None) demo_breakers)"
    using b demo_valid
    by (simp add: execute_with_def demo_call_def default_execution_context_def default_runtime_config_def
        validated_request_id_def lead_def Let_def)
  then show ?thesis using demo_leader_log by simp
qed

theorem interrupted_call_never_repeated_witness:
  "\<exists>(run :: call_run) e. cr_result run = Inl (Failed e) \<and> outcome_unknown e
    \<and> fst (idem_begin default_idempotency_config (\<lambda>_. Inr ''d'') 9 ''default'' ''k'' demo_request (cr_idempotency run))
        = Inl (with_detail ''outcome'' (JStr ''unknown'') (retryable False e))"
proof -
  let ?cfg = default_idempotency_config and ?st = "rn_idempotency demo_runtime"
  let ?run = "execute_with demo_runtime (\<lambda>_. Inr ''d'') demo_request default_execution_context demo_call demo_breakers ?st"
  obtain q result where log: "cr_log ?run
    = [\<lparr>rl_route = demo_route, rl_result = result, rl_calls = [(''codex-app-server'', q)]\<rparr>]"
    using demo_call_log by blast
  have new: "idem_new ?cfg = Inr ?st"
    by (simp add: idem_new_def default_idempotency_config_def demo_runtime_def)
  have max: "ic_max_completed_bytes ?cfg < usize_max"
    by (simp add: default_idempotency_config_def usize_max_def)
  have cfg: "?cfg = rc_idempotency (rn_config demo_runtime)"
    by (simp add: demo_runtime_def default_runtime_config_def)
  have int: "unresolved_call (cs_leader demo_call) 0 (cr_log ?run ! 0)"
    unfolding log nth_Cons_0
    by (simp add: unresolved_call_def unresolved_def nothing_known_def demo_call_def demo_leader_def demo_script_def)
  have ttl: "9 < cs_ended_at demo_call + ic_unknown_ttl ?cfg"
    by (simp add: demo_call_def default_idempotency_config_def)
  have key: "req_idempotency_key demo_request = Some ''k''" by (simp add: demo_request_def)
  obtain token st1 where led: "idem_begin ?cfg (\<lambda>_. Inr ''d'') (cs_begun_at demo_call)
      (xc_scope default_execution_context) ''k'' demo_request ?st = (Inr (Act_Leader token), st1)"
    using demo_begin by (auto simp: demo_call_def default_execution_context_def)
  have others: "leader_steps ?cfg (\<lambda>_. Inr ''d'') 0 (st1, add_mset (token, cs_begun_at demo_call) {#})
      (cs_other_calls demo_call st1, {#(token, 0)#})"
    by (simp add: demo_call_def)
  have free: "in_time ?cfg (cs_begun_at demo_call) {#}" by (simp add: in_time_def)
  have "\<exists>e. cr_result ?run = Inl (Failed e) \<and> outcome_unknown e
    \<and> fst (idem_begin ?cfg (\<lambda>_. Inr ''d'') 9 (xc_scope default_execution_context) ''k'' demo_request (cr_idempotency ?run))
        = Inl (with_detail ''outcome'' (JStr ''unknown'') (retryable False e))"
    using interrupted_call_never_repeated [OF new max cfg rtranclp.rtrancl_refl free refl key led others _ _ int
        rtranclp.rtrancl_refl ttl] log
    by (simp add: demo_call_def)
  then show ?thesis by (auto simp: default_execution_context_def)
qed

end
