(* ===== verification/Fanout.thy ===== *)
theory Fanout
  imports Negotiation Validation Codex_Events "HOL-Library.Multiset"
begin

text \<open>
  \<open>crates/runtime/src/fanout/mod.rs\<close>: the decorator that serves one request for several outputs by
  several calls of a provider with a lower native count. The order in which concurrent calls
  complete, their results and their durations are a script; the loop over the calls, the split of the
  outputs and the assembly of the response are the source's.
\<close>

section \<open>Configuration and capabilities\<close>

record fanout_config =
  fc_max_outputs :: u8
  fc_max_parallel_outputs :: u8

definition fanout_config_validate :: "fanout_config \<Rightarrow> fanout_config result" where
  "fanout_config_validate cfg =
     (if fc_max_outputs cfg = 0 \<or> fc_max_parallel_outputs cfg = 0
         \<or> fc_max_outputs cfg < fc_max_parallel_outputs cfg
      then Inl (error_new Configuration ''output fan-out limits are invalid'')
      else Inr cfg)"

definition effective_capabilities ::
  "fanout_config \<Rightarrow> provider_capabilities \<Rightarrow> provider_capabilities result" where
  "effective_capabilities cfg c =
     and_then (capabilities_validate c) (\<lambda>_.
       if fc_max_outputs cfg \<le> range_max (pc_count c) then Inr c
       else
         let c' = c\<lparr>pc_count := (pc_count c)\<lparr>range_max := fc_max_outputs cfg\<rparr>,
                    pc_batching := \<lparr>bc_mode = Batch_Fan_Out, bc_native_count = pc_count c,
                      bc_max_parallel_outputs = fc_max_parallel_outputs cfg\<rparr>\<rparr>
         in and_then (capabilities_validate c') (\<lambda>_. Inr c'))"

section \<open>The split of the outputs\<close>

record chunk =
  ch_offset :: u8
  ch_count :: u8

text \<open>The loop does not end when the native maximum is zero.\<close>

partial_function (option) chunks_from :: "u8 \<Rightarrow> u8 \<Rightarrow> u8 \<Rightarrow> chunk list option" where
  "chunks_from total_count native_max offset =
     (if offset < total_count
      then let amount = min native_max (total_count - offset) in
        Option.bind (chunks_from total_count native_max (offset + amount))
          (\<lambda>rest. Some (\<lparr>ch_offset = offset, ch_count = amount\<rparr> # rest))
      else Some [])"

declare chunks_from.simps [code]

definition chunks :: "u8 \<Rightarrow> u8 \<Rightarrow> chunk list option" where
  "chunks total_count native_max = chunks_from total_count native_max 0"

definition chunk_indices :: "chunk \<Rightarrow> nat list" where
  "chunk_indices c = [unat (ch_offset c)..<unat (ch_offset c) + unat (ch_count c)]"

section \<open>One call\<close>

record chunk_result =
  cu_offset :: u8
  cu_count :: u8
  cu_elapsed_ms :: u64
  cu_result :: "image_response result"

text \<open>How the wait for a permit of the provider ended.\<close>

datatype permit_wait = Got_Permit | Permits_Closed | Wait_Cancelled | Wait_Timed_Out

definition fanout_acquire :: "permit_wait \<Rightarrow> unit result" where
  "fanout_acquire w =
     (case w of
        Got_Permit \<Rightarrow> Inr ()
      | Permits_Closed \<Rightarrow> Inl (error_new Cancelled ''output fan-out is shutting down'')
      | Wait_Cancelled \<Rightarrow>
          Inl (error_new Cancelled ''output fan-out was cancelled while waiting for capacity'')
      | Wait_Timed_Out \<Rightarrow>
          Inl (retryable True (error_new Timeout ''output fan-out timed out while waiting for capacity'')))"

definition subrequest_id :: "(string \<Rightarrow> string) \<Rightarrow> string \<Rightarrow> u8 \<Rightarrow> string" where
  "subrequest_id sha256 request_id offset =
     (let suffix = '':output:'' @ show_nat (unat offset) in
      if usize_sat_add (length request_id) (length suffix) \<le> 128 then request_id @ suffix
      else ''fanout:'' @ take 32 (sha256 request_id) @ '':'' @ show_nat (unat offset))"

definition map_event :: "provider_event \<Rightarrow> u8 \<Rightarrow> u8 \<Rightarrow> provider_event option" where
  "map_event event offset amount =
     (case event of
        Event_Progress stage \<Rightarrow> Some (Event_Progress stage)
      | Event_Partial_Image index partial_index b64_json \<Rightarrow>
          if index < amount then Some (Event_Partial_Image (offset + index) partial_index b64_json) else None
      | Event_Started \<Rightarrow> None
      | Event_Completed _ \<Rightarrow> None)"

text \<open>
  The script of a fan-out: the provider's answer to a request under a request identifier, the wait for
  a permit, the events it sends, the durations, and which of the running calls completes next.
\<close>

record fanout_script =
  fs_wait :: "u8 \<Rightarrow> permit_wait"
  fs_answer :: "image_request \<Rightarrow> string \<Rightarrow> image_response result"
  fs_events :: "u8 \<Rightarrow> provider_event list"
  fs_elapsed_ms :: "u8 \<Rightarrow> u64"
  fs_next :: "chunk list \<Rightarrow> nat"
  fs_created :: u64
  fs_total_ms :: u64
  fs_sha256 :: "string \<Rightarrow> string"

definition chunk_request :: "image_request \<Rightarrow> chunk \<Rightarrow> image_request" where
  "chunk_request request c = upd_params (\<lambda>p. p\<lparr>gp_n := ch_count c\<rparr>) request"

definition execute_chunk :: "fanout_script \<Rightarrow> image_request \<Rightarrow> string \<Rightarrow> chunk \<Rightarrow> chunk_result" where
  "execute_chunk sc request request_id c =
     \<lparr>cu_offset = ch_offset c, cu_count = ch_count c, cu_elapsed_ms = fs_elapsed_ms sc (ch_offset c),
      cu_result = and_then (fanout_acquire (fs_wait sc (ch_offset c))) (\<lambda>_.
        fs_answer sc (chunk_request request c) (subrequest_id (fs_sha256 sc) request_id (ch_offset c)))\<rparr>"

text \<open>The events a chunk forwards to the events of the request, if it got its permit.\<close>

definition forwarded_events :: "fanout_script \<Rightarrow> chunk \<Rightarrow> provider_event list" where
  "forwarded_events sc c =
     (if is_ok (fanout_acquire (fs_wait sc (ch_offset c)))
      then List.map_filter (\<lambda>e. map_event e (ch_offset c) (ch_count c)) (fs_events sc (ch_offset c))
      else [])"

section \<open>The loop\<close>

definition take_next :: "(chunk list \<Rightarrow> nat) \<Rightarrow> chunk list \<Rightarrow> chunk \<times> chunk list" where
  "take_next pick active =
     (let i = pick active mod length active in (active ! i, take i active @ drop (Suc i) active))"

lemma take_next_mset:
  assumes "take_next pick active = (c, rest)" "active \<noteq> []"
  shows "mset active = add_mset c (mset rest)"
proof -
  let ?i = "pick active mod length active"
  have i: "?i < length active" using assms(2) by simp
  have "active = take ?i active @ active ! ?i # drop (Suc ?i) active" using i by (simp add: id_take_nth_drop)
  then have "mset active = mset (take ?i active @ active ! ?i # drop (Suc ?i) active)" by (rule arg_cong)
  with assms(1) show ?thesis by (auto simp: take_next_def Let_def)
qed

lemma take_next_length: "(c, rest) = take_next pick active \<Longrightarrow> active \<noteq> [] \<Longrightarrow> length rest < length active"
proof -
  assume a: "(c, rest) = take_next pick active" "active \<noteq> []"
  from take_next_mset [OF a(1) [symmetric] a(2)] have "size (mset active) = size (add_mset c (mset rest))" by simp
  then show ?thesis by simp
qed

definition fail_fast_error :: "chunk_result \<Rightarrow> bool \<Rightarrow> bridge_error \<Rightarrow> bridge_error" where
  "fail_fast_error r siblings_may_have_run e =
     (let located = with_detail ''generation_ms'' (JUInt (cu_elapsed_ms r))
            (with_detail ''output_index'' (u8_json (cu_offset r)) e)
      in if siblings_may_have_run
         then with_detail ''retry_scope'' (JStr ''do_not_retry_full_batch'')
                (with_detail ''outcome'' (JStr ''unknown'') (retryable False located))
         else located)"

text \<open>\<open>push_next\<close> starts the next chunk, if there is one.\<close>

definition push_next :: "chunk list \<times> chunk list \<Rightarrow> chunk list \<times> chunk list" where
  "push_next q = (case q of ([], active) \<Rightarrow> ([], active) | (c # pending, active) \<Rightarrow> (pending, active @ [c]))"

function fanout_loop ::
  "fanout_script \<Rightarrow> (chunk \<Rightarrow> chunk_result) \<Rightarrow> bool \<Rightarrow> chunk list \<Rightarrow> chunk list \<Rightarrow> chunk_result list
   \<Rightarrow> chunk_result list result" where
  "fanout_loop sc run fail_fast pending active results =
     (if active = [] then Inr results
      else
        let (c, rest) = take_next (fs_next sc) active; r = run c in
        case cu_result r of
          Inl e \<Rightarrow>
            if fail_fast then Inl (fail_fast_error r (rest \<noteq> [] \<or> results \<noteq> []) e)
            else fanout_loop sc run fail_fast (fst (push_next (pending, rest))) (snd (push_next (pending, rest)))
                   (results @ [r])
        | Inr _ \<Rightarrow>
            fanout_loop sc run fail_fast (fst (push_next (pending, rest))) (snd (push_next (pending, rest)))
              (results @ [r]))"
  by pat_completeness auto
termination
proof (relation "measure (\<lambda>(_, _, _, pending, active, _). length pending + length active)")
qed (auto simp: push_next_def split: list.splits dest: take_next_length)

declare fanout_loop.simps [simp del]

lemma fanout_loop_step:
  assumes "active \<noteq> []" "take_next (fs_next sc) active = (c, rest)"
  shows "fanout_loop sc run fail_fast pending active results =
    (let q = push_next (pending, rest) in
     case cu_result (run c) of
       Inl e \<Rightarrow>
         if fail_fast then Inl (fail_fast_error (run c) (rest \<noteq> [] \<or> results \<noteq> []) e)
         else fanout_loop sc run fail_fast (fst q) (snd q) (results @ [run c])
     | Inr _ \<Rightarrow> fanout_loop sc run fail_fast (fst q) (snd q) (results @ [run c]))"
  using assms by (subst fanout_loop.simps) (simp add: Let_def)

section \<open>Assembly\<close>

definition validate_chunk_indices :: "image_response \<Rightarrow> u8 \<Rightarrow> u8 \<Rightarrow> unit result" where
  "validate_chunk_indices response offset n =
     require (sort (map gi_index (rs_data response) @ map if_index (rs_failures response))
              = map of_nat [0..<unat n])
       (with_detail ''output_offset'' (u8_json offset)
         (error_new Protocol ''fan-out subrequest returned an invalid output set''))"

definition shift_response :: "chunk_result \<Rightarrow> image_response \<Rightarrow> image_response" where
  "shift_response r response = response
     \<lparr>rs_data := map (\<lambda>img. img\<lparr>gi_index := gi_index img + cu_offset r,
          gi_generation_ms := (case gi_generation_ms img of
             None \<Rightarrow> Some (cu_elapsed_ms r) | Some ms \<Rightarrow> Some ms)\<rparr>) (rs_data response),
      rs_failures := map (\<lambda>f. f\<lparr>if_index := if_index f + cu_offset r\<rparr>) (rs_failures response)\<rparr>"

definition chunk_failures :: "chunk_result \<Rightarrow> bridge_error \<Rightarrow> image_failure list" where
  "chunk_failures r e =
     map (\<lambda>i. \<lparr>if_index = of_nat i, if_error = with_detail ''output_index'' (JUInt (of_nat i)) e,
               if_generation_ms = cu_elapsed_ms r\<rparr>)
       [unat (cu_offset r)..<unat (cu_offset r) + unat (cu_count r)]"

fun gather_chunks ::
  "chunk_result list \<Rightarrow> image_response list \<Rightarrow> image_failure list
   \<Rightarrow> (image_response list \<times> image_failure list) result" where
  "gather_chunks [] successful failures = Inr (successful, failures)"
| "gather_chunks (r # rs) successful failures =
     (case cu_result r of
        Inr response \<Rightarrow>
          and_then (validate_chunk_indices response (cu_offset r) (cu_count r)) (\<lambda>_.
            gather_chunks rs (successful @ [shift_response r response]) failures)
      | Inl e \<Rightarrow> gather_chunks rs successful (failures @ chunk_failures r e))"

definition all_failed_error :: "u8 \<Rightarrow> image_failure list \<Rightarrow> bridge_error" where
  "all_failed_error requested_count failures =
     with_detail ''failed_outputs'' (u8_json requested_count)
       (with_detail ''all_outputs_failed'' (JBool True)
         (case failures of
            [] \<Rightarrow> error_new Upstream ''all fan-out outputs failed''
          | f # _ \<Rightarrow> if_error f))"

text \<open>The usage of a provider is added key by key.\<close>

definition merge_provider_usage :: "(string \<rightharpoonup> u64) \<Rightarrow> (string \<rightharpoonup> u64) \<Rightarrow> (string \<rightharpoonup> u64)" where
  "merge_provider_usage target additional = (\<lambda>k.
     case additional k of
       None \<Rightarrow> target k
     | Some v \<Rightarrow> Some (sat_add (case target k of None \<Rightarrow> 0 | Some u \<Rightarrow> u) v))"

definition fanout_merge_usage :: "usage \<Rightarrow> usage \<Rightarrow> usage" where
  "fanout_merge_usage target v =
     \<lparr>us_input_tokens = add_optional (us_input_tokens target) (us_input_tokens v),
      us_output_tokens = add_optional (us_output_tokens target) (us_output_tokens v),
      us_total_tokens = add_optional (us_total_tokens target) (us_total_tokens v),
      us_provider = merge_provider_usage (us_provider target) (us_provider v)\<rparr>"

definition merge_usages :: "image_response list \<Rightarrow> usage option" where
  "merge_usages responses =
     (let usages = List.map_filter rs_usage responses in
      if usages = [] then None else Some (foldl fanout_merge_usage default_usage usages))"

definition merge_sessions :: "image_response list \<Rightarrow> session_metadata option" where
  "merge_sessions responses =
     (case responses of
        [] \<Rightarrow> None
      | r # rs \<Rightarrow>
          (case rs_session r of
             None \<Rightarrow> None
           | Some first \<Rightarrow>
               if list_all (\<lambda>r'. case rs_session r' of
                    None \<Rightarrow> False
                  | Some s \<Rightarrow> sm_key s = sm_key first \<and> sm_thread_id s = sm_thread_id first) rs
               then Some first else None))"

definition fanout_warnings :: "batch_execution \<Rightarrow> image_response list \<Rightarrow> bool \<Rightarrow> string list" where
  "fanout_warnings mode successful partial =
     btree_from
       ([''emulated_multi_image_fanout'']
        @ (if mode = Batch_Execution_Sequential then [''sequential_multi_image_fanout''] else [])
        @ concat (map rs_warnings successful)
        @ (if partial then [''partial_output_failure''] else []))"

definition batch_response ::
  "fanout_script \<Rightarrow> image_request \<Rightarrow> string \<Rightarrow> image_response list \<Rightarrow> image_failure list \<Rightarrow> image_response" where
  "batch_response sc request request_id successful failures =
     \<lparr>rs_id = request_id, rs_created = fs_created sc, rs_provider = rs_provider (hd successful),
      rs_model = rs_model (hd successful), rs_requested = req_parameters request,
      rs_effective = req_parameters request, rs_normalizations = [], rs_attempts = [],
      rs_data = sort_key gi_index (concat (map rs_data successful)), rs_failures = failures,
      rs_revised_prompt =
        (case List.map_filter rs_revised_prompt successful of [] \<Rightarrow> None | p # _ \<Rightarrow> Some p),
      rs_usage = merge_usages successful, rs_session = merge_sessions successful,
      rs_timings = default_timings\<lparr>tm_provider_ms := fs_total_ms sc, tm_total_ms := fs_total_ms sc\<rparr>,
      rs_warnings = fanout_warnings (pol_batch_execution (req_policies request)) successful (failures \<noteq> [])\<rparr>"

definition same_identity :: "image_response list \<Rightarrow> bool" where
  "same_identity successful =
     list_all (\<lambda>r. rs_provider r = rs_provider (hd successful) \<and> rs_model r = rs_model (hd successful)) successful"

definition aggregate ::
  "fanout_script \<Rightarrow> image_request \<Rightarrow> string \<Rightarrow> u8 \<Rightarrow> failure_policy \<Rightarrow> chunk_result list
   \<Rightarrow> image_response result" where
  "aggregate sc request request_id requested_count policy results =
     and_then (gather_chunks results [] []) (\<lambda>(successful, failed).
       if successful = [] then Inl (all_failed_error requested_count failed)
       else if \<not> same_identity successful
       then Inl (error_new Protocol ''fan-out provider identity changed within one batch'')
       else
         let failures = sort_key if_index (failed @ concat (map rs_failures successful)) in
         if failures \<noteq> [] \<and> policy \<noteq> Failure_Policy_BestEffort
         then Inl (error_new Protocol
                ''fan-out provider returned partial failures under fail-fast policy'')
         else Inr (batch_response sc request request_id successful failures))"

section \<open>The decorated provider\<close>

definition batch_parallel :: "fanout_config \<Rightarrow> image_request \<Rightarrow> nat" where
  "batch_parallel cfg request =
     (case pol_batch_execution (req_policies request) of
        Batch_Execution_Parallel \<Rightarrow> unat (fc_max_parallel_outputs cfg)
      | Batch_Execution_Auto \<Rightarrow>
          if so_mode (req_session request) = Session_Mode_Isolated
          then unat (fc_max_parallel_outputs cfg) else 1
      | Batch_Execution_Sequential \<Rightarrow> 1)"

definition fanout_results ::
  "fanout_config \<Rightarrow> fanout_script \<Rightarrow> image_request \<Rightarrow> string \<Rightarrow> chunk list \<Rightarrow> chunk_result list result" where
  "fanout_results cfg sc request request_id cs =
     (let (pending, active) = (push_next ^^ batch_parallel cfg request) (cs, []) in
      fanout_loop sc (execute_chunk sc request request_id)
        (gp_failure_policy (req_parameters request) = Failure_Policy_FailFast) pending active [])"

text \<open>\<open>None\<close>: the split of the outputs does not end.\<close>

definition execute_fanout ::
  "fanout_config \<Rightarrow> fanout_script \<Rightarrow> image_request \<Rightarrow> string \<Rightarrow> u8 \<Rightarrow> image_response result option" where
  "execute_fanout cfg sc request request_id native_max =
     map_option (\<lambda>cs.
       and_then (fanout_results cfg sc request request_id cs) (\<lambda>results.
         aggregate sc request request_id (gp_n (req_parameters request))
           (gp_failure_policy (req_parameters request)) (sort_key cu_offset results)))
       (chunks (gp_n (req_parameters request)) native_max)"

definition fanout_reported :: "negotiated_request \<Rightarrow> image_response \<Rightarrow> image_response" where
  "fanout_reported ng response = response
     \<lparr>rs_requested := ng_requested ng, rs_effective := req_parameters (ng_effective_request ng),
      rs_normalizations := ng_normalizations ng @ rs_normalizations response\<rparr>"

definition fanout_capabilities ::
  "fanout_config \<Rightarrow> (string option \<Rightarrow> provider_capabilities result) \<Rightarrow> string option
   \<Rightarrow> provider_capabilities result" where
  "fanout_capabilities cfg native model = and_then (native model) (effective_capabilities cfg)"

definition fanout_execute ::
  "fanout_config \<Rightarrow> (string option \<Rightarrow> provider_capabilities result) \<Rightarrow> fanout_script \<Rightarrow> permit_wait
   \<Rightarrow> image_request \<Rightarrow> string \<Rightarrow> (failure + image_response) option" where
  "fanout_execute cfg capabilities_of sc direct_wait request request_id =
     (case and_then (fail_with (validate_request request default_request_limits)) (\<lambda>_.
           and_then (fail_with (capabilities_of (rt_model (req_routing request)))) (\<lambda>native.
           and_then (fail_with (effective_capabilities cfg native)) (\<lambda>effective.
           and_then (negotiate_request request effective) (\<lambda>ng. Inr (native, ng))))) of
        Inl f \<Rightarrow> Some (Inl f)
      | Inr (native, ng) \<Rightarrow>
          let effective = ng_effective_request ng in
          if gp_n (req_parameters effective) \<le> range_max (pc_count native)
          then Some (fail_with
                 (and_then (fanout_acquire direct_wait) (\<lambda>_.
                  and_then (fs_answer sc effective request_id) (\<lambda>response.
                    Inr (fanout_reported ng response)))))
          else map_option (\<lambda>r. fail_with (and_then r (\<lambda>response. Inr (fanout_reported ng response))))
                 (execute_fanout cfg sc effective request_id (range_max (pc_count native))))"

section \<open>The split is a partition\<close>

lemma chunk_step:
  fixes offset total_count native_max :: u8
  assumes "offset < total_count" "native_max \<noteq> 0"
  defines "amount \<equiv> min native_max (total_count - offset)"
  shows "unat (offset + amount) = unat offset + unat amount" "unat amount \<le> unat total_count - unat offset"
    "0 < unat amount" "unat amount \<le> unat native_max"
proof -
  have o: "unat offset < unat total_count" using assms(1) by (simp add: word_less_nat_alt)
  have d: "unat (total_count - offset) = unat total_count - unat offset"
    using assms(1) by (simp add: unat_sub less_imp_le)
  have a: "unat amount = min (unat native_max) (unat total_count - unat offset)"
    by (auto simp: amount_def min_def word_le_nat_alt d)
  have n: "0 < unat native_max" using assms(2) by (simp add: unat_gt_0)
  show "unat amount \<le> unat total_count - unat offset" "0 < unat amount" "unat amount \<le> unat native_max"
    using a n o by auto
  then have "unat offset + unat amount < 2 ^ LENGTH(8)" using o unat_u8_less [of total_count] by simp
  then show "unat (offset + amount) = unat offset + unat amount" by (simp add: unat_word_ariths)
qed

definition chunk_ok :: "u8 \<Rightarrow> chunk \<Rightarrow> bool" where
  "chunk_ok native_max c \<longleftrightarrow> 0 < ch_count c \<and> ch_count c \<le> native_max"

lemma upt_split: "a \<le> b \<Longrightarrow> b \<le> c \<Longrightarrow> [a..<c] = [a..<b] @ [b..<c]"
  using upt_add_eq_append [of a b "c - b"] by simp

lemma chunks_from_total:
  assumes "native_max \<noteq> 0"
  shows "\<exists>cs. chunks_from total_count native_max offset = Some cs
    \<and> concat (map chunk_indices cs) = [unat offset..<unat total_count]
    \<and> (\<forall>c \<in> set cs. chunk_ok native_max c)"
proof (induction "unat total_count - unat offset" arbitrary: offset rule: less_induct)
  case less
  show ?case
  proof (cases "offset < total_count")
    case False
    then show ?thesis by (subst chunks_from.simps) (simp add: word_less_nat_alt)
  next
    case True
    let ?n = "min native_max (total_count - offset)"
    note step = chunk_step [OF True assms]
    have o: "unat offset < unat total_count" using True by (simp add: word_less_nat_alt)
    then have "unat total_count - unat (offset + ?n) < unat total_count - unat offset"
      using step by linarith
    from less [OF this] obtain cs where cs: "chunks_from total_count native_max (offset + ?n) = Some cs"
      "concat (map chunk_indices cs) = [unat (offset + ?n)..<unat total_count]"
      "\<forall>c \<in> set cs. chunk_ok native_max c" by blast
    let ?c = "\<lparr>ch_offset = offset, ch_count = ?n\<rparr>"
    have "chunks_from total_count native_max offset = Some (?c # cs)"
      using True cs(1) by (subst chunks_from.simps) (simp add: Let_def)
    moreover have "concat (map chunk_indices (?c # cs)) = [unat offset..<unat total_count]"
    proof -
      have "unat offset + unat ?n \<le> unat total_count" using step(2) o by linarith
      then show ?thesis
        using cs(2) step(1) upt_split [of "unat offset" "unat offset + unat ?n" "unat total_count"]
        by (simp add: chunk_indices_def)
    qed
    moreover have "\<forall>c \<in> set (?c # cs). chunk_ok native_max c"
      using cs(3) step(3) by (simp add: chunk_ok_def word_gt_0 unat_gt_0)
    ultimately show ?thesis by blast
  qed
qed

lemma chunks_from_zero: "chunks_from total_count native_max offset = Some cs \<Longrightarrow> \<not> (native_max = 0 \<and> offset < total_count)"
  by (erule chunks_from.raw_induct [rotated, where P = "\<lambda>t n off y. \<not> (n = 0 \<and> off < t)"])
    (auto simp: Let_def min_def split: Option.bind_splits if_splits)

text \<open>C39. The split of a request for several outputs over a provider with a native maximum ends exactly
  when the maximum is positive or nothing is requested, and is then a partition: the chunks cover
  the output indices from zero in order without gap or overlap, and every chunk asks for at least
  one and at most the native maximum of outputs.\<close>

theorem split_terminates_and_partitions:
  "(chunks total_count native_max \<noteq> None \<longleftrightarrow> native_max \<noteq> 0 \<or> total_count = 0)
   \<and> (native_max \<noteq> 0 \<longrightarrow> (\<exists>cs. chunks total_count native_max = Some cs
        \<and> concat (map chunk_indices cs) = [0..<unat total_count]
        \<and> (\<forall>c \<in> set cs. 0 < ch_count c \<and> ch_count c \<le> native_max)))"
proof -
  have "chunks 0 native_max = Some []" for native_max by (simp add: chunks_def chunks_from.simps)
  moreover have "native_max = 0 \<Longrightarrow> chunks total_count native_max \<noteq> None \<Longrightarrow> total_count = 0"
    using chunks_from_zero [of total_count native_max 0] by (auto simp: chunks_def word_gt_0)
  ultimately show ?thesis
    using chunks_from_total [of native_max total_count 0]
    by (cases "native_max = 0") (auto simp: chunks_def chunk_ok_def)
qed

theorem split_terminates_and_partitions_witness:
  "\<exists>cs. chunks 5 2 = Some cs \<and> concat (map chunk_indices cs) = [0..<5]"
  using split_terminates_and_partitions [of 5 2] by auto

section \<open>Every chunk is called once\<close>

lemma push_next_mset: "mset (fst (push_next q)) + mset (snd (push_next q)) = mset (fst q) + mset (snd q)"
  by (cases q) (auto simp: push_next_def split: list.splits)

lemma push_all_mset: "mset (fst ((push_next ^^ n) q)) + mset (snd ((push_next ^^ n) q)) = mset (fst q) + mset (snd q)"
  by (induction n) (simp_all add: push_next_mset)

lemma push_next_active: "snd (push_next q) = [] \<Longrightarrow> snd q = [] \<and> fst q = []"
  by (cases q) (auto simp: push_next_def split: list.splits)

lemma fanout_loop_mset:
  assumes "fanout_loop sc run fail_fast pending active results = Inr out" "active = [] \<longrightarrow> pending = []"
  shows "mset out = mset results + image_mset run (mset pending + mset active)
    \<and> (fail_fast \<longrightarrow> (\<forall>r \<in> set out. r \<in> set results \<or> is_ok (cu_result r)))"
  using assms
proof (induction sc run fail_fast pending active results rule: fanout_loop.induct)
  case (1 sc run fail_fast pending active results)
  show ?case
  proof (cases "active = []")
    case True
    with 1(3,4) show ?thesis by (simp add: fanout_loop.simps)
  next
    case False
    obtain c rest where t: "take_next (fs_next sc) active = (c, rest)" by fastforce
    let ?q = "push_next (pending, rest)"
    have go: "fanout_loop sc run fail_fast (fst ?q) (snd ?q) (results @ [run c]) = Inr out"
      and ok: "fail_fast \<longrightarrow> is_ok (cu_result (run c))"
      using 1(3) unfolding fanout_loop_step [OF False t] by (auto simp: Let_def split: sum.splits if_splits)
    have q: "snd ?q = [] \<longrightarrow> fst ?q = []" by (auto simp: push_next_def split: list.splits)
    have IH: "mset out = mset (results @ [run c]) + image_mset run (mset (fst ?q) + mset (snd ?q))
        \<and> (fail_fast \<longrightarrow> (\<forall>r \<in> set out. r \<in> set (results @ [run c]) \<or> is_ok (cu_result r)))"
    proof (cases "cu_result (run c)")
      case (Inl e)
      with ok have "\<not> fail_fast" by auto
      with 1(1) [OF False t [symmetric] refl refl Inl] go q show ?thesis by blast
    next
      case (Inr a)
      with 1(2) [OF False t [symmetric] refl refl Inr] go q show ?thesis by blast
    qed
    have "mset (fst ?q) + mset (snd ?q) = mset pending + mset rest" using push_next_mset [of "(pending, rest)"] by simp
    with IH ok take_next_mset [OF t False] show ?thesis by auto
  qed
qed

end
