(* ===== verification/Fanout_Properties.thy ===== *)
theory Fanout_Properties
  imports Fanout Codex_Responses Orchestrator
begin

text \<open>
  The properties of the fan-out of several outputs: the response accounts for every requested output,
  and what the failure of a whole batch tells the orchestrator.
\<close>

section \<open>Indices\<close>

definition response_indices :: "image_response \<Rightarrow> u8 list" where
  "response_indices r = map gi_index (rs_data r) @ map if_index (rs_failures r)"

definition result_indices :: "chunk_result \<Rightarrow> u8 list" where
  "result_indices r = map of_nat [unat (cu_offset r)..<unat (cu_offset r) + unat (cu_count r)]"

lemma response_indices_shift:
  "response_indices (shift_response r response) = map (\<lambda>i. i + cu_offset r) (response_indices response)"
  by (simp add: response_indices_def shift_response_def comp_def)

lemma shifted_indices:
  assumes "validate_chunk_indices response (cu_offset r) (cu_count r) = Inr ()"
  shows "mset (response_indices (shift_response r response)) = mset (result_indices r)"
proof -
  have "sort (response_indices response) = map of_nat [0..<unat (cu_count r)]"
    using assms by (simp add: validate_chunk_indices_def response_indices_def)
  then have "mset (response_indices response) = mset (map of_nat [0..<unat (cu_count r)])"
    by (metis mset_sort)
  then have "image_mset (\<lambda>i. i + cu_offset r) (mset (response_indices response))
      = image_mset (\<lambda>i. i + cu_offset r) (mset (map of_nat [0..<unat (cu_count r)]))" by (rule arg_cong)
  then have "mset (response_indices (shift_response r response))
      = mset (map (\<lambda>i. of_nat i + cu_offset r) [0..<unat (cu_count r)])"
    unfolding response_indices_shift by (simp only: mset_map image_mset.compositionality comp_def)
  also have "map (\<lambda>i. of_nat i + cu_offset r) [0..<unat (cu_count r)]
      = map of_nat (map (\<lambda>i. i + unat (cu_offset r)) [0..<unat (cu_count r)])" by simp
  also have "\<dots> = result_indices r"
    unfolding map_add_upt result_indices_def by (simp add: add.commute)
  finally show ?thesis .
qed

lemma chunk_failures_indices: "map if_index (chunk_failures r e) = result_indices r"
  by (simp add: chunk_failures_def result_indices_def comp_def)

lemma gather_chunks_indices:
  "gather_chunks rs ok failed = Inr (ok', failed') \<Longrightarrow>
     mset (concat (map response_indices ok')) + mset (map if_index failed')
     = mset (concat (map response_indices ok)) + mset (map if_index failed)
       + mset (concat (map result_indices rs))"
proof (induction rs ok failed rule: gather_chunks.induct)
  case (2 r rs ok failed)
  show ?case
  proof (cases "cu_result r")
    case (Inl e)
    with 2 show ?thesis by (simp add: chunk_failures_indices)
  next
    case (Inr response)
    with 2 show ?thesis using shifted_indices [of response r] by (simp add: result_simps)
  qed
qed simp

text \<open>The indices of all responses, split into images and failures.\<close>

lemma concat_response_indices:
  "mset (concat (map response_indices rs))
   = mset (map gi_index (concat (map rs_data rs))) + mset (map if_index (concat (map rs_failures rs)))"
  by (induction rs) (simp_all add: response_indices_def)

lemma mset_sort_key: "mset (map f (sort_key f xs)) = mset (map f xs)"
  by (simp only: mset_map mset_sort)

lemma push_all_active:
  "0 < n \<Longrightarrow> snd ((push_next ^^ n) q) = [] \<Longrightarrow> fst ((push_next ^^ n) q) = []"
proof (cases n)
  case (Suc m)
  assume "snd ((push_next ^^ n) q) = []"
  then show ?thesis using push_next_active [of "(push_next ^^ m) q"]
    by (simp add: Suc push_next_def split: prod.splits list.splits)
qed simp

lemma batch_parallel_pos: "fanout_config_validate cfg = Inr cfg \<Longrightarrow> 0 < batch_parallel cfg request"
  by (auto simp: fanout_config_validate_def batch_parallel_def unat_gt_0 split: if_splits batch_execution.splits)

lemma fanout_results_mset:
  assumes "fanout_config_validate cfg = Inr cfg" "fanout_results cfg sc request request_id cs = Inr results"
  shows "mset results = image_mset (execute_chunk sc request request_id) (mset cs)
    \<and> (gp_failure_policy (req_parameters request) = Failure_Policy_FailFast \<longrightarrow>
         (\<forall>r \<in> set results. is_ok (cu_result r)))"
proof -
  obtain pending active where q: "(push_next ^^ batch_parallel cfg request) (cs, []) = (pending, active)" by fastforce
  have "active = [] \<longrightarrow> pending = []"
    using push_all_active [OF batch_parallel_pos [OF assms(1), of request], of "(cs, [])"] q by simp
  moreover have "mset pending + mset active = mset cs"
    using push_all_mset [of "batch_parallel cfg request" "(cs, [])"] q by simp
  ultimately show ?thesis using fanout_loop_mset assms(2) q by (fastforce simp: fanout_results_def)
qed

lemma gather_chunks_failures:
  "gather_chunks rs ok failed = Inr (ok', failed') \<Longrightarrow> \<forall>r \<in> set rs. is_ok (cu_result r) \<Longrightarrow> failed' = failed"
  by (induction rs ok failed rule: gather_chunks.induct)
    (auto simp: result_simps is_ok_def split: sum.splits)

lemma result_indices_execute:
  "result_indices (execute_chunk sc request request_id c) = map of_nat (chunk_indices c)"
  by (simp add: result_indices_def execute_chunk_def chunk_indices_def)

lemma aggregate_Inr:
  assumes "aggregate sc request request_id n policy results = Inr response"
  shows "\<exists>ok failed. gather_chunks results [] [] = Inr (ok, failed)
    \<and> rs_data response = sort_key gi_index (concat (map rs_data ok))
    \<and> rs_failures response = sort_key if_index (failed @ concat (map rs_failures ok))
    \<and> (rs_failures response \<noteq> [] \<longrightarrow> policy = Failure_Policy_BestEffort)"
proof -
  obtain ok failed where g: "gather_chunks results [] [] = Inr (ok, failed)"
    using assms by (cases "gather_chunks results [] []") (auto simp: aggregate_def)
  with assms have "response = batch_response sc request request_id ok
      (sort_key if_index (failed @ concat (map rs_failures ok)))"
    "sort_key if_index (failed @ concat (map rs_failures ok)) \<noteq> [] \<longrightarrow> policy = Failure_Policy_BestEffort"
    unfolding aggregate_def Let_def by (auto simp only: and_then_simps prod.case sum.inject sum.distinct split: if_splits)
  with g show ?thesis by (auto simp: batch_response_def)
qed

lemma mset_concat_map: "mset (concat (map g xs)) = (\<Sum>x \<in># mset xs. mset (g x))"
  by (induction xs) simp_all

text \<open>C38. A successful fan-out accounts for every requested output exactly once: the indices of its images
  and failures together are those from zero to the requested count, whatever the concurrency, the
  order in which the calls completed, and how the calls divided the outputs; images and
  failures are in ascending order, and under the fail-fast policy there are no failures.\<close>

theorem fanout_accounts_for_outputs:
  assumes "fanout_config_validate cfg = Inr cfg" and "native_max \<noteq> 0"
    and "execute_fanout cfg sc request request_id native_max = Some (Inr response)"
  shows "mset (response_indices response) = mset (map of_nat [0..<unat (gp_n (req_parameters request))])
    \<and> sorted (map gi_index (rs_data response)) \<and> sorted (map if_index (rs_failures response))
    \<and> (gp_failure_policy (req_parameters request) \<noteq> Failure_Policy_BestEffort \<longrightarrow> rs_failures response = [])"
proof -
  from chunks_from_total [OF assms(2), of "gp_n (req_parameters request)" 0] obtain cs where
    cs: "chunks (gp_n (req_parameters request)) native_max = Some cs"
      "concat (map chunk_indices cs) = [0..<unat (gp_n (req_parameters request))]"
    by (auto simp: chunks_def)
  with assms(3) obtain results where results: "fanout_results cfg sc request request_id cs = Inr results"
    and agg: "aggregate sc request request_id (gp_n (req_parameters request))
      (gp_failure_policy (req_parameters request)) (sort_key cu_offset results) = Inr response"
    by (auto simp: execute_fanout_def result_simps)
  note all = fanout_results_mset [OF assms(1) results]
  from aggregate_Inr [OF agg] obtain ok failed where
    g: "gather_chunks (sort_key cu_offset results) [] [] = Inr (ok, failed)"
    and data: "rs_data response = sort_key gi_index (concat (map rs_data ok))"
    and fails: "rs_failures response = sort_key if_index (failed @ concat (map rs_failures ok))"
    and policy: "rs_failures response \<noteq> [] \<longrightarrow>
      gp_failure_policy (req_parameters request) = Failure_Policy_BestEffort"
    by blast
  have "mset (response_indices response)
      = mset (concat (map response_indices ok)) + mset (map if_index failed)"
    unfolding response_indices_def data fails mset_append mset_sort_key concat_response_indices
    by simp
  also have "\<dots> = mset (concat (map result_indices (sort_key cu_offset results)))"
    using gather_chunks_indices [OF g] by simp
  also have "\<dots> = mset (concat (map (\<lambda>c. map of_nat (chunk_indices c)) cs))"
    unfolding mset_concat_map mset_sort using all
    by (simp add: image_mset.compositionality comp_def result_indices_execute)
  also have "\<dots> = mset (map of_nat (concat (map chunk_indices cs)))" by (simp add: map_concat comp_def)
  finally show ?thesis using cs(2) policy by (auto simp: data fails)
qed

text \<open>A provider of single images, asked for two.\<close>

definition single_image :: generated_image where
  "single_image = \<lparr>gi_index = 0, gi_payload = Payload_B64_Json ''AA'', gi_format = Output_Format_Png, gi_width = 1,
     gi_height = 1, gi_bytes = 1, gi_sha256 = ''00'', gi_generation_ms = None, gi_metadata_name = None\<rparr>"

definition single_answer :: "image_request \<Rightarrow> string \<Rightarrow> image_response" where
  "single_answer q i = \<lparr>rs_id = i, rs_created = 0, rs_provider = ''p'', rs_model = ''m'',
     rs_requested = req_parameters q, rs_effective = req_parameters q, rs_normalizations = [], rs_attempts = [],
     rs_data = [single_image], rs_failures = [], rs_revised_prompt = None, rs_usage = None, rs_session = None,
     rs_timings = default_timings, rs_warnings = []\<rparr>"

definition demo_fanout :: fanout_config where
  "demo_fanout = \<lparr>fc_max_outputs = 4, fc_max_parallel_outputs = 2\<rparr>"

definition demo_fanout_script :: fanout_script where
  "demo_fanout_script = \<lparr>fs_wait = (\<lambda>_. Got_Permit), fs_answer = (\<lambda>q i. Inr (single_answer q i)),
     fs_events = (\<lambda>_. []), fs_elapsed_ms = (\<lambda>_. 3), fs_next = (\<lambda>active. length active - 1),
     fs_created = 0, fs_total_ms = 9, fs_sha256 = (\<lambda>s. s)\<rparr>"

definition two_outputs :: image_request where
  "two_outputs = upd_params (\<lambda>p. p\<lparr>gp_n := 2\<rparr>) (request_generate ''p'')"

lemma demo_chunks: "chunks 2 1 = Some [\<lparr>ch_offset = 0, ch_count = 1\<rparr>, \<lparr>ch_offset = 1, ch_count = 1\<rparr>]"
  by (simp add: chunks_def chunks_from.simps Let_def min_def)

lemma two_chunk_loop:
  assumes "cu_result (run c0) = Inr a" "cu_result (run c1) = Inr b" "fs_next sc = (\<lambda>active. length active - 1)"
  shows "fanout_loop sc run fail_fast [] [c0, c1] [] = Inr [run c1, run c0]"
  using assms by (simp add: fanout_loop.simps take_next_def push_next_def Let_def)

lemma demo_chunk_answer:
  "cu_result (execute_chunk demo_fanout_script two_outputs ''r'' c)
   = Inr (single_answer (chunk_request two_outputs c) (subrequest_id (\<lambda>s. s) ''r'' (ch_offset c)))"
  by (simp add: execute_chunk_def demo_fanout_script_def fanout_acquire_def)

lemma demo_results:
  "fanout_results demo_fanout demo_fanout_script two_outputs ''r'' [c0, c1]
   = Inr [execute_chunk demo_fanout_script two_outputs ''r'' c1,
          execute_chunk demo_fanout_script two_outputs ''r'' c0]"
proof -
  have "batch_parallel demo_fanout two_outputs = 2"
    by (simp add: batch_parallel_def two_outputs_def upd_params_def request_defaults demo_fanout_def)
  moreover have "fs_next demo_fanout_script = (\<lambda>active. length active - 1)" by (simp add: demo_fanout_script_def)
  ultimately show ?thesis
    using two_chunk_loop [OF demo_chunk_answer demo_chunk_answer]
    by (simp add: fanout_results_def push_next_def numeral_2_eq_2)
qed

lemma demo_fanout_run:
  "\<exists>response. execute_fanout demo_fanout demo_fanout_script two_outputs ''r'' 1 = Some (Inr response)"
proof -
  have two: "gp_n (req_parameters two_outputs) = 2" by (simp add: two_outputs_def upd_params_def)
  have valid: "validate_chunk_indices (single_answer q i) off 1 = Inr ()" for q i off
    by (simp add: validate_chunk_indices_def require_def single_answer_def single_image_def)
  have fields: "cu_offset (execute_chunk sc q i c) = ch_offset c" "cu_count (execute_chunk sc q i c) = ch_count c"
    for sc q i c by (simp_all add: execute_chunk_def)
  show ?thesis
    by (simp add: execute_fanout_def two demo_chunks demo_results aggregate_def demo_chunk_answer fields valid
        same_identity_def Let_def)
      (simp add: shift_response_def single_answer_def)
qed

theorem fanout_accounts_for_outputs_witness:
  "\<exists>response. execute_fanout demo_fanout demo_fanout_script two_outputs ''r'' 1 = Some (Inr response)
     \<and> mset (response_indices response) = mset [0, 1]"
proof -
  obtain response where r: "execute_fanout demo_fanout demo_fanout_script two_outputs ''r'' 1 = Some (Inr response)"
    using demo_fanout_run by blast
  have "fanout_config_validate demo_fanout = Inr demo_fanout"
    by (simp add: fanout_config_validate_def demo_fanout_def)
  from fanout_accounts_for_outputs [OF this _ r] r show ?thesis
    by (auto simp: two_outputs_def upd_params_def request_defaults upt_rec)
qed

section \<open>The failure of a whole batch\<close>

lemma outcome_unknown_detail: "k \<noteq> ''outcome'' \<Longrightarrow> outcome_unknown (with_detail k v e) = outcome_unknown e"
  by (simp add: outcome_unknown_def)

lemma should_fallback_detail: "k \<noteq> ''outcome'' \<Longrightarrow> should_fallback (with_detail k v e) policy = should_fallback e policy"
  by (simp add: should_fallback_def outcome_unknown_detail)

definition same_verdict :: "bridge_error \<Rightarrow> bridge_error \<Rightarrow> bool" where
  "same_verdict e e' \<longleftrightarrow> outcome_unknown e = outcome_unknown e' \<and> err_retryable e = err_retryable e'
     \<and> (\<forall>policy. should_fallback e policy = should_fallback e' policy)"

lemma same_verdict_detail: "k \<noteq> ''outcome'' \<Longrightarrow> same_verdict (with_detail k v e) e' = same_verdict e e'"
  by (simp add: same_verdict_def outcome_unknown_detail should_fallback_detail)

lemma same_verdict_refl [simp]: "same_verdict e e"
  by (simp add: same_verdict_def)

text \<open>Under the best-effort policy the loop runs every call to its end.\<close>

lemma fanout_loop_total: "\<exists>rs. fanout_loop sc run False pending active results = Inr rs"
proof (induction sc run "False" pending active results rule: fanout_loop.induct)
  case (1 sc run pending active results)
  show ?case
  proof (cases "active = []")
    case True
    then show ?thesis by (simp add: fanout_loop.simps)
  next
    case False
    obtain c rest where t: "take_next (fs_next sc) active = (c, rest)" by fastforce
    show ?thesis
    proof (cases "cu_result (run c)")
      case (Inl e)
      then show ?thesis using 1(1) [OF False t [symmetric] refl refl Inl] unfolding fanout_loop_step [OF False t] Let_def by simp
    next
      case (Inr r)
      then show ?thesis using 1(2) [OF False t [symmetric] refl refl Inr] unfolding fanout_loop_step [OF False t] Let_def by simp
    qed
  qed
qed

lemma chunks_first:
  assumes "chunks n native_max = Some (c0 # cs)" "native_max \<noteq> 0"
  shows "ch_offset c0 = 0 \<and> ch_count c0 \<noteq> 0 \<and> (\<forall>c \<in> set cs. ch_offset c \<noteq> 0)"
proof -
  from chunks_from_total [OF assms(2), of n 0] assms(1)
  have idx: "chunk_indices c0 @ concat (map chunk_indices cs) = [0..<unat n]"
    and ok: "\<forall>c \<in> set (c0 # cs). chunk_ok native_max c" by (auto simp: chunks_def)
  have own: "\<exists>ns. chunk_indices c = unat (ch_offset c) # ns" if "c \<in> set (c0 # cs)" for c
    using ok that by (auto simp: chunk_ok_def chunk_indices_def upt_rec [of "unat (ch_offset c)"] unat_gt_0 word_gt_0)
  from own [of c0] obtain ns where first: "chunk_indices c0 = unat (ch_offset c0) # ns" by auto
  with idx have "hd [0..<unat n] = unat (ch_offset c0)" "[0..<unat n] \<noteq> []" by (metis append_Cons list.sel(1), metis append_Cons list.distinct(1))
  then have zero: "unat (ch_offset c0) = 0" by (simp add: upt_rec split: if_splits)
  moreover have "unat (ch_offset c) \<noteq> 0" if "c \<in> set cs" for c
  proof
    assume "unat (ch_offset c) = 0"
    with own [of c] that have "0 \<in> set (concat (map chunk_indices cs))" by force
    moreover have "distinct (chunk_indices c0 @ concat (map chunk_indices cs))" unfolding idx by simp
    ultimately show False using first zero by auto
  qed
  ultimately show ?thesis using ok by (auto simp: chunk_ok_def unat_eq_0)
qed

lemma gather_all_failed:
  "\<forall>r \<in> set rs. \<not> is_ok (cu_result r) \<Longrightarrow> \<exists>later. gather_chunks rs ok failed = Inr (ok, failed @ later)"
proof (induction rs arbitrary: failed)
  case (Cons r rs)
  then obtain e where e: "cu_result r = Inl e" by (cases "cu_result r") (auto simp: is_ok_def)
  from Cons(1) [of "failed @ chunk_failures r e"] Cons(2) e show ?case by auto
qed simp

text \<open>The failure of a whole batch has the verdict of the first output.\<close>

lemma aggregate_all_failed:
  assumes "\<forall>r \<in> set (r0 # rs). \<not> is_ok (cu_result r)" "cu_result r0 = Inl e0" "cu_count r0 \<noteq> 0"
  shows "\<exists>e. aggregate sc request request_id n policy (r0 # rs) = Inl e \<and> same_verdict e e0"
proof -
  have "[unat (cu_offset r0)..<unat (cu_offset r0) + unat (cu_count r0)]
      = unat (cu_offset r0) # [Suc (unat (cu_offset r0))..<unat (cu_offset r0) + unat (cu_count r0)]"
    using assms(3) by (simp add: upt_rec unat_gt_0)
  moreover obtain later where "gather_chunks rs [] (chunk_failures r0 e0) = Inr ([], chunk_failures r0 e0 @ later)"
    using gather_all_failed [of rs "[]" "chunk_failures r0 e0"] assms(1) by auto
  ultimately show ?thesis
    using assms(2) by (simp add: aggregate_def all_failed_error_def chunk_failures_def same_verdict_detail)
qed

lemma responses_all_failed:
  assumes "outputs \<noteq> []" "\<forall>x \<in> set outputs. \<not> is_ok (io_result x)" "io_result (hd (sort_key io_index outputs)) = Inl e0"
  shows "\<exists>e. assemble_response request_id model clock negotiated (gather_outputs (sort_key io_index outputs)) = Inl (Failed e)
    \<and> same_verdict e e0"
proof -
  have fold: "ga_images (fold gather_output xs g) = ga_images g
      \<and> (\<exists>later. ga_failures (fold gather_output xs g) = ga_failures g @ later)"
    if "\<forall>x \<in> set xs. \<not> is_ok (io_result x)" for xs g
    using that
  proof (induction xs arbitrary: g)
    case (Cons x xs)
    then obtain e where "io_result x = Inl e" by (cases "io_result x") (auto simp: is_ok_def)
    with Cons(1) [of "gather_output x g"] Cons(2) show ?case by (auto simp: gather_output_def)
  qed simp
  obtain o0 rest where sorted: "sort_key io_index outputs = o0 # rest"
    using assms(1) by (cases "sort_key io_index outputs") (auto dest: arg_cong [of _ _ length])
  have "set (o0 # rest) = set outputs" unfolding sorted [symmetric] by simp
  then have "\<forall>x \<in> set rest. \<not> is_ok (io_result x)" using assms(2) by auto
  note rest = fold [OF this]
  let ?g = "gather_output o0 \<lparr>ga_images = [], ga_failures = [], ga_retry_used = False, ga_revised_prompt = None,
    ga_usage = default_usage\<rparr>"
  have o0: "io_result o0 = Inl e0" using assms(3) unfolding sorted by simp
  then have g: "ga_images ?g = []" "ga_failures ?g = [\<lparr>if_index = io_index o0, if_error = e0, if_generation_ms = io_generation_ms o0\<rparr>]"
    by (simp_all add: gather_output_def)
  obtain later where "ga_images (fold gather_output rest ?g) = []"
    "ga_failures (fold gather_output rest ?g)
      = \<lparr>if_index = io_index o0, if_error = e0, if_generation_ms = io_generation_ms o0\<rparr> # later"
    using rest [of ?g] g by auto
  then show ?thesis
    unfolding gather_outputs_def sorted by (simp add: assemble_response_def Let_def same_verdict_detail)
qed

text \<open>C40. When every call of a best-effort batch fails, the failure of the batch is decided by the call for the
  first output alone: whatever the later calls failed with, in whatever order and with whatever concurrency
  they completed, the error of the batch has a known outcome, is retryable and may be sent to another provider
  exactly when this holds of the first. An unknown outcome of a later call is hidden.\<close>

theorem all_failed_hides_unknown:
  assumes "fanout_config_validate cfg = Inr cfg" and "native_max \<noteq> 0"
    and "gp_failure_policy (req_parameters request) = Failure_Policy_BestEffort"
    and "chunks (gp_n (req_parameters request)) native_max = Some (c0 # cs)"
    and "\<forall>c \<in> set (c0 # cs). \<not> is_ok (cu_result (execute_chunk sc request request_id c))"
    and "cu_result (execute_chunk sc request request_id c0) = Inl e0"
  shows "\<exists>e. execute_fanout cfg sc request request_id native_max = Some (Inl e)
    \<and> outcome_unknown e = outcome_unknown e0 \<and> err_retryable e = err_retryable e0
    \<and> (\<forall>policy. should_fallback e policy = should_fallback e0 policy)"
proof -
  let ?run = "execute_chunk sc request request_id"
  obtain pending active where "(push_next ^^ batch_parallel cfg request) (c0 # cs, []) = (pending, active)"
    by fastforce
  then obtain results where results: "fanout_results cfg sc request request_id (c0 # cs) = Inr results"
    using fanout_loop_total [of sc ?run pending active "[]"] assms(3) by (auto simp: fanout_results_def)
  from fanout_results_mset [OF assms(1) results] have mset: "mset results = image_mset ?run (mset (c0 # cs))" by blast
  have set: "set results = ?run ` set (c0 # cs)" using arg_cong [OF mset, of set_mset] by simp
  let ?sorted = "sort_key cu_offset results"
  obtain r0 rs where sorted: "?sorted = r0 # rs"
    using set by (cases ?sorted) (auto dest: arg_cong [of _ _ set])
  have same: "set (r0 # rs) = ?run ` set (c0 # cs)" unfolding sorted [symmetric] using set by simp
  have "sorted (map cu_offset (r0 # rs))" unfolding sorted [symmetric] by simp
  then have "cu_offset r0 \<le> cu_offset (?run c0)" using same by (auto simp: image_iff)
  moreover have first: "ch_offset c0 = 0" "ch_count c0 \<noteq> 0" "\<forall>c \<in> set cs. ch_offset c \<noteq> 0"
    using chunks_first [OF assms(4,2)] by blast+
  ultimately have zero: "cu_offset r0 = 0" by (simp add: execute_chunk_def)
  obtain c where c: "c \<in> set (c0 # cs)" "r0 = ?run c" using same by auto
  with zero first(3) have r0: "r0 = ?run c0" by (auto simp: execute_chunk_def)
  have "cu_count r0 \<noteq> 0" using first(2) unfolding r0 by (simp add: execute_chunk_def)
  moreover have "\<forall>r \<in> set (r0 # rs). \<not> is_ok (cu_result r)" using assms(5) unfolding same by blast
  ultimately obtain e where "aggregate sc request request_id (gp_n (req_parameters request)) Failure_Policy_BestEffort ?sorted = Inl e"
    "same_verdict e e0"
    using aggregate_all_failed [of r0 rs e0] assms(6) unfolding sorted r0 by blast
  then show ?thesis
    using results assms(3,4) by (simp add: execute_fanout_def same_verdict_def)
qed

definition doomed_outputs :: image_request where
  "doomed_outputs = upd_params (\<lambda>p. p\<lparr>gp_n := 3, gp_failure_policy := Failure_Policy_BestEffort\<rparr>) (request_generate ''p'')"

definition doomed_script :: fanout_script where
  "doomed_script = demo_fanout_script\<lparr>fs_answer := (\<lambda>q i.
     if i = ''r:output:0'' then Inl (error_new RateLimited ''slow down'')
     else Inl (unknown_outcome_error Timeout ''deadline''))\<rparr>"

lemma three_chunks:
  "chunks 3 1 = Some [\<lparr>ch_offset = 0, ch_count = 1\<rparr>, \<lparr>ch_offset = 1, ch_count = 1\<rparr>, \<lparr>ch_offset = 2, ch_count = 1\<rparr>]"
  by (simp add: chunks_def chunks_from.simps Let_def min_def)

lemma doomed_answer:
  "cu_result (execute_chunk doomed_script doomed_outputs ''r'' c) = Inl
     (if subrequest_id (\<lambda>s. s) ''r'' (ch_offset c) = ''r:output:0'' then error_new RateLimited ''slow down''
      else unknown_outcome_error Timeout ''deadline'')"
  by (simp add: execute_chunk_def doomed_script_def demo_fanout_script_def fanout_acquire_def)

theorem all_failed_hides_unknown_witness:
  "\<exists>e. execute_fanout demo_fanout doomed_script doomed_outputs ''r'' 1 = Some (Inl e)
    \<and> \<not> outcome_unknown e \<and> should_fallback e Fallback_Policy_OnUnavailable"
proof -
  let ?e0 = "error_new RateLimited ''slow down''"
  have cfg: "fanout_config_validate demo_fanout = Inr demo_fanout"
    by (simp add: fanout_config_validate_def demo_fanout_def)
  have fields: "gp_n (req_parameters doomed_outputs) = 3"
    "gp_failure_policy (req_parameters doomed_outputs) = Failure_Policy_BestEffort"
    by (simp_all add: doomed_outputs_def upd_params_def)
  have split: "chunks (gp_n (req_parameters doomed_outputs)) 1
      = Some (\<lparr>ch_offset = 0, ch_count = 1\<rparr> # [\<lparr>ch_offset = 1, ch_count = 1\<rparr>, \<lparr>ch_offset = 2, ch_count = 1\<rparr>])"
    by (simp add: fields three_chunks)
  have zero: "digit_char 0 = CHR ''0''" by code_simp
  have first: "cu_result (execute_chunk doomed_script doomed_outputs ''r'' \<lparr>ch_offset = 0, ch_count = 1\<rparr>) = Inl ?e0"
    unfolding doomed_answer by (simp add: subrequest_id_def Let_def usize_sat_add_def usize_max_def show_nat.simps zero)
  have "\<not> outcome_unknown ?e0" "should_fallback ?e0 Fallback_Policy_OnUnavailable"
    by (simp_all add: should_fallback_def outcome_unknown_def never_rerouted_def unavailable_def)
  then show ?thesis
    using all_failed_hides_unknown [OF cfg _ fields(2) split _ first] by (auto simp: doomed_answer is_ok_def)
qed

end
