(* ===== verification/Job_Store.thy ===== *)
theory Job_Store
  imports Response Validation
begin

text \<open>
  \<open>crates/runtime/src/sqlite_jobs.rs\<close>: the durable job store. The table \<open>image_jobs\<close> is the list of its
  rows and every SQL statement of the source is a function on it, with the meaning SQLite documents:
  an \<open>UPDATE\<close> changes the rows that satisfy its condition and yields their number, the primary key and
  the unique index refuse an insert, and text is compared byte by byte. A call of the connection may
  fail, which is an argument of each operation; a failed call leaves the table as it was. An operation
  of several calls also takes what other callers did to the table in between.
\<close>

section \<open>Rows\<close>

record job_row =
  jr_id :: string
  jr_status :: string
  jr_created :: int
  jr_updated :: int
  jr_started :: "int option"
  jr_completed :: "int option"
  jr_request :: string
  jr_prompt_search :: string
  jr_progress_stage :: "string option"
  jr_partial_images :: int
  jr_response :: "string option"
  jr_error :: "string option"
  jr_cancel_requested :: bool
  jr_favorite :: bool
  jr_deleted :: "int option"
  jr_auth_scope :: string
  jr_key_hash :: "string option"
  jr_fingerprint :: "string option"

type_synonym job_table = "job_row list"

text \<open>Serialisation, the digest, Unicode lower case and the \<open>LIKE\<close> operator of SQLite (with the backslash as
  escape character, the pattern first) are libraries.\<close>

record job_codec =
  jc_encode_request :: "image_request \<Rightarrow> string option"
  jc_decode_request :: "string \<Rightarrow> image_request option"
  jc_encode_response :: "image_response \<Rightarrow> string option"
  jc_decode_response :: "string \<Rightarrow> image_response option"
  jc_encode_error :: "bridge_error \<Rightarrow> string option"
  jc_decode_error :: "string \<Rightarrow> bridge_error option"
  jc_sha256_hex :: "string \<Rightarrow> string"
  jc_to_lowercase :: "string \<Rightarrow> string"
  jc_like :: "string \<Rightarrow> string \<Rightarrow> bool"

definition active_result_reserve_bytes :: nat where
  "active_result_reserve_bytes = 256 * 1024"

definition i64_max :: int where
  "i64_max = 2 ^ 63 - 1"

definition job_error :: "string \<Rightarrow> bridge_error" where
  "job_error message = error_new Internal message"

definition job_not_found :: bridge_error where
  "job_not_found = with_detail ''resource'' (JStr ''job'') (error_new InvalidRequest ''durable job was not found'')"

definition to_i64 :: "u64 \<Rightarrow> int result" where
  "to_i64 v = (if uint v \<le> i64_max then Inr (uint v) else Inl (job_error ''job timestamp is out of range''))"

definition from_i64 :: "int \<Rightarrow> u64 result" where
  "from_i64 v = (if 0 \<le> v then Inr (word_of_int v) else Inl (job_error ''stored job timestamp is invalid''))"

text \<open>\<open>i64::try_from(n).unwrap_or(i64::MAX)\<close>.\<close>

definition i64_limit :: "usize \<Rightarrow> int" where
  "i64_limit n = min i64_max (int n)"

definition job_status_name :: "job_status \<Rightarrow> string" where
  "job_status_name s =
     (case s of
        Job_Queued \<Rightarrow> ''queued'' | Job_Running \<Rightarrow> ''running'' | Job_Succeeded \<Rightarrow> ''succeeded''
      | Job_Failed \<Rightarrow> ''failed'' | Job_Cancelled \<Rightarrow> ''cancelled'' | Job_Interrupted \<Rightarrow> ''interrupted'')"

definition parse_status :: "string \<Rightarrow> job_status result" where
  "parse_status v =
     (if v = ''queued'' then Inr Job_Queued
      else if v = ''running'' then Inr Job_Running
      else if v = ''succeeded'' then Inr Job_Succeeded
      else if v = ''failed'' then Inr Job_Failed
      else if v = ''cancelled'' then Inr Job_Cancelled
      else if v = ''interrupted'' then Inr Job_Interrupted
      else Inl (job_error ''stored job status is invalid''))"

lemma parse_status_name [simp]: "parse_status (job_status_name s) = Inr s"
  by (cases s) (simp_all add: parse_status_def job_status_name_def)

lemma status_name_inj [simp]: "job_status_name a = job_status_name b \<longleftrightarrow> a = b"
  by (cases a; cases b) (simp_all add: job_status_name_def)

lemma status_name_text [simp]:
  "job_status_name s = ''queued'' \<longleftrightarrow> s = Job_Queued"
  "job_status_name s = ''running'' \<longleftrightarrow> s = Job_Running"
  by (cases s; simp add: job_status_name_def)+

section \<open>Statements\<close>

definition sql_update :: "('r \<Rightarrow> bool) \<Rightarrow> ('r \<Rightarrow> 'r) \<Rightarrow> 'r list \<Rightarrow> nat \<times> 'r list" where
  "sql_update p f rows = (length (filter p rows), map (\<lambda>r. if p r then f r else r) rows)"

definition sql_delete :: "('r \<Rightarrow> bool) \<Rightarrow> 'r list \<Rightarrow> nat \<times> 'r list" where
  "sql_delete p rows = (length (filter p rows), filter (\<lambda>r. \<not> p r) rows)"

text \<open>A call of the connection: it fails as a whole, or runs.\<close>

definition db_call :: "bool \<Rightarrow> bridge_error \<Rightarrow> ('s \<Rightarrow> 'a result \<times> 's) \<Rightarrow> 's \<Rightarrow> 'a result \<times> 's" where
  "db_call io e f st = (if io then f st else (Inl e, st))"

text \<open>Checks in front of a call: an error of theirs leaves the table alone.\<close>

definition checked :: "'a result \<Rightarrow> ('a \<Rightarrow> 's \<Rightarrow> 'b result \<times> 's) \<Rightarrow> 's \<Rightarrow> 'b result \<times> 's" where
  "checked r f st = (case r of Inl e \<Rightarrow> (Inl e, st) | Inr a \<Rightarrow> f a st)"

lemma checked_simps [simp]:
  "checked (Inl e) f st = (Inl e, st)"
  "checked (Inr a) f st = f a st"
  by (simp_all add: checked_def)

definition owned_by :: "string \<Rightarrow> string \<Rightarrow> job_row \<Rightarrow> bool" where
  "owned_by scope jid r = (jr_id r = jid \<and> jr_auth_scope r = scope)"

section \<open>Validation and accounting\<close>

definition validate_auth_scope :: "string \<Rightarrow> unit result" where
  "validate_auth_scope scope =
     require (\<not> (scope = [] \<or> 256 < length scope \<or> has_control scope))
       (error_new InvalidRequest ''durable job authorization scope is invalid'')"

definition validate_submission_key :: "string \<Rightarrow> unit result" where
  "validate_submission_key key =
     require (\<not> (is_blank key \<or> 512 < length key \<or> has_control key))
       (error_new InvalidRequest ''durable job idempotency key is invalid'')"

definition durable_request_fingerprint :: "job_codec \<Rightarrow> image_request \<Rightarrow> string result" where
  "durable_request_fingerprint cd request =
     (case jc_encode_request cd (request\<lparr>req_idempotency_key := None, req_timeout_ms := None\<rparr>) of
        None \<Rightarrow> Inl (job_error ''could not fingerprint durable job request'')
      | Some encoded \<Rightarrow> Inr (jc_sha256_hex cd encoded))"

text \<open>The length of a column that may be null, \<open>length(CAST(COALESCE(c,'') AS BLOB))\<close>.\<close>

definition column_bytes :: "string option \<Rightarrow> nat" where
  "column_bytes c = (case c of None \<Rightarrow> 0 | Some s \<Rightarrow> length s)"

definition base_bytes :: "job_row \<Rightarrow> nat" where
  "base_bytes r = length (jr_id r) + length (jr_auth_scope r) + length (jr_request r)
     + length (jr_prompt_search r) + column_bytes (jr_key_hash r) + column_bytes (jr_fingerprint r)"

definition result_bytes :: "job_row \<Rightarrow> nat" where
  "result_bytes r = column_bytes (jr_response r) + column_bytes (jr_error r)"

definition row_active :: "job_row \<Rightarrow> bool" where
  "row_active r = (jr_status r \<in> {''queued'', ''running''})"

definition row_terminal :: "job_row \<Rightarrow> bool" where
  "row_terminal r = (jr_status r \<in> {''succeeded'', ''failed'', ''cancelled'', ''interrupted''})"

definition row_logical_bytes :: "job_row \<Rightarrow> nat" where
  "row_logical_bytes r = base_bytes r + (if row_active r then 262144 else result_bytes r) + 128"

definition logical_bytes :: "job_table \<Rightarrow> nat" where
  "logical_bytes t = sum_list (map row_logical_bytes t)"

definition sat_sum :: "nat list \<Rightarrow> nat" where
  "sat_sum ns = foldl usize_sat_add 0 ns"

definition logical_new_job_bytes ::
  "string \<Rightarrow> string \<Rightarrow> string \<Rightarrow> string \<Rightarrow> string option \<Rightarrow> string option \<Rightarrow> int result" where
  "logical_new_job_bytes jid scope request_json prompt_search key_hash fingerprint =
     (let n = sat_sum [length jid, length scope, length request_json, length prompt_search,
                column_bytes key_hash, column_bytes fingerprint, active_result_reserve_bytes, 128]
      in if int n \<le> i64_max then Inr (int n) else Inl (job_error ''durable job is too large to account''))"

text \<open>\<open>i64::saturating_add\<close> of non-negative operands.\<close>

definition i64_sat_add :: "int \<Rightarrow> int \<Rightarrow> int" where
  "i64_sat_add a b = min i64_max (a + b)"

section \<open>Submission\<close>

datatype create_outcome =
    Create_Created string
  | Create_Replay string
  | Create_Conflict
  | Create_Full

record new_job =
  nj_id :: string
  nj_scope :: string
  nj_now :: int
  nj_request_json :: string
  nj_prompt_search :: string
  nj_key_hash :: "string option"
  nj_fingerprint :: "string option"
  nj_bytes :: int

definition prepare_job ::
  "job_codec \<Rightarrow> string \<Rightarrow> string \<Rightarrow> image_request \<Rightarrow> u64 \<Rightarrow> new_job result" where
  "prepare_job cd scope jid request now =
     and_then (validate_auth_scope scope) (\<lambda>_.
     and_then (ok_or (job_error ''could not encode job request'')
       (jc_encode_request cd (request\<lparr>req_idempotency_key := None\<rparr>))) (\<lambda>request_json.
     and_then (case req_idempotency_key request of
         None \<Rightarrow> Inr () | Some key \<Rightarrow> validate_submission_key key) (\<lambda>_.
     and_then (case req_idempotency_key request of
         None \<Rightarrow> Inr None
       | Some key \<Rightarrow> and_then (durable_request_fingerprint cd request) (\<lambda>f. Inr (Some f))) (\<lambda>fingerprint.
     and_then (to_i64 now) (\<lambda>now'.
       let key_hash = map_option (jc_sha256_hex cd) (req_idempotency_key request);
           prompt_search = jc_to_lowercase cd (req_prompt request)
       in and_then (logical_new_job_bytes jid scope request_json prompt_search key_hash fingerprint) (\<lambda>bytes.
         Inr \<lparr>nj_id = jid, nj_scope = scope, nj_now = now', nj_request_json = request_json,
              nj_prompt_search = prompt_search, nj_key_hash = key_hash, nj_fingerprint = fingerprint,
              nj_bytes = bytes\<rparr>))))))"

definition queued_row :: "new_job \<Rightarrow> job_row" where
  "queued_row nj =
     \<lparr>jr_id = nj_id nj, jr_status = ''queued'', jr_created = nj_now nj, jr_updated = nj_now nj,
      jr_started = None, jr_completed = None, jr_request = nj_request_json nj,
      jr_prompt_search = nj_prompt_search nj, jr_progress_stage = None, jr_partial_images = 0,
      jr_response = None, jr_error = None, jr_cancel_requested = False, jr_favorite = False,
      jr_deleted = None, jr_auth_scope = nj_scope nj, jr_key_hash = nj_key_hash nj,
      jr_fingerprint = nj_fingerprint nj\<rparr>"

definition same_submission :: "string \<Rightarrow> string option \<Rightarrow> job_row \<Rightarrow> bool" where
  "same_submission scope key_hash r =
     (key_hash \<noteq> None \<and> jr_auth_scope r = scope \<and> jr_key_hash r = key_hash)"

definition create_error :: bridge_error where
  "create_error = job_error ''could not submit durable job''"

text \<open>The transaction of a submission. A violated key aborts it.\<close>

definition insert_job :: "int \<Rightarrow> int \<Rightarrow> new_job \<Rightarrow> job_table \<Rightarrow> create_outcome result \<times> job_table" where
  "insert_job max_pending max_database_bytes nj t =
     (case find (same_submission (nj_scope nj) (nj_key_hash nj)) t of
        Some r \<Rightarrow>
          (case jr_fingerprint r of
             None \<Rightarrow> (Inl create_error, t)
           | Some f \<Rightarrow> (Inr (if nj_fingerprint nj = Some f then Create_Replay (jr_id r) else Create_Conflict), t))
      | None \<Rightarrow>
          if max_pending \<le> int (length (filter (\<lambda>r. jr_status r = ''queued'') t)) then (Inr Create_Full, t)
          else if max_database_bytes < i64_sat_add (int (logical_bytes t)) (nj_bytes nj) then (Inr Create_Full, t)
          else if nj_id nj \<in> jr_id ` set t then (Inl create_error, t)
          else (Inr (Create_Created (nj_id nj)), t @ [queued_row nj]))"

definition create_call ::
  "bool \<Rightarrow> job_codec \<Rightarrow> string \<Rightarrow> string \<Rightarrow> image_request \<Rightarrow> u64 \<Rightarrow> usize \<Rightarrow> u64 \<Rightarrow> job_table
   \<Rightarrow> create_outcome result \<times> job_table" where
  "create_call io cd scope jid request now max_pending max_database_bytes =
     checked (prepare_job cd scope jid request now) (\<lambda>nj.
       db_call io create_error
         (insert_job (i64_limit max_pending) (i64_limit (unat max_database_bytes)) nj))"

definition submitted :: "create_outcome \<Rightarrow> (string \<times> bool) result" where
  "submitted outcome =
     (case outcome of
        Create_Created jid \<Rightarrow> Inr (jid, True)
      | Create_Replay jid \<Rightarrow> Inr (jid, False)
      | Create_Conflict \<Rightarrow> Inl (error_new IdempotencyConflict
          ''idempotency key was already used for a different request'')
      | Create_Full \<Rightarrow> Inl (retryable True (error_new Overloaded ''durable job queue is full'')))"

section \<open>Decoding\<close>

definition progress_of :: "string option \<Rightarrow> u32 \<Rightarrow> job_progress option" where
  "progress_of stage n = map_option (\<lambda>s. \<lparr>jp_stage = s, jp_partial_images = n\<rparr>) stage"

definition transposed :: "('a \<Rightarrow> 'b result) \<Rightarrow> 'a option \<Rightarrow> 'b option result" where
  "transposed f x = (case x of None \<Rightarrow> Inr None | Some a \<Rightarrow> and_then (f a) (\<lambda>b. Inr (Some b)))"

definition decode_summary :: "job_row \<Rightarrow> job_summary result" where
  "decode_summary r =
     and_then (if 0 \<le> jr_partial_images r \<and> jr_partial_images r < 2 ^ 32
               then Inr (word_of_int (jr_partial_images r) :: u32)
               else Inl (job_error ''stored partial image count is invalid'')) (\<lambda>partial_images.
     and_then (parse_status (jr_status r)) (\<lambda>status.
     and_then (from_i64 (jr_created r)) (\<lambda>created.
     and_then (from_i64 (jr_updated r)) (\<lambda>updated.
     and_then (transposed from_i64 (jr_started r)) (\<lambda>started.
     and_then (transposed from_i64 (jr_completed r)) (\<lambda>completed.
     and_then (transposed from_i64 (jr_deleted r)) (\<lambda>deleted.
       Inr \<lparr>js_id = jr_id r, js_status = status, js_created = created, js_updated = updated,
            js_started = started, js_completed = completed,
            js_progress = progress_of (jr_progress_stage r) partial_images,
            js_favorite = jr_favorite r, js_deleted = deleted\<rparr>)))))))"

definition decode_job :: "job_codec \<Rightarrow> job_row \<Rightarrow> image_job result" where
  "decode_job cd r =
     and_then (decode_summary r) (\<lambda>summary.
     and_then (ok_or (job_error ''stored job request is invalid'') (jc_decode_request cd (jr_request r))) (\<lambda>request.
     and_then (transposed (\<lambda>v. ok_or (job_error ''stored job result is invalid'') (jc_decode_response cd v))
       (jr_response r)) (\<lambda>response.
     and_then (transposed (\<lambda>v. ok_or (job_error ''stored job error is invalid'') (jc_decode_error cd v))
       (jr_error r)) (\<lambda>error.
       Inr \<lparr>ij_summary = summary, ij_request = request, ij_result = response, ij_error = error,
            ij_cancel_requested = jr_cancel_requested r\<rparr>))))"

definition job_get :: "bool \<Rightarrow> job_codec \<Rightarrow> string \<Rightarrow> string \<Rightarrow> job_table \<Rightarrow> image_job result" where
  "job_get io cd scope jid t =
     and_then (validate_auth_scope scope) (\<lambda>_.
       if \<not> io then Inl (job_error ''could not read durable job'')
       else and_then (ok_or job_not_found (find (owned_by scope jid) t)) (decode_job cd))"

record job_submission =
  sb_job :: image_job
  sb_created :: bool

definition job_create ::
  "bool \<Rightarrow> bool \<Rightarrow> (job_table \<Rightarrow> job_table) \<Rightarrow> job_codec \<Rightarrow> string \<Rightarrow> string \<Rightarrow> image_request \<Rightarrow> u64 \<Rightarrow> usize
   \<Rightarrow> u64 \<Rightarrow> job_table \<Rightarrow> job_submission result \<times> job_table" where
  "job_create io io_get others cd scope jid request now max_pending max_database_bytes t =
     (case create_call io cd scope jid request now max_pending max_database_bytes t of
        (Inl e, t1) \<Rightarrow> (Inl e, t1)
      | (Inr outcome, t1) \<Rightarrow>
          checked (submitted outcome) (\<lambda>(lookup_id, created) t2.
            (and_then (job_get io_get cd scope lookup_id t2) (\<lambda>job.
               Inr \<lparr>sb_job = job, sb_created = created\<rparr>), t2)) (others t1))"

section \<open>Execution\<close>

definition recovery_error :: bridge_error where
  "recovery_error =
     with_detail ''recovery'' (JStr ''inspect_history_before_retrying'')
       (error_new Cancelled ''bridge stopped while provider completion was uncertain'')"

definition recover_interrupted :: "bool \<Rightarrow> job_codec \<Rightarrow> u64 \<Rightarrow> job_table \<Rightarrow> nat result \<times> job_table" where
  "recover_interrupted io cd now =
     checked (to_i64 now) (\<lambda>now'.
     checked (ok_or (job_error ''could not encode interruption error'') (jc_encode_error cd recovery_error)) (\<lambda>e.
       db_call io (job_error ''could not recover interrupted jobs'') (\<lambda>t.
         let (changed, t') = sql_update (\<lambda>r. jr_status r = ''running'')
               (\<lambda>r. r\<lparr>jr_status := ''interrupted'', jr_updated := now', jr_completed := Some now',
                      jr_error := Some e\<rparr>) t
         in (Inr changed, t'))))"

text \<open>Rows in the order of their keys, oldest first.\<close>

definition job_key :: "job_row \<Rightarrow> int \<times> string" where
  "job_key r = (jr_created r, jr_id r)"

definition oldest_first :: "job_table \<Rightarrow> job_table" where
  "oldest_first t = sort_key job_key t"

definition newest_first :: "job_table \<Rightarrow> job_table" where
  "newest_first t = rev (sort_key job_key t)"

definition queued_identities :: "bool \<Rightarrow> usize \<Rightarrow> job_table \<Rightarrow> (string \<times> string) list result" where
  "queued_identities io limit t =
     (if io then
        Inr (map (\<lambda>r. (jr_auth_scope r, jr_id r))
          (take (nat (i64_limit limit)) (oldest_first (filter (\<lambda>r. jr_status r = ''queued'') t))))
      else Inl (job_error ''could not list queued durable jobs''))"

definition job_claim :: "bool \<Rightarrow> string \<Rightarrow> string \<Rightarrow> u64 \<Rightarrow> job_table \<Rightarrow> bool result \<times> job_table" where
  "job_claim io scope jid now =
     checked (validate_auth_scope scope) (\<lambda>_.
     checked (to_i64 now) (\<lambda>now'.
       db_call io (job_error ''could not claim durable job'') (\<lambda>t.
         let (changed, t') = sql_update
               (\<lambda>r. owned_by scope jid r \<and> jr_status r = ''queued'' \<and> \<not> jr_cancel_requested r)
               (\<lambda>r. r\<lparr>jr_status := ''running'', jr_started := Some now', jr_updated := now',
                      jr_progress_stage := Some ''starting''\<rparr>) t
         in (Inr (changed = 1), t'))))"

definition valid_stage :: "string \<Rightarrow> bool" where
  "valid_stage stage =
     (stage \<noteq> [] \<and> length stage \<le> 64
      \<and> list_all (\<lambda>c. is_ascii_alphanumeric c \<or> c = CHR ''-'' \<or> c = CHR ''_'') stage)"

definition job_set_progress ::
  "bool \<Rightarrow> string \<Rightarrow> string \<Rightarrow> string \<Rightarrow> u32 \<Rightarrow> u64 \<Rightarrow> job_table \<Rightarrow> unit result \<times> job_table" where
  "job_set_progress io scope jid stage partial_images now =
     checked (validate_auth_scope scope) (\<lambda>_.
     checked (require (valid_stage stage) (job_error ''job progress stage is invalid'')) (\<lambda>_.
     checked (to_i64 now) (\<lambda>now'.
       db_call io (job_error ''could not update durable job progress'') (\<lambda>t.
         (Inr (), snd (sql_update (\<lambda>r. owned_by scope jid r \<and> jr_status r = ''running'')
           (\<lambda>r. r\<lparr>jr_progress_stage := Some stage, jr_partial_images := uint partial_images,
                  jr_updated := now'\<rparr>) t))))))"

definition job_finish ::
  "bool \<Rightarrow> string \<Rightarrow> string \<Rightarrow> job_status \<Rightarrow> string option \<Rightarrow> string option \<Rightarrow> u64 \<Rightarrow> job_table
   \<Rightarrow> unit result \<times> job_table" where
  "job_finish io scope jid status response error now =
     checked (validate_auth_scope scope) (\<lambda>_.
     checked (to_i64 now) (\<lambda>now'.
       db_call io (job_error ''could not finish durable job'') (\<lambda>t.
         let (changed, t') = sql_update (\<lambda>r. owned_by scope jid r \<and> jr_status r = ''running'')
               (\<lambda>r. r\<lparr>jr_status := job_status_name status, jr_updated := now', jr_completed := Some now',
                      jr_progress_stage := Some ''completed'', jr_response := response,
                      jr_error := error\<rparr>) t
         in if changed \<noteq> 1 then (Inl (job_error ''could not finish durable job''), t')
            else (Inr (), t'))))"

definition job_succeed ::
  "bool \<Rightarrow> job_codec \<Rightarrow> string \<Rightarrow> string \<Rightarrow> image_response \<Rightarrow> u64 \<Rightarrow> job_table \<Rightarrow> unit result \<times> job_table" where
  "job_succeed io cd scope jid response now =
     checked (ok_or (job_error ''could not encode job result'') (jc_encode_response cd response)) (\<lambda>encoded.
     checked (require (length encoded \<le> active_result_reserve_bytes)
       (error_new Artifact ''durable job result metadata exceeds the storage reserve'')) (\<lambda>_.
       job_finish io scope jid Job_Succeeded (Some encoded) None now))"

definition oversized_error :: bridge_error where
  "oversized_error = error_new Internal ''durable job failed with oversized error metadata''"

definition bounded_error_json :: "job_codec \<Rightarrow> bridge_error \<Rightarrow> string result" where
  "bounded_error_json cd error =
     and_then (ok_or (job_error ''could not encode job error'') (jc_encode_error cd error)) (\<lambda>encoded.
       if active_result_reserve_bytes < length encoded
       then ok_or (job_error ''could not encode bounded job error'') (jc_encode_error cd oversized_error)
       else Inr encoded)"

definition job_fail ::
  "bool \<Rightarrow> job_codec \<Rightarrow> string \<Rightarrow> string \<Rightarrow> job_status \<Rightarrow> bridge_error \<Rightarrow> u64 \<Rightarrow> job_table
   \<Rightarrow> unit result \<times> job_table" where
  "job_fail io cd scope jid status error now =
     checked (require (status \<in> {Job_Failed, Job_Cancelled, Job_Interrupted})
       (job_error ''invalid terminal job failure status'')) (\<lambda>_.
     checked (bounded_error_json cd error) (\<lambda>encoded.
       job_finish io scope jid status None (Some encoded) now))"

section \<open>Cancellation and history\<close>

definition cancel_row :: "string \<Rightarrow> string \<Rightarrow> int \<Rightarrow> job_table \<Rightarrow> unit result \<times> job_table" where
  "cancel_row scope jid now t =
     (case find (owned_by scope jid) t of
        None \<Rightarrow> (Inl job_not_found, t)
      | Some r \<Rightarrow>
          if jr_status r = ''queued'' then
            (Inr (), snd (sql_update (owned_by scope jid)
              (\<lambda>r. r\<lparr>jr_status := ''cancelled'', jr_cancel_requested := True, jr_updated := now,
                     jr_completed := Some now, jr_progress_stage := Some ''completed''\<rparr>) t))
          else if jr_status r = ''running'' then
            (Inr (), snd (sql_update (owned_by scope jid)
              (\<lambda>r. r\<lparr>jr_cancel_requested := True, jr_updated := now\<rparr>) t))
          else (Inr (), t))"

definition cancel_call :: "bool \<Rightarrow> string \<Rightarrow> string \<Rightarrow> u64 \<Rightarrow> job_table \<Rightarrow> unit result \<times> job_table" where
  "cancel_call io scope jid now =
     checked (validate_auth_scope scope) (\<lambda>_.
     checked (to_i64 now) (\<lambda>now'. db_call io job_not_found (cancel_row scope jid now')))"

definition request_cancel ::
  "bool \<Rightarrow> bool \<Rightarrow> (job_table \<Rightarrow> job_table) \<Rightarrow> job_codec \<Rightarrow> string \<Rightarrow> string \<Rightarrow> u64 \<Rightarrow> job_table
   \<Rightarrow> image_job result \<times> job_table" where
  "request_cancel io io_get others cd scope jid now t =
     (case cancel_call io scope jid now t of
        (Inl e, t1) \<Rightarrow> (Inl e, t1)
      | (Inr _, t1) \<Rightarrow> (let t2 = others t1 in (job_get io_get cd scope jid t2, t2)))"

definition history_call ::
  "bool \<Rightarrow> string \<Rightarrow> string \<Rightarrow> bool option \<Rightarrow> bool option \<Rightarrow> u64 \<Rightarrow> job_table \<Rightarrow> unit result \<times> job_table" where
  "history_call io scope jid favorite deleted now =
     checked (to_i64 now) (\<lambda>now'.
       db_call io (job_error ''could not update durable job history'') (\<lambda>t.
         let (changed, t') = sql_update (owned_by scope jid)
               (\<lambda>r. r\<lparr>jr_favorite := (case favorite of None \<Rightarrow> jr_favorite r | Some b \<Rightarrow> b),
                      jr_deleted := (case deleted of None \<Rightarrow> jr_deleted r
                                     | Some d \<Rightarrow> if d then Some now' else None),
                      jr_updated := now'\<rparr>) t
         in if changed \<noteq> 1 then (Inl (job_error ''could not update durable job history''), t')
            else (Inr (), t')))"

definition update_history ::
  "bool \<Rightarrow> bool \<Rightarrow> bool \<Rightarrow> (job_table \<Rightarrow> job_table) \<Rightarrow> (job_table \<Rightarrow> job_table) \<Rightarrow> job_codec \<Rightarrow> string \<Rightarrow> string
   \<Rightarrow> bool option \<Rightarrow> bool option \<Rightarrow> u64 \<Rightarrow> job_table \<Rightarrow> image_job result \<times> job_table" where
  "update_history io_read io io_get others others_get cd scope jid favorite deleted now t =
     checked (validate_auth_scope scope) (\<lambda>_.
     checked (require (\<not> (favorite = None \<and> deleted = None))
       (error_new InvalidRequest ''history update must change favorite or deleted state'')) (\<lambda>_.
     checked (job_get io_read cd scope jid t) (\<lambda>existing.
     checked (require (deleted = None \<or> job_terminal (js_status (ij_summary existing)))
       (with_detail ''field'' (JStr ''deleted'')
         (error_new InvalidRequest ''only terminal jobs can be deleted from history''))) (\<lambda>_ t0.
       case history_call io scope jid favorite deleted now (others t0) of
         (Inl e, t1) \<Rightarrow> (Inl e, t1)
       | (Inr _, t1) \<Rightarrow> (let t2 = others_get t1 in (job_get io_get cd scope jid t2, t2)))))) t"

section \<open>Retention\<close>

definition retained_bytes :: "job_row \<Rightarrow> nat" where
  "retained_bytes r = base_bytes r + result_bytes r + 128"

text \<open>The rows of the window whose ordinal or running sum exceeds its bound.\<close>

fun beyond_budget :: "int \<Rightarrow> int \<Rightarrow> nat \<Rightarrow> nat \<Rightarrow> job_table \<Rightarrow> string list" where
  "beyond_budget maximum maximum_bytes ordinal cumulative [] = []"
| "beyond_budget maximum maximum_bytes ordinal cumulative (r # rs) =
     (let ordinal' = Suc ordinal; cumulative' = cumulative + retained_bytes r;
          later = beyond_budget maximum maximum_bytes ordinal' cumulative' rs
      in if maximum < int ordinal' \<or> maximum_bytes < int cumulative' then jr_id r # later else later)"

definition prunable :: "job_row \<Rightarrow> bool" where
  "prunable r = (row_terminal r \<and> \<not> jr_favorite r)"

definition expired_row :: "int \<Rightarrow> job_row \<Rightarrow> bool" where
  "expired_row cutoff r =
     (prunable r \<and> (case jr_completed r of None \<Rightarrow> False | Some c \<Rightarrow> c \<le> cutoff))"

definition prune_rows :: "int \<Rightarrow> int \<Rightarrow> int \<Rightarrow> job_table \<Rightarrow> nat \<times> job_table" where
  "prune_rows cutoff maximum maximum_bytes t =
     (let (expired, t1) = sql_delete (expired_row cutoff) t;
          doomed = beyond_budget maximum maximum_bytes 0 0 (newest_first (filter prunable t1));
          (excess, t2) = sql_delete (\<lambda>r. jr_id r \<in> set doomed) t1
      in (expired + excess, t2))"

definition job_prune :: "bool \<Rightarrow> u64 \<Rightarrow> u64 \<Rightarrow> usize \<Rightarrow> u64 \<Rightarrow> job_table \<Rightarrow> nat result \<times> job_table" where
  "job_prune io now retention_secs max_retained max_retained_bytes =
     checked (to_i64 (sat_sub now retention_secs)) (\<lambda>cutoff.
       db_call io (job_error ''could not prune durable jobs'') (\<lambda>t.
         let (deleted, t') = prune_rows cutoff (i64_limit max_retained) (i64_limit (unat max_retained_bytes)) t
         in (Inr deleted, t')))"

section \<open>Listing\<close>

datatype job_visibility = Visible_Active | Visible_Hidden | Visible_All

record job_list_filter =
  jf_before :: "(u64 \<times> string) option"
  jf_limit :: usize
  jf_visibility :: job_visibility
  jf_status :: "job_status option"
  jf_favorite :: "bool option"
  jf_search :: "string option"

definition literal_like_pattern :: "string \<Rightarrow> string" where
  "literal_like_pattern v =
     ''%'' @ concat (map (\<lambda>c. if c = CHR ''%'' \<or> c = CHR ''_'' \<or> c = CHR 0x5C then [CHR 0x5C, c] else [c]) v) @ ''%''"

definition listed :: "job_codec \<Rightarrow> string \<Rightarrow> job_list_filter \<Rightarrow> (int \<times> string) option \<Rightarrow> job_row \<Rightarrow> bool" where
  "listed cd scope f before r =
     (jr_auth_scope r = scope
      \<and> (case jf_visibility f of
           Visible_Active \<Rightarrow> jr_deleted r = None
         | Visible_Hidden \<Rightarrow> jr_deleted r \<noteq> None
         | Visible_All \<Rightarrow> True)
      \<and> (case jf_status f of None \<Rightarrow> True | Some s \<Rightarrow> jr_status r = job_status_name s)
      \<and> (case jf_favorite f of None \<Rightarrow> True | Some b \<Rightarrow> jr_favorite r = b)
      \<and> (case jf_search f of None \<Rightarrow> True
         | Some s \<Rightarrow> jc_like cd (literal_like_pattern (jc_to_lowercase cd s)) (jr_prompt_search r))
      \<and> (case before of None \<Rightarrow> True
         | Some (created, jid) \<Rightarrow>
             jr_created r < created \<or> (jr_created r = created \<and> jr_id r < jid)))"

definition job_list ::
  "bool \<Rightarrow> job_codec \<Rightarrow> string \<Rightarrow> job_list_filter \<Rightarrow> job_table \<Rightarrow> job_summary list result" where
  "job_list io cd scope f t =
     and_then (validate_auth_scope scope) (\<lambda>_.
     and_then (transposed (\<lambda>(created, jid). and_then (to_i64 created) (\<lambda>c. Inr (c, jid))) (jf_before f)) (\<lambda>before.
       if \<not> io then Inl (job_error ''could not list durable jobs'')
       else traverse decode_summary
         (take (nat (i64_limit (jf_limit f))) (newest_first (filter (listed cd scope f before) t)))))"

section \<open>Statistics\<close>

record job_stats =
  st_total :: u64
  st_queued :: u64
  st_running :: u64
  st_succeeded :: u64
  st_failed :: u64
  st_cancelled :: u64
  st_interrupted :: u64
  st_hidden :: u64
  st_database_bytes :: u64
  st_logical_bytes :: u64

definition stat_u64 :: "int \<Rightarrow> u64 result" where
  "stat_u64 v = (if 0 \<le> v then Inr (word_of_int v) else Inl (job_error ''job database returned invalid statistics''))"

definition sat_mul_u64 :: "u64 \<Rightarrow> u64 \<Rightarrow> u64" where
  "sat_mul_u64 a b = (if unat a * unat b < 2 ^ 64 then a * b else - 1)"

definition count_rows :: "(job_row \<Rightarrow> bool) \<Rightarrow> job_table \<Rightarrow> int" where
  "count_rows p t = int (length (filter p t))"

definition job_statistics :: "bool \<Rightarrow> int \<Rightarrow> int \<Rightarrow> job_table \<Rightarrow> job_stats result" where
  "job_statistics io page_count page_size t =
     (if \<not> io then Inl (job_error ''could not inspect job database statistics'')
      else
        let status = (\<lambda>s. stat_u64 (count_rows (\<lambda>r. jr_status r = s) t)) in
        and_then (stat_u64 (int (length t))) (\<lambda>all_rows.
        and_then (status ''queued'') (\<lambda>queued.
        and_then (status ''running'') (\<lambda>running.
        and_then (status ''succeeded'') (\<lambda>succeeded.
        and_then (status ''failed'') (\<lambda>failed.
        and_then (status ''cancelled'') (\<lambda>cancelled.
        and_then (status ''interrupted'') (\<lambda>interrupted.
        and_then (stat_u64 (count_rows (\<lambda>r. jr_deleted r \<noteq> None) t)) (\<lambda>hidden.
        and_then (stat_u64 page_count) (\<lambda>pages.
        and_then (stat_u64 page_size) (\<lambda>bytes.
        and_then (stat_u64 (int (logical_bytes t))) (\<lambda>logical.
          Inr \<lparr>st_total = all_rows, st_queued = queued, st_running = running, st_succeeded = succeeded,
               st_failed = failed, st_cancelled = cancelled, st_interrupted = interrupted,
               st_hidden = hidden, st_database_bytes = sat_mul_u64 pages bytes,
               st_logical_bytes = logical\<rparr>))))))))))))"

section \<open>Migration\<close>

text \<open>The stored schema: the optional columns that the table has, and the versions applied.\<close>

record job_schema =
  sc_columns :: "string list"
  sc_versions :: "nat list"
  sc_rows :: job_table

definition add_column :: "string \<Rightarrow> (job_row \<Rightarrow> job_row) \<Rightarrow> job_schema \<Rightarrow> job_schema" where
  "add_column name default_value sc =
     (if name \<in> set (sc_columns sc) then sc
      else sc\<lparr>sc_columns := sc_columns sc @ [name], sc_rows := map default_value (sc_rows sc)\<rparr>)"

definition mark_version :: "nat \<Rightarrow> job_schema \<Rightarrow> job_schema" where
  "mark_version v sc = (if v \<in> set (sc_versions sc) then sc else sc\<lparr>sc_versions := sc_versions sc @ [v]\<rparr>)"

text \<open>\<open>json_prompt\<close> is \<open>json_extract(request_json, '$.prompt')\<close> of a valid document, else nothing.\<close>

definition fill_prompt :: "(string \<Rightarrow> string option) \<Rightarrow> job_codec \<Rightarrow> job_row \<Rightarrow> job_row" where
  "fill_prompt json_prompt cd r =
     (if jr_prompt_search r = [] then
        (case json_prompt (jr_request r) of
           None \<Rightarrow> r
         | Some prompt \<Rightarrow> r\<lparr>jr_prompt_search := jc_to_lowercase cd prompt\<rparr>)
      else r)"

definition migrate :: "(string \<Rightarrow> string option) \<Rightarrow> job_codec \<Rightarrow> job_schema \<Rightarrow> job_schema" where
  "migrate json_prompt cd sc =
     (let sc1 = add_column ''prompt_search'' (\<lambda>r. r\<lparr>jr_prompt_search := []\<rparr>) (mark_version 1 sc);
          sc2 = mark_version 2 (sc1\<lparr>sc_rows := map (fill_prompt json_prompt cd) (sc_rows sc1)\<rparr>);
          sc3 = add_column ''auth_scope'' (\<lambda>r. r\<lparr>jr_auth_scope := ''legacy-unowned''\<rparr>) sc2;
          sc4 = add_column ''submission_key_hash'' (\<lambda>r. r\<lparr>jr_key_hash := None\<rparr>) sc3;
          sc5 = add_column ''request_fingerprint'' (\<lambda>r. r\<lparr>jr_fingerprint := None\<rparr>) sc4
      in mark_version 3 sc5)"

lemma fill_prompt_idem: "fill_prompt json_prompt cd (fill_prompt json_prompt cd r) = fill_prompt json_prompt cd r"
  by (auto simp: fill_prompt_def split: option.splits)

end
