(* ===== verification/Job_Store_Properties.thy ===== *)
theory Job_Store_Properties
  imports Job_Store
begin

text \<open>
  What the durable job store keeps under every sequence of its calls. Each call is shown to be one of
  three moves of the table: rows that advance, a deletion of prunable rows, an insertion; the properties
  follow from the moves.
\<close>

section \<open>Calls\<close>

datatype job_command =
    Cmd_Create bool string string image_request u64
  | Cmd_Recover bool u64
  | Cmd_Claim bool string string u64
  | Cmd_Progress bool string string string u32 u64
  | Cmd_Succeed bool string string image_response u64
  | Cmd_Fail bool string string job_status bridge_error u64
  | Cmd_Cancel bool string string u64
  | Cmd_History bool string string "bool option" "bool option" u64
  | Cmd_Prune bool u64 u64 usize u64

fun job_apply :: "job_codec \<Rightarrow> usize \<Rightarrow> u64 \<Rightarrow> job_command \<Rightarrow> job_table \<Rightarrow> job_table" where
  "job_apply cd pending bytes (Cmd_Create io scope jid request now) t =
     snd (create_call io cd scope jid request now pending bytes t)"
| "job_apply cd pending bytes (Cmd_Recover io now) t = snd (recover_interrupted io cd now t)"
| "job_apply cd pending bytes (Cmd_Claim io scope jid now) t = snd (job_claim io scope jid now t)"
| "job_apply cd pending bytes (Cmd_Progress io scope jid stage n now) t =
     snd (job_set_progress io scope jid stage n now t)"
| "job_apply cd pending bytes (Cmd_Succeed io scope jid response now) t =
     snd (job_succeed io cd scope jid response now t)"
| "job_apply cd pending bytes (Cmd_Fail io scope jid status error now) t =
     snd (job_fail io cd scope jid status error now t)"
| "job_apply cd pending bytes (Cmd_Cancel io scope jid now) t = snd (cancel_call io scope jid now t)"
| "job_apply cd pending bytes (Cmd_History io scope jid favorite deleted now) t =
     snd (history_call io scope jid favorite deleted now t)"
| "job_apply cd pending bytes (Cmd_Prune io now retention max_retained max_bytes) t =
     snd (job_prune io now retention max_retained max_bytes t)"

definition job_run :: "job_codec \<Rightarrow> usize \<Rightarrow> u64 \<Rightarrow> job_command list \<Rightarrow> job_table \<Rightarrow> job_table" where
  "job_run cd pending bytes cmds t = fold (job_apply cd pending bytes) cmds t"

lemma job_run_simps [simp]:
  "job_run cd pending bytes [] t = t"
  "job_run cd pending bytes (c # cs) t = job_run cd pending bytes cs (job_apply cd pending bytes c t)"
  by (simp_all add: job_run_def)

section \<open>Moves\<close>

definition time_ok :: "int \<Rightarrow> bool" where
  "time_ok v = (0 \<le> v \<and> v \<le> i64_max)"

definition response_json :: "job_codec \<Rightarrow> string \<Rightarrow> bool" where
  "response_json cd s = (\<exists>r. jc_encode_response cd r = Some s \<and> length s \<le> active_result_reserve_bytes)"

definition error_json :: "job_codec \<Rightarrow> string \<Rightarrow> bool" where
  "error_json cd s =
     (\<exists>e. jc_encode_error cd e = Some s
        \<and> (length s \<le> active_result_reserve_bytes \<or> e = recovery_error \<or> e = oversized_error))"

definition outcome_ok :: "job_codec \<Rightarrow> job_status \<Rightarrow> string option \<Rightarrow> string option \<Rightarrow> bool" where
  "outcome_ok cd s response error =
     (if s = Job_Succeeded then error = None \<and> (\<exists>x. response = Some x \<and> response_json cd x)
      else response = None \<and> s \<in> {Job_Failed, Job_Cancelled, Job_Interrupted}
        \<and> (\<exists>x. error = Some x \<and> error_json cd x))"

inductive row_move :: "job_codec \<Rightarrow> job_row \<Rightarrow> job_row \<Rightarrow> bool" for cd where
  move_stay: "row_move cd r r"
| move_claim: "jr_status r = ''queued'' \<Longrightarrow> \<not> jr_cancel_requested r \<Longrightarrow> time_ok now \<Longrightarrow>
    row_move cd r (r\<lparr>jr_status := ''running'', jr_started := Some now, jr_updated := now,
      jr_progress_stage := Some ''starting''\<rparr>)"
| move_progress: "jr_status r = ''running'' \<Longrightarrow> time_ok now \<Longrightarrow> 0 \<le> n \<Longrightarrow> n < 2 ^ 32 \<Longrightarrow>
    row_move cd r (r\<lparr>jr_progress_stage := Some stage, jr_partial_images := n, jr_updated := now\<rparr>)"
| move_finish: "jr_status r = ''running'' \<Longrightarrow> time_ok now \<Longrightarrow> outcome_ok cd s response error \<Longrightarrow>
    row_move cd r (r\<lparr>jr_status := job_status_name s, jr_updated := now, jr_completed := Some now,
      jr_progress_stage := Some ''completed'', jr_response := response, jr_error := error\<rparr>)"
| move_interrupt: "jr_status r = ''running'' \<Longrightarrow> time_ok now \<Longrightarrow> error_json cd e \<Longrightarrow>
    row_move cd r (r\<lparr>jr_status := ''interrupted'', jr_updated := now, jr_completed := Some now,
      jr_error := Some e\<rparr>)"
| move_cancel_queued: "jr_status r = ''queued'' \<Longrightarrow> time_ok now \<Longrightarrow>
    row_move cd r (r\<lparr>jr_status := ''cancelled'', jr_cancel_requested := True, jr_updated := now,
      jr_completed := Some now, jr_progress_stage := Some ''completed''\<rparr>)"
| move_cancel_running: "jr_status r = ''running'' \<Longrightarrow> time_ok now \<Longrightarrow>
    row_move cd r (r\<lparr>jr_cancel_requested := True, jr_updated := now\<rparr>)"
| move_history: "time_ok now \<Longrightarrow> deleted = None \<or> deleted = jr_deleted r \<or> deleted = Some now \<Longrightarrow>
    row_move cd r (r\<lparr>jr_favorite := favorite, jr_deleted := deleted, jr_updated := now\<rparr>)"

inductive table_move :: "job_codec \<Rightarrow> usize \<Rightarrow> u64 \<Rightarrow> string set \<Rightarrow> job_table \<Rightarrow> job_table \<Rightarrow> bool" for cd pending bytes new where
  table_advance: "list_all2 (row_move cd) t t' \<Longrightarrow> table_move cd pending bytes new t t'"
| table_delete: "(\<And>r. r \<in> set t \<Longrightarrow> \<not> p r \<Longrightarrow> prunable r) \<Longrightarrow> table_move cd pending bytes new t (filter p t)"
| table_insert: "jid \<in> new \<Longrightarrow> prepare_job cd scope jid request now = Inr nj \<Longrightarrow> jid \<notin> jr_id ` set t \<Longrightarrow>
    find (same_submission scope (nj_key_hash nj)) t = None \<Longrightarrow>
    int (length (filter (\<lambda>r. jr_status r = ''queued'') t)) < i64_limit pending \<Longrightarrow>
    i64_sat_add (int (logical_bytes t)) (nj_bytes nj) \<le> i64_limit (unat bytes) \<Longrightarrow>
    table_move cd pending bytes new t (t @ [queued_row nj])"

definition keys_ok :: "job_table \<Rightarrow> bool" where
  "keys_ok t = distinct (map jr_id t)"

lemma table_stay [simp]: "table_move cd pending bytes new t t"
  by (rule table_advance) (simp add: list.rel_refl move_stay)

lemma checked_moves:
  "(\<And>a. r = Inr a \<Longrightarrow> table_move cd pending bytes new t (snd (f a t)))
   \<Longrightarrow> table_move cd pending bytes new t (snd (checked r f t))"
  by (cases r) auto

lemma db_call_moves:
  "table_move cd pending bytes new t (snd (f t)) \<Longrightarrow> table_move cd pending bytes new t (snd (db_call io e f t))"
  by (simp add: db_call_def)

lemma update_moves:
  assumes "\<And>r. r \<in> set t \<Longrightarrow> p r \<Longrightarrow> row_move cd r (f r)"
  shows "table_move cd pending bytes new t (snd (sql_update p f t))"
  by (rule table_advance) (use assms in \<open>auto simp: sql_update_def list_all2_map2 intro!: list.rel_refl_strong move_stay\<close>)

lemma to_i64_time_ok: "to_i64 now = Inr n \<Longrightarrow> time_ok n"
  by (auto simp: to_i64_def time_ok_def split: if_splits)

lemma find_owned_unique:
  assumes "keys_ok t" "find (owned_by scope jid) t = Some r" "r' \<in> set t" "owned_by scope jid r'"
  shows "r' = r"
  using assms distinct_map [of jr_id t]
  by (auto simp: keys_ok_def find_Some_iff owned_by_def dest: nth_mem inj_onD)

lemma cancel_row_moves:
  assumes "keys_ok t" "time_ok now"
  shows "table_move cd pending bytes new t (snd (cancel_row scope jid now t))"
proof (cases "find (owned_by scope jid) t")
  case None
  then show ?thesis by (simp add: cancel_row_def)
next
  case (Some r)
  then show ?thesis
    using find_owned_unique [OF assms(1) Some] assms(2)
    by (auto simp: cancel_row_def intro!: update_moves intro: move_cancel_queued move_cancel_running)
qed

lemma beyond_budget_subset: "set (beyond_budget m b n c rs) \<subseteq> jr_id ` set rs"
  by (induction m b n c rs rule: beyond_budget.induct) (auto simp: Let_def)

lemma set_newest_first [simp]: "set (newest_first t) = set t"
  by (simp add: newest_first_def)

lemma prune_rows_filter:
  assumes "keys_ok t"
  shows "\<exists>p. snd (prune_rows cutoff m b t) = filter p t \<and> (\<forall>r \<in> set t. \<not> p r \<longrightarrow> prunable r)"
proof -
  let ?t1 = "filter (\<lambda>r. \<not> expired_row cutoff r) t"
  let ?doomed = "set (beyond_budget m b 0 0 (newest_first (filter prunable ?t1)))"
  have "prunable r" if "r \<in> set t" "jr_id r \<in> ?doomed" for r
  proof -
    from that(2) beyond_budget_subset obtain r' where "r' \<in> set t" "prunable r'" "jr_id r' = jr_id r"
      by fastforce
    with that(1) assms show ?thesis by (auto simp: keys_ok_def distinct_map dest: inj_onD)
  qed
  moreover have "snd (prune_rows cutoff m b t) = filter (\<lambda>r. \<not> expired_row cutoff r \<and> jr_id r \<notin> ?doomed) t"
    by (simp add: prune_rows_def sql_delete_def Let_def)
  moreover have "prunable r" if "expired_row cutoff r" for r using that by (simp add: expired_row_def)
  ultimately show ?thesis by blast
qed

lemma prune_rows_moves: "keys_ok t \<Longrightarrow> table_move cd pending bytes new t (snd (prune_rows cutoff m b t))"
  using prune_rows_filter [of t cutoff m b] by (metis table_delete)

lemma insert_job_moves:
  assumes "prepare_job cd scope jid request now = Inr nj" "jid \<in> new"
  shows "table_move cd pending bytes new t
    (snd (insert_job (i64_limit pending) (i64_limit (unat bytes)) nj t))"
proof -
  have "nj_id nj = jid" "nj_scope nj = scope"
    using assms(1) by (auto simp: prepare_job_def result_simps Let_def)
  then show ?thesis
    using table_insert [OF assms(2,1), of t pending bytes]
    by (simp add: insert_job_def split: option.split)
qed

lemma bounded_error_json_ok: "bounded_error_json cd e = Inr x \<Longrightarrow> error_json cd x"
  by (auto simp: bounded_error_json_def error_json_def result_simps split: if_splits)

lemma snd_if_pair: "snd (if c then (x, t) else (y, t)) = t"
  by simp

lemma finish_moves:
  assumes "outcome_ok cd s response error"
  shows "table_move cd pending bytes new t (snd (job_finish io scope jid s response error now t))"
  unfolding job_finish_def
  by (intro checked_moves db_call_moves)
    (use assms in \<open>auto simp: case_prod_beta Let_def snd_if_pair intro!: update_moves move_finish dest: to_i64_time_ok\<close>)

text \<open>Every call is a move of the table.\<close>

lemma create_moves: "jid \<in> new \<Longrightarrow> table_move cd pending bytes new t (snd (create_call io cd scope jid request now pending bytes t))"
  unfolding create_call_def by (intro checked_moves db_call_moves) (simp add: insert_job_moves)

lemma recover_moves: "table_move cd pending bytes new t (snd (recover_interrupted io cd now t))"
  unfolding recover_interrupted_def
  by (intro checked_moves db_call_moves)
    (auto simp: case_prod_beta Let_def error_json_def intro!: update_moves move_interrupt dest: to_i64_time_ok)

lemma claim_moves: "table_move cd pending bytes new t (snd (job_claim io scope jid now t))"
  unfolding job_claim_def
  by (intro checked_moves db_call_moves)
    (auto simp: case_prod_beta Let_def intro!: update_moves move_claim dest: to_i64_time_ok)

lemma uint_u32_less: "uint (n :: u32) < 4294967296"
  using uint_lt2p [of n] by simp

lemma progress_moves: "table_move cd pending bytes new t (snd (job_set_progress io scope jid stage n now t))"
  unfolding job_set_progress_def
  by (intro checked_moves db_call_moves)
    (auto simp: case_prod_beta Let_def uint_u32_less intro!: update_moves move_progress dest: to_i64_time_ok)

lemma succeed_moves: "table_move cd pending bytes new t (snd (job_succeed io cd scope jid response now t))"
  unfolding job_succeed_def
  by (intro checked_moves finish_moves) (auto simp: outcome_ok_def response_json_def)

lemma fail_moves: "table_move cd pending bytes new t (snd (job_fail io cd scope jid s e now t))"
  unfolding job_fail_def
  by (intro checked_moves finish_moves) (auto simp: outcome_ok_def dest: bounded_error_json_ok)

lemma cancel_moves: "keys_ok t \<Longrightarrow> table_move cd pending bytes new t (snd (cancel_call io scope jid now t))"
  unfolding cancel_call_def
  by (intro checked_moves db_call_moves) (auto intro: cancel_row_moves to_i64_time_ok)

lemma history_moves: "table_move cd pending bytes new t (snd (history_call io scope jid favorite deleted now t))"
  unfolding history_call_def
  by (intro checked_moves db_call_moves)
    (simp add: case_prod_beta Let_def snd_if_pair, rule update_moves, rule move_history,
      auto dest: to_i64_time_ok split: option.split)

lemma prune_moves:
  "keys_ok t \<Longrightarrow> table_move cd pending bytes new t (snd (job_prune io now retention max_retained max_bytes t))"
  unfolding job_prune_def
  by (intro checked_moves db_call_moves) (simp add: case_prod_beta Let_def prune_rows_moves)

text \<open>The identifiers a call may insert.\<close>

fun created_ids :: "job_command \<Rightarrow> string set" where
  "created_ids (Cmd_Create io scope jid request now) = {jid}"
| "created_ids _ = {}"

lemma job_apply_moves: "keys_ok t \<Longrightarrow> table_move cd pending bytes (created_ids c) t (job_apply cd pending bytes c t)"
  by (cases c) (simp_all add: create_moves recover_moves claim_moves progress_moves succeed_moves fail_moves
    cancel_moves history_moves prune_moves)

lemma row_move_identity:
  "row_move cd r r' \<Longrightarrow> jr_id r' = jr_id r \<and> jr_auth_scope r' = jr_auth_scope r \<and> jr_request r' = jr_request r
     \<and> jr_key_hash r' = jr_key_hash r \<and> jr_fingerprint r' = jr_fingerprint r \<and> jr_created r' = jr_created r
     \<and> jr_prompt_search r' = jr_prompt_search r"
  by (induction rule: row_move.induct) simp_all

lemma advance_map:
  "list_all2 (row_move cd) t t' \<Longrightarrow> map jr_id t' = map jr_id t"
  by (induction rule: list_all2_induct) (auto dest: row_move_identity)

lemma table_move_keys: "table_move cd pending bytes new t t' \<Longrightarrow> keys_ok t \<Longrightarrow> keys_ok t'"
proof (induction rule: table_move.induct)
  case (table_advance t t')
  then show ?case by (simp add: keys_ok_def advance_map)
next
  case (table_delete t p)
  then show ?case by (simp add: keys_ok_def distinct_map_filter)
next
  case (table_insert jid scope request now nj t)
  then have "nj_id nj = jid" by (auto simp: prepare_job_def result_simps Let_def)
  with table_insert show ?case by (simp add: keys_ok_def queued_row_def)
qed

text \<open>An invariant of the moves holds after every sequence of calls.\<close>

lemma job_run_invariant:
  assumes "\<And>t t' new. table_move cd pending bytes new t t' \<Longrightarrow> new \<subseteq> ids \<Longrightarrow> keys_ok t \<Longrightarrow> P t \<Longrightarrow> P t'"
    and "keys_ok t" and "P t" and "\<forall>c \<in> set cs. created_ids c \<subseteq> ids"
  shows "keys_ok (job_run cd pending bytes cs t) \<and> P (job_run cd pending bytes cs t)"
  using assms(2-4)
proof (induction cs arbitrary: t)
  case (Cons c cs)
  have c: "created_ids c \<subseteq> ids" using Cons.prems(3) by simp
  note move = job_apply_moves [OF Cons.prems(1), of cd pending bytes c]
  from table_move_keys [OF move Cons.prems(1)] assms(1) [OF move c Cons.prems(1,2)]
  have "keys_ok (job_apply cd pending bytes c t)" "P (job_apply cd pending bytes c t)" .
  then show ?case using Cons.IH Cons.prems(3) by simp
qed simp

section \<open>Stored rows are jobs\<close>

text \<open>What is encoded decodes again, and the two fixed errors fit into the reserve.\<close>

definition codec_laws :: "job_codec \<Rightarrow> bool" where
  "codec_laws cd =
     ((\<forall>q s. jc_encode_request cd q = Some s \<longrightarrow> jc_decode_request cd s \<noteq> None)
      \<and> (\<forall>r s. jc_encode_response cd r = Some s \<longrightarrow> jc_decode_response cd s \<noteq> None)
      \<and> (\<forall>e s. jc_encode_error cd e = Some s \<longrightarrow> jc_decode_error cd s \<noteq> None)
      \<and> (\<forall>s. jc_encode_error cd recovery_error = Some s \<longrightarrow> length s \<le> active_result_reserve_bytes)
      \<and> (\<forall>s. jc_encode_error cd oversized_error = Some s \<longrightarrow> length s \<le> active_result_reserve_bytes))"

definition opt_ok :: "('a \<Rightarrow> bool) \<Rightarrow> 'a option \<Rightarrow> bool" where
  "opt_ok p x = (case x of None \<Rightarrow> True | Some a \<Rightarrow> p a)"

lemma opt_ok_simps [simp]: "opt_ok p None" "opt_ok p (Some a) = p a"
  by (simp_all add: opt_ok_def)

text \<open>The fields of a row agree with its status.\<close>

definition row_ok :: "job_codec \<Rightarrow> job_row \<Rightarrow> bool" where
  "row_ok cd r =
     (validate_auth_scope (jr_auth_scope r) = Inr ()
      \<and> time_ok (jr_created r) \<and> time_ok (jr_updated r) \<and> opt_ok time_ok (jr_started r)
      \<and> opt_ok time_ok (jr_completed r) \<and> opt_ok time_ok (jr_deleted r)
      \<and> 0 \<le> jr_partial_images r \<and> jr_partial_images r < 2 ^ 32
      \<and> (\<exists>q. jc_encode_request cd q = Some (jr_request r))
      \<and> (jr_key_hash r = None \<longleftrightarrow> jr_fingerprint r = None)
      \<and> (\<exists>s. jr_status r = job_status_name s
           \<and> (job_terminal s \<longleftrightarrow> jr_completed r \<noteq> None)
           \<and> (s = Job_Queued \<longrightarrow> jr_started r = None \<and> \<not> jr_cancel_requested r \<and> jr_progress_stage r = None)
           \<and> (s = Job_Running \<longrightarrow> jr_started r \<noteq> None)
           \<and> (s \<in> {Job_Queued, Job_Running} \<longrightarrow> jr_response r = None \<and> jr_error r = None)
           \<and> (s \<in> {Job_Succeeded, Job_Failed, Job_Interrupted} \<longrightarrow> outcome_ok cd s (jr_response r) (jr_error r))
           \<and> (s = Job_Cancelled \<longrightarrow> jr_response r = None \<and> opt_ok (error_json cd) (jr_error r))))"

lemma status_texts:
  "''queued'' = job_status_name Job_Queued" "''running'' = job_status_name Job_Running"
  "''succeeded'' = job_status_name Job_Succeeded" "''failed'' = job_status_name Job_Failed"
  "''cancelled'' = job_status_name Job_Cancelled" "''interrupted'' = job_status_name Job_Interrupted"
  by (simp_all add: job_status_name_def)

lemma job_terminal_iff: "job_terminal s \<longleftrightarrow> s \<noteq> Job_Queued \<and> s \<noteq> Job_Running"
  by (cases s) (simp_all add: job_terminal_def)

lemma row_move_ok: "row_move cd r r' \<Longrightarrow> row_ok cd r \<Longrightarrow> row_ok cd r'"
  by (induction rule: row_move.induct)
    (auto simp: row_ok_def status_texts job_terminal_iff outcome_ok_def opt_ok_def split: if_splits option.splits)

lemma prepared_row:
  assumes "prepare_job cd scope jid request now = Inr nj"
  shows "validate_auth_scope scope = Inr ()"
    and "jc_encode_request cd (request\<lparr>req_idempotency_key := None\<rparr>) = Some (nj_request_json nj)"
    and "nj_id nj = jid" and "nj_scope nj = scope" and "time_ok (nj_now nj)"
    and "nj_key_hash nj = map_option (jc_sha256_hex cd) (req_idempotency_key request)"
    and "nj_fingerprint nj = None \<longleftrightarrow> nj_key_hash nj = None"
    and "\<forall>key. req_idempotency_key request = Some key \<longrightarrow> (\<exists>f. durable_request_fingerprint cd request = Inr f
           \<and> nj_fingerprint nj = Some f)"
  using assms by (auto simp: prepare_job_def result_simps Let_def to_i64_time_ok split: option.splits)

lemma queued_row_ok: "prepare_job cd scope jid request now = Inr nj \<Longrightarrow> row_ok cd (queued_row nj)"
  using prepared_row [of cd scope jid request now nj]
  by (auto simp: row_ok_def queued_row_def status_texts job_terminal_iff)

lemma advance_source: "list_all2 (row_move cd) t t' \<Longrightarrow> r' \<in> set t' \<Longrightarrow> \<exists>r \<in> set t. row_move cd r r'"
  by (induction rule: list_all2_induct) auto

lemma table_move_rows_ok:
  "table_move cd pending bytes new t t' \<Longrightarrow> keys_ok t \<Longrightarrow> \<forall>r \<in> set t. row_ok cd r \<Longrightarrow> \<forall>r \<in> set t'. row_ok cd r"
proof (induction rule: table_move.induct)
  case (table_advance t t')
  then show ?case using row_move_ok by (auto dest: advance_source)
next
  case (table_insert jid scope request now nj t)
  then show ?case by (auto intro: queued_row_ok)
qed auto

lemma run_ok: "keys_ok (job_run cd pending bytes cs []) \<and> (\<forall>r \<in> set (job_run cd pending bytes cs []). row_ok cd r)"
  by (rule job_run_invariant [where ids = UNIV]) (erule (2) table_move_rows_ok, simp_all add: keys_ok_def)

lemmas run_keys_ok = run_ok [THEN conjunct1]
lemmas run_rows_ok = run_ok [THEN conjunct2]

lemma row_payloads:
  assumes "row_ok cd r" "jr_status r = job_status_name s"
  shows "jr_response r \<noteq> None \<longleftrightarrow> s = Job_Succeeded" and "opt_ok (response_json cd) (jr_response r)"
    and "opt_ok (error_json cd) (jr_error r)"
  using assms by (cases s; auto simp: row_ok_def outcome_ok_def)+

lemma transposed_defined:
  "opt_ok (\<lambda>v. \<exists>y. f v = Inr y) x \<Longrightarrow> \<exists>y. transposed f x = Inr y \<and> (y = None \<longleftrightarrow> x = None)"
  by (cases x) (auto simp: transposed_def)

lemma from_i64_time: "time_ok v \<Longrightarrow> \<exists>u. from_i64 v = Inr u"
  by (simp add: from_i64_def time_ok_def)

lemma transposed_time: "opt_ok time_ok x \<Longrightarrow> \<exists>y. transposed from_i64 x = Inr y \<and> (y = None \<longleftrightarrow> x = None)"
  by (rule transposed_defined, cases x) (simp_all add: from_i64_time)

lemma row_ok_status: "row_ok cd r \<Longrightarrow> \<exists>s. jr_status r = job_status_name s"
  and row_ok_request: "row_ok cd r \<Longrightarrow> \<exists>q. jc_encode_request cd q = Some (jr_request r)"
  and row_ok_scope: "row_ok cd r \<Longrightarrow> validate_auth_scope (jr_auth_scope r) = Inr ()"
  unfolding row_ok_def by blast+

lemma codec_request: "codec_laws cd \<Longrightarrow> jc_encode_request cd q = Some s \<Longrightarrow> \<exists>q'. jc_decode_request cd s = Some q'"
  unfolding codec_laws_def by blast

lemma codec_response: "codec_laws cd \<Longrightarrow> response_json cd s \<Longrightarrow> \<exists>r. jc_decode_response cd s = Some r"
  unfolding codec_laws_def response_json_def by blast

lemma codec_error: "codec_laws cd \<Longrightarrow> error_json cd s \<Longrightarrow> \<exists>e. jc_decode_error cd s = Some e"
  unfolding codec_laws_def error_json_def by blast

lemma codec_error_length: "codec_laws cd \<Longrightarrow> error_json cd s \<Longrightarrow> length s \<le> active_result_reserve_bytes"
  unfolding codec_laws_def error_json_def by blast

lemma opt_ok_mono: "opt_ok p x \<Longrightarrow> (\<And>a. p a \<Longrightarrow> q a) \<Longrightarrow> opt_ok q x"
  by (cases x) auto

lemma summary_decodes:
  assumes "row_ok cd r" "jr_status r = job_status_name s"
  shows "\<exists>summary. decode_summary r = Inr summary \<and> js_id summary = jr_id r \<and> js_status summary = s
    \<and> (js_completed summary \<noteq> None \<longleftrightarrow> job_terminal s)"
proof -
  have ok: "opt_ok time_ok (jr_started r)" "opt_ok time_ok (jr_completed r)" "opt_ok time_ok (jr_deleted r)"
    "time_ok (jr_created r)" "time_ok (jr_updated r)" "0 \<le> jr_partial_images r" "jr_partial_images r < 2 ^ 32"
    and completed: "job_terminal s \<longleftrightarrow> jr_completed r \<noteq> None"
    using assms by (auto simp: row_ok_def)
  from transposed_time [OF ok(1)] transposed_time [OF ok(2)] transposed_time [OF ok(3)]
    from_i64_time [OF ok(4)] from_i64_time [OF ok(5)]
  obtain started completed deleted created updated where "transposed from_i64 (jr_started r) = Inr started"
    "transposed from_i64 (jr_completed r) = Inr completed" "completed = None \<longleftrightarrow> jr_completed r = None"
    "transposed from_i64 (jr_deleted r) = Inr deleted" "from_i64 (jr_created r) = Inr created"
    "from_i64 (jr_updated r) = Inr updated"
    by (elim exE conjE) (rule that, assumption+)
  then show ?thesis using ok(6,7) assms(2) completed
    by (cases completed; cases "jr_completed r") (simp_all add: decode_summary_def)
qed

lemma row_decodes:
  assumes "codec_laws cd" "row_ok cd r"
  shows "\<exists>job. decode_job cd r = Inr job \<and> js_id (ij_summary job) = jr_id r
    \<and> job_status_name (js_status (ij_summary job)) = jr_status r
    \<and> (ij_result job \<noteq> None \<longleftrightarrow> js_status (ij_summary job) = Job_Succeeded)
    \<and> (js_completed (ij_summary job) \<noteq> None \<longleftrightarrow> job_terminal (js_status (ij_summary job)))"
proof -
  obtain s where s: "jr_status r = job_status_name s" using row_ok_status [OF assms(2)] by blast
  note payloads = row_payloads [OF assms(2) s]
  obtain q where q: "jc_decode_request cd (jr_request r) = Some q"
    using row_ok_request [OF assms(2)] codec_request [OF assms(1)] by blast
  have "opt_ok (\<lambda>v. \<exists>y. ok_or (job_error ''stored job result is invalid'') (jc_decode_response cd v) = Inr y)
      (jr_response r)"
    by (rule opt_ok_mono [OF payloads(2)]) (simp add: codec_response [OF assms(1)])
  from transposed_defined [OF this] obtain response where response:
    "transposed (\<lambda>v. ok_or (job_error ''stored job result is invalid'') (jc_decode_response cd v)) (jr_response r)
      = Inr response" "response = None \<longleftrightarrow> jr_response r = None"
    by (elim exE conjE) (rule that, assumption+)
  have "opt_ok (\<lambda>v. \<exists>y. ok_or (job_error ''stored job error is invalid'') (jc_decode_error cd v) = Inr y)
      (jr_error r)"
    by (rule opt_ok_mono [OF payloads(3)]) (simp add: codec_error [OF assms(1)])
  from transposed_defined [OF this] obtain error where error:
    "transposed (\<lambda>v. ok_or (job_error ''stored job error is invalid'') (jc_decode_error cd v)) (jr_error r)
      = Inr error" by (elim exE conjE) (rule that, assumption)
  obtain summary where summary: "decode_summary r = Inr summary" "js_id summary = jr_id r"
    "js_status summary = s" "js_completed summary \<noteq> None \<longleftrightarrow> job_terminal s"
    using summary_decodes [OF assms(2) s] by blast
  have "response \<noteq> None \<longleftrightarrow> s = Job_Succeeded" using payloads(1) response(2) by simp
  moreover have "decode_job cd r = Inr \<lparr>ij_summary = summary, ij_request = q, ij_result = response,
      ij_error = error, ij_cancel_requested = jr_cancel_requested r\<rparr>"
    by (simp add: decode_job_def q response(1) error summary(1))
  ultimately show ?thesis using summary(2-4) s by (intro exI conjI) (assumption, simp_all)
qed

lemma find_owned:
  assumes "keys_ok t" "r \<in> set t"
  shows "find (owned_by (jr_auth_scope r) (jr_id r)) t = Some r"
proof -
  have "find (owned_by (jr_auth_scope r) (jr_id r)) t \<noteq> None"
    using assms(2) by (auto simp: find_None_iff owned_by_def)
  then show ?thesis
    using find_owned_unique [OF assms(1) _ assms(2)] by (auto simp: owned_by_def)
qed

text \<open>C12. Every job that the store holds can be read back by its owner, whatever calls were made: the stored
  columns always decode, the decoded job has a result exactly if it succeeded and a completion time
  exactly if it is terminal.\<close>

theorem stored_jobs_decode:
  assumes "codec_laws cd" and "r \<in> set (job_run cd pending bytes cs [])"
  shows "\<exists>job. job_get True cd (jr_auth_scope r) (jr_id r) (job_run cd pending bytes cs []) = Inr job
    \<and> js_id (ij_summary job) = jr_id r
    \<and> job_status_name (js_status (ij_summary job)) = jr_status r
    \<and> (ij_result job \<noteq> None \<longleftrightarrow> js_status (ij_summary job) = Job_Succeeded)
    \<and> (js_completed (ij_summary job) \<noteq> None \<longleftrightarrow> job_terminal (js_status (ij_summary job)))"
proof -
  have ok: "row_ok cd r" using assms(2) run_rows_ok by blast
  from row_ok_scope [OF ok] row_decodes [OF assms(1) ok] find_owned [OF run_keys_ok assms(2)] show ?thesis
    by (simp add: job_get_def)
qed

section \<open>The lifecycle of a job\<close>

text \<open>The abstract view of one identifier, and what may become of it.\<close>

datatype job_phase =
    Absent
  | Waiting
  | Working
  | Done job_status "string option" "string option"

inductive lifecycle :: "job_phase \<Rightarrow> job_phase \<Rightarrow> bool" where
  lifecycle_stay: "lifecycle p p"
| lifecycle_submit: "lifecycle Absent Waiting"
| lifecycle_start: "lifecycle Waiting Working"
| lifecycle_drop: "lifecycle Waiting (Done Job_Cancelled None None)"
| lifecycle_end: "s \<in> {Job_Succeeded, Job_Failed, Job_Cancelled, Job_Interrupted} \<Longrightarrow>
    lifecycle Working (Done s response error)"
| lifecycle_forget: "lifecycle (Done s response error) Absent"

inductive_simps lifecycle_simps [simp]:
  "lifecycle Absent p" "lifecycle Waiting p" "lifecycle Working p" "lifecycle (Done s response error) p"

definition phase_of :: "job_row \<Rightarrow> job_phase" where
  "phase_of r =
     (if jr_status r = ''queued'' then Waiting
      else if jr_status r = ''running'' then Working
      else (case parse_status (jr_status r) of
              Inl _ \<Rightarrow> Absent
            | Inr s \<Rightarrow> Done s (jr_response r) (jr_error r)))"

definition find_job :: "string \<Rightarrow> job_table \<Rightarrow> job_row option" where
  "find_job jid t = find (\<lambda>r. jr_id r = jid) t"

definition job_view :: "job_table \<Rightarrow> string \<Rightarrow> job_phase" where
  "job_view t jid = (case find_job jid t of None \<Rightarrow> Absent | Some r \<Rightarrow> phase_of r)"

lemma phase_of_status: "jr_status r = job_status_name s \<Longrightarrow> phase_of r =
  (case s of Job_Queued \<Rightarrow> Waiting | Job_Running \<Rightarrow> Working | _ \<Rightarrow> Done s (jr_response r) (jr_error r))"
  by (cases s) (simp_all add: phase_of_def job_status_name_def parse_status_def)

lemma row_move_lifecycle: "row_move cd r r' \<Longrightarrow> row_ok cd r \<Longrightarrow> lifecycle (phase_of r) (phase_of r')"
proof (induction rule: row_move.induct)
  case (move_finish r now s response error)
  then show ?case by (cases s) (simp_all add: phase_of_def job_status_name_def parse_status_def outcome_ok_def)
next
  case (move_history now deleted r favorite)
  then show ?case by (simp add: phase_of_def lifecycle_stay split: sum.split)
qed (simp_all add: phase_of_def parse_status_def lifecycle_stay row_ok_def status_texts)

lemma find_job_advance:
  "list_all2 (row_move cd) t t' \<Longrightarrow> rel_option (row_move cd) (find_job jid t) (find_job jid t')"
  by (induction rule: list_all2_induct) (auto simp: find_job_def dest: row_move_identity)

lemma find_job_Some: "find_job jid t = Some r \<Longrightarrow> r \<in> set t \<and> jr_id r = jid"
  by (auto simp: find_job_def find_Some_iff)

lemma find_job_iff: "keys_ok t \<Longrightarrow> find_job jid t = Some r \<longleftrightarrow> r \<in> set t \<and> jr_id r = jid"
  by (induction t) (auto simp: find_job_def keys_ok_def)

lemma find_holds: "find p xs = Some x \<Longrightarrow> x \<in> set xs \<and> p x"
  by (auto simp: find_Some_iff)

lemma find_job_filter:
  assumes "keys_ok t"
  shows "find_job jid (filter p t) = (case find_job jid t of None \<Rightarrow> None | Some r \<Rightarrow> if p r then Some r else None)"
  using assms
  by (induction t) (auto simp: find_job_def keys_ok_def find_None_iff split: option.split dest!: find_holds)

lemma find_job_append: "find_job jid (t @ u) = (case find_job jid t of None \<Rightarrow> find_job jid u | Some r \<Rightarrow> Some r)"
  by (induction t) (auto simp: find_job_def)

lemma prunable_phase: "prunable r \<Longrightarrow> lifecycle (phase_of r) Absent"
  by (auto simp: prunable_def row_terminal_def phase_of_def parse_status_def)

lemma table_move_lifecycle:
  assumes "table_move cd pending bytes new t t'" "keys_ok t" "\<forall>r \<in> set t. row_ok cd r"
  shows "lifecycle (job_view t jid) (job_view t' jid)"
  using assms
proof (induction rule: table_move.induct)
  case (table_advance t t')
  from find_job_advance [OF table_advance(1), of jid] show ?case
    using table_advance(3) row_move_lifecycle
    by (cases "find_job jid t"; cases "find_job jid t'") (auto simp: job_view_def lifecycle_stay dest: find_job_Some)
next
  case (table_delete t p)
  then show ?case
    by (auto simp: job_view_def find_job_filter lifecycle_stay prunable_phase dest!: find_job_Some split: option.split)
next
  case (table_insert jid' scope request now nj t)
  have "find_job jid [queued_row nj] = (if nj_id nj = jid then Some (queued_row nj) else None)"
    by (simp add: find_job_def queued_row_def)
  moreover have "phase_of (queued_row nj) = Waiting" by (simp add: phase_of_def queued_row_def)
  ultimately show ?case
    by (cases "find_job jid t") (simp_all add: job_view_def find_job_append lifecycle_stay)
qed

text \<open>The rows a call may change or delete.\<close>

fun concerns :: "job_command \<Rightarrow> job_row \<Rightarrow> bool" where
  "concerns (Cmd_Create io scope jid request now) r = False"
| "concerns (Cmd_Recover io now) r = (jr_status r = ''running'')"
| "concerns (Cmd_Claim io scope jid now) r = owned_by scope jid r"
| "concerns (Cmd_Progress io scope jid stage n now) r = owned_by scope jid r"
| "concerns (Cmd_Succeed io scope jid response now) r = owned_by scope jid r"
| "concerns (Cmd_Fail io scope jid status error now) r = owned_by scope jid r"
| "concerns (Cmd_Cancel io scope jid now) r = owned_by scope jid r"
| "concerns (Cmd_History io scope jid favorite deleted now) r = owned_by scope jid r"
| "concerns (Cmd_Prune io now retention max_retained max_bytes) r = prunable r"

definition spares_rows :: "(job_row \<Rightarrow> bool) \<Rightarrow> job_table \<Rightarrow> job_table \<Rightarrow> bool" where
  "spares_rows p t t' \<longleftrightarrow> set (filter (\<lambda>r. \<not> p r) t) \<subseteq> set t'"

lemma spares_refl [intro]: "spares_rows p t t"
  by (auto simp: spares_rows_def)

lemma spares_checked: "(\<And>a. spares_rows p t (snd (f a t))) \<Longrightarrow> spares_rows p t (snd (checked r f t))"
  by (cases r) auto

lemma spares_db_call: "spares_rows p t (snd (f t)) \<Longrightarrow> spares_rows p t (snd (db_call io e f t))"
  by (auto simp: db_call_def)

lemma spares_update: "(\<And>r. q r \<Longrightarrow> p r) \<Longrightarrow> spares_rows p t (snd (sql_update q f t))"
  by (force simp: spares_rows_def sql_update_def)

lemma spares_cancel: "spares_rows (owned_by scope jid) t (snd (cancel_row scope jid now t))"
  by (auto simp: cancel_row_def split: option.split intro!: spares_update)

lemma spares_insert: "spares_rows p t (snd (insert_job m b nj t))"
  by (auto simp: insert_job_def spares_rows_def split: option.split)

lemma spares_create: "spares_rows p t (snd (create_call io cd scope jid request now pending bytes t))"
  by (cases "prepare_job cd scope jid request now") (auto simp: create_call_def db_call_def spares_insert)

lemma spares_finish: "spares_rows (owned_by scope jid) t (snd (job_finish io scope jid status response error now t))"
  unfolding job_finish_def
  by (intro spares_checked spares_db_call) (auto simp: case_prod_beta Let_def intro!: spares_update)

lemma spares_recover: "spares_rows (\<lambda>r. jr_status r = ''running'') t (snd (recover_interrupted io cd now t))"
  unfolding recover_interrupted_def
  by (auto simp: Let_def case_prod_beta split: sum.split option.split intro!: spares_checked spares_db_call spares_update)

lemma spares_prune:
  assumes "keys_ok t"
  shows "spares_rows prunable t (snd (job_prune io now retention max_retained max_bytes t))"
proof -
  have "spares_rows prunable t (snd (prune_rows cutoff m b t))" for cutoff m b
    using prune_rows_filter [OF assms, of cutoff m b] by (auto simp: spares_rows_def)
  then show ?thesis
    unfolding job_prune_def by (auto simp: Let_def case_prod_beta intro!: spares_checked spares_db_call)
qed

lemma spares_claim: "spares_rows (owned_by scope jid) t (snd (job_claim io scope jid now t))"
  unfolding job_claim_def
  by (intro spares_checked spares_db_call) (auto simp: case_prod_beta Let_def snd_if_pair intro!: spares_update)

lemma spares_progress: "spares_rows (owned_by scope jid) t (snd (job_set_progress io scope jid stage n now t))"
  unfolding job_set_progress_def
  by (intro spares_checked spares_db_call) (auto simp: case_prod_beta Let_def snd_if_pair intro!: spares_update)

lemma spares_history: "spares_rows (owned_by scope jid) t (snd (history_call io scope jid favorite deleted now t))"
  unfolding history_call_def
  by (intro spares_checked spares_db_call) (simp add: case_prod_beta Let_def snd_if_pair spares_update)

lemma spares_cancel_call: "spares_rows (owned_by scope jid) t (snd (cancel_call io scope jid now t))"
  unfolding cancel_call_def by (intro spares_checked spares_db_call spares_cancel)

lemma spares_more: "spares_rows p t t' \<Longrightarrow> (\<And>r. p r \<Longrightarrow> q r) \<Longrightarrow> spares_rows q t t'"
  by (auto simp: spares_rows_def)

lemma job_apply_spares: "keys_ok t \<Longrightarrow> spares_rows (concerns c) t (job_apply cd pending bytes c t)"
proof (cases c)
  case (Cmd_Create io scope jid request now)
  then show ?thesis by (simp, intro spares_create [THEN spares_more])
    (auto simp: spares_rows_def intro!: spares_create [unfolded spares_rows_def])
next
  case (Cmd_Succeed io scope jid response now)
  then show ?thesis
    by (auto simp: job_succeed_def case_prod_beta intro!: spares_checked spares_finish [THEN spares_more])
next
  case (Cmd_Fail io scope jid status error now)
  then show ?thesis
    by (auto simp: job_fail_def case_prod_beta intro!: spares_checked spares_finish [THEN spares_more])
qed (auto intro: spares_recover [THEN spares_more] spares_claim [THEN spares_more]
  spares_progress [THEN spares_more] spares_history [THEN spares_more]
  spares_cancel_call [THEN spares_more] spares_prune [THEN spares_more])

text \<open>C11. The store refines the lifecycle of a job: under every call, whatever calls came before, every
  identifier takes at most one step of the lifecycle from queued over running to a terminal phase. A
  running job never waits again, a terminal job keeps its status, result and error until it is pruned,
  and only terminal jobs disappear. No row that the call does not concern is changed or removed: a
  submission changes none, a claim, a progress report, an outcome, a cancellation and an edit of the history
  only rows of the named identifier in the named scope, a restart only running rows, a pruning only
  prunable ones.\<close>

theorem store_refines_lifecycle:
  "lifecycle (job_view (job_run cd pending bytes cs []) jid)
     (job_view (job_apply cd pending bytes c (job_run cd pending bytes cs [])) jid)
   \<and> set (filter (\<lambda>r. \<not> concerns c r) (job_run cd pending bytes cs []))
     \<subseteq> set (job_apply cd pending bytes c (job_run cd pending bytes cs []))"
  by (rule conjI [OF table_move_lifecycle [OF job_apply_moves [OF run_keys_ok] run_keys_ok run_rows_ok]
      job_apply_spares [OF run_keys_ok, unfolded spares_rows_def]])

section \<open>One claim per job\<close>

definition not_waiting :: "string \<Rightarrow> job_table \<Rightarrow> bool" where
  "not_waiting jid t = (\<forall>r \<in> set t. jr_id r = jid \<longrightarrow> jr_status r \<noteq> ''queued'')"

lemma row_move_not_waiting: "row_move cd r r' \<Longrightarrow> jr_status r \<noteq> ''queued'' \<Longrightarrow> jr_status r' \<noteq> ''queued''"
  by (induction rule: row_move.induct) (auto simp: outcome_ok_def split: if_splits)

lemma table_move_not_waiting:
  assumes "table_move cd pending bytes new t t'" "new \<subseteq> - {jid}" "not_waiting jid t"
  shows "not_waiting jid t'"
  using assms
proof (induction rule: table_move.induct)
  case (table_advance t t')
  then show ?case unfolding not_waiting_def
    by (metis advance_source row_move_identity row_move_not_waiting)
next
  case (table_insert jid' scope request now nj t)
  then show ?case using prepared_row(3) [OF table_insert(2)] by (auto simp: not_waiting_def queued_row_def)
qed (simp add: not_waiting_def)

lemma claim_outcome:
  assumes "fst (job_claim io scope jid now t) = Inr True"
  shows "\<exists>r \<in> set t. owned_by scope jid r \<and> jr_status r = ''queued'' \<and> \<not> jr_cancel_requested r"
proof -
  have "filter (\<lambda>r. owned_by scope jid r \<and> jr_status r = ''queued'' \<and> \<not> jr_cancel_requested r) t \<noteq> []"
    using assms by (force simp: job_claim_def sql_update_def checked_def db_call_def split: sum.splits if_splits)
  then show ?thesis by (auto simp: filter_empty_conv)
qed

lemma claimed_not_waiting:
  assumes "keys_ok t" "fst (job_claim io scope jid now t) = Inr True"
  shows "not_waiting jid (snd (job_claim io scope jid now t))"
proof -
  obtain r where r: "r \<in> set t" "owned_by scope jid r" "jr_status r = ''queued''" "\<not> jr_cancel_requested r"
    using claim_outcome [OF assms(2)] by blast
  have "r' = r" if "r' \<in> set t" "jr_id r' = jid" for r'
    using that r(1,2) assms(1) by (auto simp: keys_ok_def distinct_map owned_by_def dest: inj_onD)
  with r assms(2) show ?thesis
    by (auto simp: job_claim_def sql_update_def checked_def db_call_def not_waiting_def split: sum.splits if_splits)
qed

text \<open>C7. A job is executed at most once. After a claim of a job has succeeded, no later claim of it
  succeeds, by whichever worker and under whatever calls in between, unless its identifier is
  submitted again.\<close>

theorem job_claimed_once:
  assumes "fst (job_claim io scope jid now (job_run cd pending bytes before [])) = Inr True"
    and "\<forall>c \<in> set later. jid \<notin> created_ids c"
  shows "fst (job_claim io' scope' jid now'
    (job_run cd pending bytes later (snd (job_claim io scope jid now (job_run cd pending bytes before [])))))
    \<noteq> Inr True"
proof -
  let ?t = "snd (job_claim io scope jid now (job_run cd pending bytes before []))"
  have keys: "keys_ok ?t" by (rule table_move_keys [OF claim_moves run_keys_ok])
  have "keys_ok (job_run cd pending bytes later ?t) \<and> not_waiting jid (job_run cd pending bytes later ?t)"
  proof (rule job_run_invariant [where ids = "- {jid}", OF _ keys])
    show "not_waiting jid ?t" by (rule claimed_not_waiting [OF run_keys_ok assms(1)])
  qed (use assms(2) table_move_not_waiting in auto)
  then show ?thesis using claim_outcome by (fastforce simp: not_waiting_def owned_by_def)
qed

section \<open>Capacity\<close>

lemma sat_sum_exact: "sat_sum ns \<le> m \<Longrightarrow> m < usize_max \<Longrightarrow> sat_sum ns = sum_list ns"
proof (induction ns rule: rev_induct)
  case (snoc n ns)
  then show ?case by (auto simp: sat_sum_def usize_sat_add_def min_def split: if_splits)
qed (simp add: sat_sum_def)

lemma new_job_bytes:
  assumes "prepare_job cd scope jid request now = Inr nj"
  shows "nj_bytes nj = int (row_logical_bytes (queued_row nj))" and "nj_bytes nj \<le> i64_max"
proof -
  let ?ns = "[length (nj_id nj), length (nj_scope nj), length (nj_request_json nj), length (nj_prompt_search nj),
    column_bytes (nj_key_hash nj), column_bytes (nj_fingerprint nj), active_result_reserve_bytes, 128]"
  have "logical_new_job_bytes (nj_id nj) (nj_scope nj) (nj_request_json nj) (nj_prompt_search nj)
      (nj_key_hash nj) (nj_fingerprint nj) = Inr (nj_bytes nj)"
    using assms by (auto simp: prepare_job_def result_simps Let_def)
  then have le: "int (sat_sum ?ns) \<le> i64_max" and eq: "nj_bytes nj = int (sat_sum ?ns)"
    by (simp_all add: logical_new_job_bytes_def Let_def split: if_splits)
  from le have "sat_sum ?ns \<le> 2 ^ 63 - 1" by (simp add: i64_max_def)
  then have "sat_sum ?ns = sum_list ?ns" by (rule sat_sum_exact) (simp add: usize_max_def)
  then show "nj_bytes nj = int (row_logical_bytes (queued_row nj))"
    using eq by (simp add: row_logical_bytes_def base_bytes_def row_active_def queued_row_def
        active_result_reserve_bytes_def)
  show "nj_bytes nj \<le> i64_max" using le eq by simp
qed

lemma outcome_bytes:
  assumes "codec_laws cd" "outcome_ok cd s response error"
  shows "column_bytes response + column_bytes error \<le> 262144"
  using assms codec_error_length [OF assms(1)]
  by (fastforce simp: outcome_ok_def response_json_def column_bytes_def active_result_reserve_bytes_def
      split: if_splits)

lemma row_move_bytes:
  assumes "row_move cd r r'" "codec_laws cd" "row_ok cd r"
  shows "row_logical_bytes r' \<le> row_logical_bytes r"
  using assms
proof (induction rule: row_move.induct)
  case (move_finish r now s response error)
  then show ?case using outcome_bytes [OF move_finish(4,3)]
    by (simp add: row_logical_bytes_def base_bytes_def row_active_def result_bytes_def)
next
  case (move_interrupt r now e)
  have "jr_response r = None" using move_interrupt(1,5) by (auto simp: row_ok_def status_texts)
  then show ?case using codec_error_length [OF move_interrupt(4,3)] move_interrupt(1)
    by (simp add: row_logical_bytes_def base_bytes_def row_active_def result_bytes_def column_bytes_def
        active_result_reserve_bytes_def)
next
  case (move_cancel_queued r now)
  have "result_bytes r = 0" using move_cancel_queued(1,4) by (auto simp: row_ok_def status_texts result_bytes_def column_bytes_def)
  then show ?case using move_cancel_queued(1)
    by (simp add: row_logical_bytes_def base_bytes_def row_active_def result_bytes_def)
qed (simp_all add: row_logical_bytes_def base_bytes_def row_active_def result_bytes_def)

definition queued_count :: "job_table \<Rightarrow> nat" where
  "queued_count t = length (filter (\<lambda>r. jr_status r = ''queued'') t)"

lemma advance_bounds:
  assumes "list_all2 (row_move cd) t t'" "codec_laws cd" "\<forall>r \<in> set t. row_ok cd r"
  shows "queued_count t' \<le> queued_count t \<and> logical_bytes t' \<le> logical_bytes t"
  using assms
proof (induction rule: list_all2_induct)
  case (Cons r rs r' rs')
  then have "row_logical_bytes r' \<le> row_logical_bytes r" "jr_status r' = ''queued'' \<longrightarrow> jr_status r = ''queued''"
    using row_move_bytes [OF Cons(1)] row_move_not_waiting [OF Cons(1)] by auto
  with Cons show ?case by (auto simp: queued_count_def logical_bytes_def)
qed (simp add: queued_count_def logical_bytes_def)

lemma filter_bounds: "queued_count (filter p t) \<le> queued_count t \<and> logical_bytes (filter p t) \<le> logical_bytes t"
  by (induction t) (auto simp: queued_count_def logical_bytes_def)

lemma table_move_bounds:
  assumes "table_move cd pending bytes new t t'" "codec_laws cd" "int (unat bytes) < i64_max"
    "\<forall>r \<in> set t. row_ok cd r" "queued_count t \<le> pending" "logical_bytes t \<le> unat bytes"
  shows "queued_count t' \<le> pending \<and> logical_bytes t' \<le> unat bytes"
  using assms
proof (induction rule: table_move.induct)
  case (table_advance t t')
  then show ?case using advance_bounds by fastforce
next
  case (table_delete t p)
  then show ?case using filter_bounds [of p t] by linarith
next
  case (table_insert jid scope request now nj t)
  have "queued_count (t @ [queued_row nj]) = Suc (queued_count t)"
    by (simp add: queued_count_def queued_row_def)
  moreover have "logical_bytes (t @ [queued_row nj]) = logical_bytes t + row_logical_bytes (queued_row nj)"
    by (simp add: logical_bytes_def)
  moreover obtain b where b: "unat bytes = b" by blast
  ultimately show ?case
    using table_insert(5-9) [unfolded b] new_job_bytes [OF table_insert(2)] unfolding b
    by (auto simp: queued_count_def i64_limit_def i64_sat_add_def min_def split: if_splits)
qed

text \<open>C13. The store keeps its capacity limits under every sequence of calls: at most the configured number
  of jobs wait, and the accounted bytes never exceed the configured maximum, since every waiting or
  running job has reserved the room of its result when it was submitted. The limit is exact below
  the largest signed 64-bit number.\<close>

theorem job_store_bounded:
  assumes "codec_laws cd" and "int (unat bytes) < i64_max"
  shows "queued_count (job_run cd pending bytes cs []) \<le> pending
    \<and> logical_bytes (job_run cd pending bytes cs []) \<le> unat bytes"
proof -
  let ?P = "\<lambda>t. (\<forall>r \<in> set t. row_ok cd r) \<and> queued_count t \<le> pending \<and> logical_bytes t \<le> unat bytes"
  have "keys_ok (job_run cd pending bytes cs []) \<and> ?P (job_run cd pending bytes cs [])"
  proof (rule job_run_invariant [where ids = UNIV])
    fix t t' new assume "table_move cd pending bytes new t t'" "keys_ok t" "?P t"
    then show "?P t'" using table_move_bounds [OF _ assms] table_move_rows_ok by blast
  qed (simp_all add: keys_ok_def queued_count_def logical_bytes_def)
  then show ?thesis by blast
qed

section \<open>A concrete store\<close>

definition demo_job_response :: image_response where
  "demo_job_response = \<lparr>rs_id = ''r'', rs_created = 0, rs_provider = ''p'', rs_model = ''m'',
     rs_requested = default_generation_parameters, rs_effective = default_generation_parameters,
     rs_normalizations = [], rs_attempts = [], rs_data = [], rs_failures = [], rs_revised_prompt = None,
     rs_usage = None, rs_session = None, rs_timings = default_timings, rs_warnings = []\<rparr>"

text \<open>A \<open>LIKE\<close> operator for concrete tables, on the bytes of UTF-8 text without NUL. A continuation byte
  belongs to the character before it.\<close>

definition next_char :: "string \<Rightarrow> string" where
  "next_char t = dropWhile (\<lambda>c. is_cont (byte c)) (tl t)"

lemma length_next_char [termination_simp]: "t \<noteq> [] \<Longrightarrow> length (next_char t) < length t"
  unfolding next_char_def by (cases t) (auto intro: le_less_trans [OF length_dropWhile_le])

function demo_like :: "string \<Rightarrow> string \<Rightarrow> bool" where
  "demo_like [] t = (t = [])"
| "demo_like (c # p) t =
     (if c = CHR ''%'' then demo_like p t \<or> (if t = [] then False else demo_like (c # p) (next_char t))
      else if c = CHR ''_'' then if t = [] then False else demo_like p (next_char t)
      else if c = CHR 0x5C then
        (case (p, t) of
           (d # p', x # t') \<Rightarrow> to_ascii_lower d = to_ascii_lower x \<and> demo_like p' t'
         | _ \<Rightarrow> False)
      else (case t of [] \<Rightarrow> False | x # t' \<Rightarrow> to_ascii_lower c = to_ascii_lower x \<and> demo_like p t'))"
  by pat_completeness auto
termination
  by (relation "measure (\<lambda>(p, t). length p + length t)") (auto simp: length_next_char less_SucI)

definition demo_job_codec :: job_codec where
  "demo_job_codec = \<lparr>jc_encode_request = (\<lambda>q. Some (req_prompt q)), jc_decode_request = (\<lambda>s. Some (request_generate s)),
     jc_encode_response = (\<lambda>r. Some ''{}''), jc_decode_response = (\<lambda>s. Some demo_job_response),
     jc_encode_error = (\<lambda>e. Some ''{}''), jc_decode_error = (\<lambda>s. Some (error_new Internal s)),
     jc_sha256_hex = (\<lambda>s. s), jc_to_lowercase = to_ascii_lowercase, jc_like = demo_like\<rparr>"

lemma demo_codec_laws: "codec_laws demo_job_codec"
  by (simp add: codec_laws_def demo_job_codec_def active_result_reserve_bytes_def)

definition demo_new_job :: new_job where
  "demo_new_job = \<lparr>nj_id = ''j'', nj_scope = ''s'', nj_now = 5, nj_request_json = ''cat'',
     nj_prompt_search = ''cat'', nj_key_hash = None, nj_fingerprint = None, nj_bytes = 262280\<rparr>"

definition demo_create :: job_command where
  "demo_create = Cmd_Create True ''s'' ''j'' (request_generate ''cat'') 5"

lemma demo_lowercase: "to_ascii_lowercase ''cat'' = ''cat''" by code_simp

lemma demo_scope: "validate_auth_scope ''s'' = Inr ()"
  by (simp add: validate_auth_scope_def require_def)

lemma demo_codec_simps:
  "jc_encode_request demo_job_codec q = Some (req_prompt q)" "jc_to_lowercase demo_job_codec = to_ascii_lowercase"
  by (simp_all add: demo_job_codec_def)

lemma generate_fields: "req_prompt (request_generate p) = p" "req_idempotency_key (request_generate p) = None"
  by (simp_all add: request_generate_def)

lemma sat_sum_small: "sum_list ns \<le> usize_max \<Longrightarrow> sat_sum ns = sum_list ns"
  by (induction ns rule: rev_induct) (auto simp: sat_sum_def usize_sat_add_def)

lemma demo_bytes:
  "logical_new_job_bytes ''j'' ''s'' ''cat'' ''cat'' None None = Inr 262280"
  by (simp add: logical_new_job_bytes_def Let_def sat_sum_small column_bytes_def active_result_reserve_bytes_def
      usize_max_def i64_max_def)

lemma demo_prepare:
  "prepare_job demo_job_codec ''s'' ''j'' (request_generate ''cat'') 5 = Inr demo_new_job"
  by (simp add: prepare_job_def demo_scope generate_fields demo_codec_simps demo_lowercase demo_bytes to_i64_def
      i64_max_def Let_def demo_new_job_def)

lemma demo_run: "job_run demo_job_codec 1 1000000 [demo_create] [] = [queued_row demo_new_job]"
  by (simp add: demo_create_def create_call_def demo_prepare db_call_def insert_job_def i64_limit_def i64_max_def
      i64_sat_add_def logical_bytes_def demo_new_job_def)

theorem stored_jobs_decode_witness:
  "\<exists>job. job_get True demo_job_codec ''s'' ''j'' [queued_row demo_new_job] = Inr job \<and> js_id (ij_summary job) = ''j''"
  using stored_jobs_decode [OF demo_codec_laws, of "queued_row demo_new_job" 1 1000000 "[demo_create]"]
  unfolding demo_run by (auto simp: queued_row_def demo_new_job_def)

lemma demo_claim: "fst (job_claim True ''s'' ''j'' 6 [queued_row demo_new_job]) = Inr True"
  by (simp add: job_claim_def demo_scope to_i64_def i64_max_def db_call_def sql_update_def owned_by_def
      queued_row_def demo_new_job_def)

theorem job_claimed_once_witness:
  "fst (job_claim True ''s'' ''j'' 8 (job_run demo_job_codec 1 1000000 [Cmd_Recover True 7]
     (snd (job_claim True ''s'' ''j'' 6 [queued_row demo_new_job])))) \<noteq> Inr True"
  using job_claimed_once [of True "''s''" "''j''" 6 demo_job_codec 1 1000000 "[demo_create]" "[Cmd_Recover True 7]"]
    demo_claim unfolding demo_run by simp

theorem job_store_bounded_witness:
  "queued_count [queued_row demo_new_job] \<le> 1 \<and> logical_bytes [queued_row demo_new_job] \<le> 1000000"
  using job_store_bounded [OF demo_codec_laws, of 1000000 1 "[demo_create]"] unfolding demo_run
  by (simp add: i64_max_def)

end
