(* ===== verification/Job_Queries.thy ===== *)
theory Job_Queries
  imports Job_Store_Properties "HOL-Library.Multiset"
begin

text \<open>
  Further properties of the durable job store: the isolation of authorization scopes, idempotent
  submission, retention, the search pattern and the pages of the history.
\<close>

section \<open>Authorization scopes\<close>

fun command_scope :: "job_command \<Rightarrow> string option" where
  "command_scope (Cmd_Create io scope jid request now) = Some scope"
| "command_scope (Cmd_Recover io now) = None"
| "command_scope (Cmd_Claim io scope jid now) = Some scope"
| "command_scope (Cmd_Progress io scope jid stage n now) = Some scope"
| "command_scope (Cmd_Succeed io scope jid response now) = Some scope"
| "command_scope (Cmd_Fail io scope jid status error now) = Some scope"
| "command_scope (Cmd_Cancel io scope jid now) = Some scope"
| "command_scope (Cmd_History io scope jid favorite deleted now) = Some scope"
| "command_scope (Cmd_Prune io now retention max_retained max_bytes) = None"

definition own_rows :: "string \<Rightarrow> job_table \<Rightarrow> job_table" where
  "own_rows scope t = filter (\<lambda>r. jr_auth_scope r = scope) t"

lemma own_checked: "(\<And>a. own_rows s (snd (f a t)) = own_rows s t) \<Longrightarrow> own_rows s (snd (checked r f t)) = own_rows s t"
  by (cases r) auto

lemma own_db_call: "own_rows s (snd (f t)) = own_rows s t \<Longrightarrow> own_rows s (snd (db_call io e f t)) = own_rows s t"
  by (simp add: db_call_def)

lemma own_update:
  assumes "\<And>r. p r \<Longrightarrow> jr_auth_scope r \<noteq> s \<and> jr_auth_scope (f r) = jr_auth_scope r"
  shows "own_rows s (snd (sql_update p f t)) = own_rows s t"
  using assms by (induction t) (auto simp: own_rows_def sql_update_def)

lemma own_cancel: "scope \<noteq> s \<Longrightarrow> own_rows s (snd (cancel_row scope jid now t)) = own_rows s t"
  by (auto simp: cancel_row_def owned_by_def split: option.split intro!: own_update)

lemma own_insert: "nj_scope nj \<noteq> s \<Longrightarrow> own_rows s (snd (insert_job m b nj t)) = own_rows s t"
  by (auto simp: insert_job_def own_rows_def queued_row_def split: option.split)

lemma own_finish: "scope \<noteq> s \<Longrightarrow> own_rows s (snd (job_finish io scope jid status response error now t)) = own_rows s t"
  unfolding job_finish_def
  by (intro own_checked own_db_call)
    (auto simp: case_prod_beta Let_def snd_if_pair owned_by_def intro!: own_update)

lemma own_create:
  "scope \<noteq> s \<Longrightarrow> own_rows s (snd (create_call io cd scope jid request now pending bytes t)) = own_rows s t"
  by (cases "prepare_job cd scope jid request now")
    (auto simp: create_call_def db_call_def own_insert prepared_row(4))

lemma find_own: "find (owned_by scope jid) (own_rows scope t) = find (owned_by scope jid) t"
  by (induction t) (auto simp: own_rows_def owned_by_def)

lemma count_own: "length (filter (owned_by scope jid) (own_rows scope t)) = length (filter (owned_by scope jid) t)"
  by (induction t) (auto simp: own_rows_def owned_by_def)

lemma listed_own: "filter (listed cd scope f before) (own_rows scope t) = filter (listed cd scope f before) t"
  unfolding own_rows_def filter_filter by (rule filter_cong) (auto simp: listed_def)

lemma update_count_own:
  "(\<And>r. q r \<Longrightarrow> owned_by scope jid r) \<Longrightarrow> fst (sql_update q f (own_rows scope t)) = fst (sql_update q f t)"
  by (induction t) (auto simp: own_rows_def sql_update_def owned_by_def)

lemma finish_own:
  "fst (job_finish io scope jid status response error now t)
   = fst (job_finish io scope jid status response error now (own_rows scope t))"
proof -
  have "fst (sql_update (\<lambda>r. owned_by scope jid r \<and> jr_status r = ''running'') f (own_rows scope t))
      = fst (sql_update (\<lambda>r. owned_by scope jid r \<and> jr_status r = ''running'') f t)" for f
    by (rule update_count_own [where jid = jid]) simp
  then show ?thesis
    by (simp add: job_finish_def checked_def db_call_def case_prod_beta Let_def split: sum.split)
qed

lemma claim_own: "fst (job_claim io scope jid now t) = fst (job_claim io scope jid now (own_rows scope t))"
proof -
  have "fst (sql_update (\<lambda>r. owned_by scope jid r \<and> jr_status r = ''queued'' \<and> \<not> jr_cancel_requested r) f (own_rows scope t))
      = fst (sql_update (\<lambda>r. owned_by scope jid r \<and> jr_status r = ''queued'' \<and> \<not> jr_cancel_requested r) f t)" for f
    by (rule update_count_own [where jid = jid]) simp
  then show ?thesis
    by (simp add: job_claim_def checked_def db_call_def case_prod_beta Let_def split: sum.split)
qed

lemma find_same_own: "find (same_submission scope h) (own_rows scope t) = find (same_submission scope h) t"
  by (induction t) (auto simp: own_rows_def same_submission_def)

lemma queued_own: "length (filter (\<lambda>r. jr_status r = ''queued'') (own_rows scope t))
    \<le> length (filter (\<lambda>r. jr_status r = ''queued'') t)"
  by (induction t) (auto simp: own_rows_def)

lemma bytes_own: "logical_bytes (own_rows scope t) \<le> logical_bytes t"
  by (induction t) (auto simp: own_rows_def logical_bytes_def)

lemma insert_own:
  assumes "nj_scope nj = scope"
  shows "fst (insert_job m b nj t) = fst (insert_job m b nj (own_rows scope t))
    \<or> (fst (insert_job m b nj t) = Inr Create_Full
       \<and> (m \<le> int (length (filter (\<lambda>r. jr_status r = ''queued'') t))
          \<or> b < i64_sat_add (int (logical_bytes t)) (nj_bytes nj)))
    \<or> (fst (insert_job m b nj t) = Inl create_error \<and> nj_id nj \<in> jr_id ` set t)"
proof (cases "find (same_submission scope (nj_key_hash nj)) t")
  case None
  have "i64_sat_add (int (logical_bytes (own_rows scope t))) (nj_bytes nj) \<le> i64_sat_add (int (logical_bytes t)) (nj_bytes nj)"
    using bytes_own [of scope t] by (simp add: i64_sat_add_def)
  moreover have "jr_id ` set (own_rows scope t) \<subseteq> jr_id ` set t" by (auto simp: own_rows_def)
  ultimately show ?thesis
    using None queued_own [of scope t] assms by (auto simp: insert_job_def find_same_own)
next
  case (Some r)
  then show ?thesis using assms by (simp add: insert_job_def find_same_own split: option.split)
qed

text \<open>What a submission may learn of other scopes: that the shared queue or the shared room is used up, or
  that its identifier, a fresh random one, is taken.\<close>

definition shared_limit :: "job_codec \<Rightarrow> string \<Rightarrow> string \<Rightarrow> image_request \<Rightarrow> u64 \<Rightarrow> usize \<Rightarrow> u64 \<Rightarrow> job_table \<Rightarrow> create_outcome result \<Rightarrow> bool" where
  "shared_limit cd scope jid request now pending bytes t answer =
     (case prepare_job cd scope jid request now of
        Inl e \<Rightarrow> False
      | Inr nj \<Rightarrow>
          (answer = Inr Create_Full
           \<and> (i64_limit pending \<le> int (length (filter (\<lambda>r. jr_status r = ''queued'') t))
              \<or> i64_limit (unat bytes) < i64_sat_add (int (logical_bytes t)) (nj_bytes nj)))
          \<or> (answer = Inl create_error \<and> jid \<in> jr_id ` set t))"

lemma create_own:
  "fst (create_call io cd scope jid request now pending bytes t)
     = fst (create_call io cd scope jid request now pending bytes (own_rows scope t))
   \<or> shared_limit cd scope jid request now pending bytes t (fst (create_call io cd scope jid request now pending bytes t))"
proof (cases "prepare_job cd scope jid request now")
  case (Inr nj)
  then show ?thesis
    using insert_own [of nj scope "i64_limit pending" "i64_limit (unat bytes)" t] prepared_row(3,4) [OF Inr]
    by (auto simp: create_call_def db_call_def shared_limit_def)
qed (simp add: create_call_def)

text \<open>C15. Callers of different authorization scopes do not touch or see each other's jobs: a call made for
  one scope leaves the rows of every other scope as they are, and what a caller reads and lists, and the
  answers to its claims, outcomes, cancellations and edits of the history, are determined by the rows of its
  own scope alone. A submission is the one call whose answer looks further, since the limits of the queue and
  of the stored bytes are shared: its answer is that of the own rows, or it reports the exhausted queue
  or room, or the collision of its fresh identifier.\<close>

theorem job_scopes_isolated:
  assumes "command_scope c = Some scope" and "scope \<noteq> other"
  shows "own_rows other (job_apply cd pending bytes c t) = own_rows other t
    \<and> job_get io cd scope jid t = job_get io cd scope jid (own_rows scope t)
    \<and> job_list io cd scope f t = job_list io cd scope f (own_rows scope t)
    \<and> fst (job_claim io scope jid now t) = fst (job_claim io scope jid now (own_rows scope t))
    \<and> fst (job_finish io scope jid status response error now t)
        = fst (job_finish io scope jid status response error now (own_rows scope t))
    \<and> fst (cancel_call io scope jid now t) = fst (cancel_call io scope jid now (own_rows scope t))
    \<and> fst (history_call io scope jid favorite deleted now t)
        = fst (history_call io scope jid favorite deleted now (own_rows scope t))
    \<and> (fst (create_call io cd scope jid request now pending bytes t)
         = fst (create_call io cd scope jid request now pending bytes (own_rows scope t))
       \<or> shared_limit cd scope jid request now pending bytes t
           (fst (create_call io cd scope jid request now pending bytes t)))"
proof (intro conjI)
  show "own_rows other (job_apply cd pending bytes c t) = own_rows other t"
    using assms
    by (cases c)
      (auto simp: own_create own_finish own_cancel job_claim_def job_set_progress_def job_succeed_def job_fail_def
        cancel_call_def history_call_def case_prod_beta Let_def snd_if_pair owned_by_def
        intro!: own_checked own_db_call own_update)
  show "fst (cancel_call io scope jid now t) = fst (cancel_call io scope jid now (own_rows scope t))"
    by (auto simp: cancel_call_def checked_def db_call_def cancel_row_def find_own split: sum.split option.split)
  show "fst (history_call io scope jid favorite deleted now t)
      = fst (history_call io scope jid favorite deleted now (own_rows scope t))"
    by (simp add: history_call_def checked_def db_call_def sql_update_def count_own split: sum.split)
qed (simp_all add: job_get_def find_own job_list_def listed_own create_own claim_own [symmetric] finish_own [symmetric]
  cong: if_cong)

theorem job_scopes_isolated_witness:
  "own_rows ''b'' (job_apply demo_job_codec 1 1000000 (Cmd_Claim True ''s'' ''j'' 6) [queued_row demo_new_job]) = []"
  using job_scopes_isolated [of "Cmd_Claim True ''s'' ''j'' 6" "''s''" "''b''" demo_job_codec 1 1000000
      "[queued_row demo_new_job]"]
  by (simp add: own_rows_def queued_row_def demo_new_job_def)

section \<open>Idempotent submission\<close>

definition submissions_ok :: "job_table \<Rightarrow> bool" where
  "submissions_ok t = (\<forall>r \<in> set t. \<forall>r' \<in> set t. jr_key_hash r \<noteq> None \<and> jr_key_hash r' = jr_key_hash r
     \<and> jr_auth_scope r' = jr_auth_scope r \<longrightarrow> jr_id r' = jr_id r)"

definition submitted_as :: "string \<Rightarrow> string \<Rightarrow> string \<Rightarrow> string \<Rightarrow> job_table \<Rightarrow> bool" where
  "submitted_as jid scope key_hash fingerprint t =
     (\<forall>r \<in> set t. jr_id r = jid \<longrightarrow>
        jr_auth_scope r = scope \<and> jr_key_hash r = Some key_hash \<and> jr_fingerprint r = Some fingerprint)"

definition row_kin :: "job_row \<Rightarrow> job_row \<Rightarrow> bool" where
  "row_kin r r' = (jr_id r' = jr_id r \<and> jr_auth_scope r' = jr_auth_scope r \<and> jr_key_hash r' = jr_key_hash r
     \<and> jr_fingerprint r' = jr_fingerprint r)"

lemma advance_kin: "list_all2 (row_move cd) t t' \<Longrightarrow> r' \<in> set t' \<Longrightarrow> \<exists>r \<in> set t. row_kin r r'"
  unfolding row_kin_def by (drule (1) advance_source) (blast dest: row_move_identity)

lemma submissionsD:
  "submissions_ok t \<Longrightarrow> r \<in> set t \<Longrightarrow> r' \<in> set t \<Longrightarrow> jr_key_hash r \<noteq> None \<Longrightarrow> jr_key_hash r' = jr_key_hash r
   \<Longrightarrow> jr_auth_scope r' = jr_auth_scope r \<Longrightarrow> jr_id r' = jr_id r"
  unfolding submissions_ok_def by blast

lemma submitted_asD:
  "submitted_as jid scope h f t \<Longrightarrow> r \<in> set t \<Longrightarrow> jr_id r = jid
   \<Longrightarrow> jr_auth_scope r = scope \<and> jr_key_hash r = Some h \<and> jr_fingerprint r = Some f"
  unfolding submitted_as_def by blast

lemma submissions_append:
  assumes "submissions_ok t" "\<forall>r \<in> set t. \<not> same_submission (jr_auth_scope q) (jr_key_hash q) r"
  shows "submissions_ok (t @ [q])"
  unfolding submissions_ok_def
proof (intro ballI impI)
  fix r r' assume r: "r \<in> set (t @ [q])" "r' \<in> set (t @ [q])"
    and same: "jr_key_hash r \<noteq> None \<and> jr_key_hash r' = jr_key_hash r \<and> jr_auth_scope r' = jr_auth_scope r"
  have no: "\<not> (jr_key_hash q \<noteq> None \<and> jr_key_hash x = jr_key_hash q \<and> jr_auth_scope x = jr_auth_scope q)"
    if "x \<in> set t" for x
    using assms(2) that unfolding same_submission_def by metis
  show "jr_id r' = jr_id r"
  proof (cases "r \<in> set t"; cases "r' \<in> set t")
    assume "r \<in> set t" "r' \<in> set t"
    then show ?thesis using submissionsD [OF assms(1)] same by blast
  next
    assume "r \<in> set t" "r' \<notin> set t"
    then show ?thesis using no [of r] r same by auto
  next
    assume "r \<notin> set t" "r' \<in> set t"
    then show ?thesis using no [of r'] r same by auto
  qed (use r in auto)
qed

lemma table_move_submissions:
  assumes "table_move cd pending bytes new t t'" "submissions_ok t"
  shows "submissions_ok t'"
  using assms
proof (induction rule: table_move.induct)
  case (table_advance t t')
  show ?case unfolding submissions_ok_def
  proof (intro ballI impI)
    fix r r' assume r: "r \<in> set t'" "r' \<in> set t'" "jr_key_hash r \<noteq> None \<and> jr_key_hash r' = jr_key_hash r
      \<and> jr_auth_scope r' = jr_auth_scope r"
    obtain q where q: "q \<in> set t" "row_kin q r"
      by (rule bexE [OF advance_kin [OF table_advance(1) r(1)]])
    obtain q' where "q' \<in> set t" "row_kin q' r'"
      by (rule bexE [OF advance_kin [OF table_advance(1) r(2)]])
    with q show "jr_id r' = jr_id r"
      using submissionsD [OF table_advance(2), of q q'] r(3) unfolding row_kin_def by metis
  qed
next
  case (table_insert jid scope request now nj t)
  then show ?case using prepared_row(4) [OF table_insert(2)]
    by (intro submissions_append) (simp_all add: queued_row_def find_None_iff)
qed (simp add: submissions_ok_def)

lemma table_move_submitted_as:
  assumes "table_move cd pending bytes new t t'" "new \<subseteq> - {jid}" "submitted_as jid scope h f t"
  shows "submitted_as jid scope h f t'"
  using assms
proof (induction rule: table_move.induct)
  case (table_advance t t')
  show ?case unfolding submitted_as_def
  proof (intro ballI impI)
    fix r' assume r': "r' \<in> set t'" "jr_id r' = jid"
    obtain r where "r \<in> set t" "row_kin r r'"
      by (rule bexE [OF advance_kin [OF table_advance(1) r'(1)]])
    then show "jr_auth_scope r' = scope \<and> jr_key_hash r' = Some h \<and> jr_fingerprint r' = Some f"
      using submitted_asD [OF table_advance(3), of r] r'(2) unfolding row_kin_def by simp
  qed
next
  case (table_insert jid' scope' request now nj t)
  then show ?case using prepared_row(3) [OF table_insert(2)] by (auto simp: submitted_as_def queued_row_def)
qed (simp add: submitted_as_def)

lemma run_submissions: "submissions_ok (job_run cd pending bytes cs [])"
proof -
  have "keys_ok (job_run cd pending bytes cs []) \<and> submissions_ok (job_run cd pending bytes cs [])"
    by (rule job_run_invariant [where ids = UNIV]) (erule (1) table_move_submissions,
      simp_all add: submissions_ok_def keys_ok_def)
  then show ?thesis ..
qed

lemma created_row:
  assumes "fst (create_call io cd scope jid request now pending bytes t) = Inr (Create_Created jid')"
  shows "\<exists>nj. prepare_job cd scope jid request now = Inr nj \<and> jid' = jid \<and> jid \<notin> jr_id ` set t
    \<and> snd (create_call io cd scope jid request now pending bytes t) = t @ [queued_row nj]"
proof -
  obtain nj where nj: "prepare_job cd scope jid request now = Inr nj"
    using assms by (cases "prepare_job cd scope jid request now") (auto simp: create_call_def)
  with assms prepared_row(3) [OF nj] show ?thesis
    by (auto simp: create_call_def db_call_def insert_job_def split: if_splits option.splits)
qed

text \<open>C14. Submission is idempotent. As long as a job submitted under a key is retained, another
  submission of its owner under this key changes nothing: it yields that job if the requests
  agree up to key and timeout (as far as the digest tells), and a conflict otherwise.\<close>

theorem submission_idempotent:
  assumes "fst (create_call io cd scope jid request now pending bytes (job_run cd pending bytes before []))
      = Inr (Create_Created jid)"
    and "req_idempotency_key request = Some key" and "req_idempotency_key request' = Some key"
    and "\<forall>c \<in> set later. jid \<notin> created_ids c"
    and "t = job_run cd pending bytes (before @ Cmd_Create io scope jid request now # later) []"
    and "jid \<in> jr_id ` set t"
    and "prepare_job cd scope jid' request' now' = Inr nj'"
  shows "create_call True cd scope jid' request' now' pending bytes t =
    (Inr (if durable_request_fingerprint cd request' = durable_request_fingerprint cd request
          then Create_Replay jid else Create_Conflict), t)"
proof -
  let ?t0 = "job_run cd pending bytes before []" and ?h = "jc_sha256_hex cd key"
  let ?t1 = "snd (create_call io cd scope jid request now pending bytes ?t0)"
  obtain nj where nj: "prepare_job cd scope jid request now = Inr nj" and fresh: "jid \<notin> jr_id ` set ?t0"
    and t1: "?t1 = ?t0 @ [queued_row nj]"
    using created_row [OF assms(1)] by blast
  obtain f where f: "durable_request_fingerprint cd request = Inr f" "nj_fingerprint nj = Some f"
    using prepared_row(8) [OF nj] assms(2) by blast
  obtain f' where f': "durable_request_fingerprint cd request' = Inr f'" "nj_fingerprint nj' = Some f'"
    using prepared_row(8) [OF assms(7)] assms(3) by blast
  have "submitted_as jid scope ?h f ?t1"
    using fresh prepared_row(4,6) [OF nj] assms(2) f(2) unfolding t1
    by (auto simp: submitted_as_def queued_row_def)
  moreover have "keys_ok ?t1" by (rule table_move_keys [OF create_moves run_keys_ok, of jid UNIV]) simp
  ultimately have as: "submitted_as jid scope ?h f (job_run cd pending bytes later ?t1)"
    using job_run_invariant [where ids = "- {jid}" and P = "submitted_as jid scope ?h f" and t = ?t1 and cs = later]
      table_move_submitted_as assms(4) by blast
  have t: "t = job_run cd pending bytes later ?t1"
    unfolding assms(5) by (simp add: job_run_def)
  have sub: "submissions_ok t" unfolding assms(5) by (rule run_submissions)
  obtain r where r: "r \<in> set t" "jr_id r = jid" using assms(6) by blast
  note row = submitted_asD [OF as [folded t] r]
  have nj': "nj_scope nj' = scope" "nj_key_hash nj' = Some ?h"
    using prepared_row(4,6) [OF assms(7)] assms(3) by simp_all
  obtain r' where r': "find (same_submission scope (Some ?h)) t = Some r'"
    using r row by (cases "find (same_submission scope (Some ?h)) t") (auto simp: find_None_iff same_submission_def)
  from find_holds [OF this] have kin: "r' \<in> set t" "jr_auth_scope r' = scope" "jr_key_hash r' = Some ?h"
    by (simp_all add: same_submission_def)
  have "jr_id r' = jid" using submissionsD [OF sub r(1) kin(1)] row kin r(2) by simp
  moreover from submitted_asD [OF as [folded t] kin(1) this] have "jr_fingerprint r' = Some f" by simp
  ultimately show ?thesis
    using assms(7) r' nj' f f' by (simp add: create_call_def db_call_def insert_job_def)
qed

text \<open>A second submission of the concrete job, keyed.\<close>

definition demo_keyed :: image_request where
  "demo_keyed = (request_generate ''cat'')\<lparr>req_idempotency_key := Some ''k''\<rparr>"

definition demo_keyed_job :: "string \<Rightarrow> int \<Rightarrow> new_job" where
  "demo_keyed_job jid now = \<lparr>nj_id = jid, nj_scope = ''s'', nj_now = now, nj_request_json = ''cat'',
     nj_prompt_search = ''cat'', nj_key_hash = Some ''k'', nj_fingerprint = Some ''cat'', nj_bytes = 262284\<rparr>"

lemma demo_keyed_prepare:
  assumes "length jid = 1" "uint now \<le> i64_max"
  shows "prepare_job demo_job_codec ''s'' jid demo_keyed now = Inr (demo_keyed_job jid (uint now))"
proof -
  have "validate_submission_key ''k'' = Inr ()" by (simp add: validate_submission_key_def is_blank_def require_def
        space1_def space2_def space3_def)
  moreover have "durable_request_fingerprint demo_job_codec demo_keyed = Inr ''cat''"
    by (simp add: durable_request_fingerprint_def demo_codec_simps demo_keyed_def generate_fields)
      (simp add: demo_job_codec_def)
  moreover have "jc_sha256_hex demo_job_codec = (\<lambda>s. s)" by (simp add: demo_job_codec_def)
  moreover have "logical_new_job_bytes jid ''s'' ''cat'' ''cat'' (Some ''k'') (Some ''cat'') = Inr 262284"
    using assms(1) by (simp add: logical_new_job_bytes_def Let_def sat_sum_small column_bytes_def
        active_result_reserve_bytes_def usize_max_def i64_max_def)
  ultimately show ?thesis using assms(2)
    by (simp add: prepare_job_def demo_scope demo_codec_simps demo_keyed_def generate_fields demo_lowercase
        to_i64_def demo_keyed_job_def Let_def)
qed

lemma demo_keyed_created:
  "create_call True demo_job_codec ''s'' ''j'' demo_keyed 5 2 1000000 []
   = (Inr (Create_Created ''j''), [queued_row (demo_keyed_job ''j'' 5)])"
  using demo_keyed_prepare [of "''j''" 5]
  by (simp add: create_call_def db_call_def insert_job_def i64_limit_def i64_max_def i64_sat_add_def logical_bytes_def
      demo_keyed_job_def)

lemma demo_keyed_again: "prepare_job demo_job_codec ''s'' ''l'' demo_keyed 9 = Inr (demo_keyed_job ''l'' 9)"
  using demo_keyed_prepare [of "''l''" 9] by (simp add: i64_max_def)

lemma demo_keyed_run:
  "job_run demo_job_codec 2 1000000 ([] @ Cmd_Create True ''s'' ''j'' demo_keyed 5 # []) []
   = [queued_row (demo_keyed_job ''j'' 5)]"
  by (simp only: append.simps job_run_simps job_apply.simps demo_keyed_created snd_conv)

theorem submission_idempotent_witness:
  "create_call True demo_job_codec ''s'' ''l'' demo_keyed 9 2 1000000 [queued_row (demo_keyed_job ''j'' 5)]
   = (Inr (Create_Replay ''j''), [queued_row (demo_keyed_job ''j'' 5)])"
proof -
  have key: "req_idempotency_key demo_keyed = Some ''k''" by (simp add: demo_keyed_def)
  have created: "fst (create_call True demo_job_codec ''s'' ''j'' demo_keyed 5 2 1000000
      (job_run demo_job_codec 2 1000000 [] [])) = Inr (Create_Created ''j'')"
    by (simp only: job_run_simps demo_keyed_created fst_conv)
  have present: "''j'' \<in> jr_id ` set [queued_row (demo_keyed_job ''j'' 5)]"
    by (simp add: queued_row_def demo_keyed_job_def)
  from submission_idempotent [OF created key key _ demo_keyed_run [symmetric] present demo_keyed_again] show ?thesis
    by simp
qed

section \<open>Search\<close>

text \<open>What SQLite documents of \<open>LIKE\<close> with an escape character, for UTF-8 text without NUL and patterns within
  the default length limit: a percent sign matches any sequence of characters, an underscore one
  character, an escaped character itself, and every other character itself, up to the case of ASCII
  letters.\<close>

definition utf8_char :: "string \<Rightarrow> bool" where
  "utf8_char c = (c \<noteq> [] \<and> utf8_valid c \<and> next_char c = [])"

definition like_text :: "string \<Rightarrow> bool" where
  "like_text s = (utf8_valid s \<and> CHR 0x00 \<notin> set s)"

definition like_limit :: nat where
  "like_limit = 50000"

definition like_laws :: "(string \<Rightarrow> string \<Rightarrow> bool) \<Rightarrow> bool" where
  "like_laws like =
     ((\<forall>t. like_text t \<longrightarrow> like [] t = (t = []))
    \<and> (\<forall>p t. like_text p \<and> like_text t \<and> length p < like_limit \<longrightarrow>
         like (CHR ''%'' # p) t = (like p t \<or> (t \<noteq> [] \<and> like (CHR ''%'' # p) (next_char t))))
    \<and> (\<forall>p t. like_text p \<and> like_text t \<and> length p < like_limit \<longrightarrow>
         like (CHR ''_'' # p) t = (t \<noteq> [] \<and> like p (next_char t)))
    \<and> (\<forall>c p. utf8_char c \<and> like_text (c @ p) \<and> length c + length p \<le> like_limit
         \<and> c \<notin> {[CHR ''%''], [CHR ''_''], [CHR 0x5C]} \<longrightarrow>
         \<not> like (c @ p) []
         \<and> (\<forall>x t. utf8_char x \<and> like_text (x @ t) \<longrightarrow>
              like (c @ p) (x @ t) = (to_ascii_lowercase c = to_ascii_lowercase x \<and> like p t)))
    \<and> (\<forall>c p. utf8_char c \<and> like_text (c @ p) \<and> length c + length p < like_limit \<longrightarrow>
         \<not> like (CHR 0x5C # c @ p) []
         \<and> (\<forall>x t. utf8_char x \<and> like_text (x @ t) \<longrightarrow>
              like (CHR 0x5C # c @ p) (x @ t) = (to_ascii_lowercase c = to_ascii_lowercase x \<and> like p t))))"

lemma like_lawsD:
  assumes "like_laws like"
  shows "like_text t \<Longrightarrow> like [] t = (t = [])"
    and "like_text p \<Longrightarrow> like_text t \<Longrightarrow> length p < like_limit \<Longrightarrow>
      like (CHR ''%'' # p) t = (like p t \<or> (t \<noteq> [] \<and> like (CHR ''%'' # p) (next_char t)))"
    and "utf8_char c \<Longrightarrow> like_text (c @ p) \<Longrightarrow> length c + length p \<le> like_limit \<Longrightarrow>
      c \<notin> {[CHR ''%''], [CHR ''_''], [CHR 0x5C]} \<Longrightarrow> \<not> like (c @ p) []"
    and "utf8_char c \<Longrightarrow> like_text (c @ p) \<Longrightarrow> length c + length p \<le> like_limit \<Longrightarrow>
      c \<notin> {[CHR ''%''], [CHR ''_''], [CHR 0x5C]} \<Longrightarrow> utf8_char x \<Longrightarrow> like_text (x @ t) \<Longrightarrow>
      like (c @ p) (x @ t) = (to_ascii_lowercase c = to_ascii_lowercase x \<and> like p t)"
    and "utf8_char c \<Longrightarrow> like_text (c @ p) \<Longrightarrow> length c + length p < like_limit \<Longrightarrow> \<not> like (CHR 0x5C # c @ p) []"
    and "utf8_char c \<Longrightarrow> like_text (c @ p) \<Longrightarrow> length c + length p < like_limit \<Longrightarrow> utf8_char x \<Longrightarrow> like_text (x @ t) \<Longrightarrow>
      like (CHR 0x5C # c @ p) (x @ t) = (to_ascii_lowercase c = to_ascii_lowercase x \<and> like p t)"
proof -
  note laws = assms [unfolded like_laws_def]
  show "like_text t \<Longrightarrow> like [] t = (t = [])" using conjunct1 [OF laws] by simp
  note laws = conjunct2 [OF laws]
  show "like_text p \<Longrightarrow> like_text t \<Longrightarrow> length p < like_limit \<Longrightarrow>
      like (CHR ''%'' # p) t = (like p t \<or> (t \<noteq> [] \<and> like (CHR ''%'' # p) (next_char t)))"
    by (rule conjunct1 [OF laws, rule_format], intro conjI)
  note laws = conjunct2 [OF conjunct2 [OF laws]]
  show "utf8_char c \<Longrightarrow> like_text (c @ p) \<Longrightarrow> length c + length p \<le> like_limit \<Longrightarrow>
      c \<notin> {[CHR ''%''], [CHR ''_''], [CHR 0x5C]} \<Longrightarrow> \<not> like (c @ p) []"
    by (rule conjunct1 [OF conjunct1 [OF laws, rule_format]], intro conjI)
  show "utf8_char c \<Longrightarrow> like_text (c @ p) \<Longrightarrow> length c + length p \<le> like_limit \<Longrightarrow>
      c \<notin> {[CHR ''%''], [CHR ''_''], [CHR 0x5C]} \<Longrightarrow> utf8_char x \<Longrightarrow> like_text (x @ t) \<Longrightarrow>
      like (c @ p) (x @ t) = (to_ascii_lowercase c = to_ascii_lowercase x \<and> like p t)"
    by (rule conjunct2 [OF conjunct1 [OF laws, rule_format], rule_format]; intro conjI)
  note laws = conjunct2 [OF laws]
  show "utf8_char c \<Longrightarrow> like_text (c @ p) \<Longrightarrow> length c + length p < like_limit \<Longrightarrow> \<not> like (CHR 0x5C # c @ p) []"
    by (rule conjunct1 [OF laws [rule_format]]; intro conjI)
  show "utf8_char c \<Longrightarrow> like_text (c @ p) \<Longrightarrow> length c + length p < like_limit \<Longrightarrow> utf8_char x \<Longrightarrow> like_text (x @ t) \<Longrightarrow>
      like (CHR 0x5C # c @ p) (x @ t) = (to_ascii_lowercase c = to_ascii_lowercase x \<and> like p t)"
    by (rule conjunct2 [OF laws [rule_format], rule_format]; intro conjI)
qed

text \<open>Characters of UTF-8 text: the first byte tells the length, and no other byte can begin one.\<close>

definition char_width :: "char \<Rightarrow> nat" where
  "char_width a = (if byte a < 128 then 1 else if byte a \<le> 223 then 2 else if byte a \<le> 239 then 3 else 4)"

lemma utf8_one: "byte a < 128 \<Longrightarrow> utf8_valid (a # s) = utf8_valid s"
  by (simp add: Let_def)

lemma utf8_two:
  assumes "128 \<le> byte a" "byte a \<le> 223"
  shows "utf8_valid (a # s) = (194 \<le> byte a \<and> (\<exists>b r. s = b # r \<and> is_cont (byte b) \<and> utf8_valid r))"
proof (cases s)
  case (Cons b s1)
  show ?thesis
  proof (cases "194 \<le> byte a")
    case False
    with assms Cons show ?thesis by (simp add: Let_def split: list.split)
  qed (use assms Cons in \<open>simp add: Let_def\<close>)
qed (use assms in \<open>simp add: Let_def\<close>)

lemma utf8_three:
  assumes "223 < byte a" "byte a \<le> 239"
  shows "utf8_valid (a # s) = (\<exists>b c r. s = b # c # r \<and> is_cont (byte b) \<and> is_cont (byte c)
    \<and> (byte a = 224 \<longrightarrow> 160 \<le> byte b) \<and> (byte a = 237 \<longrightarrow> byte b \<le> 159) \<and> utf8_valid r)"
  using assms by (cases s; cases "tl s") (simp_all add: Let_def)

lemma utf8_four:
  assumes "239 < byte a"
  shows "utf8_valid (a # s) = (\<exists>b c d r. s = b # c # d # r \<and> byte a \<le> 244 \<and> is_cont (byte b) \<and> is_cont (byte c)
    \<and> is_cont (byte d) \<and> (byte a = 240 \<longrightarrow> 144 \<le> byte b) \<and> (byte a = 244 \<longrightarrow> byte b \<le> 143) \<and> utf8_valid r)"
  using assms by (cases s; cases "tl s"; cases "tl (tl s)") (simp_all add: Let_def)

lemma utf8_no_cont: "utf8_valid (a # s) \<Longrightarrow> \<not> is_cont (byte a)"
  using utf8_two [of a s] by (force simp: is_cont_def simp del: utf8_valid.simps(2))

lemma utf8_split:
  assumes "utf8_valid (a # s)"
  shows "\<exists>c r. a # s = c @ r \<and> utf8_char c \<and> utf8_valid r \<and> length c = char_width a"
proof -
  consider "byte a < 128" | "128 \<le> byte a" "byte a \<le> 223" | "223 < byte a" "byte a \<le> 239" | "239 < byte a"
    by linarith
  then show ?thesis
  proof cases
    case 1
    with assms show ?thesis
      by (intro exI [of _ "[a]"] exI [of _ s]) (simp add: utf8_char_def next_char_def char_width_def utf8_one del: utf8_valid.simps(2))
  next
    case 2
    with assms obtain b r where "s = b # r" "is_cont (byte b)" "utf8_valid r" "194 \<le> byte a" by (auto simp: utf8_two simp del: utf8_valid.simps(2))
    with 2 show ?thesis
      by (intro exI [of _ "[a, b]"] exI [of _ r]) (simp add: utf8_char_def next_char_def char_width_def utf8_two del: utf8_valid.simps(2))
  next
    case 3
    with assms obtain b c r where "s = b # c # r" "is_cont (byte b)" "is_cont (byte c)" "utf8_valid r"
      "byte a = 224 \<longrightarrow> 160 \<le> byte b" "byte a = 237 \<longrightarrow> byte b \<le> 159" by (auto simp: utf8_three simp del: utf8_valid.simps(2))
    with 3 show ?thesis
      by (intro exI [of _ "[a, b, c]"] exI [of _ r]) (simp add: utf8_char_def next_char_def char_width_def utf8_three del: utf8_valid.simps(2))
  next
    case 4
    with assms obtain b c d r where "s = b # c # d # r" "is_cont (byte b)" "is_cont (byte c)" "is_cont (byte d)"
      "utf8_valid r" "byte a \<le> 244" "byte a = 240 \<longrightarrow> 144 \<le> byte b" "byte a = 244 \<longrightarrow> byte b \<le> 143"
      by (auto simp: utf8_four simp del: utf8_valid.simps(2))
    with 4 show ?thesis
      by (intro exI [of _ "[a, b, c, d]"] exI [of _ r]) (simp add: utf8_char_def next_char_def char_width_def utf8_four del: utf8_valid.simps(2))
  qed
qed

lemma utf8_char_tail: "utf8_char (a # s) \<Longrightarrow> b \<in> set s \<Longrightarrow> is_cont (byte b)"
  by (simp add: utf8_char_def next_char_def dropWhile_eq_Nil_conv)

lemma utf8_char_width:
  assumes "utf8_char c"
  shows "length c = char_width (hd c)"
proof -
  obtain a s where c: "c = a # s" using assms by (cases c) (auto simp: utf8_char_def)
  have "utf8_valid (a # s)" using assms unfolding c utf8_char_def by blast
  then obtain c' r where split: "a # s = c' @ r" "utf8_char c'" "utf8_valid r" "length c' = char_width a"
    using utf8_split by blast
  have "r = []"
  proof (cases r)
    case (Cons b r')
    have "b \<in> set s" using split(1,2) unfolding Cons by (cases c') (auto simp: utf8_char_def)
    then show ?thesis using utf8_char_tail assms utf8_no_cont split(3) unfolding c Cons by blast
  qed
  with split(1,4) c show ?thesis by (metis append_Nil2 list.sel(1))
qed

lemma utf8_char_append:
  assumes "utf8_char c"
  shows "utf8_valid (c @ s) = utf8_valid s"
proof -
  obtain a r where c: "c = a # r" using assms by (cases c) (auto simp: utf8_char_def)
  have len: "length r = char_width a - 1" using utf8_char_width [OF assms] c by simp
  have valid: "utf8_valid (a # r)" using assms c by (simp add: utf8_char_def del: utf8_valid.simps(2))
  consider "byte a < 128" | "128 \<le> byte a" "byte a \<le> 223" | "223 < byte a" "byte a \<le> 239" | "239 < byte a"
    by linarith
  then show ?thesis
  proof cases
    case 1
    with len show ?thesis unfolding c by (simp add: char_width_def utf8_one del: utf8_valid.simps(2))
  next
    case 2
    with len valid show ?thesis unfolding c
      by (auto simp: char_width_def utf8_two length_Suc_conv simp del: utf8_valid.simps(2))
  next
    case 3
    with len valid show ?thesis unfolding c
      by (auto simp: char_width_def utf8_three length_Suc_conv numeral_2_eq_2 simp del: utf8_valid.simps(2))
  next
    case 4
    with len valid show ?thesis unfolding c
      by (auto simp: char_width_def utf8_four length_Suc_conv numeral_3_eq_3 simp del: utf8_valid.simps(2))
  qed
qed

lemma utf8_chars [consumes 1, case_names Nil Char]:
  assumes "utf8_valid s" "P []" "\<And>c r. utf8_char c \<Longrightarrow> utf8_valid r \<Longrightarrow> P r \<Longrightarrow> P (c @ r)"
  shows "P s"
  using assms(1)
proof (induction "length s" arbitrary: s rule: less_induct)
  case less
  show ?case
  proof (cases s)
    case (Cons a s')
    obtain c r where c: "s = c @ r" "utf8_char c" "utf8_valid r"
      using utf8_split less(2) unfolding Cons by metis
    then have "length r < length s" by (simp add: utf8_char_def)
    with c less(1) assms(3) show ?thesis by simp
  qed (simp add: assms(2))
qed

lemma lower_byte: "byte a \<ge> 128 \<Longrightarrow> to_ascii_lower a = a"
  by (simp add: to_ascii_lower_def is_ascii_uppercase_def)

lemma lower_small: "byte a < 128 \<Longrightarrow> byte (to_ascii_lower a) < 128"
  by (auto simp: to_ascii_lower_def is_ascii_uppercase_def)

lemma lower_width: "to_ascii_lower a = to_ascii_lower b \<Longrightarrow> char_width a = char_width b"
  using lower_small [of a] lower_small [of b] lower_byte [of a] lower_byte [of b]
  by (cases "byte a < 128"; cases "byte b < 128") (auto simp: char_width_def not_less)

lemma lower_cont: "is_cont (byte b) \<Longrightarrow> \<not> is_cont (byte a) \<Longrightarrow> to_ascii_lower a \<noteq> to_ascii_lower b"
  using lower_small [of a] lower_byte [of a] lower_byte [of b] by (cases "byte a < 128") (auto simp: is_cont_def not_less)

lemma starts_with_lower_char:
  assumes "utf8_char c" "utf8_char x"
  shows "starts_with (to_ascii_lowercase (c @ v)) (to_ascii_lowercase (x @ t))
    = (to_ascii_lowercase c = to_ascii_lowercase x \<and> starts_with (to_ascii_lowercase v) (to_ascii_lowercase t))"
proof -
  have len: "to_ascii_lowercase (c @ v) = to_ascii_lowercase (x @ t) @ r \<or> to_ascii_lowercase (x @ t) = to_ascii_lowercase (c @ v) @ r
      \<Longrightarrow> length c = length x" for r
    using assms lower_width [of "hd c" "hd x"] utf8_char_width [OF assms(1)] utf8_char_width [OF assms(2)] unfolding utf8_char_def to_ascii_lowercase_def
    by (cases c; cases x) auto
  show ?thesis
  proof
    assume "starts_with (to_ascii_lowercase (c @ v)) (to_ascii_lowercase (x @ t))"
    then obtain r where r: "to_ascii_lowercase (x @ t) = to_ascii_lowercase (c @ v) @ r" by (auto simp: starts_with_iff)
    with len have "length c = length x" by blast
    with r show "to_ascii_lowercase c = to_ascii_lowercase x \<and> starts_with (to_ascii_lowercase v) (to_ascii_lowercase t)"
      by (auto simp: to_ascii_lowercase_def starts_with_iff)
  next
    assume "to_ascii_lowercase c = to_ascii_lowercase x \<and> starts_with (to_ascii_lowercase v) (to_ascii_lowercase t)"
    then show "starts_with (to_ascii_lowercase (c @ v)) (to_ascii_lowercase (x @ t))"
      by (auto simp: to_ascii_lowercase_def starts_with_iff)
  qed
qed

abbreviation escape_like :: "char \<Rightarrow> string" where
  "escape_like c \<equiv> (if c = CHR ''%'' \<or> c = CHR ''_'' \<or> c = CHR 0x5C then [CHR 0x5C, c] else [c])"

abbreviation literal_tail :: "string \<Rightarrow> string" where
  "literal_tail v \<equiv> concat (map escape_like v) @ ''%''"

lemma literal_like_pattern_unfold: "literal_like_pattern v = CHR ''%'' # literal_tail v"
  by (simp add: literal_like_pattern_def)

lemma escape_char:
  assumes "utf8_char c"
  shows "concat (map escape_like c)
    = (if c \<in> {[CHR ''%''], [CHR ''_''], [CHR 0x5C]} then CHR 0x5C # c else c)"
proof (cases c)
  case (Cons a s)
  have cont: "is_cont (byte b)" if "b \<in> set s" for b
    using assms that unfolding Cons by (auto simp: utf8_char_def next_char_def dropWhile_eq_Nil_conv)
  have "map escape_like s = map (\<lambda>b. [b]) s"
    by (rule map_cong) (auto simp: is_cont_def dest!: cont)
  moreover have "concat (map (\<lambda>b. [b]) s) = s" by (induction s) simp_all
  ultimately have plain: "concat (map escape_like s) = s" by (simp only:)
  show ?thesis
  proof (cases "byte a < 128")
    case True
    have "s = []"
    proof (cases s)
      case (Cons b r)
      have "utf8_valid (b # r)"
        using assms True unfolding \<open>c = a # s\<close> Cons utf8_char_def utf8_one [OF True] by blast
      then show ?thesis using cont [of b] utf8_no_cont Cons by auto
    qed
    then show ?thesis unfolding Cons by simp
  next
    case False
    then show ?thesis unfolding Cons using plain by auto
  qed
qed (use assms in \<open>simp add: utf8_char_def\<close>)

lemma utf8_append: "utf8_valid s \<Longrightarrow> utf8_valid t \<Longrightarrow> utf8_valid (s @ t)"
  by (induction rule: utf8_chars) (simp_all add: utf8_char_append)

lemma escaped_valid: "utf8_valid v \<Longrightarrow> utf8_valid (literal_tail v)"
proof (induction rule: utf8_chars)
  case Nil
  show ?case by simp
next
  case (Char c r)
  then show ?case
    using escape_char [OF Char(1)]
    by (simp add: utf8_char_append utf8_one del: utf8_valid.simps(2))
qed

lemma escaped_text: "like_text v \<Longrightarrow> like_text (literal_tail v)"
  using escaped_valid [of v] by (auto simp: like_text_def split: if_splits)

lemma next_char_append:
  assumes "utf8_char x" "utf8_valid t"
  shows "next_char (x @ t) = t"
proof -
  obtain a s where x: "x = a # s" using assms by (cases x) (auto simp: utf8_char_def)
  have "dropWhile (\<lambda>c. is_cont (byte c)) t = t" using utf8_no_cont assms(2) by (cases t) auto
  with utf8_char_tail assms(1) show ?thesis unfolding x next_char_def by (simp add: dropWhile_append2)
qed

lemma escaped_length: "length (literal_tail v) \<le> 2 * length v + 1"
  by (induction v) simp_all

text \<open>An escaped text followed by a percent sign matches what begins with the text.\<close>

lemma like_literal:
  assumes like: "like_laws like" and "like_text t" "like_text v" "length v \<le> n" "2 * n + 1 < like_limit"
  shows "like (literal_tail v) t = starts_with (to_ascii_lowercase v) (to_ascii_lowercase t)"
proof -
  have all: "like ''%'' t" if "like_text t" for t
  proof -
    have "utf8_valid t" using that by (simp add: like_text_def)
    then show ?thesis using that
    proof (induction rule: utf8_chars)
      case Nil
      then show ?case using like_lawsD(1,2) [OF like, of "[]"] by (simp add: like_text_def like_limit_def)
    next
      case (Char c r)
      then have "like_text r" by (simp add: like_text_def)
      with Char show ?case using like_lawsD(2) [OF like, of "[]" "c @ r"]
        by (simp add: like_text_def like_limit_def next_char_append utf8_char_def)
    qed
  qed
  have "utf8_valid v" using assms(3) by (simp add: like_text_def)
  then show ?thesis using assms(2-4)
  proof (induction arbitrary: t rule: utf8_chars)
    case Nil
    then show ?case using all by (simp add: starts_with_iff to_ascii_lowercase_def)
  next
    case (Char c r)
    then have r: "like_text r" "length c + length r \<le> n" "utf8_valid t" by (simp_all add: like_text_def)
    have p: "like_text (c @ literal_tail r)" "length c + length (literal_tail r) < like_limit"
      using escaped_text [OF r(1)] Char(1,5,6) r(2) assms(5) escaped_length [of r]
      by (auto simp: like_text_def utf8_char_append)
    note step = like_lawsD(3-6) [OF like Char(1), of "literal_tail r"]
    have pat: "literal_tail (c @ r) = (if c \<in> {[CHR ''%''], [CHR ''_''], [CHR 0x5C]} then CHR 0x5C # c @ literal_tail r else c @ literal_tail r)"
      using escape_char [OF Char(1)] by simp
    show ?case
    proof (cases t)
      case Nil
      then show ?thesis unfolding pat using step p Char(1)
        by (auto simp: utf8_char_def starts_with_iff to_ascii_lowercase_def)
    next
      case (Cons a t0)
      obtain x t' where x: "t = x @ t'" "utf8_char x" "utf8_valid t'"
        using utf8_split r(3) unfolding Cons by metis
      then have t': "like_text t'" using Char(4) by (simp add: like_text_def)
      have "like (literal_tail (c @ r)) t = (to_ascii_lowercase c = to_ascii_lowercase x \<and> like (literal_tail r) t')"
        unfolding pat using step p Char(4) x by auto
      moreover have "like (literal_tail r) t' = starts_with (to_ascii_lowercase r) (to_ascii_lowercase t')"
        using Char(3) t' r by simp
      ultimately show ?thesis unfolding x(1) starts_with_lower_char [OF Char(1) x(2)] by simp
    qed
  qed
qed

lemma contains_lower_char:
  assumes "utf8_valid v" "utf8_char x" "v \<noteq> []"
  shows "contains_str (to_ascii_lowercase v) (to_ascii_lowercase (x @ t))
    = (starts_with (to_ascii_lowercase v) (to_ascii_lowercase (x @ t))
       \<or> contains_str (to_ascii_lowercase v) (to_ascii_lowercase t))"
proof -
  obtain a v' where v: "v = a # v'" using assms(3) by (cases v) auto
  obtain b s where x: "x = b # s" using assms(2) by (cases x) (auto simp: utf8_char_def)
  have first: "\<not> is_cont (byte a)" by (rule utf8_no_cont [OF assms(1) [unfolded v]])
  have skip: "contains_str (to_ascii_lowercase v) (map to_ascii_lower s @ w) = contains_str (to_ascii_lowercase v) w"
    if "\<forall>y \<in> set s. is_cont (byte y)" for s w
    using that
  proof (induction s)
    case (Cons y s)
    then have "to_ascii_lower a \<noteq> to_ascii_lower y" using lower_cont [OF _ first] by simp
    then have "\<not> starts_with (to_ascii_lowercase v) (map to_ascii_lower (y # s) @ w)"
      unfolding v by (simp add: starts_with_iff to_ascii_lowercase_def)
    with Cons show ?case by simp
  qed simp
  have "\<forall>y \<in> set s. is_cont (byte y)" using utf8_char_tail assms(2) unfolding x by blast
  from skip [OF this] show ?thesis unfolding x by (simp add: to_ascii_lowercase_def)
qed

lemma like_contains:
  assumes like: "like_laws like" and v: "like_text v" "2 * length v + 1 < like_limit" and t: "like_text t"
  shows "like (literal_like_pattern v) t = contains_str (to_ascii_lowercase v) (to_ascii_lowercase t)"
proof -
  note lit = like_literal [OF like _ v(1) order_refl v(2)]
  have len: "length (literal_tail v) < like_limit" using escaped_length [of v] v(2) by linarith
  note step = like_lawsD(2) [OF like escaped_text [OF v(1)] _ len]
  have "utf8_valid t" using t by (simp add: like_text_def)
  then show ?thesis using t unfolding literal_like_pattern_unfold
  proof (induction rule: utf8_chars)
    case Nil
    then show ?case using lit [OF Nil] step [OF Nil]
      by (cases v) (simp_all add: to_ascii_lowercase_def starts_with_iff)
  next
    case (Char x t')
    then have t': "like_text t'" by (simp add: like_text_def)
    have "like (CHR ''%'' # literal_tail v) (x @ t')
        = (starts_with (to_ascii_lowercase v) (to_ascii_lowercase (x @ t'))
           \<or> contains_str (to_ascii_lowercase v) (to_ascii_lowercase t'))"
      using step [OF Char(4)] lit [OF Char(4)] Char(3) [OF t'] Char(1) next_char_append [OF Char(1,2)]
      by (simp add: utf8_char_def)
    then show ?case
    proof (cases "v = []")
      case True
      then show ?thesis using \<open>like (CHR ''%'' # literal_tail v) (x @ t') = _\<close>
        by (cases "to_ascii_lowercase (x @ t')") (simp_all add: starts_with_iff to_ascii_lowercase_def)
    next
      case False
      then show ?thesis using \<open>like (CHR ''%'' # literal_tail v) (x @ t') = _\<close> contains_lower_char [OF _ Char(1)] v(1)
        by (simp add: like_text_def)
    qed
  qed
qed

text \<open>C17. The search of the history is exact. Where the \<open>LIKE\<close> operator of the database does what its
  documentation says, a row is listed for a search if and only if it is listed without one and its stored
  lower-case prompt contains the lower-case search text as a substring, up to the case of ASCII letters,
  whatever wildcards and escape characters the text holds. The text and the prompt must be free of NUL, at
  which SQLite stops comparing, and the text short enough for the pattern limit of SQLite; the HTTP route
  admits at most 512 bytes without control characters as a search, but prompts with NUL are stored.\<close>

theorem search_pattern_exact:
  assumes "like_laws (jc_like cd)"
    and "like_text (jc_to_lowercase cd s)" and "2 * length (jc_to_lowercase cd s) + 1 < like_limit"
    and "like_text (jr_prompt_search r)"
  shows "listed cd scope (f\<lparr>jf_search := Some s\<rparr>) before r =
    (listed cd scope (f\<lparr>jf_search := None\<rparr>) before r
     \<and> contains_str (to_ascii_lowercase (jc_to_lowercase cd s)) (to_ascii_lowercase (jr_prompt_search r)))"
  using like_contains [OF assms(1-3,4)] by (auto simp: listed_def)

text \<open>The operator of the concrete tables obeys the laws.\<close>

lemma demo_like_plain:
  "\<forall>y \<in> set c. y \<noteq> CHR ''%'' \<and> y \<noteq> CHR ''_'' \<and> y \<noteq> CHR 0x5C \<Longrightarrow>
   demo_like (c @ p) u = (starts_with (to_ascii_lowercase c) (to_ascii_lowercase u) \<and> demo_like p (drop (length c) u))"
proof (induction c arbitrary: u)
  case (Cons y c)
  then show ?case by (cases u) (simp_all add: starts_with_def to_ascii_lowercase_def)
qed (simp add: starts_with_def to_ascii_lowercase_def)

lemma starts_with_char:
  assumes "utf8_char c" "utf8_char x"
  shows "starts_with (to_ascii_lowercase c) (to_ascii_lowercase (x @ t)) = (to_ascii_lowercase c = to_ascii_lowercase x)"
  using starts_with_lower_char [OF assms, of "[]" t] by (simp add: starts_with_iff to_ascii_lowercase_def)

lemma lowercase_length: "to_ascii_lowercase c = to_ascii_lowercase x \<Longrightarrow> length c = length x"
  unfolding to_ascii_lowercase_def by (metis length_map)

lemma cont_plain: "is_cont (byte y) \<Longrightarrow> y \<noteq> CHR ''%'' \<and> y \<noteq> CHR ''_'' \<and> y \<noteq> CHR 0x5C"
  by (auto simp: is_cont_def)

lemma demo_like_char:
  assumes "utf8_char c" "c \<notin> {[CHR ''%''], [CHR ''_''], [CHR 0x5C]}"
  shows "\<not> demo_like (c @ p) []"
    and "utf8_char x \<Longrightarrow> demo_like (c @ p) (x @ t) = (to_ascii_lowercase c = to_ascii_lowercase x \<and> demo_like p t)"
proof -
  have plain: "\<forall>y \<in> set c. y \<noteq> CHR ''%'' \<and> y \<noteq> CHR ''_'' \<and> y \<noteq> CHR 0x5C"
  proof (cases c)
    case (Cons a s)
    have "s = []" if "byte a < 128" using utf8_char_width [OF assms(1)] that unfolding Cons by (simp add: char_width_def)
    then have "a \<noteq> CHR ''%'' \<and> a \<noteq> CHR ''_'' \<and> a \<noteq> CHR 0x5C" using assms(2) unfolding Cons by auto
    moreover have "is_cont (byte y)" if "y \<in> set s" for y using utf8_char_tail assms(1) that unfolding Cons by blast
    ultimately show ?thesis unfolding Cons by (auto dest: cont_plain)
  qed simp
  show "\<not> demo_like (c @ p) []" using assms(1) demo_like_plain [OF plain, of p "[]"]
    by (simp add: utf8_char_def starts_with_iff to_ascii_lowercase_def)
  assume x: "utf8_char x"
  show "demo_like (c @ p) (x @ t) = (to_ascii_lowercase c = to_ascii_lowercase x \<and> demo_like p t)"
    unfolding demo_like_plain [OF plain] starts_with_char [OF assms(1) x] by (auto dest: lowercase_length)
qed

lemma demo_like_escaped:
  assumes "utf8_char c"
  shows "\<not> demo_like (CHR 0x5C # c @ p) []"
    and "utf8_char x \<Longrightarrow> demo_like (CHR 0x5C # c @ p) (x @ t) = (to_ascii_lowercase c = to_ascii_lowercase x \<and> demo_like p t)"
proof -
  obtain a s where c: "c = a # s" using assms by (cases c) (auto simp: utf8_char_def)
  have plain: "\<forall>y \<in> set s. y \<noteq> CHR ''%'' \<and> y \<noteq> CHR ''_'' \<and> y \<noteq> CHR 0x5C"
    using utf8_char_tail assms cont_plain unfolding c by blast
  have step: "demo_like (CHR 0x5C # c @ p) u
      = (starts_with (to_ascii_lowercase c) (to_ascii_lowercase u) \<and> demo_like p (drop (length c) u))" for u
    unfolding c using demo_like_plain [OF plain, of p "tl u"]
    by (cases u) (simp_all add: starts_with_def to_ascii_lowercase_def)
  show "\<not> demo_like (CHR 0x5C # c @ p) []" unfolding step c by (simp add: starts_with_iff to_ascii_lowercase_def)
  assume x: "utf8_char x"
  show "demo_like (CHR 0x5C # c @ p) (x @ t) = (to_ascii_lowercase c = to_ascii_lowercase x \<and> demo_like p t)"
    unfolding step starts_with_char [OF assms x] by (auto dest: lowercase_length)
qed

lemma demo_like_percent: "demo_like (CHR ''%'' # p) t = (demo_like p t \<or> (t \<noteq> [] \<and> demo_like (CHR ''%'' # p) (next_char t)))"
  by (subst demo_like.simps) simp

lemma demo_like_underscore: "demo_like (CHR ''_'' # p) t = (t \<noteq> [] \<and> demo_like p (next_char t))"
  by simp

lemma demo_like_laws: "like_laws demo_like"
  unfolding like_laws_def
proof (intro conjI allI impI)
qed (simp_all only: demo_like.simps(1) demo_like_percent [symmetric] demo_like_underscore demo_like_char demo_like_escaped
  simp_thms)

lemma demo_lower: "to_ascii_lowercase ''A'' = ''a''" "to_ascii_lowercase ''a'' = ''a''"
  by code_simp+

lemma demo_search: "jc_to_lowercase demo_job_codec ''A'' = ''a''" "like_text ''a''" "like_text ''cat''"
  by (simp_all add: demo_codec_simps demo_lower like_text_def)

theorem search_pattern_exact_witness:
  "listed demo_job_codec ''s'' \<lparr>jf_before = None, jf_limit = 1, jf_visibility = Visible_All, jf_status = None,
     jf_favorite = None, jf_search = Some ''A''\<rparr> None (queued_row demo_new_job)"
proof -
  have like: "like_laws (jc_like demo_job_codec)" using demo_like_laws by (simp add: demo_job_codec_def)
  have stored: "like_text (jr_prompt_search (queued_row demo_new_job))"
    using demo_search(3) by (simp add: queued_row_def demo_new_job_def)
  have found: "contains_str (to_ascii_lowercase ''a'') (to_ascii_lowercase ''cat'')"
    by (simp add: demo_lower demo_lowercase starts_with_iff)
  show ?thesis
    using search_pattern_exact [OF like _ _ stored, of "''A''" "''s''"
        "\<lparr>jf_before = None, jf_limit = 1, jf_visibility = Visible_All, jf_status = None,
           jf_favorite = None, jf_search = None\<rparr>" None] found
    by (simp add: demo_search like_limit_def listed_def queued_row_def demo_new_job_def)
qed

section \<open>Retention\<close>

text \<open>The rows that stay: the longest part of the window within both bounds.\<close>

fun within_budget :: "int \<Rightarrow> int \<Rightarrow> nat \<Rightarrow> nat \<Rightarrow> job_table \<Rightarrow> job_table" where
  "within_budget maximum maximum_bytes ordinal cumulative [] = []"
| "within_budget maximum maximum_bytes ordinal cumulative (r # rs) =
     (if maximum < int (Suc ordinal) \<or> maximum_bytes < int (cumulative + retained_bytes r) then []
      else r # within_budget maximum maximum_bytes (Suc ordinal) (cumulative + retained_bytes r) rs)"

lemma beyond_all: "m < int (Suc n) \<or> b < int (c + k) \<Longrightarrow> k \<le> retained_bytes r \<Longrightarrow>
  beyond_budget m b n c (r # rs) = jr_id r # beyond_budget m b (Suc n) (c + retained_bytes r) rs"
  by (auto simp: Let_def)

lemma beyond_exceeded: "m < int n \<or> b < int c \<Longrightarrow> beyond_budget m b n c rs = map jr_id rs"
  by (induction rs arbitrary: n c) (auto simp: Let_def)

lemma within_prefix:
  "\<exists>rest. rs = within_budget m b n c rs @ rest \<and> beyond_budget m b n c rs = map jr_id rest
    \<and> (rest \<noteq> [] \<longrightarrow> m < int (Suc (n + length (within_budget m b n c rs)))
        \<or> b < int (c + sum_list (map retained_bytes (within_budget m b n c rs)) + retained_bytes (hd rest)))"
proof (induction m b n c rs rule: within_budget.induct)
  case (2 m b n c r rs)
  show ?case
  proof (cases "m < int (Suc n) \<or> b < int (c + retained_bytes r)")
    case True
    then show ?thesis by (intro exI [of _ "r # rs"]) (auto simp: Let_def beyond_exceeded)
  next
    case False
    from 2 [OF this] obtain rest where rest: "rs = within_budget m b (Suc n) (c + retained_bytes r) rs @ rest"
      "beyond_budget m b (Suc n) (c + retained_bytes r) rs = map jr_id rest"
      "rest \<noteq> [] \<longrightarrow> m < int (Suc (Suc n + length (within_budget m b (Suc n) (c + retained_bytes r) rs)))
        \<or> b < int (c + retained_bytes r + sum_list (map retained_bytes (within_budget m b (Suc n) (c + retained_bytes r) rs))
            + retained_bytes (hd rest))" by blast
    show ?thesis
      by (rule exI [of _ rest]) (use False rest in \<open>simp add: Let_def add.assoc\<close>)
  qed
qed simp

lemma within_bounds:
  "within_budget m b n c rs \<noteq> [] \<Longrightarrow> int (n + length (within_budget m b n c rs)) \<le> m
    \<and> int (c + sum_list (map retained_bytes (within_budget m b n c rs))) \<le> b"
proof (induction m b n c rs rule: within_budget.induct)
  case (2 m b n c r rs)
  then show ?case by (cases "within_budget m b (Suc n) (c + retained_bytes r) rs") (auto split: if_splits)
qed simp

lemma newest_first_filter: "newest_first (filter p t) = filter p (newest_first t)"
  by (simp add: newest_first_def filter_sort [symmetric] rev_filter)

lemma newest_first_mset [simp]: "mset (newest_first t) = mset t"
  by (simp add: newest_first_def)

lemma keys_newest_first: "keys_ok (newest_first t) = keys_ok t"
  by (simp add: keys_ok_def newest_first_def rev_map [symmetric] distinct_map)

definition unexpired_rows :: "int \<Rightarrow> job_table \<Rightarrow> job_table" where
  "unexpired_rows cutoff t = filter (\<lambda>r. \<not> expired_row cutoff r) t"

lemma filter_kept_prefix:
  assumes "keys_ok (kept @ rest)"
  shows "filter (\<lambda>r. jr_id r \<notin> set (map jr_id rest)) (kept @ rest) = kept"
proof -
  have "filter (\<lambda>r. jr_id r \<notin> jr_id ` set rest) kept = kept"
    using assms by (intro filter_True) (auto simp: keys_ok_def)
  then show ?thesis by (simp add: filter_False)
qed

lemma prune_keeps:
  assumes "keys_ok t"
  shows "newest_first (filter prunable (snd (prune_rows cutoff m b t)))
      = within_budget m b 0 0 (newest_first (filter prunable (unexpired_rows cutoff t)))"
    and "filter (\<lambda>r. \<not> prunable r) (snd (prune_rows cutoff m b t)) = filter (\<lambda>r. \<not> prunable r) t"
proof -
  let ?w = "newest_first (filter prunable (unexpired_rows cutoff t))"
  obtain rest where rest: "?w = within_budget m b 0 0 ?w @ rest" "beyond_budget m b 0 0 ?w = map jr_id rest"
    using within_prefix by blast
  have keys: "keys_ok ?w"
    unfolding keys_newest_first using assms by (simp add: keys_ok_def unexpired_rows_def distinct_map_filter)
  have snd: "snd (prune_rows cutoff m b t) = filter (\<lambda>r. jr_id r \<notin> set (map jr_id rest)) (unexpired_rows cutoff t)"
    by (simp only: prune_rows_def sql_delete_def Let_def prod.case snd_conv unexpired_rows_def [symmetric] rest(2))
  have "newest_first (filter prunable (snd (prune_rows cutoff m b t)))
      = filter (\<lambda>r. jr_id r \<notin> set (map jr_id rest)) ?w"
    unfolding snd filter_filter newest_first_filter by (simp add: conj_commute)
  also have "\<dots> = within_budget m b 0 0 ?w"
    using filter_kept_prefix [of "within_budget m b 0 0 ?w" rest] keys rest(1) by simp
  finally show "newest_first (filter prunable (snd (prune_rows cutoff m b t))) = within_budget m b 0 0 ?w" .
  obtain p where p: "snd (prune_rows cutoff m b t) = filter p t" "\<forall>r \<in> set t. \<not> p r \<longrightarrow> prunable r"
    using prune_rows_filter [OF assms] by blast
  then show "filter (\<lambda>r. \<not> prunable r) (snd (prune_rows cutoff m b t)) = filter (\<lambda>r. \<not> prunable r) t"
    unfolding p(1) filter_filter by (intro filter_cong) auto
qed

lemma filter_split_length: "length (filter p t) + length (filter (\<lambda>r. \<not> p r) t) = length t"
  by (rule sum_length_filter_compl)

lemma prune_count: "length t = length (snd (prune_rows cutoff m b t)) + fst (prune_rows cutoff m b t)"
proof -
  have split: "length t = length (snd (sql_delete p t)) + fst (sql_delete p t)" for p :: "job_row \<Rightarrow> bool" and t
    using filter_split_length [of p t] by (simp add: sql_delete_def)
  show ?thesis
    using split [of t "expired_row cutoff"] split [of "snd (sql_delete (expired_row cutoff) t)"]
    unfolding prune_rows_def case_prod_beta Let_def by (simp add: add.assoc)
qed

text \<open>C16. Retention removes exactly what it must. After a prune, of the terminal jobs that are not favorites
  there remain the newest ones that did not expire, as many as fit both bounds on number and
  bytes and no fewer; every other job stays, and the reported number is the number of rows removed.\<close>

theorem prune_exact:
  assumes "t = job_run cd pending bytes cs []" and "to_i64 (sat_sub now retention) = Inr cutoff"
    and "job_prune True now retention max_retained max_bytes t = (Inr deleted, t')"
    and "window = newest_first (filter prunable (unexpired_rows cutoff t))"
    and "kept = newest_first (filter prunable t')"
  shows "\<exists>rest. window = kept @ rest
    \<and> int (length kept) \<le> i64_limit max_retained
    \<and> int (sum_list (map retained_bytes kept)) \<le> i64_limit (unat max_bytes)
    \<and> (rest \<noteq> [] \<longrightarrow> i64_limit max_retained < int (Suc (length kept))
        \<or> i64_limit (unat max_bytes) < int (sum_list (map retained_bytes kept) + retained_bytes (hd rest)))
    \<and> filter (\<lambda>r. \<not> prunable r) t' = filter (\<lambda>r. \<not> prunable r) t
    \<and> length t = length t' + deleted"
proof -
  let ?m = "i64_limit max_retained" and ?b = "i64_limit (unat max_bytes)"
  have keys: "keys_ok t" unfolding assms(1) by (rule run_keys_ok)
  have t': "prune_rows cutoff ?m ?b t = (deleted, t')"
    using assms(2,3) by (auto simp: job_prune_def db_call_def split: prod.splits)
  have kept: "kept = within_budget ?m ?b 0 0 window"
    unfolding assms(4,5) using prune_keeps(1) [OF keys, of cutoff ?m ?b] t' by simp
  have nonneg: "0 \<le> ?m" "0 \<le> ?b" by (simp_all add: i64_limit_def i64_max_def)
  obtain rest where rest: "window = kept @ rest"
    "rest \<noteq> [] \<longrightarrow> ?m < int (Suc (length kept)) \<or> ?b < int (sum_list (map retained_bytes kept) + retained_bytes (hd rest))"
    using within_prefix [of window ?m ?b 0 0] unfolding kept by auto
  have "int (length kept) \<le> ?m \<and> int (sum_list (map retained_bytes kept)) \<le> ?b"
    using within_bounds [of ?m ?b 0 0 window] nonneg unfolding kept by (cases "within_budget ?m ?b 0 0 window") auto
  moreover have "filter (\<lambda>r. \<not> prunable r) t' = filter (\<lambda>r. \<not> prunable r) t"
    using prune_keeps(2) [OF keys, of cutoff ?m ?b] t' by simp
  moreover have "length t = length t' + deleted" using prune_count [of t cutoff ?m ?b] t' by simp
  ultimately show ?thesis using rest by blast
qed

text \<open>A cancelled job that has not expired, with no room for history.\<close>

definition demo_cancelled :: job_row where
  "demo_cancelled = (queued_row demo_new_job)\<lparr>jr_status := ''cancelled'', jr_cancel_requested := True,
     jr_updated := 6, jr_completed := Some 6, jr_progress_stage := Some ''completed''\<rparr>"

lemma demo_cancel_run:
  "job_run demo_job_codec 1 1000000 [demo_create, Cmd_Cancel True ''s'' ''j'' 6] [] = [demo_cancelled]"
proof -
  have "job_run demo_job_codec 1 1000000 [demo_create, Cmd_Cancel True ''s'' ''j'' 6] []
      = snd (cancel_call True ''s'' ''j'' 6 (job_run demo_job_codec 1 1000000 [demo_create] []))" by simp
  also have "\<dots> = [demo_cancelled]"
    unfolding demo_run
    by (simp add: cancel_call_def demo_scope to_i64_def i64_max_def db_call_def cancel_row_def owned_by_def
        sql_update_def demo_cancelled_def queued_row_def demo_new_job_def)
  finally show ?thesis .
qed

lemma demo_prune: "job_prune True 7 5 0 1000 [demo_cancelled] = (Inr 1, [])"
  by (simp add: job_prune_def to_i64_def i64_max_def sat_sub_def db_call_def prune_rows_def sql_delete_def
      expired_row_def prunable_def row_terminal_def demo_cancelled_def queued_row_def demo_new_job_def
      newest_first_def i64_limit_def Let_def)

theorem prune_exact_witness:
  "\<exists>rest. newest_first (filter prunable (unexpired_rows 2 [demo_cancelled])) = newest_first (filter prunable []) @ rest
     \<and> length [demo_cancelled] = length ([] :: job_table) + 1"
proof -
  have "to_i64 (sat_sub 7 5) = Inr 2" by (simp add: to_i64_def sat_sub_def i64_max_def)
  from prune_exact [OF demo_cancel_run [symmetric] this demo_prune refl refl] show ?thesis by blast
qed

section \<open>Pages\<close>

lemma sort_key_strict:
  "distinct (map f xs) \<Longrightarrow> sorted_wrt (\<lambda>a b. (f a :: 'k :: linorder) < f b) (sort_key f xs)"
proof -
  assume "distinct (map f xs)"
  then have "distinct (map f (sort_key f xs))" by (simp add: distinct_map)
  moreover have "sorted (map f (sort_key f xs))" by simp
  ultimately have "sorted_wrt (<) (map f (sort_key f xs))" by (simp add: strict_sorted_iff)
  then show ?thesis by (simp add: sorted_wrt_map)
qed

lemma newest_first_strict:
  assumes "keys_ok t"
  shows "sorted_wrt (\<lambda>a b. job_key b < job_key a) (newest_first t)"
proof -
  have "distinct (map job_key t)" using assms by (induction t) (auto simp: keys_ok_def job_key_def)
  from sort_key_strict [OF this] show ?thesis by (simp add: newest_first_def sorted_wrt_rev)
qed

lemma after_cursor:
  assumes "sorted_wrt (\<lambda>a b. (k b :: 'k :: linorder) < k a) (xs @ r # ys)"
  shows "filter (\<lambda>x. k x < k r) (xs @ r # ys) = ys"
proof -
  have "\<forall>x \<in> set xs. \<not> k x < k r" "\<forall>x \<in> set ys. k x < k r"
    using assms by (auto simp: sorted_wrt_append dest: less_asym)
  then show ?thesis by (simp add: filter_False filter_True)
qed

lemma listed_cursor:
  "listed cd scope f (Some (job_key r)) x \<longleftrightarrow> listed cd scope f None x \<and> job_key x < job_key r"
  by (auto simp: listed_def job_key_def less_prod_def')

lemma listing_after_cursor:
  assumes "keys_ok t" "newest_first (filter (listed cd scope f None) t) = xs @ r # ys"
  shows "newest_first (filter (listed cd scope f (Some (job_key r))) t) = ys"
proof -
  let ?L = "newest_first (filter (listed cd scope f None) t)"
  have "keys_ok (filter (listed cd scope f None) t)" using assms(1) by (simp add: keys_ok_def distinct_map_filter)
  from newest_first_strict [OF this] have "filter (\<lambda>x. job_key x < job_key r) ?L = ys"
    unfolding assms(2) by (rule after_cursor)
  moreover have "filter (listed cd scope f (Some (job_key r))) t
      = filter (\<lambda>x. job_key x < job_key r) (filter (listed cd scope f None) t)"
    unfolding filter_filter by (rule filter_cong) (auto simp: listed_cursor)
  ultimately show ?thesis by (simp only: newest_first_filter)
qed

end
