(* ===== verification/Job_Manager.thy ===== *)
theory Job_Manager
  imports Job_Store Inspect
begin

text \<open>
  \<open>crates/server/src/jobs.rs\<close>: the manager of the durable queue. Its state is the job table, the permits
  of the worker pool, the cancellation tokens of active jobs and the previews. Every task of the source
  (a submission, a cancellation, a worker) is a position in its code; an event lets one of them run
  to its next await, so that a list of events is an interleaving of all of them. What the outside
  decides is part of the event: the clock, whether a call of the database succeeds, the
  identifier that \<open>Uuid::now_v7\<close> gave, which branch of a \<open>select!\<close> was ready, and what the runtime
  answered. An event that its task is not ready for does nothing.
\<close>

section \<open>State\<close>

record job_settings =
  ks_max_pending :: usize
  ks_max_running :: usize
  ks_retention_secs :: u64
  ks_max_retained :: usize
  ks_max_retained_bytes :: u64
  ks_max_database_bytes :: u64

text \<open>What the manager is given: the settings, the limits of the runtime, and the libraries.\<close>

record manager_env =
  me_settings :: job_settings
  me_limits :: request_limits
  me_jobs :: job_codec
  me_images :: codec
  me_b64_decode :: "string \<Rightarrow> string option"

record partial_preview =
  pp_bytes :: string
  pp_content_type :: string
  pp_output_index :: u8
  pp_partial_index :: u8

text \<open>Where a worker stands in \<open>run\<close>.\<close>

datatype worker_phase =
    Worker_Scheduled
  | Worker_Permitted
  | Worker_Claimed
  | Worker_Registered nat
  | Worker_Executing nat image_request u32
  | Worker_Executed nat "image_response result"
  | Worker_Released nat "image_response result"
  | Worker_Settled
  | Worker_Ended "unit result"

record job_worker =
  wk_scope :: string
  wk_id :: string
  wk_phase :: worker_phase

datatype submit_phase =
    Submit_Written string bool
  | Submit_Replied "job_submission result"
  | Submit_Dropped bool

record job_submitter =
  sw_scope :: string
  sw_id :: string
  sw_phase :: submit_phase

datatype cancel_phase =
    Cancel_Written
  | Cancel_Read image_job
  | Cancel_Replied "image_job result"

record job_canceller =
  cn_scope :: string
  cn_id :: string
  cn_phase :: cancel_phase

record job_manager =
  mg_table :: job_table
  mg_permits :: nat
  mg_shutdown :: bool
  mg_active :: "(string \<times> string) \<rightharpoonup> nat"
  mg_tokens :: "nat \<Rightarrow> bool"
  mg_next_token :: nat
  mg_partials :: "(string \<times> string) \<rightharpoonup> partial_preview"
  mg_healthy :: bool
  mg_workers :: "job_worker list"
  mg_submitters :: "job_submitter list"
  mg_cancellers :: "job_canceller list"

definition schedule :: "string \<Rightarrow> string \<Rightarrow> job_manager \<Rightarrow> job_manager" where
  "schedule scope jid m =
     m\<lparr>mg_workers := mg_workers m @ [\<lparr>wk_scope = scope, wk_id = jid, wk_phase = Worker_Scheduled\<rparr>]\<rparr>"

definition cancel_token :: "nat \<Rightarrow> job_manager \<Rightarrow> job_manager" where
  "cancel_token k m = m\<lparr>mg_tokens := (mg_tokens m)(k := True)\<rparr>"

definition set_worker :: "nat \<Rightarrow> worker_phase \<Rightarrow> job_manager \<Rightarrow> job_manager" where
  "set_worker i p m = m\<lparr>mg_workers := (mg_workers m)[i := (mg_workers m ! i)\<lparr>wk_phase := p\<rparr>]\<rparr>"

text \<open>The manager right after \<open>open\<close>, on the table the previous process left.\<close>

definition manager_open ::
  "manager_env \<Rightarrow> bool \<Rightarrow> u64 \<Rightarrow> bool \<Rightarrow> u64 \<Rightarrow> bool \<Rightarrow> job_table \<Rightarrow> job_manager result" where
  "manager_open env io_recover now_recover io_prune now_prune io_list t =
     (let s = me_settings env; (recovered, t1) = recover_interrupted io_recover (me_jobs env) now_recover t in
      and_then recovered (\<lambda>_.
        let (pruned, t2) = job_prune io_prune now_prune (ks_retention_secs s) (ks_max_retained s)
              (ks_max_retained_bytes s) t1 in
        and_then pruned (\<lambda>_.
        and_then (queued_identities io_list (ks_max_pending s) t2) (\<lambda>queued.
          Inr (fold (\<lambda>(scope, jid). schedule scope jid) queued
            \<lparr>mg_table = t2, mg_permits = ks_max_running s, mg_shutdown = False, mg_active = Map.empty,
             mg_tokens = (\<lambda>_. False), mg_next_token = 0, mg_partials = Map.empty, mg_healthy = True,
             mg_workers = [], mg_submitters = [], mg_cancellers = []\<rparr>)))))"

section \<open>Submission\<close>

definition shutting_down_error :: bridge_error where
  "shutting_down_error = retryable True (error_new Overloaded ''durable job manager is shutting down'')"

definition retention_error :: bridge_error where
  "retention_error = retryable True (error_new Overloaded ''durable job retention is temporarily unavailable'')"

definition as_artifact :: "image_request \<Rightarrow> image_request" where
  "as_artifact request = request\<lparr>req_output := (req_output request)\<lparr>out_response_format := Response_Format_Artifact\<rparr>\<rparr>"

definition admit_submission :: "manager_env \<Rightarrow> image_request \<Rightarrow> job_manager \<Rightarrow> image_request result" where
  "admit_submission env request m =
     (if mg_shutdown m then Inl shutting_down_error
      else if \<not> mg_healthy m then Inl retention_error
      else and_then (validate_request (as_artifact request) (me_limits env)) (\<lambda>_. Inr (as_artifact request)))"

definition reply_submission :: "string \<Rightarrow> string \<Rightarrow> submit_phase \<Rightarrow> job_manager \<Rightarrow> job_manager" where
  "reply_submission scope jid p m =
     m\<lparr>mg_submitters := mg_submitters m @ [\<lparr>sw_scope = scope, sw_id = jid, sw_phase = p\<rparr>]\<rparr>"

text \<open>\<open>submit\<close> up to the insertion, and from the read of the job to its scheduling.\<close>

definition submit_write ::
  "manager_env \<Rightarrow> string \<Rightarrow> image_request \<Rightarrow> string \<Rightarrow> u64 \<Rightarrow> bool \<Rightarrow> job_manager \<Rightarrow> job_manager" where
  "submit_write env scope request jid now io m =
     (case admit_submission env request m of
        Inl e \<Rightarrow> reply_submission scope jid (Submit_Replied (Inl e)) m
      | Inr artifact_request \<Rightarrow>
          (case create_call io (me_jobs env) scope jid artifact_request now (ks_max_pending (me_settings env))
                  (ks_max_database_bytes (me_settings env)) (mg_table m) of
             (Inl e, t) \<Rightarrow> reply_submission scope jid (Submit_Replied (Inl e)) (m\<lparr>mg_table := t\<rparr>)
           | (Inr outcome, t) \<Rightarrow>
               reply_submission scope jid
                 (case submitted outcome of
                    Inl e \<Rightarrow> Submit_Replied (Inl e)
                  | Inr (lookup_id, created) \<Rightarrow> Submit_Written lookup_id created) (m\<lparr>mg_table := t\<rparr>)))"

definition submit_read :: "manager_env \<Rightarrow> nat \<Rightarrow> bool \<Rightarrow> job_manager \<Rightarrow> job_manager" where
  "submit_read env k io m =
     (if length (mg_submitters m) \<le> k then m
      else
        let s = mg_submitters m ! k;
            reply = (\<lambda>r. m\<lparr>mg_submitters := (mg_submitters m)[k := s\<lparr>sw_phase := Submit_Replied r\<rparr>]\<rparr>) in
        case sw_phase s of
          Submit_Replied _ \<Rightarrow> m
        | Submit_Dropped _ \<Rightarrow> m
        | Submit_Written lookup_id created \<Rightarrow>
            (case job_get io (me_jobs env) (sw_scope s) lookup_id (mg_table m) of
               Inl e \<Rightarrow> reply (Inl e)
             | Inr job \<Rightarrow>
                 if created then schedule (sw_scope s) (sw_id s) (reply (Inr \<lparr>sb_job = job, sb_created = created\<rparr>))
                 else reply (Inr \<lparr>sb_job = job, sb_created = created\<rparr>)))"

text \<open>
  The future of \<open>submit\<close> is dropped at its await of the read, as when the client goes away: the
  insertion, on a blocking thread, is not undone, and nothing after the await happens.
\<close>

definition submit_drop :: "nat \<Rightarrow> job_manager \<Rightarrow> job_manager" where
  "submit_drop k m =
     (if length (mg_submitters m) \<le> k then m
      else
        let s = mg_submitters m ! k in
        case sw_phase s of
          Submit_Written _ created \<Rightarrow> m\<lparr>mg_submitters := (mg_submitters m)[k := s\<lparr>sw_phase := Submit_Dropped created\<rparr>]\<rparr>
        | _ \<Rightarrow> m)"

section \<open>Cancellation, shutdown and retention\<close>

definition cancel_write :: "string \<Rightarrow> string \<Rightarrow> u64 \<Rightarrow> bool \<Rightarrow> job_manager \<Rightarrow> job_manager" where
  "cancel_write scope jid now io m =
     (let (r, t) = cancel_call io scope jid now (mg_table m);
          p = (case r of Inl e \<Rightarrow> Cancel_Replied (Inl e) | Inr _ \<Rightarrow> Cancel_Written)
      in m\<lparr>mg_table := t, mg_cancellers := mg_cancellers m @ [\<lparr>cn_scope = scope, cn_id = jid, cn_phase = p\<rparr>]\<rparr>)"

definition set_canceller :: "nat \<Rightarrow> cancel_phase \<Rightarrow> job_manager \<Rightarrow> job_manager" where
  "set_canceller k p m = m\<lparr>mg_cancellers := (mg_cancellers m)[k := (mg_cancellers m ! k)\<lparr>cn_phase := p\<rparr>]\<rparr>"

definition cancel_read :: "manager_env \<Rightarrow> nat \<Rightarrow> bool \<Rightarrow> job_manager \<Rightarrow> job_manager" where
  "cancel_read env k io m =
     (if length (mg_cancellers m) \<le> k then m
      else
        let c = mg_cancellers m ! k in
        case cn_phase c of
          Cancel_Written \<Rightarrow>
            (case job_get io (me_jobs env) (cn_scope c) (cn_id c) (mg_table m) of
               Inl e \<Rightarrow> set_canceller k (Cancel_Replied (Inl e)) m
             | Inr job \<Rightarrow> set_canceller k (Cancel_Read job) m)
        | _ \<Rightarrow> m)"

definition cancel_signal :: "nat \<Rightarrow> job_manager \<Rightarrow> job_manager" where
  "cancel_signal k m =
     (if length (mg_cancellers m) \<le> k then m
      else
        let c = mg_cancellers m ! k in
        case cn_phase c of
          Cancel_Read job \<Rightarrow>
            (let m' = set_canceller k (Cancel_Replied (Inr job)) m in
             case mg_active m (cn_scope c, cn_id c) of
               None \<Rightarrow> m'
             | Some token \<Rightarrow> cancel_token token m')
        | _ \<Rightarrow> m)"

definition shutdown_begin :: "job_manager \<Rightarrow> job_manager" where
  "shutdown_begin m = m\<lparr>mg_shutdown := True\<rparr>"

text \<open>The drain interval of \<open>shutdown\<close> elapsed with workers still active.\<close>

definition shutdown_expire :: "job_manager \<Rightarrow> job_manager" where
  "shutdown_expire m =
     (if mg_shutdown m then m\<lparr>mg_tokens := (\<lambda>k. mg_tokens m k \<or> k \<in> ran (mg_active m))\<rparr> else m)"

definition enforce_retention :: "manager_env \<Rightarrow> u64 \<Rightarrow> bool \<Rightarrow> job_manager \<Rightarrow> unit result \<times> job_manager" where
  "enforce_retention env now io m =
     (let s = me_settings env in
      case job_prune io now (ks_retention_secs s) (ks_max_retained s) (ks_max_retained_bytes s) (mg_table m) of
        (Inr _, t) \<Rightarrow> (Inr (), m\<lparr>mg_table := t, mg_healthy := True\<rparr>)
      | (Inl e, t) \<Rightarrow> (Inl e, m\<lparr>mg_table := t, mg_healthy := False\<rparr>))"

text \<open>The period of the retention loop, in seconds.\<close>

definition retention_interval :: "u64 \<Rightarrow> u64" where
  "retention_interval retention_secs = word_clamp (retention_secs div 2) 1 60"

text \<open>Readiness: retention is healthy and the database answers.\<close>

definition is_ready :: "bool \<Rightarrow> int \<Rightarrow> int \<Rightarrow> job_manager \<Rightarrow> bool" where
  "is_ready io page_count page_size m =
     (mg_healthy m
      \<and> (case job_statistics io page_count page_size (mg_table m) of Inl _ \<Rightarrow> False | Inr _ \<Rightarrow> True))"

section \<open>A worker\<close>

datatype permit_choice = Permit_Ready | Pool_Closed | Shutdown_Ready

definition worker_acquire :: "nat \<Rightarrow> permit_choice \<Rightarrow> job_manager \<Rightarrow> job_manager" where
  "worker_acquire i ready m =
     (case ready of
        Permit_Ready \<Rightarrow>
          if 0 < mg_permits m then set_worker i Worker_Permitted (m\<lparr>mg_permits := mg_permits m - 1\<rparr>) else m
      | Pool_Closed \<Rightarrow>
          set_worker i (Worker_Ended (Inl (error_new Internal ''durable job worker pool closed''))) m
      | Shutdown_Ready \<Rightarrow> if mg_shutdown m then set_worker i (Worker_Ended (Inr ())) m else m)"

definition release_worker_permit :: "job_manager \<Rightarrow> job_manager" where
  "release_worker_permit m = m\<lparr>mg_permits := mg_permits m + 1\<rparr>"

definition worker_claim :: "nat \<Rightarrow> job_worker \<Rightarrow> u64 \<Rightarrow> bool \<Rightarrow> job_manager \<Rightarrow> job_manager" where
  "worker_claim i w now io m =
     (case job_claim io (wk_scope w) (wk_id w) now (mg_table m) of
        (Inl e, t) \<Rightarrow> set_worker i (Worker_Ended (Inl e)) (release_worker_permit (m\<lparr>mg_table := t\<rparr>))
      | (Inr claimed, t) \<Rightarrow>
          if claimed then set_worker i Worker_Claimed (m\<lparr>mg_table := t\<rparr>)
          else set_worker i (Worker_Ended (Inr ())) (release_worker_permit (m\<lparr>mg_table := t\<rparr>)))"

definition worker_register :: "nat \<Rightarrow> job_worker \<Rightarrow> job_manager \<Rightarrow> job_manager" where
  "worker_register i w m =
     set_worker i (Worker_Registered (mg_next_token m))
       (m\<lparr>mg_active := (mg_active m)((wk_scope w, wk_id w) \<mapsto> mg_next_token m),
          mg_tokens := (mg_tokens m)(mg_next_token m := False), mg_next_token := Suc (mg_next_token m)\<rparr>)"

definition worker_read :: "manager_env \<Rightarrow> nat \<Rightarrow> job_worker \<Rightarrow> nat \<Rightarrow> bool \<Rightarrow> job_manager \<Rightarrow> job_manager" where
  "worker_read env i w token io m =
     (case job_get io (me_jobs env) (wk_scope w) (wk_id w) (mg_table m) of
        Inl e \<Rightarrow> set_worker i (Worker_Executed token (Inl e)) m
      | Inr job \<Rightarrow>
          set_worker i (Worker_Executing token (ij_request job) 0)
            (if ij_cancel_requested job then cancel_token token m else m))"

definition max_partial_preview_bytes :: nat where
  "max_partial_preview_bytes = 16 * 1024 * 1024"

definition max_partial_preview_base64_chars :: nat where
  "max_partial_preview_base64_chars = (max_partial_preview_bytes + 2) div 3 * 4"

definition content_type :: "output_format \<Rightarrow> string" where
  "content_type f =
     (case f of Output_Format_Png \<Rightarrow> ''image/png'' | Output_Format_Jpeg \<Rightarrow> ''image/jpeg''
      | Output_Format_Webp \<Rightarrow> ''image/webp'')"

definition verified_preview :: "manager_env \<Rightarrow> u8 \<Rightarrow> u8 \<Rightarrow> string \<Rightarrow> partial_preview result" where
  "verified_preview env output_index partial_index b64_json =
     (if max_partial_preview_base64_chars < length b64_json
      then Inl (error_new Input ''partial preview exceeds the in-memory preview limit'')
      else
        and_then (ok_or (error_new Input ''partial preview is not valid base64'') (me_b64_decode env b64_json))
          (\<lambda>bytes.
        and_then (inspect_image (me_images env) bytes
            (default_image_limits\<lparr>il_max_encoded_bytes := 16 * 1024 * 1024\<rparr>)) (\<lambda>metadata.
          Inr \<lparr>pp_bytes = bytes, pp_content_type = content_type (im_format metadata),
               pp_output_index = output_index, pp_partial_index = partial_index\<rparr>)))"

definition store_progress ::
  "string \<Rightarrow> string \<Rightarrow> string \<Rightarrow> u32 \<Rightarrow> u64 \<Rightarrow> bool \<Rightarrow> job_manager \<Rightarrow> job_manager" where
  "store_progress scope jid stage n now io m =
     m\<lparr>mg_table := snd (job_set_progress io scope jid stage n now (mg_table m))\<rparr>"

definition handle_job_event ::
  "manager_env \<Rightarrow> nat \<Rightarrow> job_worker \<Rightarrow> nat \<Rightarrow> image_request \<Rightarrow> u32 \<Rightarrow> provider_event \<Rightarrow> u64 \<Rightarrow> bool
   \<Rightarrow> job_manager \<Rightarrow> job_manager" where
  "handle_job_event env i w token request partials event now io m =
     (let scope = wk_scope w; jid = wk_id w in
      case event of
        Event_Started \<Rightarrow> store_progress scope jid ''provider'' partials now io m
      | Event_Progress _ \<Rightarrow> store_progress scope jid ''provider_progress'' partials now io m
      | Event_Partial_Image index partial_index b64_json \<Rightarrow>
          (let partials' = sat_add partials 1;
               m1 = (case verified_preview env index partial_index b64_json of
                       Inl _ \<Rightarrow> m
                     | Inr preview \<Rightarrow> m\<lparr>mg_partials := (mg_partials m)((scope, jid) \<mapsto> preview)\<rparr>)
           in set_worker i (Worker_Executing token request partials')
                (store_progress scope jid ''partial_image'' partials' now io m1))
      | Event_Completed _ \<Rightarrow> store_progress scope jid ''materializing'' partials now io m)"

definition worker_release :: "nat \<Rightarrow> job_worker \<Rightarrow> nat \<Rightarrow> image_response result \<Rightarrow> job_manager \<Rightarrow> job_manager" where
  "worker_release i w token r m =
     set_worker i (Worker_Released token r)
       (release_worker_permit
         (m\<lparr>mg_active := (mg_active m)((wk_scope w, wk_id w) := None),
            mg_partials := (mg_partials m)((wk_scope w, wk_id w) := None)\<rparr>))"

definition failure_status :: "bool \<Rightarrow> bool \<Rightarrow> job_status" where
  "failure_status shutdown cancelled =
     (if shutdown then Job_Interrupted else if cancelled then Job_Cancelled else Job_Failed)"

text \<open>The result is stored; a result that cannot be stored becomes a failure.\<close>

definition settle_job ::
  "job_codec \<Rightarrow> string \<Rightarrow> string \<Rightarrow> bool \<Rightarrow> bool \<Rightarrow> image_response result \<Rightarrow> u64 \<Rightarrow> bool \<Rightarrow> u64 \<Rightarrow> bool \<Rightarrow> job_table
   \<Rightarrow> unit result \<times> job_table" where
  "settle_job cd scope jid shutdown cancelled r now io now_fail io_fail t =
     (case r of
        Inr response \<Rightarrow>
          (case job_succeed io cd scope jid response now t of
             (Inr _, t') \<Rightarrow> (Inr (), t')
           | (Inl e, t') \<Rightarrow> job_fail io_fail cd scope jid Job_Failed e now_fail t')
      | Inl e \<Rightarrow> job_fail io cd scope jid (failure_status shutdown cancelled) e now t)"

definition worker_settle ::
  "manager_env \<Rightarrow> nat \<Rightarrow> job_worker \<Rightarrow> nat \<Rightarrow> image_response result \<Rightarrow> u64 \<Rightarrow> bool \<Rightarrow> u64 \<Rightarrow> bool \<Rightarrow> job_manager
   \<Rightarrow> job_manager" where
  "worker_settle env i w token r now io now_fail io_fail m =
     (case settle_job (me_jobs env) (wk_scope w) (wk_id w) (mg_shutdown m) (mg_tokens m token) r now io
             now_fail io_fail (mg_table m) of
        (Inl e, t) \<Rightarrow> set_worker i (Worker_Ended (Inl e)) (m\<lparr>mg_table := t\<rparr>)
      | (Inr _, t) \<Rightarrow> set_worker i (Worker_Settled) (m\<lparr>mg_table := t\<rparr>))"

section \<open>Interleavings\<close>

datatype manager_event =
    Ev_Submit string image_request string u64 bool
  | Ev_Submit_Read nat bool
  | Ev_Submit_Drop nat
  | Ev_Cancel string string u64 bool
  | Ev_Cancel_Read nat bool
  | Ev_Cancel_Signal nat
  | Ev_History string string "bool option" "bool option" u64 bool
  | Ev_Retention u64 bool
  | Ev_Shutdown
  | Ev_Drain_Expired
  | Ev_Acquire nat permit_choice
  | Ev_Claim nat u64 bool
  | Ev_Register nat
  | Ev_Read nat bool
  | Ev_Provider nat provider_event u64 bool
  | Ev_Result nat "image_response result"
  | Ev_Release nat
  | Ev_Settle nat u64 bool u64 bool
  | Ev_Finish nat u64 bool

definition on_worker :: "nat \<Rightarrow> (job_worker \<Rightarrow> job_manager \<Rightarrow> job_manager) \<Rightarrow> job_manager \<Rightarrow> job_manager" where
  "on_worker i f m = (if i < length (mg_workers m) then f (mg_workers m ! i) m else m)"

fun manager_step :: "manager_env \<Rightarrow> manager_event \<Rightarrow> job_manager \<Rightarrow> job_manager" where
  "manager_step env (Ev_Submit scope request jid now io) m = submit_write env scope request jid now io m"
| "manager_step env (Ev_Submit_Read k io) m = submit_read env k io m"
| "manager_step env (Ev_Submit_Drop k) m = submit_drop k m"
| "manager_step env (Ev_Cancel scope jid now io) m = cancel_write scope jid now io m"
| "manager_step env (Ev_Cancel_Read k io) m = cancel_read env k io m"
| "manager_step env (Ev_Cancel_Signal k) m = cancel_signal k m"
| "manager_step env (Ev_History scope jid favorite deleted now io) m =
     m\<lparr>mg_table := snd (history_call io scope jid favorite deleted now (mg_table m))\<rparr>"
| "manager_step env (Ev_Retention now io) m = snd (enforce_retention env now io m)"
| "manager_step env Ev_Shutdown m = shutdown_begin m"
| "manager_step env Ev_Drain_Expired m = shutdown_expire m"
| "manager_step env (Ev_Acquire i ready) m = on_worker i (\<lambda>w m.
     case wk_phase w of Worker_Scheduled \<Rightarrow> worker_acquire i ready m | _ \<Rightarrow> m) m"
| "manager_step env (Ev_Claim i now io) m = on_worker i (\<lambda>w m.
     case wk_phase w of Worker_Permitted \<Rightarrow> worker_claim i w now io m | _ \<Rightarrow> m) m"
| "manager_step env (Ev_Register i) m = on_worker i (\<lambda>w m.
     case wk_phase w of Worker_Claimed \<Rightarrow> worker_register i w m | _ \<Rightarrow> m) m"
| "manager_step env (Ev_Read i io) m = on_worker i (\<lambda>w m.
     case wk_phase w of Worker_Registered token \<Rightarrow> worker_read env i w token io m | _ \<Rightarrow> m) m"
| "manager_step env (Ev_Provider i event now io) m = on_worker i (\<lambda>w m.
     case wk_phase w of
       Worker_Executing token request partials \<Rightarrow>
         handle_job_event env i w token request partials event now io m
     | _ \<Rightarrow> m) m"
| "manager_step env (Ev_Result i r) m = on_worker i (\<lambda>w m.
     case wk_phase w of Worker_Executing token _ _ \<Rightarrow> set_worker i (Worker_Executed token r) m | _ \<Rightarrow> m) m"
| "manager_step env (Ev_Release i) m = on_worker i (\<lambda>w m.
     case wk_phase w of Worker_Executed token r \<Rightarrow> worker_release i w token r m | _ \<Rightarrow> m) m"
| "manager_step env (Ev_Settle i now io now_fail io_fail) m = on_worker i (\<lambda>w m.
     case wk_phase w of
       Worker_Released token r \<Rightarrow> worker_settle env i w token r now io now_fail io_fail m
     | _ \<Rightarrow> m) m"
| "manager_step env (Ev_Finish i now io) m = on_worker i (\<lambda>w m.
     case wk_phase w of
       Worker_Settled \<Rightarrow>
         (case enforce_retention env now io m of (r, m') \<Rightarrow> set_worker i (Worker_Ended r) m')
     | _ \<Rightarrow> m) m"

definition manager_run :: "manager_env \<Rightarrow> manager_event list \<Rightarrow> job_manager \<Rightarrow> job_manager" where
  "manager_run env evs m = fold (manager_step env) evs m"

lemma manager_run_simps [simp]:
  "manager_run env [] m = m"
  "manager_run env (e # es) m = manager_run env es (manager_step env e m)"
  by (simp_all add: manager_run_def)

lemma manager_run_append: "manager_run env (es @ es') m = manager_run env es' (manager_run env es m)"
  by (simp add: manager_run_def)

end
