(* ===== verification/Job_Manager_Properties.thy ===== *)
theory Job_Manager_Properties
  imports Job_Manager Job_Queries
begin

text \<open>
  The invariant of the manager of the durable queue under every interleaving of its tasks, as long as
  identifiers are never given twice: one task per job, a permit for every worker between acquisition and
  release, and no execution that an acknowledged cancellation has not reached. Theory \<open>Job_Queue\<close> draws
  the guarantees from it.
\<close>

section \<open>Store calls and one job\<close>

definition all_running :: "string \<Rightarrow> string \<Rightarrow> job_table \<Rightarrow> bool" where
  "all_running s i t = (\<forall>r \<in> set t. owned_by s i r \<longrightarrow> jr_status r = ''running'')"

lemma update_all:
  assumes "\<And>r. r \<in> set t \<Longrightarrow> p r \<Longrightarrow> Q (f r)" and "\<And>r. r \<in> set t \<Longrightarrow> \<not> p r \<Longrightarrow> Q r"
  shows "\<forall>r \<in> set (snd (sql_update p f t)). Q r"
  using assms by (auto simp: sql_update_def)

lemma running_checked: "(\<And>a. all_running s i (snd (f a t))) \<Longrightarrow> all_running s i t \<Longrightarrow> all_running s i (snd (checked r f t))"
  by (cases r) auto

lemma running_db_call: "all_running s i (snd (f t)) \<Longrightarrow> all_running s i t \<Longrightarrow> all_running s i (snd (db_call io e f t))"
  by (simp add: db_call_def)

lemma running_update:
  assumes "all_running s i t"
    and "\<And>r. p r \<Longrightarrow> jr_id (f r) = jr_id r \<and> jr_auth_scope (f r) = jr_auth_scope r"
    and "\<And>r. p r \<Longrightarrow> owned_by s i r \<Longrightarrow> jr_status r = ''running'' \<Longrightarrow> jr_status (f r) = ''running''"
  shows "all_running s i (snd (sql_update p f t))"
  using assms by (auto simp: all_running_def sql_update_def owned_by_def)

lemma running_claim: "all_running s i t \<Longrightarrow> all_running s i (snd (job_claim io scope jid now t))"
  unfolding job_claim_def
  by (intro running_checked running_db_call) (auto simp: case_prod_beta Let_def intro!: running_update)

lemma running_progress: "all_running s i t \<Longrightarrow> all_running s i (snd (job_set_progress io scope jid stage n now t))"
  unfolding job_set_progress_def
  by (intro running_checked running_db_call) (auto simp: case_prod_beta Let_def intro!: running_update)

lemma running_history: "all_running s i t \<Longrightarrow> all_running s i (snd (history_call io scope jid favorite deleted now t))"
  unfolding history_call_def
  by (intro running_checked running_db_call) (auto simp: case_prod_beta Let_def snd_if_pair intro!: running_update)

lemma find_owned_all:
  assumes "keys_ok t" "find (owned_by s i) t = Some r" "P r"
  shows "\<forall>r' \<in> set t. owned_by s i r' \<longrightarrow> P r'"
  using find_owned_unique [OF assms(1,2)] assms(3) by blast

lemma running_cancel_row:
  assumes "keys_ok t" "all_running s i t"
  shows "all_running s i (snd (cancel_row scope jid now t))"
proof (cases "find (owned_by scope jid) t")
  case (Some r)
  have same: "\<forall>r' \<in> set t. owned_by scope jid r' \<longrightarrow> jr_status r' = jr_status r"
    by (rule find_owned_all [OF assms(1) Some]) simp
  then have "\<forall>r' \<in> set t. owned_by scope jid r' \<and> owned_by s i r' \<longrightarrow> jr_status r = ''running''"
    using assms(2) by (auto simp: all_running_def)
  with assms(2) show ?thesis
    by (auto simp: cancel_row_def Some all_running_def sql_update_def owned_by_def)
qed (simp add: cancel_row_def assms)

lemma running_cancel: "keys_ok t \<Longrightarrow> all_running s i t \<Longrightarrow> all_running s i (snd (cancel_call io scope jid now t))"
  unfolding cancel_call_def
  by (intro running_checked running_db_call) (auto intro: running_cancel_row)

lemma running_prune:
  assumes "keys_ok t" "all_running s i t"
  shows "all_running s i (snd (job_prune io now retention max_retained max_bytes t))"
proof -
  have "all_running s i (snd (prune_rows cutoff m b t))" for cutoff m b
    using prune_rows_filter [OF assms(1), of cutoff m b] assms(2) by (auto simp: all_running_def)
  then show ?thesis unfolding job_prune_def
    by (intro running_checked running_db_call) (simp_all add: case_prod_beta Let_def assms)
qed

lemma running_create:
  assumes "all_running s i t" "jid \<noteq> i"
  shows "all_running s i (snd (create_call io cd scope jid request now pending bytes t))"
proof (cases "prepare_job cd scope jid request now")
  case (Inr nj)
  then show ?thesis using assms prepared_row(3) [OF Inr]
    by (auto simp: create_call_def db_call_def insert_job_def all_running_def queued_row_def owned_by_def
      split: option.split)
qed (simp add: create_call_def assms)

lemma running_finish:
  "all_running s i t \<Longrightarrow> jid \<noteq> i \<Longrightarrow> all_running s i (snd (job_finish io scope jid status response error now t))"
  unfolding job_finish_def
  by (intro running_checked running_db_call)
    (auto simp: case_prod_beta Let_def snd_if_pair owned_by_def intro!: running_update)

lemma running_succeed:
  "all_running s i t \<Longrightarrow> jid \<noteq> i \<Longrightarrow> all_running s i (snd (job_succeed io cd scope jid response now t))"
  unfolding job_succeed_def by (intro running_checked running_finish)

lemma running_fail:
  "all_running s i t \<Longrightarrow> jid \<noteq> i \<Longrightarrow> all_running s i (snd (job_fail io cd scope jid status e now t))"
  unfolding job_fail_def by (intro running_checked running_finish)

lemma running_settle:
  "all_running s i t \<Longrightarrow> jid \<noteq> i \<Longrightarrow>
   all_running s i (snd (settle_job cd scope jid shutdown cancelled r now io now' io' t))"
  using running_succeed [of s i t jid io cd scope _ now] running_fail
  by (auto simp: settle_job_def split: sum.split prod.split) (metis snd_conv)+

lemma claimed_all_running:
  assumes "keys_ok t" "job_claim io s i now t = (Inr True, t')"
  shows "all_running s i t'"
proof -
  have "fst (job_claim io s i now t) = Inr True" using assms(2) by simp
  from claim_outcome [OF this] obtain r where r: "r \<in> set t" "owned_by s i r" "jr_status r = ''queued''"
    "\<not> jr_cancel_requested r" by blast
  have "\<forall>r' \<in> set t. owned_by s i r' \<longrightarrow> jr_status r' = ''queued'' \<and> \<not> jr_cancel_requested r'"
    using find_owned_all [OF assms(1), of s i r "\<lambda>r. jr_status r = ''queued'' \<and> \<not> jr_cancel_requested r"]
      find_owned [OF assms(1) r(1)] r by (simp add: owned_by_def)
  moreover obtain n where "t' = snd (sql_update
      (\<lambda>r. owned_by s i r \<and> jr_status r = ''queued'' \<and> \<not> jr_cancel_requested r)
      (\<lambda>r. r\<lparr>jr_status := ''running'', jr_started := Some n, jr_updated := n,
             jr_progress_stage := Some ''starting''\<rparr>) t)"
    using assms(2) by (cases "validate_auth_scope s"; cases "to_i64 now"; cases io)
      (auto simp: job_claim_def db_call_def case_prod_beta Let_def)
  ultimately show ?thesis unfolding all_running_def
    by (simp only:) (rule update_all, simp, metis)
qed

text \<open>A job for which a cancellation was written cannot be claimed any more, and shows the request while
  it runs.\<close>

definition sealed_row :: "job_row \<Rightarrow> bool" where
  "sealed_row r = (jr_status r \<noteq> ''queued'' \<and> (jr_status r = ''running'' \<longrightarrow> jr_cancel_requested r))"

definition sealed :: "string \<Rightarrow> string \<Rightarrow> job_table \<Rightarrow> bool" where
  "sealed s i t = (\<forall>r \<in> set t. owned_by s i r \<longrightarrow> sealed_row r)"

lemma row_move_sealed: "row_move cd r r' \<Longrightarrow> sealed_row r \<Longrightarrow> sealed_row r'"
  by (induction rule: row_move.induct) (auto simp: sealed_row_def outcome_ok_def split: if_splits)

lemma table_move_sealed:
  assumes "table_move cd pending bytes new t t'" "i \<notin> new" "sealed s i t"
  shows "sealed s i t'"
  using assms
proof (induction rule: table_move.induct)
  case (table_advance t t')
  show ?case unfolding sealed_def
  proof (intro ballI impI)
    fix r' assume r': "r' \<in> set t'" "owned_by s i r'"
    obtain r where r: "r \<in> set t" "row_move cd r r'"
      by (rule bexE [OF advance_source [OF table_advance(1) r'(1)]])
    then have "owned_by s i r" using row_move_identity [OF r(2)] r'(2) by (simp add: owned_by_def)
    then show "sealed_row r'" using table_advance(3) r row_move_sealed unfolding sealed_def by blast
  qed
next
  case (table_insert jid scope request now nj t)
  then show ?case using prepared_row(3) [OF table_insert(2)]
    by (auto simp: sealed_def queued_row_def owned_by_def)
qed (simp add: sealed_def)

lemma cancel_seals:
  assumes "keys_ok t" "cancel_call io s i now t = (Inr u, t')"
  shows "sealed s i t' \<and> i \<in> jr_id ` set t"
proof -
  obtain n where t': "cancel_row s i n t = (Inr u, t')"
    using assms(2) by (auto simp: cancel_call_def checked_def db_call_def split: sum.splits if_splits)
  then obtain r where r: "find (owned_by s i) t = Some r" by (cases "find (owned_by s i) t") (auto simp: cancel_row_def)
  have same: "\<forall>r' \<in> set t. owned_by s i r' \<longrightarrow> jr_status r' = st" if "jr_status r = st" for st
    by (rule find_owned_all [OF assms(1) r]) (rule that)
  have "i \<in> jr_id ` set t" using find_holds [OF r] by (auto simp: owned_by_def)
  moreover have "sealed s i t'"
  proof (cases "jr_status r = ''queued''")
    case True
    have "t' = snd (sql_update (owned_by s i) (\<lambda>r. r\<lparr>jr_status := ''cancelled'', jr_cancel_requested := True,
        jr_updated := n, jr_completed := Some n, jr_progress_stage := Some ''completed''\<rparr>) t)"
      using t' True by (simp add: cancel_row_def r)
    then show ?thesis unfolding sealed_def
      by (simp only:) (rule update_all, simp_all add: sealed_row_def)
  next
    case queued: False
    show ?thesis
    proof (cases "jr_status r = ''running''")
      case True
      have "t' = snd (sql_update (owned_by s i) (\<lambda>r. r\<lparr>jr_cancel_requested := True, jr_updated := n\<rparr>) t)"
        using t' True by (simp add: cancel_row_def r)
      then show ?thesis unfolding sealed_def
        by (simp only:) (rule update_all, simp_all add: sealed_row_def True same [rule_format])
    next
      case False
      have "\<forall>r' \<in> set t. owned_by s i r' \<longrightarrow> sealed_row r'"
        by (rule find_owned_all [OF assms(1) r]) (simp add: sealed_row_def queued False)
      then show ?thesis using t' queued False by (simp add: cancel_row_def r sealed_def)
    qed
  qed
  ultimately show ?thesis by blast
qed

section \<open>The invariant of the manager\<close>

definition wk_key :: "job_worker \<Rightarrow> string \<times> string" where
  "wk_key w = (wk_scope w, wk_id w)"

lemma wk_key_phase [simp]: "wk_key (w\<lparr>wk_phase := p\<rparr>) = wk_key w"
  by (simp add: wk_key_def)

definition registered :: "job_manager \<Rightarrow> job_worker \<Rightarrow> nat \<Rightarrow> bool" where
  "registered m w token = (mg_active m (wk_key w) = Some token \<and> token < mg_next_token m)"

definition worker_ok :: "job_manager \<Rightarrow> job_worker \<Rightarrow> bool" where
  "worker_ok m w =
     (let running = all_running (wk_scope w) (wk_id w) (mg_table m) in
      case wk_phase w of
        Worker_Claimed \<Rightarrow> running
      | Worker_Registered token \<Rightarrow> running \<and> registered m w token
      | Worker_Executing token _ _ \<Rightarrow> running \<and> registered m w token
      | Worker_Executed token _ \<Rightarrow> running \<and> registered m w token
      | Worker_Released token _ \<Rightarrow> running
      | _ \<Rightarrow> True)"

definition holds_permit :: "worker_phase \<Rightarrow> bool" where
  "holds_permit p =
     (case p of
        Worker_Permitted \<Rightarrow> True | Worker_Claimed \<Rightarrow> True | Worker_Registered _ \<Rightarrow> True
      | Worker_Executing _ _ _ \<Rightarrow> True | Worker_Executed _ _ \<Rightarrow> True | _ \<Rightarrow> False)"

definition pending_submission :: "job_submitter \<Rightarrow> bool" where
  "pending_submission s = (case sw_phase s of Submit_Written lookup_id created \<Rightarrow> created | _ \<Rightarrow> False)"

definition task_ids :: "job_manager \<Rightarrow> string list" where
  "task_ids m = map wk_id (mg_workers m) @ map sw_id (filter pending_submission (mg_submitters m))"

text \<open>The cancellation of a canceller has taken hold.\<close>

definition cancel_requested_by :: "job_canceller \<Rightarrow> bool" where
  "cancel_requested_by c =
     (case cn_phase c of Cancel_Replied (Inl _) \<Rightarrow> False | _ \<Rightarrow> True)"

definition cancel_acknowledged :: "job_canceller \<Rightarrow> bool" where
  "cancel_acknowledged c = (case cn_phase c of Cancel_Replied (Inr _) \<Rightarrow> True | _ \<Rightarrow> False)"

definition uncancelled_execution :: "job_manager \<Rightarrow> job_worker \<Rightarrow> bool" where
  "uncancelled_execution m w =
     (case wk_phase w of Worker_Executing token _ _ \<Rightarrow> \<not> mg_tokens m token | _ \<Rightarrow> False)"

definition canceller_ok :: "string set \<Rightarrow> job_manager \<Rightarrow> job_canceller \<Rightarrow> bool" where
  "canceller_ok used m c =
     ((cancel_requested_by c \<longrightarrow> cn_id c \<in> used \<and> sealed (cn_scope c) (cn_id c) (mg_table m))
      \<and> (cancel_acknowledged c \<longrightarrow>
           (\<forall>w \<in> set (mg_workers m). wk_key w = (cn_scope c, cn_id c) \<longrightarrow> \<not> uncancelled_execution m w)))"

definition manager_inv :: "string set \<Rightarrow> nat \<Rightarrow> job_manager \<Rightarrow> bool" where
  "manager_inv used running m =
     (keys_ok (mg_table m)
      \<and> jr_id ` set (mg_table m) \<subseteq> used \<and> set (task_ids m) \<subseteq> used \<and> distinct (task_ids m)
      \<and> (\<forall>w \<in> set (mg_workers m). worker_ok m w)
      \<and> (\<forall>c \<in> set (mg_cancellers m). canceller_ok used m c)
      \<and> mg_permits m + length (filter (holds_permit \<circ> wk_phase) (mg_workers m)) = running)"

lemma manager_invI:
  assumes "keys_ok (mg_table m)" and "jr_id ` set (mg_table m) \<subseteq> used" and "set (task_ids m) \<subseteq> used"
    and "distinct (task_ids m)" and "\<And>w. w \<in> set (mg_workers m) \<Longrightarrow> worker_ok m w"
    and "\<And>c. c \<in> set (mg_cancellers m) \<Longrightarrow> canceller_ok used m c"
    and "mg_permits m + length (filter (holds_permit \<circ> wk_phase) (mg_workers m)) = running"
  shows "manager_inv used running m"
  using assms by (simp add: manager_inv_def)

lemma manager_invD:
  assumes "manager_inv used running m"
  shows "keys_ok (mg_table m)" and "jr_id ` set (mg_table m) \<subseteq> used" and "set (task_ids m) \<subseteq> used"
    and "distinct (task_ids m)" and "w \<in> set (mg_workers m) \<Longrightarrow> worker_ok m w"
    and "c \<in> set (mg_cancellers m) \<Longrightarrow> canceller_ok used m c"
    and "mg_permits m + length (filter (holds_permit \<circ> wk_phase) (mg_workers m)) = running"
  using assms unfolding manager_inv_def by simp_all

text \<open>The identifier an event brings in.\<close>

fun event_ids :: "manager_event \<Rightarrow> string set" where
  "event_ids (Ev_Submit scope request jid now io) = {jid}"
| "event_ids _ = {}"

text \<open>A change of the table and nothing else.\<close>

lemma worker_ok_table:
  assumes "worker_ok m w" "all_running (wk_scope w) (wk_id w) (mg_table m) \<Longrightarrow> all_running (wk_scope w) (wk_id w) t"
  shows "worker_ok (m\<lparr>mg_table := t\<rparr>) w"
  using assms by (auto simp: worker_ok_def registered_def Let_def split: worker_phase.splits)

lemma uncancelled_tokens: "mg_tokens m' = mg_tokens m \<Longrightarrow> uncancelled_execution m' w = uncancelled_execution m w"
  by (simp add: uncancelled_execution_def split: worker_phase.split)

lemma uncancelled_table [simp]: "uncancelled_execution (m\<lparr>mg_table := t\<rparr>) w = uncancelled_execution m w"
  by (rule uncancelled_tokens) simp

lemma canceller_ok_table:
  assumes "canceller_ok used m c" "table_move cd pending bytes new (mg_table m) t" "new \<inter> used = {}"
  shows "canceller_ok (used \<union> new) (m\<lparr>mg_table := t\<rparr>) c"
  using assms table_move_sealed [OF assms(2), of "cn_id c" "cn_scope c"]
  by (auto simp: canceller_ok_def)

lemma table_move_ids:
  "table_move cd pending bytes new t t' \<Longrightarrow> jr_id ` set t' \<subseteq> jr_id ` set t \<union> new"
proof (induction rule: table_move.induct)
  case (table_advance t t')
  then have "jr_id ` set t' = jr_id ` set t" by (metis advance_map set_map)
  then show ?case by blast
next
  case (table_insert jid scope request now nj t)
  then show ?case using prepared_row(3) [OF table_insert(2)] by (auto simp: queued_row_def)
qed auto

lemma inv_table:
  assumes "manager_inv used running m" "table_move cd pending bytes new (mg_table m) t" "new \<inter> used = {}"
    and "\<And>s i. all_running s i (mg_table m) \<Longrightarrow> i \<in> used \<Longrightarrow> all_running s i t"
  shows "manager_inv (used \<union> new) running (m\<lparr>mg_table := t\<rparr>)"
proof -
  note inv = manager_invD [OF assms(1)]
  show ?thesis
  proof (rule manager_invI)
    show "keys_ok (mg_table (m\<lparr>mg_table := t\<rparr>))" using table_move_keys [OF assms(2) inv(1)] by simp
    show "jr_id ` set (mg_table (m\<lparr>mg_table := t\<rparr>)) \<subseteq> used \<union> new"
      using order_trans [OF table_move_ids [OF assms(2)] Un_mono [OF inv(2) subset_refl]] by simp
    fix w assume w: "w \<in> set (mg_workers (m\<lparr>mg_table := t\<rparr>))"
    then have "wk_id w \<in> used" using inv(3) by (auto simp: task_ids_def)
    then show "worker_ok (m\<lparr>mg_table := t\<rparr>) w" using inv(5) w by (intro worker_ok_table assms(4)) auto
  next
    fix c assume "c \<in> set (mg_cancellers (m\<lparr>mg_table := t\<rparr>))"
    then show "canceller_ok (used \<union> new) (m\<lparr>mg_table := t\<rparr>) c"
      using inv(6) by (intro canceller_ok_table [OF _ assms(2,3)]) simp
  qed (use inv(3,4,7) in \<open>auto simp: task_ids_def\<close>)
qed

text \<open>A worker goes to another phase.\<close>

lemma set_worker_fields [simp]:
  "mg_table (set_worker i p m) = mg_table m" "mg_permits (set_worker i p m) = mg_permits m"
  "mg_active (set_worker i p m) = mg_active m" "mg_tokens (set_worker i p m) = mg_tokens m"
  "mg_next_token (set_worker i p m) = mg_next_token m" "mg_shutdown (set_worker i p m) = mg_shutdown m"
  "mg_submitters (set_worker i p m) = mg_submitters m" "mg_cancellers (set_worker i p m) = mg_cancellers m"
  "length (mg_workers (set_worker i p m)) = length (mg_workers m)"
  by (simp_all add: set_worker_def)

lemma map_update_same: "i < length xs \<Longrightarrow> f v = f (xs ! i) \<Longrightarrow> map f (xs[i := v]) = map f xs"
  by (simp add: map_update) (metis list_update_id nth_map)

lemma task_ids_set_worker [simp]: "i < length (mg_workers m) \<Longrightarrow> task_ids (set_worker i p m) = task_ids m"
  by (simp add: task_ids_def set_worker_def map_update_same)

lemma filter_length_update:
  "i < length xs \<Longrightarrow> length (filter p (xs[i := v])) + (if p (xs ! i) then 1 else 0)
   = length (filter p xs) + (if p v then 1 else 0)"
proof (induction xs arbitrary: i)
  case (Cons x xs)
  then show ?case
  proof (cases i)
    case (Suc k)
    then show ?thesis using Cons.IH [of k] Cons.prems by simp
  qed simp
qed simp

lemma in_set_update: "y \<in> set (xs[i := v]) \<Longrightarrow> i < length xs \<Longrightarrow> y = v \<or> (\<exists>j < length xs. j \<noteq> i \<and> y = xs ! j)"
  by (auto simp: in_set_conv_nth nth_list_update split: if_splits)

lemma worker_ids_distinct:
  assumes "distinct (task_ids m)" "i < length (mg_workers m)" "j < length (mg_workers m)" "i \<noteq> j"
  shows "wk_id (mg_workers m ! i) \<noteq> wk_id (mg_workers m ! j)"
proof -
  have "distinct (map wk_id (mg_workers m))" using assms(1) by (simp add: task_ids_def)
  with assms(2-4) show ?thesis by (simp add: distinct_conv_nth)
qed

lemma moves_keys: "(table_move cd pending bytes {})\<^sup>*\<^sup>* t t' \<Longrightarrow> keys_ok t \<Longrightarrow> keys_ok t'"
  by (induction rule: rtranclp_induct) (auto intro: table_move_keys)

lemma moves_ids: "(table_move cd pending bytes {})\<^sup>*\<^sup>* t t' \<Longrightarrow> jr_id ` set t' \<subseteq> jr_id ` set t"
proof (induction rule: rtranclp_induct)
  case (step t1 t2)
  from table_move_ids [OF step(2)] step(3) show ?case by simp
qed simp

lemma moves_sealed: "(table_move cd pending bytes {})\<^sup>*\<^sup>* t t' \<Longrightarrow> sealed s i t \<Longrightarrow> sealed s i t'"
  by (induction rule: rtranclp_induct) (auto intro: table_move_sealed)

definition worker_at :: "job_manager \<Rightarrow> nat \<Rightarrow> job_worker \<Rightarrow> bool" where
  "worker_at m i w = (i < length (mg_workers m) \<and> mg_workers m ! i = w)"

lemma inv_worker:
  assumes inv: "manager_inv used running m" and at: "worker_at m i w"
    and ws: "mg_workers m' = (mg_workers m)[i := w\<lparr>wk_phase := p\<rparr>]"
      "mg_submitters m' = mg_submitters m" "mg_cancellers m' = mg_cancellers m"
    and table: "(table_move cd pending bytes {})\<^sup>*\<^sup>* (mg_table m) (mg_table m')"
    and kept: "\<And>s j. all_running s j (mg_table m) \<Longrightarrow> j \<noteq> wk_id w \<Longrightarrow> all_running s j (mg_table m')"
    and active: "\<And>k. k \<noteq> wk_key w \<Longrightarrow> mg_active m' k = mg_active m k"
    and next_token: "mg_next_token m \<le> mg_next_token m'"
    and tokens: "\<And>k. k < mg_next_token m \<Longrightarrow> mg_tokens m k \<Longrightarrow> mg_tokens m' k"
    and ok: "worker_ok m' (w\<lparr>wk_phase := p\<rparr>)"
    and acknowledged: "\<And>c. c \<in> set (mg_cancellers m) \<Longrightarrow> cancel_acknowledged c \<Longrightarrow>
      wk_key w = (cn_scope c, cn_id c) \<Longrightarrow> \<not> uncancelled_execution m' (w\<lparr>wk_phase := p\<rparr>)"
    and permits: "mg_permits m' + (if holds_permit p then 1 else 0)
      = mg_permits m + (if holds_permit (wk_phase w) then 1 else 0)"
  shows "manager_inv used running m'"
proof -
  note D = manager_invD [OF inv]
  have i: "i < length (mg_workers m)" "mg_workers m ! i = w" using at by (simp_all add: worker_at_def)
  have tasks: "task_ids m' = task_ids m" using i by (simp add: task_ids_def ws map_update_same)
  have other: "worker_ok m' v \<and> (uncancelled_execution m' v \<longrightarrow> uncancelled_execution m v)"
    if j: "j < length (mg_workers m)" "j \<noteq> i" "v = mg_workers m ! j" for j v
  proof -
    have ok: "worker_ok m v" using j by (intro D(5)) simp
    have ids: "wk_id v \<noteq> wk_id w" using worker_ids_distinct [OF D(4) j(1) i(1)] j i by simp
    then have "mg_active m' (wk_key v) = mg_active m (wk_key v)" by (intro active) (simp add: wk_key_def)
    then show ?thesis
      using ok kept [OF _ ids] next_token tokens
      by (cases "wk_phase v") (auto simp: worker_ok_def Let_def registered_def uncancelled_execution_def)
  qed
  show ?thesis
  proof (rule manager_invI)
    show "keys_ok (mg_table m')" by (rule moves_keys [OF table D(1)])
    show "jr_id ` set (mg_table m') \<subseteq> used" by (rule order_trans [OF moves_ids [OF table] D(2)])
    show "set (task_ids m') \<subseteq> used" "distinct (task_ids m')" using D(3,4) by (simp_all add: tasks)
    show "mg_permits m' + length (filter (holds_permit \<circ> wk_phase) (mg_workers m')) = running"
      using D(7) permits filter_length_update [OF i(1), of "holds_permit \<circ> wk_phase" "w\<lparr>wk_phase := p\<rparr>"] i(2)
      by (simp add: ws split: if_splits)
  next
    fix v assume "v \<in> set (mg_workers m')"
    from in_set_update [OF this [unfolded ws] i(1)] show "worker_ok m' v" using ok other by blast
  next
    fix c assume "c \<in> set (mg_cancellers m')"
    then have c: "c \<in> set (mg_cancellers m)" by (simp add: ws)
    note old = D(6) [OF this]
    have "\<not> uncancelled_execution m' v"
      if v: "v \<in> set (mg_workers m')" "wk_key v = (cn_scope c, cn_id c)" and ack: "cancel_acknowledged c" for v
    proof -
      from in_set_update [OF v(1) [unfolded ws] i(1)] consider "v = w\<lparr>wk_phase := p\<rparr>"
        | j where "j < length (mg_workers m)" "j \<noteq> i" "v = mg_workers m ! j" by blast
      then show ?thesis
      proof cases
        case 1
        then show ?thesis using acknowledged [OF c ack] v(2) by (simp add: wk_key_def)
      next
        case 2
        then show ?thesis using other [OF 2] old v(2) ack by (auto simp: canceller_ok_def)
      qed
    qed
    moreover have "cn_id c \<in> used \<and> sealed (cn_scope c) (cn_id c) (mg_table m')" if "cancel_requested_by c"
      using old that moves_sealed [OF table] by (simp add: canceller_ok_def)
    ultimately show "canceller_ok used m' c" by (simp add: canceller_ok_def)
  qed
qed

text \<open>A worker goes to another phase and nothing else changes but permits.\<close>

lemma inv_phase:
  assumes inv: "manager_inv used running m" and at: "worker_at m i w"
    and ok: "worker_ok m (w\<lparr>wk_phase := p\<rparr>)" and "\<not> uncancelled_execution m (w\<lparr>wk_phase := p\<rparr>)"
    and "n + (if holds_permit p then 1 else 0) = mg_permits m + (if holds_permit (wk_phase w) then 1 else 0)"
    and m': "m' = set_worker i p (m\<lparr>mg_permits := n\<rparr>)"
  shows "manager_inv used running m'"
proof (rule inv_worker [OF inv at, where p = p])
  show "worker_ok m' (w\<lparr>wk_phase := p\<rparr>)"
    using ok by (cases p) (simp_all add: m' worker_ok_def registered_def Let_def)
  show "\<not> uncancelled_execution m' (w\<lparr>wk_phase := p\<rparr>)"
    using assms(4) by (cases p) (simp_all add: m' uncancelled_execution_def)
qed (use assms in \<open>auto simp: set_worker_def worker_at_def\<close>)

section \<open>Every event keeps the invariant\<close>

lemma worker_at_nth: "i < length (mg_workers m) \<Longrightarrow> worker_at m i (mg_workers m ! i)"
  by (simp add: worker_at_def)

lemma worker_at_ok: "manager_inv used running m \<Longrightarrow> worker_at m i w \<Longrightarrow> worker_ok m w"
  by (rule manager_invD(5)) (auto simp: worker_at_def)

lemmas phase_simps = worker_ok_def registered_def Let_def holds_permit_def uncancelled_execution_def

lemma inv_acquire:
  assumes "manager_inv used running m" "worker_at m i w" "wk_phase w = Worker_Scheduled"
  shows "manager_inv used running (worker_acquire i ready m)"
proof (cases ready)
  case Permit_Ready
  show ?thesis
  proof (cases "0 < mg_permits m")
    case True
    then show ?thesis using assms
      by (intro inv_phase [OF assms(1,2), where p = Worker_Permitted and n = "mg_permits m - 1"])
        (simp_all add: phase_simps worker_acquire_def Permit_Ready)
  qed (simp add: worker_acquire_def Permit_Ready assms)
next
  case Pool_Closed
  show ?thesis using assms
    by (intro inv_phase [OF assms(1,2), where n = "mg_permits m"
          and p = "Worker_Ended (Inl (error_new Internal ''durable job worker pool closed''))"])
      (simp_all add: phase_simps worker_acquire_def Pool_Closed)
next
  case Shutdown_Ready
  show ?thesis
  proof (cases "mg_shutdown m")
    case True
    then show ?thesis using assms
      by (intro inv_phase [OF assms(1,2), where p = "Worker_Ended (Inr ())" and n = "mg_permits m"])
        (simp_all add: phase_simps worker_acquire_def Shutdown_Ready)
  qed (simp add: worker_acquire_def Shutdown_Ready assms)
qed

lemma set_worker_at:
  "worker_at m i w \<Longrightarrow> mg_workers m' = mg_workers m \<Longrightarrow>
   mg_workers (set_worker i p m') = (mg_workers m)[i := w\<lparr>wk_phase := p\<rparr>]"
  by (simp add: set_worker_def worker_at_def)

lemma inv_claim:
  assumes inv: "manager_inv used running m" and at: "worker_at m i w" and phase: "wk_phase w = Worker_Permitted"
  shows "manager_inv used running (worker_claim i w now io m)"
proof -
  obtain r t where r: "job_claim io (wk_scope w) (wk_id w) now (mg_table m) = (r, t)" by fastforce
  let ?p = "case r of Inl e \<Rightarrow> Worker_Ended (Inl e) | Inr c \<Rightarrow> if c then Worker_Claimed else Worker_Ended (Inr ())"
  have m': "worker_claim i w now io m
      = set_worker i ?p (m\<lparr>mg_table := t, mg_permits := mg_permits m + (if r = Inr True then 0 else 1)\<rparr>)"
    by (auto simp: worker_claim_def r release_worker_permit_def split: sum.split)
  have move: "(table_move cd 0 0 {})\<^sup>*\<^sup>* (mg_table m) t" for cd
    using claim_moves [of cd 0 0 "{}" "mg_table m" io "wk_scope w" "wk_id w" now] r by auto
  have claimed: "all_running (wk_scope w) (wk_id w) t" if "r = Inr True"
    using claimed_all_running [OF manager_invD(1) [OF inv]] r that by blast
  show ?thesis unfolding m'
    by (rule inv_worker [OF inv at set_worker_at [OF at], where p = ?p])
      (use move running_claim [of _ _ "mg_table m" io "wk_scope w" "wk_id w" now] r claimed phase in
        \<open>auto simp: phase_simps split: sum.split\<close>)
qed

lemma inv_register:
  assumes inv: "manager_inv used running m" and at: "worker_at m i w" and phase: "wk_phase w = Worker_Claimed"
  shows "manager_inv used running (worker_register i w m)"
proof -
  have "all_running (wk_scope w) (wk_id w) (mg_table m)"
    using worker_at_ok [OF inv at] phase by (simp add: worker_ok_def)
  then show ?thesis unfolding worker_register_def
    by (intro inv_worker [OF inv at set_worker_at [OF at], where p = "Worker_Registered (mg_next_token m)"
          and cd = undefined and pending = 0 and bytes = 0])
      (simp_all add: phase_simps phase wk_key_def)
qed

lemma inv_result:
  assumes inv: "manager_inv used running m" and at: "worker_at m i w"
    and phase: "wk_phase w = Worker_Executing token request partials"
  shows "manager_inv used running (set_worker i (Worker_Executed token r) m)"
  by (rule inv_phase [OF inv at, where p = "Worker_Executed token r" and n = "mg_permits m"])
    (use worker_at_ok [OF inv at] phase in \<open>simp_all add: phase_simps\<close>)

lemma inv_release:
  assumes inv: "manager_inv used running m" and at: "worker_at m i w" and phase: "wk_phase w = Worker_Executed token r"
  shows "manager_inv used running (worker_release i w token r m)"
proof -
  have "all_running (wk_scope w) (wk_id w) (mg_table m)"
    using worker_at_ok [OF inv at] phase by (simp add: worker_ok_def Let_def)
  then show ?thesis unfolding worker_release_def release_worker_permit_def
    by (intro inv_worker [OF inv at set_worker_at [OF at], where p = "Worker_Released token r"
          and cd = undefined and pending = 0 and bytes = 0])
      (simp_all add: phase_simps phase wk_key_def)
qed

lemma settle_moves:
  "(table_move cd pending bytes new)\<^sup>*\<^sup>* t (snd (settle_job cd scope jid shutdown cancelled r now io now' io' t))"
proof (cases r)
  case (Inr response)
  obtain a t1 where a: "job_succeed io cd scope jid response now t = (a, t1)" by fastforce
  then have "table_move cd pending bytes new t t1"
    using succeed_moves [of cd pending bytes new t io scope jid response now] by simp
  moreover have "table_move cd pending bytes new t1 (snd (job_fail io' cd scope jid Job_Failed e now' t1))" for e
    by (rule fail_moves)
  ultimately show ?thesis
    by (cases a) (auto simp: settle_job_def Inr a intro: converse_rtranclp_into_rtranclp)
qed (simp add: settle_job_def fail_moves r_into_rtranclp)

lemma inv_settle:
  assumes inv: "manager_inv used running m" and at: "worker_at m i w" and phase: "wk_phase w = Worker_Released token r"
  shows "manager_inv used running (worker_settle env i w token r now io now' io' m)"
proof -
  obtain a t where a: "settle_job (me_jobs env) (wk_scope w) (wk_id w) (mg_shutdown m) (mg_tokens m token) r now io
      now' io' (mg_table m) = (a, t)" by fastforce
  let ?p = "case a of Inl e \<Rightarrow> Worker_Ended (Inl e) | Inr _ \<Rightarrow> Worker_Settled"
  have m': "worker_settle env i w token r now io now' io' m = set_worker i ?p (m\<lparr>mg_table := t\<rparr>)"
    by (simp add: worker_settle_def a split: sum.split)
  have move: "(table_move (me_jobs env) 0 0 {})\<^sup>*\<^sup>* (mg_table m) t"
    using settle_moves [of "me_jobs env" 0 0 "{}" "mg_table m" "wk_scope w" "wk_id w" "mg_shutdown m"
        "mg_tokens m token" r now io now' io'] a by simp
  have kept: "all_running s j t" if "all_running s j (mg_table m)" "j \<noteq> wk_id w" for s j
    using running_settle [OF that(1), of "wk_id w"] that(2) a by (metis snd_conv)
  show ?thesis unfolding m'
    by (rule inv_worker [OF inv at set_worker_at [OF at], where p = ?p])
      (use move kept phase in \<open>auto simp: phase_simps split: sum.split\<close>)
qed

lemma job_get_row:
  assumes "job_get io cd s i t = Inr job"
  shows "\<exists>r \<in> set t. owned_by s i r \<and> ij_cancel_requested job = jr_cancel_requested r"
proof -
  obtain r where r: "find (owned_by s i) t = Some r" "decode_job cd r = Inr job"
    using assms by (auto simp: job_get_def result_simps split: if_splits)
  then have "ij_cancel_requested job = jr_cancel_requested r" by (auto simp: decode_job_def result_simps)
  with find_holds [OF r(1)] show ?thesis by blast
qed

lemma inv_read:
  assumes inv: "manager_inv used running m" and at: "worker_at m i w" and phase: "wk_phase w = Worker_Registered token"
  shows "manager_inv used running (worker_read env i w token io m)"
proof (cases "job_get io (me_jobs env) (wk_scope w) (wk_id w) (mg_table m)")
  case (Inl e)
  then show ?thesis using worker_at_ok [OF inv at] phase
    by (intro inv_phase [OF inv at, where p = "Worker_Executed token (Inl e)" and n = "mg_permits m"])
      (simp_all add: phase_simps worker_read_def)
next
  case (Inr job)
  let ?m = "if ij_cancel_requested job then cancel_token token m else m"
  let ?p = "Worker_Executing token (ij_request job) 0"
  have m': "worker_read env i w token io m = set_worker i ?p ?m" by (simp add: worker_read_def Inr)
  have ok: "all_running (wk_scope w) (wk_id w) (mg_table m)" "registered m w token"
    using worker_at_ok [OF inv at] phase by (simp_all add: worker_ok_def Let_def)
  have fields: "mg_workers ?m = mg_workers m" "mg_table ?m = mg_table m" "mg_active ?m = mg_active m"
    "mg_next_token ?m = mg_next_token m" "mg_permits ?m = mg_permits m" "mg_submitters ?m = mg_submitters m"
    "mg_cancellers ?m = mg_cancellers m" "\<And>k. mg_tokens m k \<Longrightarrow> mg_tokens ?m k"
    "ij_cancel_requested job \<Longrightarrow> mg_tokens ?m token"
    by (simp_all add: cancel_token_def)
  obtain r where r: "r \<in> set (mg_table m)" "owned_by (wk_scope w) (wk_id w) r"
    "ij_cancel_requested job = jr_cancel_requested r"
    using job_get_row [OF Inr] by blast
  have requested: "ij_cancel_requested job"
    if c: "c \<in> set (mg_cancellers m)" "cancel_acknowledged c" "wk_key w = (cn_scope c, cn_id c)" for c
  proof -
    have "cancel_requested_by c" using c(2)
      by (auto simp: cancel_acknowledged_def cancel_requested_by_def split: cancel_phase.splits sum.splits)
    then have "sealed (wk_scope w) (wk_id w) (mg_table m)"
      using manager_invD(6) [OF inv c(1)] c(3) by (simp add: canceller_ok_def wk_key_def)
    with r ok(1) show ?thesis by (simp add: sealed_def sealed_row_def all_running_def)
  qed
  show ?thesis unfolding m'
  proof (rule inv_worker [OF inv at set_worker_at [OF at], where p = ?p and cd = undefined and pending = 0 and bytes = 0])
    show "worker_ok (set_worker i ?p ?m) (w\<lparr>wk_phase := ?p\<rparr>)"
      using ok by (simp add: worker_ok_def Let_def registered_def fields)
    fix c assume "c \<in> set (mg_cancellers m)" "cancel_acknowledged c" "wk_key w = (cn_scope c, cn_id c)"
    then show "\<not> uncancelled_execution (set_worker i ?p ?m) (w\<lparr>wk_phase := ?p\<rparr>)"
      using fields(9) [OF requested] by (simp add: uncancelled_execution_def del: if_split)
  qed (use fields phase in \<open>simp_all add: holds_permit_def del: if_split\<close>)
qed

lemma inv_progress:
  assumes "manager_inv used running m"
  shows "manager_inv used running (store_progress scope jid stage n now io m)"
  using inv_table [OF assms progress_moves [of _ 0 0 "{}"]] running_progress by (simp add: store_progress_def)

lemma inv_provider:
  assumes inv: "manager_inv used running m" and at: "worker_at m i w"
    and phase: "wk_phase w = Worker_Executing token request partials"
  shows "manager_inv used running (handle_job_event env i w token request partials event now io m)"
proof (cases event)
  case (Event_Partial_Image index partial_index b64_json)
  let ?p = "Worker_Executing token request (sat_add partials 1)"
  let ?m1 = "case verified_preview env index partial_index b64_json of Inl _ \<Rightarrow> m
    | Inr preview \<Rightarrow> m\<lparr>mg_partials := (mg_partials m)((wk_scope w, wk_id w) \<mapsto> preview)\<rparr>"
  let ?m2 = "store_progress (wk_scope w) (wk_id w) ''partial_image'' (sat_add partials 1) now io ?m1"
  have m': "handle_job_event env i w token request partials event now io m = set_worker i ?p ?m2"
    by (simp add: handle_job_event_def Event_Partial_Image Let_def)
  have fields: "mg_workers ?m2 = mg_workers m" "mg_active ?m2 = mg_active m" "mg_tokens ?m2 = mg_tokens m"
    "mg_next_token ?m2 = mg_next_token m" "mg_permits ?m2 = mg_permits m" "mg_submitters ?m2 = mg_submitters m"
    "mg_cancellers ?m2 = mg_cancellers m"
    "mg_table ?m2 = snd (job_set_progress io (wk_scope w) (wk_id w) ''partial_image'' (sat_add partials 1) now (mg_table m))"
    by (simp_all add: store_progress_def split: sum.split)
  have ok: "all_running (wk_scope w) (wk_id w) (mg_table m)" "registered m w token"
    using worker_at_ok [OF inv at] phase by (simp_all add: worker_ok_def Let_def)
  have at_set: "w \<in> set (mg_workers m)" using at by (auto simp: worker_at_def)
  show ?thesis unfolding m'
  proof (rule inv_worker [OF inv at set_worker_at [OF at fields(1)], where p = ?p and cd = undefined and pending = 0
        and bytes = 0])
    show "worker_ok (set_worker i ?p ?m2) (w\<lparr>wk_phase := ?p\<rparr>)"
      using ok running_progress [OF ok(1)] by (simp add: worker_ok_def Let_def registered_def fields)
    fix c assume c: "c \<in> set (mg_cancellers m)" "cancel_acknowledged c" "wk_key w = (cn_scope c, cn_id c)"
    then have "\<not> uncancelled_execution m w"
      using manager_invD(6) [OF inv c(1)] at_set by (simp add: canceller_ok_def)
    then show "\<not> uncancelled_execution (set_worker i ?p ?m2) (w\<lparr>wk_phase := ?p\<rparr>)"
      by (simp add: uncancelled_execution_def phase fields)
  next
    show "(table_move undefined 0 0 {})\<^sup>*\<^sup>* (mg_table m) (mg_table (set_worker i ?p ?m2))"
      using progress_moves by (auto simp: fields)
    fix s j assume "all_running s j (mg_table m)"
    then show "all_running s j (mg_table (set_worker i ?p ?m2))" by (simp add: fields running_progress)
  qed (simp_all add: fields holds_permit_def phase)
qed (simp_all add: handle_job_event_def Let_def inv_progress inv)

lemma canceller_ok_mono: "canceller_ok used m c \<Longrightarrow> used \<subseteq> used' \<Longrightarrow> canceller_ok used' m c"
  by (auto simp: canceller_ok_def)

lemma inv_mono: "manager_inv used running m \<Longrightarrow> used \<subseteq> used' \<Longrightarrow> manager_inv used' running m"
  by (rule manager_invI) (auto dest: manager_invD canceller_ok_mono intro: manager_invD(4) manager_invD(7))

lemma worker_ok_fields:
  "mg_table m' = mg_table m \<Longrightarrow> mg_active m' = mg_active m \<Longrightarrow> mg_next_token m' = mg_next_token m \<Longrightarrow>
   worker_ok m' w = worker_ok m w"
  by (cases "wk_phase w") (simp_all add: worker_ok_def Let_def registered_def)

lemma canceller_ok_fields:
  "mg_table m' = mg_table m \<Longrightarrow> mg_workers m' = mg_workers m \<Longrightarrow> mg_tokens m' = mg_tokens m \<Longrightarrow>
   canceller_ok used m' c = canceller_ok used m c"
  by (simp add: canceller_ok_def uncancelled_tokens [of m' m])

text \<open>Changes of the tasks that are not workers.\<close>

lemma inv_submitters:
  assumes inv: "manager_inv used running m" and m': "m' = m\<lparr>mg_submitters := ss\<rparr>"
    and tasks: "set (task_ids m') \<subseteq> used" "distinct (task_ids m')"
  shows "manager_inv used running m'"
proof (rule manager_invI)
  fix c assume "c \<in> set (mg_cancellers m')"
  then have "canceller_ok used m c" using manager_invD(6) [OF inv] by (simp add: m')
  then show "canceller_ok used m' c" by (simp add: m' canceller_ok_fields [of "m\<lparr>mg_submitters := ss\<rparr>" m])
next
  fix w assume "w \<in> set (mg_workers m')"
  then show "worker_ok m' w"
    using manager_invD(5) [OF inv] worker_ok_fields [of m' m] by (simp add: m')
qed (use manager_invD(1,2,7) [OF inv] tasks in \<open>simp_all add: m'\<close>)

lemma inv_reply:
  assumes "manager_inv used running m" "p = Submit_Written lookup_id True \<Longrightarrow> jid \<in> used \<and> jid \<notin> set (task_ids m)"
    "\<And>lookup created. p = Submit_Written lookup created \<Longrightarrow> created \<Longrightarrow> lookup = lookup_id"
  shows "manager_inv used running (reply_submission scope jid p m)"
proof (rule inv_submitters [OF assms(1) reply_submission_def])
  let ?m = "reply_submission scope jid p m"
  have tasks: "task_ids ?m = task_ids m @ (if \<exists>l. p = Submit_Written l True then [jid] else [])"
    by (cases p) (auto simp: task_ids_def reply_submission_def pending_submission_def)
  show "set (task_ids ?m) \<subseteq> used" "distinct (task_ids ?m)"
    using manager_invD(3,4) [OF assms(1)] assms(2,3) unfolding tasks by auto
qed

lemma inv_submit_write:
  assumes inv: "manager_inv used running m" and fresh: "jid \<notin> used"
  shows "manager_inv (used \<union> {jid}) running (submit_write env scope request jid now io m)"
proof (cases "admit_submission env request m")
  case (Inl e)
  then show ?thesis
    using inv_reply [OF inv_mono [OF inv, of "used \<union> {jid}"], of "Submit_Replied (Inl e)"]
    by (simp add: submit_write_def subset_insertI)
next
  case (Inr q)
  let ?s = "me_settings env"
  obtain r t where r: "create_call io (me_jobs env) scope jid q now (ks_max_pending ?s) (ks_max_database_bytes ?s)
      (mg_table m) = (r, t)" by fastforce
  have "table_move (me_jobs env) (ks_max_pending ?s) (ks_max_database_bytes ?s) {jid} (mg_table m) t"
    using create_moves [of jid "{jid}" "me_jobs env" "ks_max_pending ?s" "ks_max_database_bytes ?s" "mg_table m" io scope
        q now] r by simp
  moreover have "all_running s i t" if "all_running s i (mg_table m)" "i \<in> used" for s i
    using running_create [OF that(1), of jid io "me_jobs env" scope q now "ks_max_pending ?s" "ks_max_database_bytes ?s"]
      that(2) fresh r by (metis snd_conv)
  ultimately have inv': "manager_inv (used \<union> {jid}) running (m\<lparr>mg_table := t\<rparr>)"
    using inv_table [OF inv] fresh by blast
  let ?p = "case r of Inl e \<Rightarrow> Submit_Replied (Inl e) | Inr outcome \<Rightarrow>
    (case submitted outcome of Inl e \<Rightarrow> Submit_Replied (Inl e) | Inr (l, c) \<Rightarrow> Submit_Written l c)"
  have m': "submit_write env scope request jid now io m = reply_submission scope jid ?p (m\<lparr>mg_table := t\<rparr>)"
    by (simp add: submit_write_def Inr r split: sum.split)
  have tasks: "jid \<notin> set (task_ids (m\<lparr>mg_table := t\<rparr>))"
    using manager_invD(3) [OF inv] fresh by (auto simp: task_ids_def)
  have created: "l = jid" if written: "?p = Submit_Written l True" for l
  proof -
    obtain outcome where "r = Inr outcome" "submitted outcome = Inr (l, True)"
      using written by (cases r) (auto split: sum.splits prod.splits)
    then have "fst (create_call io (me_jobs env) scope jid q now (ks_max_pending ?s) (ks_max_database_bytes ?s)
      (mg_table m)) = Inr (Create_Created l)"
      by (cases outcome) (simp_all add: submitted_def r)
    from created_row [OF this] show ?thesis by blast
  qed
  show ?thesis unfolding m'
  proof (rule inv_reply [OF inv', where lookup_id = jid])
    show "jid \<in> used \<union> {jid} \<and> jid \<notin> set (task_ids (m\<lparr>mg_table := t\<rparr>))" using tasks by simp
    fix l c assume "?p = Submit_Written l c" c
    then show "l = jid" by (intro created) simp
  qed
qed

lemma inv_submit_read:
  assumes inv: "manager_inv used running m"
  shows "manager_inv used running (submit_read env k io m)"
proof (cases "k < length (mg_submitters m)")
  case k: True
  let ?ss = "mg_submitters m"
  let ?s = "?ss ! k"
  have split: "?ss = take k ?ss @ ?s # drop (Suc k) ?ss" by (rule id_take_nth_drop [OF k])
  show ?thesis
  proof (cases "sw_phase ?s")
    case (Submit_Written lookup_id created)
    define reply where "reply r = m\<lparr>mg_submitters := ?ss[k := ?s\<lparr>sw_phase := Submit_Replied r\<rparr>]\<rparr>"
      for r :: "job_submission result"
    have tasks: "task_ids (reply r) = map wk_id (mg_workers m) @ map sw_id (filter pending_submission (take k ?ss))
        @ map sw_id (filter pending_submission (drop (Suc k) ?ss))" for r
      by (simp add: reply_def task_ids_def upd_conv_take_nth_drop [OF k] pending_submission_def)
    have old: "task_ids m = map wk_id (mg_workers m) @ map sw_id (filter pending_submission (take k ?ss))
        @ (if created then [sw_id ?s] else []) @ map sw_id (filter pending_submission (drop (Suc k) ?ss))"
      unfolding task_ids_def by (subst split) (simp add: pending_submission_def Submit_Written)
    have sub: "set (task_ids m) \<subseteq> used" and dist: "distinct (task_ids m)" using manager_invD(3,4) [OF inv] .
    have replied: "manager_inv used running (reply r)" for r
      by (rule inv_submitters [OF inv reply_def]) (use sub dist in \<open>auto simp: tasks old\<close>)
    show ?thesis
    proof (cases "job_get io (me_jobs env) (sw_scope ?s) lookup_id (mg_table m)")
      case (Inr job)
      show ?thesis
      proof (cases created)
        case True
        let ?m = "schedule (sw_scope ?s) (sw_id ?s) (reply (Inr \<lparr>sb_job = job, sb_created = created\<rparr>))"
        have "submit_read env k io m = ?m"
          using k True by (simp add: submit_read_def Submit_Written Inr Let_def reply_def)
        moreover have "manager_inv used running ?m"
        proof (rule manager_invI)
          fix w assume "w \<in> set (mg_workers ?m)"
          then have "w \<in> set (mg_workers m) \<or> wk_phase w = Worker_Scheduled" by (auto simp: schedule_def reply_def)
          then show "worker_ok ?m w"
            using manager_invD(5) [OF inv, of w] worker_ok_fields [of ?m m w]
            by (auto simp: schedule_def reply_def worker_ok_def)
        next
          fix c assume "c \<in> set (mg_cancellers ?m)"
          then have "canceller_ok used m c" using manager_invD(6) [OF inv] by (simp add: schedule_def reply_def)
          moreover have "uncancelled_execution ?m v = uncancelled_execution m v" for v
            by (rule uncancelled_tokens) (simp add: schedule_def reply_def)
          moreover have "mg_table ?m = mg_table m"
            "mg_workers ?m = mg_workers m @ [\<lparr>wk_scope = sw_scope ?s, wk_id = sw_id ?s, wk_phase = Worker_Scheduled\<rparr>]"
            by (simp_all add: schedule_def reply_def)
          ultimately show "canceller_ok used ?m c"
            by (simp add: canceller_ok_def) (simp add: uncancelled_execution_def)
        next
          have "task_ids ?m = map wk_id (mg_workers m) @ [sw_id ?s]
              @ map sw_id (filter pending_submission (take k ?ss)) @ map sw_id (filter pending_submission (drop (Suc k) ?ss))"
            using tasks by (simp add: schedule_def task_ids_def reply_def)
          then show "set (task_ids ?m) \<subseteq> used" "distinct (task_ids ?m)" using sub dist True by (auto simp: old)
        qed (use manager_invD(1,2,7) [OF inv] in \<open>simp_all add: schedule_def reply_def holds_permit_def\<close>)
        ultimately show ?thesis by simp
      next
        case False
        then have "submit_read env k io m = reply (Inr \<lparr>sb_job = job, sb_created = created\<rparr>)"
          using k by (simp add: submit_read_def Submit_Written Inr Let_def reply_def)
        then show ?thesis using replied by simp
      qed
    next
      case (Inl e)
      then have "submit_read env k io m = reply (Inl e)"
        using k by (simp add: submit_read_def Submit_Written Let_def reply_def)
      then show ?thesis using replied by simp
    qed
  qed (use k inv in \<open>simp_all add: submit_read_def Let_def\<close>)
qed (simp add: submit_read_def inv)

lemma inv_submit_drop:
  assumes inv: "manager_inv used running m"
  shows "manager_inv used running (submit_drop k m)"
proof (cases "k < length (mg_submitters m)")
  case k: True
  let ?ss = "mg_submitters m"
  let ?s = "?ss ! k"
  have split: "?ss = take k ?ss @ ?s # drop (Suc k) ?ss" by (rule id_take_nth_drop [OF k])
  show ?thesis
  proof (cases "sw_phase ?s")
    case (Submit_Written lookup_id created)
    define m' where "m' = m\<lparr>mg_submitters := ?ss[k := ?s\<lparr>sw_phase := Submit_Dropped created\<rparr>]\<rparr>"
    have tasks: "task_ids m' = map wk_id (mg_workers m) @ map sw_id (filter pending_submission (take k ?ss))
        @ map sw_id (filter pending_submission (drop (Suc k) ?ss))"
      by (simp add: m'_def task_ids_def upd_conv_take_nth_drop [OF k] pending_submission_def)
    have old: "task_ids m = map wk_id (mg_workers m) @ map sw_id (filter pending_submission (take k ?ss))
        @ (if created then [sw_id ?s] else []) @ map sw_id (filter pending_submission (drop (Suc k) ?ss))"
      unfolding task_ids_def by (subst split) (simp add: pending_submission_def Submit_Written)
    have sub: "set (task_ids m) \<subseteq> used" and dist: "distinct (task_ids m)" using manager_invD(3,4) [OF inv] .
    have "manager_inv used running m'"
      by (rule inv_submitters [OF inv m'_def]) (use sub dist in \<open>auto simp: tasks old\<close>)
    then show ?thesis using k by (simp add: submit_drop_def Let_def Submit_Written m'_def)
  qed (use k inv in \<open>simp_all add: submit_drop_def Let_def\<close>)
qed (simp add: submit_drop_def inv)

lemma inv_cancel_write:
  assumes inv: "manager_inv used running m"
  shows "manager_inv used running (cancel_write scope jid now io m)"
proof -
  obtain r t where r: "cancel_call io scope jid now (mg_table m) = (r, t)" by fastforce
  note keys = manager_invD(1) [OF inv]
  have "table_move undefined 0 0 {} (mg_table m) t"
    using cancel_moves [OF keys, of undefined 0 0 "{}" io scope jid now] r by simp
  moreover have "all_running s i t" if "all_running s i (mg_table m)" for s i
    using running_cancel [OF keys that, of io scope jid now] r by simp
  ultimately have inv': "manager_inv used running (m\<lparr>mg_table := t\<rparr>)" using inv_table [OF inv] by fastforce
  let ?c = "\<lparr>cn_scope = scope, cn_id = jid,
    cn_phase = (case r of Inl e \<Rightarrow> Cancel_Replied (Inl e) | Inr _ \<Rightarrow> Cancel_Written)\<rparr>"
  let ?m = "m\<lparr>mg_table := t, mg_cancellers := mg_cancellers m @ [?c]\<rparr>"
  have m': "cancel_write scope jid now io m = ?m" by (simp add: cancel_write_def r)
  have new: "canceller_ok used (m\<lparr>mg_table := t\<rparr>) ?c"
  proof (cases r)
    case (Inr u)
    have "sealed scope jid t \<and> jid \<in> jr_id ` set (mg_table m)" by (rule cancel_seals [OF keys r [unfolded Inr]])
    then show ?thesis using manager_invD(2) [OF inv]
      by (auto simp: canceller_ok_def cancel_acknowledged_def Inr)
  qed (simp add: canceller_ok_def cancel_requested_by_def cancel_acknowledged_def)
  show ?thesis unfolding m'
  proof (rule manager_invI)
    fix w assume "w \<in> set (mg_workers ?m)"
    then show "worker_ok ?m w"
      using manager_invD(5) [OF inv', of w] worker_ok_fields [of ?m "m\<lparr>mg_table := t\<rparr>" w] by simp
  next
    fix c assume "c \<in> set (mg_cancellers ?m)"
    then show "canceller_ok used ?m c"
      using manager_invD(6) [OF inv', of c] new canceller_ok_fields [of ?m "m\<lparr>mg_table := t\<rparr>" used c] by auto
  qed (use manager_invD(1-4,7) [OF inv'] in \<open>simp_all add: task_ids_def\<close>)
qed

text \<open>A canceller goes on, and tokens are only ever cancelled.\<close>

lemma inv_canceller:
  assumes inv: "manager_inv used running m" and k: "k < length (mg_cancellers m)"
    and tokens: "\<And>j. mg_tokens m j \<Longrightarrow> tokens j"
    and m': "m' = (set_canceller k p m)\<lparr>mg_tokens := tokens\<rparr>"
    and ok: "canceller_ok used m' ((mg_cancellers m ! k)\<lparr>cn_phase := p\<rparr>)"
  shows "manager_inv used running m'"
proof (rule manager_invI)
  fix w assume "w \<in> set (mg_workers m')"
  then show "worker_ok m' w"
    using manager_invD(5) [OF inv, of w] worker_ok_fields [of m' m w] by (simp add: m' set_canceller_def)
next
  have less: "uncancelled_execution m' w \<Longrightarrow> uncancelled_execution m w" for w
    using tokens by (cases "wk_phase w") (auto simp: uncancelled_execution_def m' set_canceller_def)
  fix c assume "c \<in> set (mg_cancellers m')"
  then consider "c = (mg_cancellers m ! k)\<lparr>cn_phase := p\<rparr>" | "c \<in> set (mg_cancellers m)"
    using in_set_update [OF _ k] by (fastforce simp: m' set_canceller_def)
  then show "canceller_ok used m' c"
  proof cases
    case 2
    then show ?thesis using manager_invD(6) [OF inv 2] less
      by (auto simp: canceller_ok_def m' set_canceller_def)
  qed (use ok in simp)
qed (use manager_invD(1-4,7) [OF inv] in \<open>simp_all add: m' set_canceller_def task_ids_def\<close>)

lemma inv_cancel_read:
  assumes inv: "manager_inv used running m"
  shows "manager_inv used running (cancel_read env k io m)"
proof (cases "k < length (mg_cancellers m) \<and> cn_phase (mg_cancellers m ! k) = Cancel_Written")
  case True
  let ?c = "mg_cancellers m ! k"
  let ?p = "case job_get io (me_jobs env) (cn_scope ?c) (cn_id ?c) (mg_table m) of
    Inl e \<Rightarrow> Cancel_Replied (Inl e) | Inr job \<Rightarrow> Cancel_Read job"
  have "canceller_ok used m ?c" using True by (intro manager_invD(6) [OF inv]) simp
  then have "canceller_ok used ((set_canceller k ?p m)\<lparr>mg_tokens := mg_tokens m\<rparr>) (?c\<lparr>cn_phase := ?p\<rparr>)"
    using True by (auto simp: canceller_ok_def cancel_requested_by_def cancel_acknowledged_def set_canceller_def
        split: sum.split)
  moreover have "cancel_read env k io m = (set_canceller k ?p m)\<lparr>mg_tokens := mg_tokens m\<rparr>"
    using True by (simp add: cancel_read_def Let_def set_canceller_def split: sum.split)
  ultimately show ?thesis using True by (intro inv_canceller [OF inv, where k = k]) auto
next
  case False
  then have "cancel_read env k io m = m"
    by (auto simp: cancel_read_def Let_def split: cancel_phase.split)
  then show ?thesis using inv by simp
qed

lemma inv_cancel_signal:
  assumes inv: "manager_inv used running m"
  shows "manager_inv used running (cancel_signal k m)"
proof (cases "\<exists>job. k < length (mg_cancellers m) \<and> cn_phase (mg_cancellers m ! k) = Cancel_Read job")
  case True
  then obtain job where k: "k < length (mg_cancellers m)" "cn_phase (mg_cancellers m ! k) = Cancel_Read job" by blast
  let ?c = "mg_cancellers m ! k"
  let ?key = "(cn_scope ?c, cn_id ?c)"
  let ?tokens = "\<lambda>j. mg_tokens m j \<or> mg_active m ?key = Some j"
  let ?m = "(set_canceller k (Cancel_Replied (Inr job)) m)\<lparr>mg_tokens := ?tokens\<rparr>"
  have m': "cancel_signal k m = ?m"
    using k by (auto simp: cancel_signal_def Let_def set_canceller_def cancel_token_def fun_eq_iff split: option.split)
  have "\<not> uncancelled_execution ?m w" if "w \<in> set (mg_workers m)" "wk_key w = ?key" for w
    using manager_invD(5) [OF inv that(1)] that(2)
    by (cases "wk_phase w") (auto simp: uncancelled_execution_def worker_ok_def Let_def registered_def)
  moreover have "canceller_ok used m ?c" using k(1) by (intro manager_invD(6) [OF inv]) simp
  ultimately have "canceller_ok used ?m (?c\<lparr>cn_phase := Cancel_Replied (Inr job)\<rparr>)"
    using k by (simp add: canceller_ok_def cancel_requested_by_def set_canceller_def)
  then show ?thesis unfolding m' by (intro inv_canceller [OF inv k(1)]) auto
next
  case False
  then have "cancel_signal k m = m"
    by (auto simp: cancel_signal_def Let_def split: cancel_phase.split)
  then show ?thesis using inv by simp
qed

lemma inv_tokens:
  assumes inv: "manager_inv used running m" and tokens: "\<And>j. mg_tokens m j \<Longrightarrow> tokens j"
    and m': "m' = m\<lparr>mg_tokens := tokens\<rparr>"
  shows "manager_inv used running m'"
proof (rule manager_invI)
  fix w assume "w \<in> set (mg_workers m')"
  then show "worker_ok m' w"
    using manager_invD(5) [OF inv, of w] worker_ok_fields [of m' m w] by (simp add: m')
next
  have less: "uncancelled_execution m' w \<Longrightarrow> uncancelled_execution m w" for w
    using tokens by (cases "wk_phase w") (auto simp: uncancelled_execution_def m')
  fix c assume "c \<in> set (mg_cancellers m')"
  then show "canceller_ok used m' c"
    using manager_invD(6) [OF inv, of c] less by (auto simp: canceller_ok_def m')
qed (use manager_invD(1-4,7) [OF inv] in \<open>simp_all add: m' task_ids_def\<close>)

lemma inv_flags:
  assumes "manager_inv used running m" "mg_table m' = mg_table m" "mg_active m' = mg_active m"
    "mg_next_token m' = mg_next_token m" "mg_tokens m' = mg_tokens m" "mg_workers m' = mg_workers m"
    "mg_submitters m' = mg_submitters m" "mg_cancellers m' = mg_cancellers m" "mg_permits m' = mg_permits m"
  shows "manager_inv used running m'"
  using manager_invD [OF assms(1)] assms(2-) worker_ok_fields [of m' m] canceller_ok_fields [of m' m used]
  by (intro manager_invI) (simp_all add: task_ids_def)

lemma inv_retention:
  assumes inv: "manager_inv used running m"
  shows "manager_inv used running (snd (enforce_retention env now io m))"
proof -
  let ?s = "me_settings env"
  obtain r t where r: "job_prune io now (ks_retention_secs ?s) (ks_max_retained ?s) (ks_max_retained_bytes ?s)
    (mg_table m) = (r, t)" by fastforce
  note keys = manager_invD(1) [OF inv]
  have "table_move undefined 0 0 {} (mg_table m) t"
    using prune_moves [OF keys, of undefined 0 0 "{}"] r by (metis snd_conv)
  moreover have "all_running s i t" if "all_running s i (mg_table m)" for s i
    using running_prune [OF keys that] r by (metis snd_conv)
  ultimately have "manager_inv used running (m\<lparr>mg_table := t\<rparr>)" using inv_table [OF inv] by fastforce
  then show ?thesis
    by (rule inv_flags) (simp_all add: enforce_retention_def Let_def r split: sum.split)
qed

lemma inv_history:
  assumes inv: "manager_inv used running m"
  shows "manager_inv used running (m\<lparr>mg_table := snd (history_call io scope jid favorite deleted now (mg_table m))\<rparr>)"
  using inv_table [OF inv history_moves [of undefined 0 0 "{}"]] running_history by fastforce

lemma inv_on_worker:
  assumes "manager_inv used running m" "\<And>w. worker_at m i w \<Longrightarrow> manager_inv used running (f w m)"
  shows "manager_inv used running (on_worker i f m)"
  using assms by (simp add: on_worker_def worker_at_nth)

lemma inv_finish:
  assumes inv: "manager_inv used running m" and at: "worker_at m i w" and phase: "wk_phase w = Worker_Settled"
    and r: "enforce_retention env now io m = (r, m')"
  shows "manager_inv used running (set_worker i (Worker_Ended r) m')"
proof -
  have inv': "manager_inv used running m'" using inv_retention [OF inv, of env now io] r by simp
  have at': "worker_at m' i w"
    using at r by (auto simp: worker_at_def enforce_retention_def Let_def split: prod.splits sum.splits)
  show ?thesis
    by (rule inv_phase [OF inv' at', where p = "Worker_Ended r" and n = "mg_permits m'"])
      (simp_all add: phase_simps phase)
qed

lemma inv_step:
  assumes "manager_inv used running m" "event_ids e \<inter> used = {}"
  shows "manager_inv (used \<union> event_ids e) running (manager_step env e m)"
proof (cases e)
  case (Ev_Submit scope request jid now io)
  then show ?thesis using inv_submit_write [OF assms(1), of jid] assms(2) by simp
next
  case (Ev_Drain_Expired)
  then show ?thesis using inv_tokens [OF assms(1), of "\<lambda>k. mg_tokens m k \<or> k \<in> ran (mg_active m)"] assms(1)
    by (simp add: shutdown_expire_def)
next
  case Ev_Shutdown
  then show ?thesis using inv_flags [OF assms(1), of "shutdown_begin m"] by (simp add: shutdown_begin_def)
next
  case (Ev_Finish i now io)
  then show ?thesis using assms(1) inv_finish
    by (auto intro!: inv_on_worker split: worker_phase.split prod.split)
qed (use assms(1) in \<open>auto intro!: inv_submit_read inv_submit_drop inv_cancel_write inv_cancel_read inv_cancel_signal inv_history
    inv_retention inv_on_worker inv_acquire inv_claim inv_register inv_read inv_provider inv_result inv_release
    inv_settle split: worker_phase.split\<close>)

text \<open>\<open>Uuid::now_v7\<close> never gives an identifier twice.\<close>

fun fresh_events :: "string set \<Rightarrow> manager_event list \<Rightarrow> bool" where
  "fresh_events used [] = True"
| "fresh_events used (e # es) = (event_ids e \<inter> used = {} \<and> fresh_events (used \<union> event_ids e) es)"

lemma inv_run:
  assumes "manager_inv used running m" "fresh_events used evs"
  shows "\<exists>used'. used \<subseteq> used' \<and> manager_inv used' running (manager_run env evs m)"
  using assms
proof (induction evs arbitrary: used m)
  case (Cons e es)
  from inv_step [OF Cons.prems(1)] Cons.prems(2) Cons.IH [of "used \<union> event_ids e" "manager_step env e m"]
  show ?case by auto
qed auto

section \<open>The manager after a restart\<close>

lemma fold_schedule:
  "fold (\<lambda>(scope, jid). schedule scope jid) qs m
   = m\<lparr>mg_workers := mg_workers m @ map (\<lambda>(s, i). \<lparr>wk_scope = s, wk_id = i, wk_phase = Worker_Scheduled\<rparr>) qs\<rparr>"
  by (induction qs arbitrary: m) (auto simp: schedule_def)

lemma manager_opened:
  assumes "manager_open env io1 now1 io2 now2 io3 t = Inr m"
  shows "\<exists>n t1 d t2 qs. recover_interrupted io1 (me_jobs env) now1 t = (Inr n, t1)
    \<and> job_prune io2 now2 (ks_retention_secs (me_settings env)) (ks_max_retained (me_settings env))
        (ks_max_retained_bytes (me_settings env)) t1 = (Inr d, t2)
    \<and> queued_identities io3 (ks_max_pending (me_settings env)) t2 = Inr qs
    \<and> m = \<lparr>mg_table = t2, mg_permits = ks_max_running (me_settings env), mg_shutdown = False,
         mg_active = Map.empty, mg_tokens = (\<lambda>_. False), mg_next_token = 0, mg_partials = Map.empty,
         mg_healthy = True,
         mg_workers = map (\<lambda>(s, i). \<lparr>wk_scope = s, wk_id = i, wk_phase = Worker_Scheduled\<rparr>) qs,
         mg_submitters = [], mg_cancellers = []\<rparr>"
  using assms by (auto simp: manager_open_def Let_def result_simps fold_schedule split: prod.splits)

lemma queued_identities_ids:
  assumes "queued_identities io n t = Inr qs" "keys_ok t"
  shows "distinct (map snd qs)" "snd ` set qs \<subseteq> jr_id ` set t"
proof -
  let ?q = "oldest_first (filter (\<lambda>r. jr_status r = ''queued'') t)"
  have qs: "map snd qs = take (nat (i64_limit n)) (map jr_id ?q)"
    using assms(1) by (auto simp: queued_identities_def take_map comp_def split: if_splits)
  have "distinct (map jr_id ?q)" using assms(2)
    by (simp add: keys_ok_def oldest_first_def distinct_map inj_on_def)
  then show "distinct (map snd qs)" unfolding qs by (rule distinct_take)
  have "set (map snd qs) \<subseteq> set (map jr_id ?q)" unfolding qs by (rule set_take_subset)
  then show "snd ` set qs \<subseteq> jr_id ` set t" by (auto simp: oldest_first_def)
qed

lemma inv_open:
  assumes "manager_open env io1 now1 io2 now2 io3 t = Inr m" "keys_ok t"
  shows "manager_inv (jr_id ` set (mg_table m)) (ks_max_running (me_settings env)) m"
proof -
  let ?s = "me_settings env"
  obtain n t1 d t2 qs where t1: "recover_interrupted io1 (me_jobs env) now1 t = (Inr n, t1)"
    and t2: "job_prune io2 now2 (ks_retention_secs ?s) (ks_max_retained ?s) (ks_max_retained_bytes ?s) t1 = (Inr d, t2)"
    and qs: "queued_identities io3 (ks_max_pending ?s) t2 = Inr qs"
    and m: "m = \<lparr>mg_table = t2, mg_permits = ks_max_running ?s, mg_shutdown = False,
         mg_active = Map.empty, mg_tokens = (\<lambda>_. False), mg_next_token = 0, mg_partials = Map.empty,
         mg_healthy = True,
         mg_workers = map (\<lambda>(s, i). \<lparr>wk_scope = s, wk_id = i, wk_phase = Worker_Scheduled\<rparr>) qs,
         mg_submitters = [], mg_cancellers = []\<rparr>"
    using manager_opened [OF assms(1)] by (elim exE conjE) (rule that)
  have keys1: "keys_ok t1" using table_move_keys [OF recover_moves assms(2)] t1 by (metis snd_conv)
  then have keys: "keys_ok t2"
    using table_move_keys [OF prune_moves [OF keys1] keys1] t2 by (metis snd_conv)
  note ids = queued_identities_ids [OF qs keys]
  show ?thesis
    by (rule manager_invI)
      (use keys ids in \<open>auto simp: m task_ids_def worker_ok_def comp_def case_prod_beta holds_permit_def filter_False\<close>)
qed

end
