(* ===== verification/Job_Queue.thy ===== *)
theory Job_Queue
  imports Job_Manager_Properties
begin

text \<open>
  The guarantees of the durable queue as a whole: its pool is bounded, an acknowledged cancellation
  reaches the execution, every waiting or running job is accounted for by a task, and the case in which
  a submission strands its job.
\<close>

section \<open>The pool and the cancellation\<close>

definition executing :: "worker_phase \<Rightarrow> bool" where
  "executing p = (case p of Worker_Executing _ _ _ \<Rightarrow> True | _ \<Rightarrow> False)"

text \<open>C10. At no time, under any interleaving of submissions, cancellations, workers and maintenance, are
  more jobs executed than the configured number of workers, and no permit of the pool is ever lost:
  the free permits and the workers between acquisition and release always add up to that number.\<close>

theorem worker_pool_exact:
  assumes "manager_open env io1 now1 io2 now2 io3 t = Inr m0" and "keys_ok t"
    and "fresh_events (jr_id ` set (mg_table m0)) evs" and "m = manager_run env evs m0"
  shows "length (filter (executing \<circ> wk_phase) (mg_workers m)) \<le> ks_max_running (me_settings env)
    \<and> mg_permits m + length (filter (holds_permit \<circ> wk_phase) (mg_workers m)) = ks_max_running (me_settings env)"
proof -
  obtain used where inv: "manager_inv used (ks_max_running (me_settings env)) m"
    using inv_run [OF inv_open [OF assms(1,2)] assms(3)] unfolding assms(4) by blast
  have "length (filter (executing \<circ> wk_phase) ws) \<le> length (filter (holds_permit \<circ> wk_phase) ws)" for ws
    by (induction ws) (auto simp: executing_def holds_permit_def split: worker_phase.split)
  then show ?thesis using manager_invD(7) [OF inv] by (metis le_add2 le_trans)
qed

text \<open>C9. A cancellation that was answered with the job takes hold: from that moment on no worker
  executes the job with a cancellation token that is not cancelled, whether the request came before
  the claim, between the claim and the registration of the worker, or during the execution.\<close>

theorem acknowledged_cancellation_takes_hold:
  assumes "manager_open env io1 now1 io2 now2 io3 t = Inr m0" and "keys_ok t"
    and "fresh_events (jr_id ` set (mg_table m0)) evs" and "m = manager_run env evs m0"
    and "c \<in> set (mg_cancellers m)" and "cn_phase c = Cancel_Replied (Inr job)"
    and "w \<in> set (mg_workers m)" and "wk_scope w = cn_scope c" and "wk_id w = cn_id c"
    and "wk_phase w = Worker_Executing token request partials"
  shows "mg_tokens m token"
proof -
  obtain used where inv: "manager_inv used (ks_max_running (me_settings env)) m"
    using inv_run [OF inv_open [OF assms(1,2)] assms(3)] unfolding assms(4) by blast
  have "canceller_ok used m c" by (rule manager_invD(6) [OF inv assms(5)])
  then have "\<not> uncancelled_execution m w"
    using assms(6-9) by (simp add: canceller_ok_def cancel_acknowledged_def wk_key_def)
  then show ?thesis using assms(10) by (simp add: uncancelled_execution_def)
qed

section \<open>Rows and tasks\<close>

definition row_key :: "job_row \<Rightarrow> string \<times> string" where
  "row_key r = (jr_auth_scope r, jr_id r)"

definition same_active :: "job_row \<Rightarrow> job_row \<Rightarrow> bool" where
  "same_active r r' = (row_key r = row_key r' \<and> jr_status r = jr_status r')"

text \<open>A call that makes no job wait or run.\<close>

definition quiet :: "job_table \<Rightarrow> job_table \<Rightarrow> bool" where
  "quiet t t' = (\<forall>r' \<in> set t'. row_active r' \<longrightarrow> (\<exists>r \<in> set t. same_active r r'))"

lemma quiet_refl: "quiet t t"
  by (auto simp: quiet_def same_active_def)

lemma quiet_trans: "quiet t t1 \<Longrightarrow> quiet t1 t2 \<Longrightarrow> quiet t t2"
  unfolding quiet_def same_active_def row_active_def by metis

lemma quiet_checked: "(\<And>a. quiet t (snd (f a t))) \<Longrightarrow> quiet t (snd (checked r f t))"
  by (cases r) (auto simp: quiet_refl)

lemma quiet_db_call: "quiet t (snd (f t)) \<Longrightarrow> quiet t (snd (db_call io e f t))"
  by (simp add: db_call_def quiet_refl)

lemma quiet_update:
  assumes "\<And>r. p r \<Longrightarrow> row_active (f r) \<Longrightarrow> same_active r (f r)"
  shows "quiet t (snd (sql_update p f t))"
  unfolding quiet_def
proof (intro ballI impI)
  fix r' assume r': "r' \<in> set (snd (sql_update p f t))" "row_active r'"
  then obtain r where "r \<in> set t" "r' = (if p r then f r else r)" by (auto simp: sql_update_def)
  then show "\<exists>r \<in> set t. same_active r r'" using assms r'(2) by (auto simp: same_active_def split: if_splits)
qed

lemmas activity = row_active_def same_active_def row_key_def

lemma quiet_progress: "quiet t (snd (job_set_progress io scope jid stage n now t))"
  unfolding job_set_progress_def
  by (intro quiet_checked quiet_db_call) (auto simp: case_prod_beta Let_def activity intro!: quiet_update)

lemma quiet_history: "quiet t (snd (history_call io scope jid favorite deleted now t))"
  unfolding history_call_def
  by (intro quiet_checked quiet_db_call) (auto simp: case_prod_beta Let_def snd_if_pair activity intro!: quiet_update)

lemma quiet_finish:
  assumes "s \<noteq> Job_Queued" "s \<noteq> Job_Running"
  shows "quiet t (snd (job_finish io scope jid s response error now t))"
  unfolding job_finish_def
  by (intro quiet_checked quiet_db_call)
    (use assms in \<open>auto simp: case_prod_beta Let_def snd_if_pair activity intro!: quiet_update\<close>)

lemma quiet_succeed: "quiet t (snd (job_succeed io cd scope jid response now t))"
  unfolding job_succeed_def by (intro quiet_checked quiet_finish) simp_all

lemma quiet_fail: "quiet t (snd (job_fail io cd scope jid s e now t))"
proof -
  have "quiet t (snd (job_finish io scope jid s None (Some x) now t))"
    if "s \<in> {Job_Failed, Job_Cancelled, Job_Interrupted}" for x
    using that by (intro quiet_finish) auto
  then show ?thesis
    by (cases "s \<in> {Job_Failed, Job_Cancelled, Job_Interrupted}")
      (auto simp: job_fail_def require_def quiet_refl intro!: quiet_checked)
qed

lemma quiet_settle: "quiet t (snd (settle_job cd scope jid shutdown cancelled r now io now' io' t))"
proof (cases r)
  case (Inr response)
  obtain a t1 where a: "job_succeed io cd scope jid response now t = (a, t1)" by fastforce
  then have "quiet t t1" using quiet_succeed [of t io cd scope jid response now] by simp
  then show ?thesis using quiet_trans quiet_fail
    by (cases a) (auto simp: settle_job_def Inr a)
qed (simp add: settle_job_def quiet_fail)

lemma quiet_cancel: "quiet t (snd (cancel_call io scope jid now t))"
proof -
  have "quiet t (snd (cancel_row scope jid n t))" for n
    by (auto simp: cancel_row_def quiet_refl activity split: option.split intro!: quiet_update)
  then show ?thesis unfolding cancel_call_def by (intro quiet_checked quiet_db_call)
qed

lemma quiet_filter: "quiet t (filter p t)"
  by (auto simp: quiet_def same_active_def)

lemma quiet_prune: "quiet t (snd (job_prune io now retention max_retained max_bytes t))"
proof -
  have "quiet t (snd (prune_rows cutoff m b t))" for cutoff m b
    by (simp add: prune_rows_def sql_delete_def Let_def quiet_filter)
  then show ?thesis unfolding job_prune_def
    by (intro quiet_checked quiet_db_call) (simp add: case_prod_beta Let_def)
qed

lemma claim_error_table: "job_claim io s i now t = (Inl e, t') \<Longrightarrow> t' = t"
  by (cases "validate_auth_scope s"; cases "to_i64 now"; cases io)
    (simp_all add: job_claim_def db_call_def case_prod_beta Let_def)

definition claimable :: "string \<Rightarrow> string \<Rightarrow> job_row \<Rightarrow> bool" where
  "claimable s i r = (owned_by s i r \<and> jr_status r = ''queued'' \<and> \<not> jr_cancel_requested r)"

lemma claim_result:
  assumes "job_claim io s i now t = (Inr b, t')"
  shows "\<exists>f. (b \<longleftrightarrow> length (filter (claimable s i) t) = 1)
    \<and> t' = map (\<lambda>r. if claimable s i r then f r else r) t \<and> (\<forall>r. row_key (f r) = row_key r)"
proof -
  obtain n where n: "to_i64 now = Inr n" "validate_auth_scope s = Inr ()" io
    using assms by (cases "validate_auth_scope s"; cases "to_i64 now"; cases io) (simp_all add: job_claim_def db_call_def)
  show ?thesis
    by (rule exI [of _ "\<lambda>r. r\<lparr>jr_status := ''running'', jr_started := Some n, jr_updated := n,
          jr_progress_stage := Some ''starting''\<rparr>"])
      (use assms n in \<open>auto simp: job_claim_def db_call_def sql_update_def claimable_def [abs_def] Let_def row_key_def\<close>)
qed

section \<open>A step of the manager is a sequence of moves of the store\<close>

abbreviation env_moves :: "manager_env \<Rightarrow> string set \<Rightarrow> job_table \<Rightarrow> job_table \<Rightarrow> bool" where
  "env_moves env new \<equiv> (table_move (me_jobs env) (ks_max_pending (me_settings env))
     (ks_max_database_bytes (me_settings env)) new)\<^sup>*\<^sup>*"

lemma cancel_write_table: "mg_table (cancel_write scope jid now io m) = snd (cancel_call io scope jid now (mg_table m))"
  by (simp add: cancel_write_def case_prod_beta Let_def)

lemma retention_table:
  "mg_table (snd (enforce_retention env now io m)) =
     snd (job_prune io now (ks_retention_secs (me_settings env)) (ks_max_retained (me_settings env))
       (ks_max_retained_bytes (me_settings env)) (mg_table m))"
  by (simp add: enforce_retention_def Let_def case_prod_beta split: prod.split sum.split)

lemma claim_table:
  "mg_table (worker_claim i w now io m) = snd (job_claim io (wk_scope w) (wk_id w) now (mg_table m))"
  by (simp add: worker_claim_def release_worker_permit_def split: prod.split sum.split)

lemma provider_table:
  "mg_table (handle_job_event env i w token q n event now io m) = mg_table m
   \<or> (\<exists>stage k. mg_table (handle_job_event env i w token q n event now io m) =
        snd (job_set_progress io (wk_scope w) (wk_id w) stage k now (mg_table m)))"
  by (cases event)
    (auto simp: handle_job_event_def Let_def store_progress_def split: sum.split)

lemma settle_table:
  "mg_table (worker_settle env i w token r now io now' io' m) =
     snd (settle_job (me_jobs env) (wk_scope w) (wk_id w) (mg_shutdown m) (mg_tokens m token) r now io now' io'
       (mg_table m))"
  by (simp add: worker_settle_def split: prod.split sum.split)

lemma step_moves:
  assumes "keys_ok (mg_table m)"
  shows "env_moves env (event_ids e) (mg_table m) (mg_table (manager_step env e m))"
proof (cases e)
  case (Ev_Submit scope request jid now io)
  have move: "env_moves env {jid} (mg_table m) (snd (create_call io (me_jobs env) scope jid q now
      (ks_max_pending (me_settings env)) (ks_max_database_bytes (me_settings env)) (mg_table m)))" for q
    by (rule r_into_rtranclp, rule create_moves) simp
  show ?thesis
  proof (cases "admit_submission env request m")
    case (Inr q)
    obtain a t where a: "create_call io (me_jobs env) scope jid q now (ks_max_pending (me_settings env))
        (ks_max_database_bytes (me_settings env)) (mg_table m) = (a, t)" by fastforce
    have "mg_table (manager_step env e m) = t"
      by (simp add: Ev_Submit submit_write_def Inr a reply_submission_def split: sum.split)
    then show ?thesis using move [of q] by (simp add: Ev_Submit a)
  qed (simp add: Ev_Submit submit_write_def reply_submission_def)
next
  case (Ev_Submit_Read k io)
  then show ?thesis by (simp add: submit_read_def Let_def schedule_def split: submit_phase.split sum.split)
next
  case (Ev_Submit_Drop k)
  then show ?thesis by (simp add: submit_drop_def Let_def split: submit_phase.split)
next
  case (Ev_Cancel scope jid now io)
  then show ?thesis using cancel_moves [OF assms] by (simp add: cancel_write_table r_into_rtranclp)
next
  case (Ev_Cancel_Read k io)
  then show ?thesis by (simp add: cancel_read_def Let_def set_canceller_def split: cancel_phase.split sum.split)
next
  case (Ev_Cancel_Signal k)
  then show ?thesis
    by (simp add: cancel_signal_def Let_def set_canceller_def cancel_token_def split: cancel_phase.split option.split)
next
  case (Ev_History scope jid favorite deleted now io)
  then show ?thesis using history_moves by auto
next
  case (Ev_Retention now io)
  then show ?thesis using prune_moves [OF assms] by (simp add: retention_table r_into_rtranclp)
next
  case (Ev_Claim i now io)
  have "env_moves env {} (mg_table m) (mg_table (worker_claim i w now io m))" for w
    by (simp add: claim_table claim_moves r_into_rtranclp)
  then show ?thesis by (simp add: Ev_Claim on_worker_def split: worker_phase.split)
next
  case (Ev_Provider i event now io)
  have "env_moves env {} (mg_table m) (mg_table (handle_job_event env i w token q n event now io m))" for w token q n
    using provider_table [of env i w token q n event now io m]
    by (elim disjE exE) (simp_all add: r_into_rtranclp progress_moves)
  then show ?thesis by (simp add: Ev_Provider on_worker_def split: worker_phase.split)
next
  case (Ev_Settle i now io now' io')
  have "env_moves env {} (mg_table m) (mg_table (worker_settle env i w token r now io now' io' m))" for w token r
    by (simp add: settle_table settle_moves)
  then show ?thesis by (simp add: Ev_Settle on_worker_def split: worker_phase.split)
next
  case (Ev_Finish i now io)
  have "env_moves env {} (mg_table m) (mg_table (snd (enforce_retention env now io m)))"
    using prune_moves [OF assms] by (simp add: retention_table r_into_rtranclp)
  then show ?thesis by (simp add: Ev_Finish case_prod_beta on_worker_def split: worker_phase.split)
qed (simp_all add: shutdown_begin_def shutdown_expire_def worker_acquire_def worker_register_def worker_read_def
    worker_release_def release_worker_permit_def cancel_token_def on_worker_def
    split: worker_phase.split permit_choice.split sum.split)

lemma moves_keys_any: "env_moves env new t t' \<Longrightarrow> keys_ok t \<Longrightarrow> keys_ok t'"
  by (induction rule: rtranclp_induct) (auto intro: table_move_keys)

definition calm :: "job_table \<Rightarrow> bool" where
  "calm t = (\<forall>r \<in> set t. jr_status r = ''queued'' \<longrightarrow> \<not> jr_cancel_requested r)"

lemma row_move_calm:
  "row_move cd r r' \<Longrightarrow> (jr_status r = ''queued'' \<longrightarrow> \<not> jr_cancel_requested r)
   \<Longrightarrow> jr_status r' = ''queued'' \<longrightarrow> \<not> jr_cancel_requested r'"
  by (induction rule: row_move.induct) (auto simp: outcome_ok_def split: if_splits)

lemma table_move_calm: "table_move cd pending bytes new t t' \<Longrightarrow> calm t \<Longrightarrow> calm t'"
proof (induction rule: table_move.induct)
  case (table_advance t t')
  show ?case unfolding calm_def
  proof (intro ballI)
    fix r' assume "r' \<in> set t'"
    from advance_source [OF table_advance(1) this] obtain r where "r \<in> set t" "row_move cd r r'" by (elim bexE)
    then show "jr_status r' = ''queued'' \<longrightarrow> \<not> jr_cancel_requested r'"
      using row_move_calm table_advance(2) unfolding calm_def by blast
  qed
qed (auto simp: calm_def queued_row_def)

lemma moves_calm: "env_moves env new t t' \<Longrightarrow> calm t \<Longrightarrow> calm t'"
  by (induction rule: rtranclp_induct) (auto intro: table_move_calm)

section \<open>Every job has its task\<close>

definition waits :: "worker_phase \<Rightarrow> bool" where
  "waits p = (p = Worker_Scheduled \<or> p = Worker_Permitted)"

definition works :: "worker_phase \<Rightarrow> bool" where
  "works p =
     (case p of
        Worker_Claimed \<Rightarrow> True | Worker_Registered _ \<Rightarrow> True | Worker_Executing _ _ _ \<Rightarrow> True
      | Worker_Executed _ _ \<Rightarrow> True | Worker_Released _ _ \<Rightarrow> True | Worker_Ended (Inl _) \<Rightarrow> True | _ \<Rightarrow> False)"

text \<open>A worker at work, without the end in a database error that \<open>works\<close> counts as well.\<close>

definition at_work :: "worker_phase \<Rightarrow> bool" where
  "at_work p =
     (case p of
        Worker_Claimed \<Rightarrow> True | Worker_Registered _ \<Rightarrow> True | Worker_Executing _ _ _ \<Rightarrow> True
      | Worker_Executed _ _ \<Rightarrow> True | Worker_Released _ _ \<Rightarrow> True | _ \<Rightarrow> False)"

lemma works_at_work: "works p \<longleftrightarrow> at_work p \<or> (\<exists>e. p = Worker_Ended (Inl e))"
  by (auto simp: works_def at_work_def split: worker_phase.splits sum.splits)

definition gave_up :: "bool \<Rightarrow> worker_phase \<Rightarrow> bool" where
  "gave_up shutdown p = (case p of Worker_Ended (Inl _) \<Rightarrow> True | Worker_Ended (Inr _) \<Rightarrow> shutdown | _ \<Rightarrow> False)"

text \<open>A submission in progress that will schedule its job, and one that failed or was dropped before.\<close>

definition about_to_schedule :: "submit_phase \<Rightarrow> bool" where
  "about_to_schedule p = (case p of Submit_Written _ created \<Rightarrow> created | _ \<Rightarrow> False)"

definition broken_off :: "submit_phase \<Rightarrow> bool" where
  "broken_off p = (case p of Submit_Replied (Inl _) \<Rightarrow> True | Submit_Dropped created \<Rightarrow> created | _ \<Rightarrow> False)"

definition will_schedule :: "submit_phase \<Rightarrow> bool" where
  "will_schedule p = (about_to_schedule p \<or> broken_off p)"

lemmas submit_views = will_schedule_def about_to_schedule_def broken_off_def

definition queued_accounted :: "(string \<times> string) set \<Rightarrow> job_manager \<Rightarrow> string \<times> string \<Rightarrow> bool" where
  "queued_accounted left m k =
     (k \<in> left
      \<or> (\<exists>w \<in> set (mg_workers m). wk_key w = k \<and> (waits (wk_phase w) \<or> gave_up (mg_shutdown m) (wk_phase w)))
      \<or> (\<exists>s \<in> set (mg_submitters m). (sw_scope s, sw_id s) = k \<and> will_schedule (sw_phase s)))"

definition running_accounted :: "job_manager \<Rightarrow> string \<times> string \<Rightarrow> bool" where
  "running_accounted m k = (\<exists>w \<in> set (mg_workers m). wk_key w = k \<and> works (wk_phase w))"

definition accounted :: "(string \<times> string) set \<Rightarrow> job_manager \<Rightarrow> bool" where
  "accounted left m =
     (calm (mg_table m)
      \<and> (\<forall>r \<in> set (mg_table m). (jr_status r = ''queued'' \<longrightarrow> queued_accounted left m (row_key r))
           \<and> (jr_status r = ''running'' \<longrightarrow> running_accounted m (row_key r))))"

lemma accountedI:
  assumes old: "accounted left m" and calm: "calm (mg_table m')"
    and rows: "\<And>r'. r' \<in> set (mg_table m') \<Longrightarrow> row_active r' \<Longrightarrow>
      (\<exists>r \<in> set (mg_table m). same_active r r')
        \<and> (jr_status r' = ''queued'' \<longrightarrow> queued_accounted left m (row_key r') \<longrightarrow> queued_accounted left m' (row_key r'))
        \<and> (jr_status r' = ''running'' \<longrightarrow> running_accounted m (row_key r') \<longrightarrow> running_accounted m' (row_key r'))
      \<or> (jr_status r' = ''queued'' \<longrightarrow> queued_accounted left m' (row_key r'))
        \<and> (jr_status r' = ''running'' \<longrightarrow> running_accounted m' (row_key r'))"
  shows "accounted left m'"
  unfolding accounted_def
proof (intro conjI ballI calm)
  fix r' assume r': "r' \<in> set (mg_table m')"
  have "queued_accounted left m' (row_key r')" if "jr_status r' = ''queued''"
    using rows [OF r'] that old by (fastforce simp: accounted_def activity)
  moreover have "running_accounted m' (row_key r')" if "jr_status r' = ''running''"
    using rows [OF r'] that old by (fastforce simp: accounted_def activity)
  ultimately show "jr_status r' = ''queued'' \<longrightarrow> queued_accounted left m' (row_key r')"
    "jr_status r' = ''running'' \<longrightarrow> running_accounted m' (row_key r')" by blast+
qed

text \<open>No task is lost and no job newly waits or runs.\<close>

lemma acc_tasks:
  assumes "accounted left m" "calm (mg_table m')" "quiet (mg_table m) (mg_table m')"
    and workers: "set (mg_workers m) \<subseteq> set (mg_workers m')"
    and submitters: "\<And>s. s \<in> set (mg_submitters m) \<Longrightarrow> will_schedule (sw_phase s) \<Longrightarrow>
      queued_accounted left m' (sw_scope s, sw_id s)"
    and shutdown: "mg_shutdown m \<longrightarrow> mg_shutdown m'"
  shows "accounted left m'"
proof (rule accountedI [OF assms(1,2)], rule disjI1, intro conjI impI)
  fix r' assume r': "r' \<in> set (mg_table m')" "row_active r'"
  then show "\<exists>r \<in> set (mg_table m). same_active r r'" using assms(3) by (simp add: quiet_def)
next
  fix k assume "running_accounted m k"
  then show "running_accounted m' k" using workers by (auto simp: running_accounted_def)
next
  have gave: "gave_up (mg_shutdown m') p" if "gave_up (mg_shutdown m) p" for p
    using that shutdown by (auto simp: gave_up_def split: worker_phase.splits sum.splits)
  fix k assume "queued_accounted left m k"
  then consider "k \<in> left" | w where "w \<in> set (mg_workers m)" "wk_key w = k"
      "waits (wk_phase w) \<or> gave_up (mg_shutdown m) (wk_phase w)"
    | s where "s \<in> set (mg_submitters m)" "(sw_scope s, sw_id s) = k" "will_schedule (sw_phase s)"
    unfolding queued_accounted_def by blast
  then show "queued_accounted left m' k"
  proof cases
    case 2
    then show ?thesis using workers gave unfolding queued_accounted_def by blast
  next
    case 3
    then show ?thesis using submitters by blast
  qed (simp add: queued_accounted_def)
qed

text \<open>A worker goes on.\<close>

lemma acc_worker:
  assumes acc: "accounted left m" and at: "worker_at m i w" and calm: "calm (mg_table m')"
    and m': "mg_workers m' = (mg_workers m)[i := w\<lparr>wk_phase := p\<rparr>]" "mg_submitters m' = mg_submitters m"
      "mg_shutdown m' = mg_shutdown m"
    and rows: "\<And>r'. r' \<in> set (mg_table m') \<Longrightarrow> row_active r' \<Longrightarrow>
      (\<exists>r \<in> set (mg_table m). same_active r r') \<or> row_key r' = wk_key w \<and> jr_status r' = ''running'' \<and> works p"
    and queued: "waits (wk_phase w) \<or> gave_up (mg_shutdown m) (wk_phase w) \<Longrightarrow>
      waits p \<or> gave_up (mg_shutdown m) p
        \<or> (\<forall>r' \<in> set (mg_table m'). row_key r' = wk_key w \<longrightarrow> jr_status r' \<noteq> ''queued'')"
    and running: "works (wk_phase w) \<Longrightarrow>
      works p \<or> (\<forall>r' \<in> set (mg_table m'). row_key r' = wk_key w \<longrightarrow> jr_status r' \<noteq> ''running'')"
  shows "accounted left m'"
proof (rule accountedI [OF acc calm])
  have i: "i < length (mg_workers m)" "mg_workers m ! i = w" using at by (simp_all add: worker_at_def)
  have new: "w\<lparr>wk_phase := p\<rparr> \<in> set (mg_workers m')" using i by (simp add: m' set_update_memI)
  have kept: "v = w \<or> v \<in> set (mg_workers m')" if "v \<in> set (mg_workers m)" for v
    using that i by (auto simp: m' in_set_conv_nth nth_list_update)
  fix r' assume r': "r' \<in> set (mg_table m')" "row_active r'"
  have q: "queued_accounted left m' (row_key r')" if status: "jr_status r' = ''queued''" and old: "queued_accounted left m (row_key r')"
  proof -
    from old consider "row_key r' \<in> left"
      | v where "v \<in> set (mg_workers m)" "wk_key v = row_key r'" "waits (wk_phase v) \<or> gave_up (mg_shutdown m) (wk_phase v)"
      | s where "s \<in> set (mg_submitters m)" "(sw_scope s, sw_id s) = row_key r'" "will_schedule (sw_phase s)"
      unfolding queued_accounted_def by blast
    then show ?thesis
    proof cases
      case 2
      show ?thesis
      proof (cases "v = w")
        case True
        then have "waits p \<or> gave_up (mg_shutdown m') p" using queued 2 r'(1) status by (auto simp: m')
        then show ?thesis using new True 2(2) unfolding queued_accounted_def
          by (intro disjI2 disjI1) (rule bexI [OF _ new], simp)
      next
        case False
        then show ?thesis using kept [OF 2(1)] 2 m'(3) unfolding queued_accounted_def by auto
      qed
    qed (simp_all add: queued_accounted_def m' bexI)
  qed
  have r: "running_accounted m' (row_key r')" if status: "jr_status r' = ''running''" and old: "running_accounted m (row_key r')"
  proof -
    from old obtain v where v: "v \<in> set (mg_workers m)" "wk_key v = row_key r'" "works (wk_phase v)"
      unfolding running_accounted_def by blast
    show ?thesis
    proof (cases "v = w")
      case True
      then have "works p" using running v r'(1) status by auto
      then show ?thesis using True v(2) unfolding running_accounted_def by (intro bexI [OF _ new]) simp
    next
      case False
      then show ?thesis using kept [OF v(1)] v unfolding running_accounted_def by blast
    qed
  qed
  have "running_accounted m' (wk_key w)" if "works p"
    using that unfolding running_accounted_def by (intro bexI [OF _ new]) simp
  with rows [OF r'] q r show "(\<exists>r \<in> set (mg_table m). same_active r r')
        \<and> (jr_status r' = ''queued'' \<longrightarrow> queued_accounted left m (row_key r') \<longrightarrow> queued_accounted left m' (row_key r'))
        \<and> (jr_status r' = ''running'' \<longrightarrow> running_accounted m (row_key r') \<longrightarrow> running_accounted m' (row_key r'))
      \<or> (jr_status r' = ''queued'' \<longrightarrow> queued_accounted left m' (row_key r'))
        \<and> (jr_status r' = ''running'' \<longrightarrow> running_accounted m' (row_key r'))"
    by auto
qed

text \<open>A worker goes on without waiting or running any more or less, and makes no job wait or run.\<close>

lemma acc_phase:
  assumes "accounted left m" "worker_at m i w" "calm (mg_table m')" "quiet (mg_table m) (mg_table m')"
    and "mg_workers m' = (mg_workers m)[i := w\<lparr>wk_phase := p\<rparr>]" "mg_submitters m' = mg_submitters m"
      "mg_shutdown m' = mg_shutdown m"
    and "waits (wk_phase w) \<or> gave_up (mg_shutdown m) (wk_phase w) \<Longrightarrow> waits p \<or> gave_up (mg_shutdown m) p"
    and "works (wk_phase w) \<Longrightarrow> works p"
  shows "accounted left m'"
  by (rule acc_worker [OF assms(1-3,5-7)]) (use assms(4,8,9) in \<open>auto simp: quiet_def\<close>)

lemma accounted_calm: "accounted left m \<Longrightarrow> calm (mg_table m)"
  by (simp add: accounted_def)

lemma accounted_fields:
  assumes "accounted left m" "mg_table m' = mg_table m" "mg_workers m' = mg_workers m"
    "mg_submitters m' = mg_submitters m" "mg_shutdown m' = mg_shutdown m"
  shows "accounted left m'"
  using assms by (simp add: accounted_def queued_accounted_def running_accounted_def)

lemmas phase_views = waits_def works_def gave_up_def

lemma step_calm:
  assumes "accounted left m" "keys_ok (mg_table m)"
  shows "calm (mg_table (manager_step env e m))"
  by (rule moves_calm [OF step_moves [OF assms(2)] accounted_calm [OF assms(1)]])

lemma create_table:
  obtains "snd (create_call io cd scope jid request now pending bytes t) = t"
  | nj where "snd (create_call io cd scope jid request now pending bytes t) = t @ [queued_row nj]"
      "nj_id nj = jid" "nj_scope nj = scope"
      "fst (create_call io cd scope jid request now pending bytes t) = Inr (Create_Created jid)"
proof (cases "prepare_job cd scope jid request now")
  case (Inl e)
  then show ?thesis using that(1) by (simp add: create_call_def)
next
  case (Inr nj)
  note nj = prepared_row(3,4) [OF Inr]
  show ?thesis
  proof (cases "fst (create_call io cd scope jid request now pending bytes t) = Inr (Create_Created jid)")
    case True
    from created_row [OF this] show ?thesis using that(2) [of nj] nj Inr True by auto
  next
    case False
    then show ?thesis using that(1) nj(1)
      by (auto simp: create_call_def Inr db_call_def insert_job_def split: if_splits option.splits)
  qed
qed

lemma acc_submit_write:
  assumes acc: "accounted left m" and calm: "calm (mg_table (submit_write env scope request jid now io m))"
  shows "accounted left (submit_write env scope request jid now io m)"
proof (cases "admit_submission env request m")
  case (Inl e)
  then show ?thesis
    by (intro acc_tasks [OF acc calm])
      (auto simp: submit_write_def reply_submission_def quiet_refl queued_accounted_def)
next
  case (Inr q)
  let ?call = "create_call io (me_jobs env) scope jid q now (ks_max_pending (me_settings env))
      (ks_max_database_bytes (me_settings env)) (mg_table m)"
  let ?m = "submit_write env scope request jid now io m"
  have fields: "mg_table ?m = snd ?call" "mg_workers ?m = mg_workers m" "mg_shutdown ?m = mg_shutdown m"
    "set (mg_submitters m) \<subseteq> set (mg_submitters ?m)"
    by (auto simp: submit_write_def Inr reply_submission_def split: prod.split sum.split)
  have kept: "queued_accounted left m k \<Longrightarrow> queued_accounted left ?m k"
    "running_accounted m k = running_accounted ?m k" for k
    using fields(2-4) by (auto simp: queued_accounted_def running_accounted_def)
  show ?thesis
  proof (cases rule: create_table [of io "me_jobs env" scope jid q now "ks_max_pending (me_settings env)"
        "ks_max_database_bytes (me_settings env)" "mg_table m"])
    case 1
    then show ?thesis using kept
      by (intro accountedI [OF acc calm]) (auto simp: fields same_active_def)
  next
    case (2 nj)
    then have "\<lparr>sw_scope = scope, sw_id = jid, sw_phase = Submit_Written jid True\<rparr> \<in> set (mg_submitters ?m)"
      by (auto simp: submit_write_def Inr reply_submission_def submitted_def split: prod.split)
    then have new: "queued_accounted left ?m (scope, jid)"
      by (force simp: queued_accounted_def submit_views)
    show ?thesis
    proof (rule accountedI [OF acc calm], goal_cases)
      case (1 r')
      then show ?case using 2(1-3) new kept by (auto simp: fields same_active_def row_key_def queued_row_def)
    qed
  qed
qed

lemma acc_submit_read:
  assumes acc: "accounted left m" and calm: "calm (mg_table (submit_read env k io m))"
  shows "accounted left (submit_read env k io m)"
proof (cases "k < length (mg_submitters m)")
  case k: True
  let ?s = "mg_submitters m ! k"
  let ?m = "submit_read env k io m"
  have fields: "mg_table ?m = mg_table m" "mg_shutdown ?m = mg_shutdown m" "set (mg_workers m) \<subseteq> set (mg_workers ?m)"
    by (auto simp: submit_read_def Let_def schedule_def split: submit_phase.split sum.split)
  have others: "s = ?s \<or> s \<in> set (mg_submitters ?m)" if "s \<in> set (mg_submitters m)" for s
    using that k by (auto simp: submit_read_def Let_def schedule_def in_set_conv_nth nth_list_update
        split: submit_phase.split sum.split)
  have this_one: "queued_accounted left ?m (sw_scope ?s, sw_id ?s)" if will: "will_schedule (sw_phase ?s)"
  proof (cases "sw_phase ?s")
    case (Submit_Replied r)
    then have "?m = m" using k by (simp add: submit_read_def Let_def)
    then show ?thesis using will k unfolding queued_accounted_def by (auto intro!: bexI [of _ ?s])
  next
    case (Submit_Dropped c)
    then have "?m = m" using k by (simp add: submit_read_def Let_def)
    then show ?thesis using will k unfolding queued_accounted_def by (auto intro!: bexI [of _ ?s])
  next
    case (Submit_Written l c)
    then have c using will by (simp add: submit_views)
    show ?thesis
    proof (cases "job_get io (me_jobs env) (sw_scope ?s) l (mg_table m)")
      case (Inl e)
      then have "?s\<lparr>sw_phase := Submit_Replied (Inl e)\<rparr> \<in> set (mg_submitters ?m)"
        using k Submit_Written by (simp add: submit_read_def Let_def set_update_memI)
      then show ?thesis unfolding queued_accounted_def
        by (intro disjI2) (rule bexI, simp_all add: submit_views)
    next
      case (Inr job)
      then have "\<lparr>wk_scope = sw_scope ?s, wk_id = sw_id ?s, wk_phase = Worker_Scheduled\<rparr> \<in> set (mg_workers ?m)"
        using k Submit_Written \<open>c\<close> by (simp add: submit_read_def Let_def schedule_def)
      then show ?thesis unfolding queued_accounted_def
        by (intro disjI2 disjI1) (rule bexI, simp_all add: waits_def wk_key_def)
    qed
  qed
  show ?thesis
  proof (rule acc_tasks [OF acc calm])
    fix s assume s: "s \<in> set (mg_submitters m)" "will_schedule (sw_phase s)"
    then show "queued_accounted left ?m (sw_scope s, sw_id s)"
      using others [OF s(1)] this_one by (auto simp: queued_accounted_def)
  qed (use fields in \<open>simp_all add: quiet_refl\<close>)
qed (use acc in \<open>simp add: submit_read_def\<close>)

lemma acc_submit_drop:
  assumes acc: "accounted left m" and calm: "calm (mg_table (submit_drop k m))"
  shows "accounted left (submit_drop k m)"
proof (cases "k < length (mg_submitters m)")
  case k: True
  let ?s = "mg_submitters m ! k"
  let ?m = "submit_drop k m"
  have fields: "mg_table ?m = mg_table m" "mg_shutdown ?m = mg_shutdown m" "mg_workers ?m = mg_workers m"
    by (auto simp: submit_drop_def Let_def split: submit_phase.split)
  have others: "\<exists>s' \<in> set (mg_submitters ?m). (sw_scope s', sw_id s') = (sw_scope s, sw_id s) \<and> will_schedule (sw_phase s')"
    if s: "s \<in> set (mg_submitters m)" "will_schedule (sw_phase s)" for s
  proof (cases "s = ?s")
    case True
    show ?thesis
    proof (cases "sw_phase ?s")
      case (Submit_Written l c)
      then have "?s\<lparr>sw_phase := Submit_Dropped c\<rparr> \<in> set (mg_submitters ?m)"
        using k by (simp add: submit_drop_def Let_def set_update_memI)
      then show ?thesis using s(2) Submit_Written True by (intro bexI) (simp_all add: submit_views)
    qed (use s k True in \<open>auto simp: submit_drop_def Let_def intro!: bexI [of _ s]\<close>)
  next
    case False
    then have "s \<in> set (mg_submitters ?m)"
      using s(1) k by (auto simp: submit_drop_def Let_def in_set_conv_nth nth_list_update split: submit_phase.split)
    then show ?thesis using s(2) by blast
  qed
  show ?thesis
  proof (rule acc_tasks [OF acc calm])
    fix s assume "s \<in> set (mg_submitters m)" "will_schedule (sw_phase s)"
    then show "queued_accounted left ?m (sw_scope s, sw_id s)"
      using others unfolding queued_accounted_def by blast
  qed (use fields in \<open>simp_all add: quiet_refl\<close>)
qed (use acc in \<open>simp add: submit_drop_def\<close>)

lemma acc_acquire:
  assumes acc: "accounted left m" and at: "worker_at m i w" and phase: "wk_phase w = Worker_Scheduled"
  shows "accounted left (worker_acquire i ready m)"
proof -
  have phase_change: "accounted left (set_worker i p (m\<lparr>mg_permits := n\<rparr>))"
    if "waits p \<or> gave_up (mg_shutdown m) p" for p n
    by (rule acc_phase [OF acc at, where p = p])
      (use that accounted_calm [OF acc] phase in
        \<open>simp_all add: quiet_refl set_worker_at [OF at] works_def\<close>)
  show ?thesis using phase_change [of Worker_Permitted "mg_permits m - 1"]
      phase_change [of "Worker_Ended (Inl (error_new Internal ''durable job worker pool closed''))" "mg_permits m"]
      phase_change [of "Worker_Ended (Inr ())" "mg_permits m"] acc
    by (cases ready) (simp_all add: worker_acquire_def waits_def gave_up_def)
qed

lemma key_owned: "row_key r = wk_key w \<longleftrightarrow> owned_by (wk_scope w) (wk_id w) r"
  by (auto simp: row_key_def wk_key_def owned_by_def)

lemma claimable_key: "claimable s i r \<Longrightarrow> row_key r = (s, i)"
  by (simp add: claimable_def owned_by_def row_key_def)

lemma one_claimable:
  assumes "keys_ok t" "r \<in> set t" "claimable s i r"
  shows "length (filter (claimable s i) t) = 1"
proof -
  have "distinct (filter (claimable s i) t)" using assms(1) by (simp add: keys_ok_def distinct_map)
  moreover have "set (filter (claimable s i) t) = {r}"
    using assms by (auto simp: keys_ok_def distinct_map inj_on_def claimable_def owned_by_def)
  ultimately show ?thesis by (metis distinct_card card_1_singleton_iff One_nat_def)
qed

lemma acc_claim:
  assumes acc: "accounted left m" and keys: "keys_ok (mg_table m)" and at: "worker_at m i w"
    and phase: "wk_phase w = Worker_Permitted" and calm: "calm (mg_table (worker_claim i w now io m))"
  shows "accounted left (worker_claim i w now io m)"
proof -
  obtain r t where r: "job_claim io (wk_scope w) (wk_id w) now (mg_table m) = (r, t)" by fastforce
  let ?p = "case r of Inl e \<Rightarrow> Worker_Ended (Inl e) | Inr c \<Rightarrow> if c then Worker_Claimed else Worker_Ended (Inr ())"
  let ?m = "m\<lparr>mg_table := t, mg_permits := mg_permits m + (if r = Inr True then 0 else 1)\<rparr>"
  have m': "worker_claim i w now io m = set_worker i ?p ?m"
    by (auto simp: worker_claim_def r release_worker_permit_def split: sum.split)
  have t: "calm t" using calm by (simp add: m')
  show ?thesis
  proof (cases r)
    case (Inl e)
    then have "t = mg_table m" using claim_error_table r by blast
    then show ?thesis unfolding m'
      by (intro acc_phase [OF acc at, where p = ?p])
        (use t Inl in \<open>simp_all add: quiet_refl set_worker_at [OF at] phase_views\<close>)
  next
    case (Inr b)
    have unclaimed: "t = mg_table m \<and> (\<forall>r \<in> set t. \<not> claimable (wk_scope w) (wk_id w) r)" if "\<not> b"
    proof -
      obtain f where f: "b \<longleftrightarrow> length (filter (claimable (wk_scope w) (wk_id w)) (mg_table m)) = 1"
        "t = map (\<lambda>r. if claimable (wk_scope w) (wk_id w) r then f r else r) (mg_table m)"
        using claim_result [OF r [unfolded Inr]] by blast
      then have "\<forall>r \<in> set (mg_table m). \<not> claimable (wk_scope w) (wk_id w) r"
        using one_claimable [OF keys] that by blast
      with f(2) show ?thesis by (simp add: map_idI)
    qed
    have claimed: "all_running (wk_scope w) (wk_id w) t" if b
      using claimed_all_running [OF keys, of io "wk_scope w" "wk_id w" now t] r Inr that by simp
    have others: "\<exists>q \<in> set (mg_table m). same_active q r'"
      if "r' \<in> set t" "row_key r' \<noteq> wk_key w" for r'
    proof -
      obtain f where "t = map (\<lambda>r. if claimable (wk_scope w) (wk_id w) r then f r else r) (mg_table m)"
        and f: "\<And>q. row_key (f q) = row_key q"
        using claim_result [OF r [unfolded Inr]] by blast
      with that(1) obtain q where q: "q \<in> set (mg_table m)" "r' = (if claimable (wk_scope w) (wk_id w) q then f q else q)"
        by auto
      then have "\<not> claimable (wk_scope w) (wk_id w) q"
        using that(2) f [of q] claimable_key [of "wk_scope w" "wk_id w" q] by (auto simp: wk_key_def)
      then show ?thesis using q by (auto simp: same_active_def)
    qed
    show ?thesis unfolding m'
    proof (rule acc_worker [OF acc at, where p = ?p])
      fix r' assume r': "r' \<in> set (mg_table (set_worker i ?p ?m))" "row_active r'"
      show "(\<exists>r \<in> set (mg_table m). same_active r r') \<or> row_key r' = wk_key w \<and> jr_status r' = ''running'' \<and> works ?p"
      proof (cases b)
        case True
        note claimed = claimed [OF True]
        from claimed show ?thesis using others r' True by (auto simp: all_running_def key_owned Inr works_def)
      next
        case False
        then show ?thesis using unclaimed r'(1) by (auto simp: same_active_def)
      qed
    next
      show "waits ?p \<or> gave_up (mg_shutdown m) ?p \<or> (\<forall>r' \<in> set (mg_table (set_worker i ?p ?m)).
          row_key r' = wk_key w \<longrightarrow> jr_status r' \<noteq> ''queued'')"
      proof (cases b)
        case True
        note claimed = claimed [OF True]
        from claimed show ?thesis by (auto simp: all_running_def key_owned)
      next
        case False
        then show ?thesis using unclaimed t by (auto simp: key_owned claimable_def calm_def)
      qed
    qed (use t phase in \<open>simp_all add: set_worker_at [OF at] phase_views\<close>)
  qed
qed

lemma acc_register:
  assumes "accounted left m" "worker_at m i w" "wk_phase w = Worker_Claimed"
  shows "accounted left (worker_register i w m)"
  unfolding worker_register_def
  by (rule acc_phase [OF assms(1,2), where p = "Worker_Registered (mg_next_token m)"])
    (use assms accounted_calm [OF assms(1)] in \<open>simp_all add: quiet_refl set_worker_at [OF assms(2)] phase_views\<close>)

lemma acc_read:
  assumes acc: "accounted left m" and at: "worker_at m i w" and phase: "wk_phase w = Worker_Registered token"
  shows "accounted left (worker_read env i w token io m)"
proof -
  have change: "accounted left (set_worker i p m')"
    if "works p" "mg_table m' = mg_table m" "mg_workers m' = mg_workers m" "mg_submitters m' = mg_submitters m"
      "mg_shutdown m' = mg_shutdown m" for p m'
    by (rule acc_phase [OF acc at, where p = p])
      (use that accounted_calm [OF acc] phase in
        \<open>simp_all add: quiet_refl set_worker_at [OF at that(3)] waits_def gave_up_def\<close>)
  show ?thesis unfolding worker_read_def
    by (auto simp: cancel_token_def works_def intro!: change split: sum.split)
qed

lemma acc_provider:
  assumes acc: "accounted left m" and at: "worker_at m i w"
    and phase: "wk_phase w = Worker_Executing token request partials"
    and calm: "calm (mg_table (handle_job_event env i w token request partials event now io m))"
  shows "accounted left (handle_job_event env i w token request partials event now io m)"
proof -
  let ?m = "handle_job_event env i w token request partials event now io m"
  have w: "(mg_workers m)[i := w\<lparr>wk_phase := Worker_Executing token request partials\<rparr>] = mg_workers m"
    using at phase by (cases w) (auto simp: worker_at_def list_update_same_conv)
  have "\<exists>p. mg_workers ?m = (mg_workers m)[i := w\<lparr>wk_phase := p\<rparr>] \<and> works p"
  proof (cases event)
    case (Event_Partial_Image a b c)
    show ?thesis
      by (rule exI [of _ "Worker_Executing token request (sat_add partials 1)"])
        (simp add: handle_job_event_def Event_Partial_Image Let_def set_worker_at [OF at] store_progress_def works_def
          split: sum.split)
  qed (rule exI [of _ "Worker_Executing token request partials"],
      simp add: handle_job_event_def Let_def store_progress_def w works_def)+
  then obtain p where p: "mg_workers ?m = (mg_workers m)[i := w\<lparr>wk_phase := p\<rparr>]" "works p" by blast
  have "quiet (mg_table m) (mg_table ?m)"
    using provider_table [of env i w token request partials event now io m]
    by (elim disjE exE) (simp_all add: quiet_refl quiet_progress)
  then show ?thesis
    by (intro acc_phase [OF acc at calm _ p(1)])
      (use p(2) phase in \<open>simp_all add: waits_def gave_up_def handle_job_event_def Let_def store_progress_def
        split: provider_event.split sum.split\<close>)
qed

lemma acc_result:
  assumes "accounted left m" "worker_at m i w" "wk_phase w = Worker_Executing token request partials"
  shows "accounted left (set_worker i (Worker_Executed token r) m)"
  by (rule acc_phase [OF assms(1,2), where p = "Worker_Executed token r"])
    (use assms accounted_calm [OF assms(1)] in \<open>simp_all add: quiet_refl set_worker_at [OF assms(2)] phase_views\<close>)

lemma acc_release:
  assumes "accounted left m" "worker_at m i w" "wk_phase w = Worker_Executed token r"
  shows "accounted left (worker_release i w token r m)"
  unfolding worker_release_def release_worker_permit_def
  by (rule acc_phase [OF assms(1,2), where p = "Worker_Released token r"])
    (use assms accounted_calm [OF assms(1)] in \<open>simp_all add: quiet_refl set_worker_at [OF assms(2)] phase_views\<close>)

lemma finish_result:
  assumes "job_finish io s i status response error now t = (Inr u, t')" "status \<noteq> Job_Running"
  shows "\<forall>r \<in> set t'. owned_by s i r \<longrightarrow> jr_status r \<noteq> ''running''"
proof -
  obtain n where n: "to_i64 now = Inr n" "validate_auth_scope s = Inr ()" io
    using assms(1) by (cases "validate_auth_scope s"; cases "to_i64 now"; cases io) (simp_all add: job_finish_def db_call_def)
  have "job_status_name status \<noteq> ''running''" using assms(2) by (cases status) (simp_all add: job_status_name_def)
  with assms(1) n show ?thesis
    by (auto simp: job_finish_def db_call_def sql_update_def Let_def split: if_splits)
qed

lemma settle_result:
  assumes "settle_job cd s i shutdown cancelled r now io now' io' t = (Inr u, t')"
  shows "\<forall>q \<in> set t'. owned_by s i q \<longrightarrow> jr_status q \<noteq> ''running''"
proof -
  have fail: "\<forall>q \<in> set t'. owned_by s i q \<longrightarrow> jr_status q \<noteq> ''running''"
    if "job_fail x cd s i status e y t0 = (Inr u, t')" "status \<noteq> Job_Running" for x status e y t0
    using that finish_result [of x s i status None _ y t0 u t']
    by (auto simp: job_fail_def checked_def split: sum.splits)
  have succeed: "\<forall>q \<in> set t'. owned_by s i q \<longrightarrow> jr_status q \<noteq> ''running''"
    if "job_succeed x cd s i response y t0 = (Inr u, t')" for x response y t0
    using that finish_result [of x s i Job_Succeeded _ None y t0 u t']
    by (auto simp: job_succeed_def checked_def split: sum.splits)
  show ?thesis using assms fail succeed
    by (auto simp: settle_job_def failure_status_def split: sum.splits prod.splits if_splits)
qed

lemma acc_settle:
  assumes acc: "accounted left m" and at: "worker_at m i w" and phase: "wk_phase w = Worker_Released token r"
    and calm: "calm (mg_table (worker_settle env i w token r now io now' io' m))"
  shows "accounted left (worker_settle env i w token r now io now' io' m)"
proof -
  obtain a t where a: "settle_job (me_jobs env) (wk_scope w) (wk_id w) (mg_shutdown m) (mg_tokens m token) r now io
      now' io' (mg_table m) = (a, t)" by fastforce
  let ?p = "case a of Inl e \<Rightarrow> Worker_Ended (Inl e) | Inr _ \<Rightarrow> Worker_Settled"
  have m': "worker_settle env i w token r now io now' io' m = set_worker i ?p (m\<lparr>mg_table := t\<rparr>)"
    by (simp add: worker_settle_def a split: sum.split)
  have q: "quiet (mg_table m) t"
    using quiet_settle [of "mg_table m" "me_jobs env" "wk_scope w" "wk_id w" "mg_shutdown m" "mg_tokens m token" r now io
        now' io'] a by simp
  show ?thesis unfolding m'
  proof (rule acc_worker [OF acc at, where p = ?p])
    show "works ?p \<or> (\<forall>r' \<in> set (mg_table (set_worker i ?p (m\<lparr>mg_table := t\<rparr>))). row_key r' = wk_key w \<longrightarrow>
        jr_status r' \<noteq> ''running'')"
      using settle_result [of "me_jobs env" "wk_scope w" "wk_id w" "mg_shutdown m" "mg_tokens m token" r now io now' io'
          "mg_table m" _ t] a by (cases a) (auto simp: works_def key_owned)
  qed (use q calm phase in \<open>simp_all add: m' quiet_def set_worker_at [OF at] waits_def gave_up_def\<close>)
qed

lemma acc_finish:
  assumes acc: "accounted left m" and at: "worker_at m i w" and phase: "wk_phase w = Worker_Settled"
    and r: "enforce_retention env now io m = (r, m')" and calm: "calm (mg_table m')"
  shows "accounted left (set_worker i (Worker_Ended r) m')"
proof -
  have fields: "mg_workers m' = mg_workers m" "mg_submitters m' = mg_submitters m" "mg_shutdown m' = mg_shutdown m"
    using r by (auto simp: enforce_retention_def Let_def split: prod.splits sum.splits)
  have "quiet (mg_table m) (mg_table m')"
    using retention_table [of env now io m] r quiet_prune by simp
  then show ?thesis
    by (intro acc_phase [OF acc at, where p = "Worker_Ended r"])
      (use calm phase in \<open>simp_all add: set_worker_at [OF at fields(1)] fields phase_views\<close>)
qed

lemma acc_on_worker:
  assumes "accounted left m" "\<And>w. worker_at m i w \<Longrightarrow> accounted left (f w m)"
  shows "accounted left (on_worker i f m)"
  using assms by (simp add: on_worker_def worker_at_nth)

lemma accounted_step:
  assumes acc: "accounted left m" and keys: "keys_ok (mg_table m)"
  shows "accounted left (manager_step env e m)"
proof -
  note calm = step_calm [OF acc keys, of env e]
  have same: "calm (mg_table m)" by (rule accounted_calm [OF acc])
  show ?thesis
  proof (cases e)
    case (Ev_Submit scope request jid now io)
    then show ?thesis using acc_submit_write [OF acc] calm by simp
  next
    case (Ev_Submit_Read k io)
    then show ?thesis using acc_submit_read [OF acc] calm by simp
  next
    case (Ev_Submit_Drop k)
    then show ?thesis using acc_submit_drop [OF acc] calm by simp
  next
    case (Ev_Cancel scope jid now io)
    have "quiet (mg_table m) (mg_table (cancel_write scope jid now io m))" by (simp add: cancel_write_table quiet_cancel)
    then show ?thesis
      by (intro acc_tasks [OF acc calm])
        (auto simp: Ev_Cancel cancel_write_def case_prod_beta Let_def queued_accounted_def)
  next
    case (Ev_Cancel_Read k io)
    then show ?thesis
      by (intro accounted_fields [OF acc])
        (simp_all add: cancel_read_def Let_def set_canceller_def split: cancel_phase.split sum.split)
  next
    case (Ev_Cancel_Signal k)
    then show ?thesis
      by (intro accounted_fields [OF acc])
        (simp_all add: cancel_signal_def Let_def set_canceller_def cancel_token_def split: cancel_phase.split option.split)
  next
    case (Ev_History scope jid favorite deleted now io)
    then show ?thesis using quiet_history
      by (intro acc_tasks [OF acc calm]) (auto simp: queued_accounted_def)
  next
    case (Ev_Retention now io)
    have "quiet (mg_table m) (mg_table (snd (enforce_retention env now io m)))" by (simp add: retention_table quiet_prune)
    moreover have "mg_workers (snd (enforce_retention env now io m)) = mg_workers m"
      "mg_submitters (snd (enforce_retention env now io m)) = mg_submitters m"
      "mg_shutdown (snd (enforce_retention env now io m)) = mg_shutdown m"
      by (simp_all add: enforce_retention_def Let_def split: prod.split sum.split)
    ultimately show ?thesis
      by (intro acc_tasks [OF acc calm]) (auto simp: Ev_Retention queued_accounted_def quiet_refl)
  next
    case Ev_Shutdown
    then show ?thesis
      by (intro acc_tasks [OF acc calm]) (auto simp: shutdown_begin_def queued_accounted_def quiet_refl)
  next
    case Ev_Drain_Expired
    then show ?thesis by (intro accounted_fields [OF acc]) (simp_all add: shutdown_expire_def)
  next
    case (Ev_Acquire i ready)
    then show ?thesis using acc acc_acquire by (auto intro!: acc_on_worker split: worker_phase.split)
  next
    case (Ev_Claim i now io)
    have "accounted left (case wk_phase w of Worker_Permitted \<Rightarrow> worker_claim i w now io m | _ \<Rightarrow> m)"
      if at: "worker_at m i w" for w
      using calm at acc_claim [OF acc keys at] acc
      by (auto simp: Ev_Claim on_worker_def worker_at_def split: worker_phase.split)
    then show ?thesis by (simp add: Ev_Claim acc_on_worker [OF acc])
  next
    case (Ev_Register i)
    then show ?thesis using acc acc_register by (auto intro!: acc_on_worker split: worker_phase.split)
  next
    case (Ev_Read i io)
    then show ?thesis using acc acc_read by (auto intro!: acc_on_worker split: worker_phase.split)
  next
    case (Ev_Provider i event now io)
    have "accounted left (case wk_phase w of Worker_Executing token request partials \<Rightarrow>
        handle_job_event env i w token request partials event now io m | _ \<Rightarrow> m)"
      if at: "worker_at m i w" for w
      using calm at acc_provider [OF acc at] acc
      by (auto simp: Ev_Provider on_worker_def worker_at_def split: worker_phase.split)
    then show ?thesis by (simp add: Ev_Provider acc_on_worker [OF acc])
  next
    case (Ev_Result i r)
    then show ?thesis using acc acc_result by (auto intro!: acc_on_worker split: worker_phase.split)
  next
    case (Ev_Release i)
    then show ?thesis using acc acc_release by (auto intro!: acc_on_worker split: worker_phase.split)
  next
    case (Ev_Settle i now io now' io')
    have "accounted left (case wk_phase w of Worker_Released token r \<Rightarrow>
        worker_settle env i w token r now io now' io' m | _ \<Rightarrow> m)"
      if at: "worker_at m i w" for w
      using calm at acc_settle [OF acc at] acc
      by (auto simp: Ev_Settle on_worker_def worker_at_def split: worker_phase.split)
    then show ?thesis by (simp add: Ev_Settle acc_on_worker [OF acc])
  next
    case (Ev_Finish i now io)
    have "accounted left (case wk_phase w of Worker_Settled \<Rightarrow>
        (case enforce_retention env now io m of (r, m') \<Rightarrow> set_worker i (Worker_Ended r) m') | _ \<Rightarrow> m)"
      if at: "worker_at m i w" for w
      using calm at acc_finish [OF acc at] acc
      by (auto simp: Ev_Finish on_worker_def worker_at_def split: worker_phase.split prod.split)
    then show ?thesis by (simp add: Ev_Finish acc_on_worker [OF acc])
  qed
qed

lemma accounted_run:
  assumes "manager_inv used running m" "fresh_events used evs" "accounted left m"
  shows "accounted left (manager_run env evs m)"
  using assms
proof (induction evs arbitrary: used m)
  case (Cons e es)
  have "accounted left (manager_step env e m)"
    by (rule accounted_step [OF Cons.prems(3) manager_invD(1) [OF Cons.prems(1)]])
  then show ?case
    using Cons.IH [of "used \<union> event_ids e"] inv_step [OF Cons.prems(1)] Cons.prems(2) by simp
qed simp

lemma recovered_running:
  assumes "recover_interrupted io cd now t = (Inr n, t')" "r \<in> set t'"
  shows "jr_status r \<noteq> ''running''"
proof -
  obtain k e where "to_i64 now = Inr k" "jc_encode_error cd recovery_error = Some e" io
    using assms(1) by (cases "to_i64 now"; cases "jc_encode_error cd recovery_error"; cases io)
      (simp_all add: recover_interrupted_def db_call_def)
  then show ?thesis using assms by (auto simp: recover_interrupted_def db_call_def sql_update_def Let_def)
qed

text \<open>The queued rows that \<open>open\<close> does not schedule: those beyond the oldest \<open>max_pending\<close>.\<close>

definition left_at_open :: "manager_env \<Rightarrow> job_manager \<Rightarrow> (string \<times> string) set" where
  "left_at_open env m =
     row_key ` set (drop (nat (i64_limit (ks_max_pending (me_settings env))))
       (oldest_first (filter (\<lambda>r. jr_status r = ''queued'') (mg_table m))))"

lemma accounted_open:
  assumes "manager_open env io1 now1 io2 now2 io3 t = Inr m" "keys_ok t" "calm t"
  shows "accounted (left_at_open env m) m"
proof -
  let ?s = "me_settings env"
  obtain n t1 d t2 qs where t1: "recover_interrupted io1 (me_jobs env) now1 t = (Inr n, t1)"
    and t2: "job_prune io2 now2 (ks_retention_secs ?s) (ks_max_retained ?s) (ks_max_retained_bytes ?s) t1 = (Inr d, t2)"
    and qs: "queued_identities io3 (ks_max_pending ?s) t2 = Inr qs"
    and m: "m = \<lparr>mg_table = t2, mg_permits = ks_max_running ?s, mg_shutdown = False,
         mg_active = Map.empty, mg_tokens = (\<lambda>_. False), mg_next_token = 0, mg_partials = Map.empty,
         mg_healthy = True,
         mg_workers = map (\<lambda>(s, i). \<lparr>wk_scope = s, wk_id = i, wk_phase = Worker_Scheduled\<rparr>) qs,
         mg_submitters = [], mg_cancellers = []\<rparr>"
    using manager_opened [OF assms(1)] by (elim exE conjE) (rule that)
  have move1: "table_move (me_jobs env) 0 0 {} t t1" using recover_moves t1 by (metis snd_conv)
  then have keys1: "keys_ok t1" by (rule table_move_keys [OF _ assms(2)])
  have move2: "table_move (me_jobs env) 0 0 {} t1 t2" using prune_moves [OF keys1] t2 by (metis snd_conv)
  have calm: "calm t2" by (rule table_move_calm [OF move2 table_move_calm [OF move1 assms(3)]])
  have quiet: "quiet t1 t2" using quiet_prune t2 by (metis snd_conv)
  have idle: "jr_status r \<noteq> ''running''" if "r \<in> set t2" for r
    using quiet that recovered_running [OF t1] by (auto simp: quiet_def activity)
  let ?q = "filter (\<lambda>r. jr_status r = ''queued'') t2"
  have "queued_accounted (left_at_open env m) m (row_key r)" if r: "r \<in> set t2" "jr_status r = ''queued''" for r
  proof (cases "row_key r \<in> left_at_open env m")
    case False
    let ?n = "nat (i64_limit (ks_max_pending ?s))"
    have "r \<in> set (oldest_first ?q)" using r by (simp add: oldest_first_def)
    then have "r \<in> set (take ?n (oldest_first ?q)) \<union> set (drop ?n (oldest_first ?q))"
      by (metis append_take_drop_id set_append)
    with False have "r \<in> set (take ?n (oldest_first ?q))" by (auto simp: left_at_open_def m)
    moreover have "qs = map row_key (take ?n (oldest_first ?q))"
      using qs by (simp add: queued_identities_def row_key_def [abs_def] split: if_splits)
    ultimately have "row_key r \<in> set qs" by simp
    then have "\<lparr>wk_scope = fst (row_key r), wk_id = snd (row_key r), wk_phase = Worker_Scheduled\<rparr> \<in> set (mg_workers m)"
      by (force simp: m)
    then show ?thesis unfolding queued_accounted_def
      by (intro disjI2 disjI1) (rule bexI, simp_all add: waits_def wk_key_def)
  qed (simp add: queued_accounted_def)
  then show ?thesis using calm idle by (auto simp: accounted_def m)
qed

text \<open>C8. No job is forgotten, with the exceptions that follow: after a restart and any interleaving of
  submissions, dropped submissions, cancellations, retention runs and workers, every row that says queued has
  a worker that waits for it or a submission about to schedule it, unless it was left at the opening because
  more than \<open>max_pending\<close> older rows were queued, its submission failed or was dropped after the insertion,
  or its worker ended with an error or at shutdown; and every row that says running has a worker that works
  on it, or one that ended with an error of the database.\<close>

theorem every_job_has_a_task:
  assumes "manager_open env io1 now1 io2 now2 io3 t = Inr m0" and "keys_ok t" and "calm t"
    and "fresh_events (jr_id ` set (mg_table m0)) evs" and "m = manager_run env evs m0" and "r \<in> set (mg_table m)"
  shows "(jr_status r = ''queued'' \<longrightarrow>
        (\<exists>w \<in> set (mg_workers m). wk_key w = row_key r \<and> waits (wk_phase w))
        \<or> (\<exists>s \<in> set (mg_submitters m). (sw_scope s, sw_id s) = row_key r \<and> about_to_schedule (sw_phase s))
        \<or> row_key r \<in> left_at_open env m0
        \<or> (\<exists>s \<in> set (mg_submitters m). (sw_scope s, sw_id s) = row_key r \<and> broken_off (sw_phase s))
        \<or> (\<exists>w \<in> set (mg_workers m). wk_key w = row_key r \<and> gave_up (mg_shutdown m) (wk_phase w)))
    \<and> (jr_status r = ''running'' \<longrightarrow>
        (\<exists>w \<in> set (mg_workers m). wk_key w = row_key r
           \<and> (at_work (wk_phase w) \<or> (\<exists>e. wk_phase w = Worker_Ended (Inl e)))))"
proof -
  have "accounted (left_at_open env m0) m" unfolding assms(5)
    by (rule accounted_run [OF inv_open [OF assms(1,2)] assms(4) accounted_open [OF assms(1-3)]])
  then show ?thesis
    using assms(6)
    unfolding accounted_def queued_accounted_def running_accounted_def will_schedule_def works_at_work by blast
qed

section \<open>A submission that strands its job\<close>

definition worker_ids :: "job_manager \<Rightarrow> string set" where
  "worker_ids m = wk_id ` set (mg_workers m)"

definition pending_ids :: "job_manager \<Rightarrow> string set" where
  "pending_ids m = sw_id ` set (filter pending_submission (mg_submitters m))"

lemma set_worker_ids [simp]: "wk_id ` set (mg_workers (set_worker i p m)) = wk_id ` set (mg_workers m)"
proof -
  have "map wk_id (mg_workers (set_worker i p m)) = map wk_id (mg_workers m)"
    by (cases "i < length (mg_workers m)") (simp_all add: set_worker_def map_update_same list_update_beyond)
  then show ?thesis by (metis set_map)
qed

lemma step_keeps_workers:
  assumes "\<not> (\<exists>k io. e = Ev_Submit_Read k io)"
  shows "worker_ids (manager_step env e m) = worker_ids m"
  using assms
  by (cases e) (simp_all add: worker_ids_def on_worker_def submit_write_def reply_submission_def cancel_write_def cancel_read_def
      cancel_signal_def set_canceller_def cancel_token_def shutdown_begin_def shutdown_expire_def worker_acquire_def
      worker_claim_def worker_register_def worker_read_def handle_job_event_def
      worker_release_def worker_settle_def enforce_retention_def release_worker_permit_def
      store_progress_def submit_drop_def Let_def split: submit_phase.split permit_choice.split prod.split sum.split provider_event.split
      worker_phase.split cancel_phase.split option.split)

lemma step_keeps_submitters:
  assumes "\<not> (\<exists>k io. e = Ev_Submit_Read k io)" "\<not> (\<exists>k. e = Ev_Submit_Drop k)" "\<not> (\<exists>scope request jid now io. e = Ev_Submit scope request jid now io)"
  shows "mg_submitters (manager_step env e m) = mg_submitters m"
  using assms
  by (cases e) (simp_all add: on_worker_def cancel_write_def cancel_read_def
      cancel_signal_def set_canceller_def cancel_token_def shutdown_begin_def shutdown_expire_def worker_acquire_def
      worker_claim_def worker_register_def worker_read_def handle_job_event_def
      worker_release_def worker_settle_def enforce_retention_def release_worker_permit_def
      store_progress_def Let_def split: permit_choice.split prod.split sum.split provider_event.split
      worker_phase.split cancel_phase.split option.split)

lemma submit_pending: "pending_ids (submit_write env scope request jid now io m) \<subseteq> pending_ids m \<union> {jid}"
  by (auto simp: pending_ids_def submit_write_def reply_submission_def split: prod.splits sum.splits)

lemma set_update_reply:
  "s \<in> set (ss[k := q\<lparr>sw_phase := Submit_Replied r\<rparr>]) \<Longrightarrow> pending_submission s \<Longrightarrow> s \<in> set ss"
  using set_update_subset_insert [of ss k "q\<lparr>sw_phase := Submit_Replied r\<rparr>"]
  by (auto simp: pending_submission_def)

lemma set_update_drop:
  "s \<in> set (ss[k := q\<lparr>sw_phase := Submit_Dropped c\<rparr>]) \<Longrightarrow> pending_submission s \<Longrightarrow> s \<in> set ss"
  using set_update_subset_insert [of ss k "q\<lparr>sw_phase := Submit_Dropped c\<rparr>"]
  by (auto simp: pending_submission_def)

lemma drop_pending: "pending_ids (submit_drop k m) \<subseteq> pending_ids m"
  by (auto simp: submit_drop_def Let_def pending_ids_def dest: set_update_drop split: submit_phase.split)

lemma read_tasks: "worker_ids (submit_read env k io m) \<union> pending_ids (submit_read env k io m) \<subseteq> worker_ids m \<union> pending_ids m"
proof (cases "k < length (mg_submitters m)")
  case k: True
  let ?s = "mg_submitters m ! k"
  show ?thesis
  proof (cases "sw_phase ?s")
    case (Submit_Written l c)
    then have "c \<Longrightarrow> sw_id ?s \<in> pending_ids m" using k by (force simp: pending_ids_def pending_submission_def)
    then show ?thesis using k
      by (auto simp: submit_read_def Let_def Submit_Written schedule_def worker_ids_def pending_ids_def
          dest: set_update_reply split: sum.splits)
  qed (use k in \<open>simp_all add: submit_read_def Let_def\<close>)
qed (simp add: submit_read_def)

lemma step_tasks:
  "worker_ids (manager_step env e m) \<union> pending_ids (manager_step env e m) \<subseteq> worker_ids m \<union> pending_ids m \<union> event_ids e"
proof (cases "\<exists>k io. e = Ev_Submit_Read k io")
  case True
  then show ?thesis using read_tasks [of env _ _ m] by (elim exE) simp
next
  case False
  have "pending_ids (manager_step env e m) \<subseteq> pending_ids m \<union> event_ids e"
  proof (cases "\<exists>scope request jid now io. e = Ev_Submit scope request jid now io")
    case True
    then show ?thesis using submit_pending [of env _ _ _ _ _ m] by (elim exE) simp
  next
    case other: False
    show ?thesis
    proof (cases "\<exists>k. e = Ev_Submit_Drop k")
      case True
      then obtain k where "e = Ev_Submit_Drop k" by blast
      then show ?thesis using drop_pending [of k m] by simp
    next
      case dropped: False
      show ?thesis using step_keeps_submitters [OF False dropped other] by (simp add: pending_ids_def)
    qed
  qed
  then show ?thesis using step_keeps_workers [OF False] by blast
qed

lemma run_tasks:
  "jid \<notin> worker_ids m \<union> pending_ids m \<Longrightarrow> jid \<in> used \<Longrightarrow> fresh_events used evs \<Longrightarrow>
   jid \<notin> worker_ids (manager_run env evs m) \<union> pending_ids (manager_run env evs m)"
proof (induction evs arbitrary: used m)
  case (Cons e es)
  then have "jid \<notin> worker_ids (manager_step env e m) \<union> pending_ids (manager_step env e m)"
    using step_tasks [of env e m] by auto
  then show ?case using Cons.IH [of "manager_step env e m" "used \<union> event_ids e"] Cons.prems by simp
qed simp

lemma failed_read_forgets:
  assumes inv: "manager_inv used running m" and k: "k < length (mg_submitters m)"
    and written: "sw_phase (mg_submitters m ! k) = Submit_Written l True"
  shows "sw_id (mg_submitters m ! k) \<notin> worker_ids (submit_read env k False m) \<union> pending_ids (submit_read env k False m)"
proof -
  let ?ss = "mg_submitters m"
  let ?s = "?ss ! k"
  let ?r = "?s\<lparr>sw_phase := Submit_Replied (case validate_auth_scope (sw_scope ?s) of
    Inl e \<Rightarrow> Inl e | Inr _ \<Rightarrow> Inl (job_error ''could not read durable job''))\<rparr>"
  have m': "submit_read env k False m = m\<lparr>mg_submitters := ?ss[k := ?r]\<rparr>"
    using k written by (simp add: submit_read_def Let_def job_get_def split: sum.split)
  have split: "?ss = take k ?ss @ ?s # drop (Suc k) ?ss" by (rule id_take_nth_drop [OF k])
  have "task_ids m = map wk_id (mg_workers m) @ map sw_id (filter pending_submission (take k ?ss))
      @ sw_id ?s # map sw_id (filter pending_submission (drop (Suc k) ?ss))"
    unfolding task_ids_def by (subst split) (simp add: pending_submission_def written)
  with manager_invD(4) [OF inv] show ?thesis
    unfolding m' worker_ids_def pending_ids_def upd_conv_take_nth_drop [OF k]
    by (auto simp: pending_submission_def split: submit_phase.splits sum.splits)
qed

lemma fresh_append:
  "fresh_events used (es @ es') \<Longrightarrow> fresh_events used es \<and> (\<exists>used'. used \<subseteq> used' \<and> fresh_events used' es'
     \<and> (\<forall>env m running. manager_inv used running m \<longrightarrow> manager_inv used' running (manager_run env es m)))"
proof (induction es arbitrary: used)
  case (Cons e es)
  then obtain used' where "fresh_events (used \<union> event_ids e) es" "used \<union> event_ids e \<subseteq> used'" "fresh_events used' es'"
    "\<And>env m running. manager_inv (used \<union> event_ids e) running m \<longrightarrow> manager_inv used' running (manager_run env es m)"
    using Cons.IH [of "used \<union> event_ids e"] by auto
  then show ?case using Cons.prems inv_step [of used _ _ e] by (auto intro!: exI [of _ used'])
qed auto

lemma stranded_after:
  assumes "manager_open env io1 now1 io2 now2 io3 t = Inr m0" and "keys_ok t" and "calm t"
    and "fresh_events (jr_id ` set (mg_table m0)) (evs @ e # later)" and "m = manager_run env evs m0"
    and "jid \<in> set (task_ids m)" "event_ids e = {}"
    and "\<And>used. manager_inv used (ks_max_running (me_settings env)) m
      \<Longrightarrow> jid \<notin> worker_ids (manager_step env e m) \<union> pending_ids (manager_step env e m)"
    and "m' = manager_run env (evs @ e # later) m0"
  shows "(\<forall>w \<in> set (mg_workers m'). wk_id w \<noteq> jid)
    \<and> (\<forall>r \<in> set (mg_table m'). jr_id r = jid \<longrightarrow> jr_status r \<noteq> ''running'')"
proof -
  let ?m1 = "manager_step env e m"
  obtain used where used: "fresh_events used (e # later)"
    "manager_inv used (ks_max_running (me_settings env)) m"
    using fresh_append [OF assms(4)] inv_open [OF assms(1,2)] unfolding assms(5) by blast
  have "jid \<in> used" using assms(6) manager_invD(3) [OF used(2)] by blast
  moreover have "m' = manager_run env later ?m1" by (simp add: assms(5,9) manager_run_append)
  ultimately have none: "jid \<notin> worker_ids m'"
    using run_tasks [of jid ?m1 used later env] used(1) assms(7) assms(8) [OF used(2)] by simp
  have "accounted (left_at_open env m0) m0" by (rule accounted_open [OF assms(1-3)])
  then have "accounted (left_at_open env m0) m'"
    unfolding assms(9) by (rule accounted_run [OF inv_open [OF assms(1,2)] assms(4)])
  then have "\<exists>w \<in> set (mg_workers m'). wk_id w = jr_id r" if "r \<in> set (mg_table m')" "jr_status r = ''running''" for r
    using that by (fastforce simp: accounted_def running_accounted_def wk_key_def row_key_def)
  then show ?thesis using none unfolding worker_ids_def by (metis image_eqI)
qed

lemma written_task:
  "k < length (mg_submitters m) \<Longrightarrow> sw_phase (mg_submitters m ! k) = Submit_Written l True
   \<Longrightarrow> sw_id (mg_submitters m ! k) \<in> set (task_ids m)"
  by (force simp: task_ids_def pending_submission_def)

text \<open>C18. A submission whose job was inserted, and whose read of the job right after fails, answers with
  that error and strands the job: whatever happens later in the life of the manager, no worker is ever
  created for the job and it never runs.\<close>

theorem submission_stranded:
  assumes "manager_open env io1 now1 io2 now2 io3 t = Inr m0" and "keys_ok t" and "calm t"
    and "fresh_events (jr_id ` set (mg_table m0)) (evs @ Ev_Submit_Read k False # later)"
    and "m = manager_run env evs m0" and "k < length (mg_submitters m)"
    and "sw_phase (mg_submitters m ! k) = Submit_Written l True"
    and "m' = manager_run env (evs @ Ev_Submit_Read k False # later) m0"
  shows "(\<forall>w \<in> set (mg_workers m'). wk_id w \<noteq> sw_id (mg_submitters m ! k))
    \<and> (\<forall>r \<in> set (mg_table m'). jr_id r = sw_id (mg_submitters m ! k) \<longrightarrow> jr_status r \<noteq> ''running'')"
  by (rule stranded_after [OF assms(1-5) written_task [OF assms(6,7)] _ _ assms(8)])
    (use failed_read_forgets [OF _ assms(6,7), of _ _ env] in simp_all)

text \<open>The same happens when the submission is dropped after the insertion.\<close>

lemma dropped_forgets:
  assumes inv: "manager_inv used running m" and k: "k < length (mg_submitters m)"
    and written: "sw_phase (mg_submitters m ! k) = Submit_Written l True"
  shows "sw_id (mg_submitters m ! k) \<notin> worker_ids (submit_drop k m) \<union> pending_ids (submit_drop k m)"
proof -
  let ?ss = "mg_submitters m"
  let ?s = "?ss ! k"
  have split: "?ss = take k ?ss @ ?s # drop (Suc k) ?ss" by (rule id_take_nth_drop [OF k])
  have "task_ids m = map wk_id (mg_workers m) @ map sw_id (filter pending_submission (take k ?ss))
      @ sw_id ?s # map sw_id (filter pending_submission (drop (Suc k) ?ss))"
    unfolding task_ids_def by (subst split) (simp add: pending_submission_def written)
  moreover have "submit_drop k m = m\<lparr>mg_submitters := ?ss[k := ?s\<lparr>sw_phase := Submit_Dropped True\<rparr>]\<rparr>"
    using k written by (simp add: submit_drop_def Let_def)
  ultimately show ?thesis
    using manager_invD(4) [OF inv] unfolding worker_ids_def pending_ids_def
    by (auto simp: upd_conv_take_nth_drop [OF k] pending_submission_def split: submit_phase.splits)
qed

lemma dropped_submission_stranded:
  assumes "manager_open env io1 now1 io2 now2 io3 t = Inr m0" and "keys_ok t" and "calm t"
    and "fresh_events (jr_id ` set (mg_table m0)) (evs @ Ev_Submit_Drop k # later)"
    and "m = manager_run env evs m0" and "k < length (mg_submitters m)"
    and "sw_phase (mg_submitters m ! k) = Submit_Written l True"
    and "m' = manager_run env (evs @ Ev_Submit_Drop k # later) m0"
  shows "(\<forall>w \<in> set (mg_workers m'). wk_id w \<noteq> sw_id (mg_submitters m ! k))
    \<and> (\<forall>r \<in> set (mg_table m'). jr_id r = sw_id (mg_submitters m ! k) \<longrightarrow> jr_status r \<noteq> ''running'')"
  by (rule stranded_after [OF assms(1-5) written_task [OF assms(6,7)] _ _ assms(8)])
    (use dropped_forgets [OF _ assms(6,7)] in simp_all)

section \<open>Witnesses\<close>

definition demo_manager_env :: manager_env where
  "demo_manager_env =
     \<lparr>me_settings = \<lparr>ks_max_pending = 1, ks_max_running = 1, ks_retention_secs = 3600, ks_max_retained = 10,
        ks_max_retained_bytes = 1000000, ks_max_database_bytes = 1000000\<rparr>,
      me_limits = default_request_limits, me_jobs = demo_job_codec,
      me_images = \<lparr>cd_image_type = (\<lambda>_. Some Type_Png), cd_blob_size = (\<lambda>_. Some (1, 1)),
        cd_decode = (\<lambda>_ _ _ _. Some (1, 1)), cd_thumbnail = (\<lambda>_ _ _ _ bytes. Some (Some bytes)),
        cd_sha256 = (\<lambda>_. ''00''), cd_b64_encode = (\<lambda>bytes. bytes), cd_b64_decode = (\<lambda>s. Some s)\<rparr>,
      me_b64_decode = Some\<rparr>"

definition demo_manager :: "job_table \<Rightarrow> job_worker list \<Rightarrow> job_manager" where
  "demo_manager t ws =
     \<lparr>mg_table = t, mg_permits = 1, mg_shutdown = False, mg_active = Map.empty, mg_tokens = (\<lambda>_. False),
      mg_next_token = 0, mg_partials = Map.empty, mg_healthy = True, mg_workers = ws, mg_submitters = [],
      mg_cancellers = []\<rparr>"

definition demo_scheduled :: job_manager where
  "demo_scheduled = demo_manager [queued_row demo_new_job] [\<lparr>wk_scope = ''s'', wk_id = ''j'', wk_phase = Worker_Scheduled\<rparr>]"

lemma demo_env_simps:
  "ks_max_pending (me_settings demo_manager_env) = 1" "ks_max_running (me_settings demo_manager_env) = 1"
  "ks_retention_secs (me_settings demo_manager_env) = 3600" "ks_max_retained (me_settings demo_manager_env) = 10"
  "ks_max_retained_bytes (me_settings demo_manager_env) = 1000000"
  "ks_max_database_bytes (me_settings demo_manager_env) = 1000000"
  "me_limits demo_manager_env = default_request_limits" "me_jobs demo_manager_env = demo_job_codec"
  by (simp_all add: demo_manager_env_def)

lemmas demo_eval = demo_env_simps db_call_def sql_update_def sql_delete_def i64_limit_def i64_max_def to_i64_def

lemma demo_encode_error: "jc_encode_error demo_job_codec e = Some ''{}''"
  by (simp add: demo_job_codec_def)

lemma demo_row_status:
  "jr_status (queued_row demo_new_job) = ''queued''" "jr_auth_scope (queued_row demo_new_job) = ''s''"
  "jr_id (queued_row demo_new_job) = ''j''" "\<not> jr_cancel_requested (queued_row demo_new_job)"
  by (simp_all add: queued_row_def demo_new_job_def)

lemma demo_open_scheduled:
  "manager_open demo_manager_env True 6 True 6 True [queued_row demo_new_job] = Inr demo_scheduled"
  by (simp add: manager_open_def recover_interrupted_def job_prune_def prune_rows_def queued_identities_def demo_eval
      demo_encode_error demo_row_status expired_row_def prunable_def row_terminal_def newest_first_def oldest_first_def
      result_simps Let_def schedule_def demo_scheduled_def demo_manager_def sat_sub_def)

lemma demo_open_empty: "manager_open demo_manager_env True 6 True 6 True [] = Inr (demo_manager [] [])"
  by (simp add: manager_open_def recover_interrupted_def job_prune_def prune_rows_def queued_identities_def demo_eval
      demo_encode_error newest_first_def oldest_first_def result_simps Let_def demo_manager_def sat_sub_def)

theorem worker_pool_exact_witness:
  "length (filter (executing \<circ> wk_phase)
     (mg_workers (manager_run demo_manager_env [Ev_Acquire 0 Permit_Ready, Ev_Claim 0 7 True] demo_scheduled))) \<le> 1"
  using worker_pool_exact [OF demo_open_scheduled, of "[Ev_Acquire 0 Permit_Ready, Ev_Claim 0 7 True]"]
  by (simp add: keys_ok_def demo_env_simps)

definition demo_executing :: job_manager where
  "demo_executing = manager_run demo_manager_env
     [Ev_Acquire 0 Permit_Ready, Ev_Claim 0 7 True, Ev_Register 0, Ev_Read 0 True] demo_scheduled"

definition demo_running_row :: job_row where
  "demo_running_row = (queued_row demo_new_job)\<lparr>jr_status := ''running'', jr_started := Some 7, jr_updated := 7,
     jr_progress_stage := Some ''starting''\<rparr>"

lemma demo_claimed: "job_claim True ''s'' ''j'' 7 [queued_row demo_new_job] = (Inr True, [demo_running_row])"
  by (simp add: job_claim_def demo_scope demo_eval owned_by_def demo_row_status demo_running_row_def)

lemma demo_read:
  assumes "r = demo_running_row\<lparr>jr_updated := u, jr_cancel_requested := c\<rparr>" "0 \<le> u"
  shows "\<exists>job. job_get True demo_job_codec ''s'' ''j'' [r] = Inr job \<and> ij_cancel_requested job = c"
proof -
  have fields: "jr_status r = ''running''" "jr_id r = ''j''" "jr_auth_scope r = ''s''" "jr_partial_images r = 0"
    "jr_created r = 5" "jr_updated r = u" "jr_started r = Some 7" "jr_completed r = None" "jr_deleted r = None"
    "jr_response r = None" "jr_error r = None" "jr_cancel_requested r = c"
    by (simp_all add: assms demo_running_row_def queued_row_def demo_new_job_def)
  have "parse_status ''running'' = Inr Job_Running" using parse_status_name [of Job_Running] by (simp add: job_status_name_def)
  then obtain summary where "decode_summary r = Inr summary"
    using assms(2) by (simp add: decode_summary_def fields from_i64_def transposed_def result_simps)
  moreover have "jc_decode_request demo_job_codec = (\<lambda>s. Some (request_generate s))" by (simp add: demo_job_codec_def)
  ultimately show ?thesis
    by (simp add: job_get_def demo_scope owned_by_def fields decode_job_def transposed_def result_simps ok_or_def)
qed

lemma demo_executing_state:
  "\<exists>request. demo_executing = (demo_manager [demo_running_row]
       [\<lparr>wk_scope = ''s'', wk_id = ''j'', wk_phase = Worker_Executing 0 request 0\<rparr>])
     \<lparr>mg_permits := 0, mg_active := [(''s'', ''j'') \<mapsto> 0], mg_next_token := 1\<rparr>"
proof -
  obtain job where "job_get True demo_job_codec ''s'' ''j'' [demo_running_row] = Inr job" "\<not> ij_cancel_requested job"
    using demo_read [of demo_running_row False 7] demo_row_status by (auto simp: demo_running_row_def)
  then show ?thesis
    by (simp add: demo_executing_def demo_scheduled_def demo_manager_def on_worker_def worker_acquire_def set_worker_def
        worker_claim_def demo_claimed worker_register_def worker_read_def demo_env_simps fun_upd_idem)
qed

lemma demo_manager_table:
  "mg_table (demo_manager t ws\<lparr>mg_permits := n, mg_active := a, mg_next_token := k\<rparr>) = t"
  by (simp add: demo_manager_def)

theorem every_job_has_a_task_witness:
  "\<exists>w \<in> set (mg_workers demo_executing). wk_key w = row_key demo_running_row \<and> (at_work (wk_phase w) \<or> (\<exists>e. wk_phase w = Worker_Ended (Inl e)))"
proof -
  let ?evs = "[Ev_Acquire 0 Permit_Ready, Ev_Claim 0 7 True, Ev_Register 0, Ev_Read 0 True]"
  have "keys_ok [queued_row demo_new_job]" "calm [queued_row demo_new_job]"
    "fresh_events (jr_id ` set (mg_table demo_scheduled)) ?evs"
    by (simp_all add: keys_ok_def calm_def demo_row_status demo_scheduled_def demo_manager_def demo_eval)
  moreover have "demo_running_row \<in> set (mg_table demo_executing)"
  proof -
    obtain request where "demo_executing = (demo_manager [demo_running_row]
         [\<lparr>wk_scope = ''s'', wk_id = ''j'', wk_phase = Worker_Executing 0 request 0\<rparr>])
       \<lparr>mg_permits := 0, mg_active := [(''s'', ''j'') \<mapsto> 0], mg_next_token := 1\<rparr>"
      using demo_executing_state by blast
    then have "mg_table demo_executing = [demo_running_row]" by (metis (no_types) demo_manager_table)
    then show ?thesis by simp
  qed
  ultimately show ?thesis
    using every_job_has_a_task [OF demo_open_scheduled _ _ _ demo_executing_def, of demo_running_row]
    by (simp add: demo_running_row_def)
qed

theorem acknowledged_cancellation_takes_hold_witness:
  "mg_tokens (manager_run demo_manager_env ([Ev_Acquire 0 Permit_Ready, Ev_Claim 0 7 True, Ev_Register 0, Ev_Read 0 True]
     @ [Ev_Cancel ''s'' ''j'' 8 True, Ev_Cancel_Read 0 True, Ev_Cancel_Signal 0]) demo_scheduled) 0"
proof -
  let ?evs = "[Ev_Acquire 0 Permit_Ready, Ev_Claim 0 7 True, Ev_Register 0, Ev_Read 0 True]
     @ [Ev_Cancel ''s'' ''j'' 8 True, Ev_Cancel_Read 0 True, Ev_Cancel_Signal 0]"
  let ?m = "manager_run demo_manager_env ?evs demo_scheduled"
  let ?row = "demo_running_row\<lparr>jr_updated := 8, jr_cancel_requested := True\<rparr>"
  obtain request where executing: "demo_executing = (demo_manager [demo_running_row]
       [\<lparr>wk_scope = ''s'', wk_id = ''j'', wk_phase = Worker_Executing 0 request 0\<rparr>])
     \<lparr>mg_permits := 0, mg_active := [(''s'', ''j'') \<mapsto> 0], mg_next_token := 1\<rparr>"
    using demo_executing_state by blast
  obtain job where job: "job_get True demo_job_codec ''s'' ''j'' [?row] = Inr job" using demo_read [of ?row True 8] by auto
  have cancel: "cancel_call True ''s'' ''j'' 8 [demo_running_row] = (Inr (), [?row])"
    by (simp add: cancel_call_def demo_scope demo_eval cancel_row_def owned_by_def demo_running_row_def demo_row_status)
  have m: "?m = manager_run demo_manager_env [Ev_Cancel ''s'' ''j'' 8 True, Ev_Cancel_Read 0 True, Ev_Cancel_Signal 0]
      demo_executing"
    by (simp only: manager_run_append demo_executing_def)
  have "mg_workers ?m = [\<lparr>wk_scope = ''s'', wk_id = ''j'', wk_phase = Worker_Executing 0 request 0\<rparr>]
      \<and> mg_cancellers ?m = [\<lparr>cn_scope = ''s'', cn_id = ''j'', cn_phase = Cancel_Replied (Inr job)\<rparr>]"
    unfolding m executing
    by (simp add: demo_manager_def cancel_write_def cancel cancel_read_def cancel_signal_def set_canceller_def
        cancel_token_def demo_env_simps job)
  then show ?thesis
    by (intro acknowledged_cancellation_takes_hold [OF demo_open_scheduled _ _ refl, of ?evs
          "\<lparr>cn_scope = ''s'', cn_id = ''j'', cn_phase = Cancel_Replied (Inr job)\<rparr>" job
          "\<lparr>wk_scope = ''s'', wk_id = ''j'', wk_phase = Worker_Executing 0 request 0\<rparr>"])
      (simp_all add: keys_ok_def)
qed

theorem submission_stranded_witness:
  "''j'' \<notin> wk_id ` set (mg_workers (manager_run demo_manager_env
     ([Ev_Submit ''s'' (request_generate ''cat'') ''j'' 5 True] @ Ev_Submit_Read 0 False # [Ev_Retention 9 True])
     (demo_manager [] [])))"
proof -
  let ?m = "manager_run demo_manager_env [Ev_Submit ''s'' (request_generate ''cat'') ''j'' 5 True] (demo_manager [] [])"
  have "validate_request (as_artifact (request_generate ''cat'')) default_request_limits = Inr ()"
    unfolding validate_request_Inr_iff by (simp add: as_artifact_def well_formed_defs request_defaults)
  moreover have "prepare_job demo_job_codec ''s'' ''j'' (as_artifact (request_generate ''cat'')) 5 = Inr demo_new_job"
    by (simp add: as_artifact_def prepare_job_def demo_scope generate_fields demo_codec_simps demo_lowercase demo_bytes
        to_i64_def i64_max_def Let_def demo_new_job_def)
  ultimately have "mg_submitters ?m = [\<lparr>sw_scope = ''s'', sw_id = ''j'', sw_phase = Submit_Written ''j'' True\<rparr>]"
    by (simp add: demo_manager_def submit_write_def admit_submission_def demo_eval result_simps create_call_def
        insert_job_def i64_sat_add_def logical_bytes_def demo_new_job_def submitted_def reply_submission_def)
  then show ?thesis
    using submission_stranded [OF demo_open_empty _ _ _ refl, of "[Ev_Submit ''s'' (request_generate ''cat'') ''j'' 5 True]" 0
        "[Ev_Retention 9 True]" "''j''" _, OF _ _ _ _ _ refl]
    by (auto simp: keys_ok_def calm_def demo_manager_def)
qed

end
