(* ===== verification/Image_Input.thy ===== *)
theory Image_Input
  imports Codex_Responses
begin

unbundle bit_operations_syntax

text \<open>
  \<open>crates/artifacts/src/remote.rs\<close> and \<open>input.rs\<close>: how the images a request names are loaded. Remote
  images are fetched hop by hop under a policy on the URL and on the resolved addresses; the parser of
  URLs, the resolver and the peer are parameters, and what the resolver and the peer answer may
  differ from hop to hop. Local files are opened through directory capabilities, which are a
  parameter too.
\<close>

section \<open>Addresses\<close>

datatype ip_addr =
    Ipv4 u8 u8 u8 u8
  | Ipv6 u16 u16 u16 u16 u16 u16 u16 u16

definition is_public_ipv4 :: "u8 \<Rightarrow> u8 \<Rightarrow> u8 \<Rightarrow> u8 \<Rightarrow> bool" where
  "is_public_ipv4 a b c d =
     (\<not> (a = 10 \<or> a = 172 \<and> 16 \<le> b \<and> b \<le> 31 \<or> a = 192 \<and> b = 168)
      \<and> \<not> a = 127
      \<and> \<not> (a = 169 \<and> b = 254)
      \<and> \<not> (a = 255 \<and> b = 255 \<and> c = 255 \<and> d = 255)
      \<and> \<not> (a = 192 \<and> b = 0 \<and> c = 2 \<or> a = 198 \<and> b = 51 \<and> c = 100 \<or> a = 203 \<and> b = 0 \<and> c = 113)
      \<and> \<not> (a = 0 \<and> b = 0 \<and> c = 0 \<and> d = 0)
      \<and> \<not> (224 \<le> a \<and> a \<le> 239)
      \<and> \<not> (a = 100 \<and> 64 \<le> b \<and> b \<le> 127)
      \<and> \<not> (a = 192 \<and> b = 0 \<and> c = 0)
      \<and> \<not> (a = 198 \<and> (b = 18 \<or> b = 19))
      \<and> a < 240)"

definition is_ipv6_documentation :: "u16 \<Rightarrow> u16 \<Rightarrow> bool" where
  "is_ipv6_documentation s0 s1 = (s0 = 0x2001 \<and> s1 = 0x0db8)"

text \<open>\<open>Ipv6Addr::to_ipv4_mapped\<close>: the addresses \<open>::ffff:a.b.c.d\<close>.\<close>

definition to_ipv4_mapped :: "ip_addr \<Rightarrow> (u8 \<times> u8 \<times> u8 \<times> u8) option" where
  "to_ipv4_mapped address =
     (case address of
        Ipv6 s0 s1 s2 s3 s4 s5 s6 s7 \<Rightarrow>
          if s0 = 0 \<and> s1 = 0 \<and> s2 = 0 \<and> s3 = 0 \<and> s4 = 0 \<and> s5 = 0xffff
          then Some (ucast (drop_bit 8 s6), ucast s6, ucast (drop_bit 8 s7), ucast s7) else None
      | _ \<Rightarrow> None)"

definition is_public_ip :: "ip_addr \<Rightarrow> bool" where
  "is_public_ip address =
     (case address of
        Ipv4 a b c d \<Rightarrow> is_public_ipv4 a b c d
      | Ipv6 s0 s1 s2 s3 s4 s5 s6 s7 \<Rightarrow>
          (case to_ipv4_mapped address of
             Some (a, b, c, d) \<Rightarrow> is_public_ipv4 a b c d
           | None \<Rightarrow>
               \<not> (s0 = 0 \<and> s1 = 0 \<and> s2 = 0 \<and> s3 = 0 \<and> s4 = 0 \<and> s5 = 0 \<and> s6 = 0 \<and> s7 = 1)
               \<and> \<not> (s0 = 0 \<and> s1 = 0 \<and> s2 = 0 \<and> s3 = 0 \<and> s4 = 0 \<and> s5 = 0 \<and> s6 = 0 \<and> s7 = 0)
               \<and> \<not> s0 AND 0xff00 = 0xff00
               \<and> \<not> s0 AND 0xfe00 = 0xfc00
               \<and> \<not> s0 AND 0xffc0 = 0xfe80
               \<and> \<not> is_ipv6_documentation s0 s1))"

section \<open>Remote images\<close>

record remote_policy =
  rp_enabled :: bool
  rp_allowed_hosts :: "string set"
  rp_allowed_ports :: "u16 set"
  rp_allow_private_networks :: bool
  rp_max_redirects :: u8
  rp_timeout :: nat
  rp_max_url_bytes :: usize

definition default_remote_policy :: remote_policy where
  "default_remote_policy =
     \<lparr>rp_enabled = False, rp_allowed_hosts = {}, rp_allowed_ports = {80, 443}, rp_allow_private_networks = False,
      rp_max_redirects = 3, rp_timeout = 20, rp_max_url_bytes = 8 * 1024\<rparr>"

text \<open>A parsed URL: what \<open>Url\<close> answers of it, and its text. The port is \<open>port_or_known_default\<close>.\<close>

record url =
  url_scheme :: string
  url_username :: string
  url_password :: "string option"
  url_host :: "string option"
  url_port :: "u16 option"
  url_text :: string

text \<open>
  A response: a header that is absent is \<open>None\<close>, one that is no string is \<open>Some None\<close>; a chunk of the body
  that could not be read is \<open>None\<close>. A hop answers the lookup of the host, whether the client could be
  built, and the request.
\<close>

record http_response =
  hr_status :: nat
  hr_location :: "string option option"
  hr_content_length :: "u64 option"
  hr_content_type :: "string option option"
  hr_body :: "string option list"

record remote_env =
  re_parse_url :: "string \<Rightarrow> url option"
  re_join :: "url \<Rightarrow> string \<Rightarrow> url option"
  re_lookup :: "nat \<Rightarrow> string \<Rightarrow> u16 \<Rightarrow> ip_addr list option"
  re_client :: "nat \<Rightarrow> bool"
  re_send :: "nat \<Rightarrow> url \<Rightarrow> ip_addr list \<Rightarrow> http_response option"

definition remote_error :: "string \<Rightarrow> bridge_error" where
  "remote_error message = error_new Input message"

definition validate_url :: "remote_policy \<Rightarrow> url \<Rightarrow> unit result" where
  "validate_url policy u =
     (if url_scheme u \<noteq> ''http'' \<and> url_scheme u \<noteq> ''https''
      then Inl (remote_error ''remote image URL must use http or https'')
      else if url_username u \<noteq> [] \<or> url_password u \<noteq> None
      then Inl (remote_error ''remote image URL must not contain credentials'')
      else
        and_then (ok_or (remote_error ''remote image URL has no hostname'') (url_host u)) (\<lambda>host.
          if rp_allowed_hosts policy \<noteq> {} \<and> to_ascii_lowercase host \<notin> rp_allowed_hosts policy
          then Inl (remote_error ''remote image hostname is not allowed'')
          else
            and_then (ok_or (remote_error ''remote image URL has no usable port'') (url_port u)) (\<lambda>port.
              require (port \<in> rp_allowed_ports policy) (remote_error ''remote image port is not allowed''))))"

text \<open>The addresses the client is pinned to.\<close>

definition pinned_client :: "remote_policy \<Rightarrow> remote_env \<Rightarrow> nat \<Rightarrow> url \<Rightarrow> ip_addr list result" where
  "pinned_client policy env hop u =
     and_then (ok_or (remote_error ''remote image URL has no hostname'') (url_host u)) (\<lambda>host.
     and_then (ok_or (remote_error ''remote image URL has no usable port'') (url_port u)) (\<lambda>port.
     and_then (ok_or (remote_error ''remote image hostname could not be resolved'') (re_lookup env hop host port))
       (\<lambda>addresses.
     if addresses = [] then Inl (remote_error ''remote image hostname resolved to no addresses'')
     else if \<not> rp_allow_private_networks policy \<and> list_ex (\<lambda>address. \<not> is_public_ip address) addresses
     then Inl (remote_error ''remote image hostname resolves to a private or reserved address'')
     else if \<not> re_client env hop then Inl (remote_error ''remote image client could not be initialized'')
     else Inr addresses)))"

definition checked_redirect :: "remote_env \<Rightarrow> url \<Rightarrow> http_response \<Rightarrow> url result" where
  "checked_redirect env current response =
     (if hr_status response \<notin> {301, 302, 303, 307, 308}
      then Inl (remote_error ''unsupported redirect response'')
      else
        and_then (ok_or (remote_error ''redirect response has no location'') (hr_location response)) (\<lambda>header.
        and_then (ok_or (remote_error ''redirect location is invalid'') header) (\<lambda>location.
        ok_or (remote_error ''redirect location is invalid'') (re_join env current location))))"

definition supported_content_type :: "string \<Rightarrow> bool" where
  "supported_content_type v =
     (to_ascii_lowercase (trim (hd (split_all CHR '';'' v)))
        \<in> {''image/png'', ''image/jpeg'', ''image/webp'', ''application/octet-stream''})"

definition validate_content_headers :: "image_limits \<Rightarrow> http_response \<Rightarrow> unit result" where
  "validate_content_headers limits response =
     (if (case hr_content_length response of None \<Rightarrow> False | Some n \<Rightarrow> il_max_encoded_bytes limits < n)
      then Inl (remote_error ''remote image content length exceeds the configured limit'')
      else
        (case hr_content_type response of
           None \<Rightarrow> Inr ()
         | Some header \<Rightarrow>
             and_then (ok_or (remote_error ''remote image content type is invalid'') header) (\<lambda>v.
             require (supported_content_type v)
               (remote_error ''remote response does not declare a supported image content type''))))"

fun read_body :: "image_limits \<Rightarrow> string \<Rightarrow> string option list \<Rightarrow> string result" where
  "read_body limits bytes [] = Inr bytes"
| "read_body limits bytes (None # chunks) = Inl (remote_error ''remote image body failed'')"
| "read_body limits bytes (Some chunk # chunks) =
     (if usize_max < length bytes + length chunk \<or> unat (il_max_encoded_bytes limits) < length bytes + length chunk
      then Inl (remote_error ''remote image exceeds the configured byte limit'')
      else read_body limits (bytes @ chunk) chunks)"

record loaded_input = loaded_image +
  li_filename :: "string option"

definition accept_response :: "codec \<Rightarrow> image_limits \<Rightarrow> http_response \<Rightarrow> loaded_input result" where
  "accept_response cd limits response =
     (if \<not> (200 \<le> hr_status response \<and> hr_status response < 300)
      then Inl (remote_error (''remote image returned HTTP '' @ show_nat (hr_status response)))
      else
        and_then (validate_content_headers limits response) (\<lambda>_.
        and_then (read_body limits [] (hr_body response)) (\<lambda>bytes.
        and_then (inspect_image cd bytes limits) (\<lambda>metadata.
          Inr \<lparr>li_bytes = bytes, li_metadata = metadata, li_filename = None\<rparr>))))"

text \<open>
  The loop over the hops, on the list of redirect counts that are left. It also returns the
  requests it has sent, each with the addresses its client was pinned to.
\<close>

fun fetch_hops ::
  "remote_policy \<Rightarrow> image_limits \<Rightarrow> codec \<Rightarrow> remote_env \<Rightarrow> nat list \<Rightarrow> url
   \<Rightarrow> (url \<times> ip_addr list) list \<times> loaded_input result" where
  "fetch_hops policy limits cd env [] u = ([], Inl (remote_error ''remote image redirect limit exceeded''))"
| "fetch_hops policy limits cd env (redirect_count # counts) u =
     (case and_then (validate_url policy u) (\<lambda>_. pinned_client policy env redirect_count u) of
        Inl e \<Rightarrow> ([], Inl e)
      | Inr addresses \<Rightarrow>
          (case re_send env redirect_count u addresses of
             None \<Rightarrow> ([(u, addresses)], Inl (remote_error ''remote image request failed''))
           | Some response \<Rightarrow>
               if 300 \<le> hr_status response \<and> hr_status response < 400 then
                 if redirect_count = unat (rp_max_redirects policy)
                 then ([(u, addresses)], Inl (remote_error ''remote image redirect limit exceeded''))
                 else
                   (case checked_redirect env u response of
                      Inl e \<Rightarrow> ([(u, addresses)], Inl e)
                    | Inr u' \<Rightarrow>
                        (case fetch_hops policy limits cd env counts u' of
                           (sent, r) \<Rightarrow> ((u, addresses) # sent, r)))
               else ([(u, addresses)], accept_response cd limits response)))"

definition fetch ::
  "remote_policy \<Rightarrow> image_limits \<Rightarrow> codec \<Rightarrow> remote_env \<Rightarrow> string
   \<Rightarrow> (url \<times> ip_addr list) list \<times> loaded_input result" where
  "fetch policy limits cd env v =
     (if \<not> rp_enabled policy then ([], Inl (remote_error ''remote image inputs are disabled''))
      else if rp_max_url_bytes policy < length v
      then ([], Inl (remote_error ''remote image URL exceeds the configured limit''))
      else
        (case re_parse_url env v of
           None \<Rightarrow> ([], Inl (remote_error ''remote image URL is invalid''))
         | Some u \<Rightarrow> fetch_hops policy limits cd env [0..<Suc (unat (rp_max_redirects policy))] u))"

section \<open>Local and inline images\<close>

text \<open>\<open>Path::components\<close> on Unix: empty and inner dot components vanish, a leading slash is the root.\<close>

datatype path_component = Root_Dir | Cur_Dir | Parent_Dir | Normal string

definition path_is_absolute :: "string \<Rightarrow> bool" where
  "path_is_absolute p = (p \<noteq> [] \<and> hd p = CHR ''/'')"

definition path_component :: "string \<Rightarrow> path_component option" where
  "path_component s =
     (if s = [] \<or> s = ''.'' then None else if s = ''..'' then Some Parent_Dir else Some (Normal s))"

definition path_components :: "string \<Rightarrow> path_component list" where
  "path_components p =
     (if path_is_absolute p then [Root_Dir] else if hd (split_all CHR ''/'' p) = ''.'' then [Cur_Dir] else [])
     @ List.map_filter path_component (split_all CHR ''/'' p)"

definition input_error :: "string \<Rightarrow> bridge_error" where
  "input_error message = error_new Input message"

definition validate_lexical_path :: "string \<Rightarrow> unit result" where
  "validate_lexical_path p =
     (if p = [] \<or> Parent_Dir \<in> set (path_components p)
      then Inl (input_error ''local input path contains a forbidden component'') else Inr ())"

definition strip_root :: "path_component list \<Rightarrow> path_component list \<Rightarrow> path_component list option" where
  "strip_root base p = (if take (length base) p = base then Some (drop (length base) p) else None)"

text \<open>
  A root is its canonical path. Opening a relative path in it either fails with the text of an error, or gives
  a file: whether its metadata could be read, whether it is regular, its reported length, and what
  reading it to the end gives.
\<close>

record input_file =
  if_metadata :: "string option"
  if_regular :: bool
  if_length :: u64
  if_read :: "string + string"

type_synonym open_in_root = "path_component list \<Rightarrow> path_component list \<Rightarrow> string + input_file"

definition read_bounded :: "input_file \<Rightarrow> u64 \<Rightarrow> string result" where
  "read_bounded f maximum =
     (case if_read f of
        Inl e \<Rightarrow> Inl (input_error (''could not read local input: '' @ e))
      | Inr content \<Rightarrow>
          (let bytes = take (unat (sat_add maximum 1)) content in
           if unat maximum < length bytes then Inl (input_error ''input grew beyond the configured byte limit'')
           else Inr bytes))"

definition read_file :: "image_limits \<Rightarrow> input_file \<Rightarrow> string result" where
  "read_file limits f =
     (case if_metadata f of
        Some e \<Rightarrow> Inl (input_error (''could not inspect input: '' @ e))
      | None \<Rightarrow>
          if \<not> if_regular f then Inl (input_error ''local input is not a regular file'')
          else if il_max_encoded_bytes limits < if_length f
          then Inl (input_error ''local input exceeds the configured byte limit'')
          else read_bounded f (il_max_encoded_bytes limits))"

fun try_roots ::
  "image_limits \<Rightarrow> open_in_root \<Rightarrow> string \<Rightarrow> string option \<Rightarrow> path_component list list \<Rightarrow> string result" where
  "try_roots limits opener p last_error [] =
     Inl (input_error (''local input is outside allowed roots or cannot be opened''
       @ (case last_error of None \<Rightarrow> [] | Some e \<Rightarrow> '': '' @ e)))"
| "try_roots limits opener p last_error (base # roots) =
     (case (if path_is_absolute p then strip_root base (path_components p) else Some (path_components p)) of
        None \<Rightarrow> try_roots limits opener p last_error roots
      | Some relative \<Rightarrow>
          (case opener base relative of
             Inr f \<Rightarrow> read_file limits f
           | Inl e \<Rightarrow> try_roots limits opener p (Some e) roots))"

definition load_file :: "image_limits \<Rightarrow> open_in_root \<Rightarrow> path_component list list \<Rightarrow> string \<Rightarrow> string result" where
  "load_file limits opener roots p =
     (if roots = [] then Inl (input_error ''local file inputs are disabled'')
      else and_then (validate_lexical_path p) (\<lambda>_. try_roots limits opener p None roots))"

definition u64_sat_mul :: "u64 \<Rightarrow> u64 \<Rightarrow> u64" where
  "u64_sat_mul a b = (if unat a * unat b < 2 ^ 64 then a * b else - 1)"

definition decode_base64 :: "codec \<Rightarrow> image_limits \<Rightarrow> string \<Rightarrow> string result" where
  "decode_base64 cd limits s =
     (let quadruple = u64_sat_mul (il_max_encoded_bytes limits) 4;
          maximum_encoded = sat_add (of_nat ((unat quadruple + 2) div 3) :: u64) 4 in
      if unat maximum_encoded < length s then Inl (input_error ''base64 input exceeds the configured byte limit'')
      else
        and_then (ok_or (input_error ''base64 input is malformed'') (cd_b64_decode cd s)) (\<lambda>decoded.
          if unat (il_max_encoded_bytes limits) < length decoded
          then Inl (input_error ''decoded input exceeds the configured byte limit'')
          else Inr decoded))"

definition ends_with :: "string \<Rightarrow> string \<Rightarrow> bool" where
  "ends_with p s = starts_with (rev p) (rev s)"

definition decode_data_url :: "codec \<Rightarrow> image_limits \<Rightarrow> string \<Rightarrow> string result" where
  "decode_data_url cd limits s =
     and_then (ok_or (input_error ''data URL is malformed'') (split_once CHR '','' s)) (\<lambda>(header, encoded).
       if \<not> starts_with ''data:image/'' header \<or> \<not> ends_with '';base64'' header
       then Inl (input_error ''data URL must contain a supported image media type and base64 encoding'')
       else decode_base64 cd limits encoded)"

definition media_type :: "output_format \<Rightarrow> string" where
  "media_type f =
     (case f of Output_Format_Png \<Rightarrow> ''image/png'' | Output_Format_Jpeg \<Rightarrow> ''image/jpeg''
      | Output_Format_Webp \<Rightarrow> ''image/webp'')"

definition input_bytes ::
  "codec \<Rightarrow> image_limits \<Rightarrow> open_in_root \<Rightarrow> path_component list list \<Rightarrow> image_source \<Rightarrow> string result" where
  "input_bytes cd limits opener roots source =
     (case source of
        Source_File p \<Rightarrow> load_file limits opener roots p
      | Source_Base64 s \<Rightarrow> decode_base64 cd limits s
      | Source_Data_Url s \<Rightarrow> decode_data_url cd limits s
      | Source_Url _ \<Rightarrow> Inl (input_error ''remote URL input requires an explicitly configured remote fetcher''))"

definition load_image ::
  "codec \<Rightarrow> image_limits \<Rightarrow> open_in_root \<Rightarrow> path_component list list \<Rightarrow> image_input \<Rightarrow> loaded_input result" where
  "load_image cd limits opener roots inp =
     and_then (input_bytes cd limits opener roots (in_source inp)) (\<lambda>bytes.
     and_then (inspect_image cd bytes limits) (\<lambda>metadata.
       let actual = media_type (im_format metadata) in
       if (case in_media_type inp of None \<Rightarrow> False | Some expected \<Rightarrow> expected \<noteq> actual)
       then Inl (input_error (''declared media type does not match image bytes; detected '' @ actual))
       else Inr \<lparr>li_bytes = bytes, li_metadata = metadata, li_filename = in_filename inp\<rparr>))"

end
