(* ===== verification/Image_Input_Properties.thy ===== *)
theory Image_Input_Properties
  imports Image_Input Chroma "HOL-Library.Sublist"
begin

text \<open>
  What the loading of images guarantees: the addresses that count as public, every request that a fetch
  sends, and the bytes that are accepted.
\<close>

section \<open>Public addresses\<close>

text \<open>An IPv4 address as a number, and the blocks of \<open>address/prefix\<close> notation.\<close>

definition ipv4_number :: "nat \<times> nat \<times> nat \<times> nat \<Rightarrow> nat" where
  "ipv4_number = (\<lambda>(a, b, c, d). ((a * 256 + b) * 256 + c) * 256 + d)"

definition in_block :: "(nat \<times> nat \<times> nat \<times> nat) \<times> nat \<Rightarrow> nat \<Rightarrow> bool" where
  "in_block = (\<lambda>(base, prefix) n. n div 2 ^ (32 - prefix) = ipv4_number base div 2 ^ (32 - prefix))"

text \<open>The refused blocks.\<close>

definition refused_blocks :: "((nat \<times> nat \<times> nat \<times> nat) \<times> nat) list" where
  "refused_blocks =
     [((10, 0, 0, 0), 8), ((172, 16, 0, 0), 12), ((192, 168, 0, 0), 16), ((127, 0, 0, 0), 8),
      ((169, 254, 0, 0), 16), ((192, 0, 2, 0), 24), ((198, 51, 100, 0), 24), ((203, 0, 113, 0), 24),
      ((0, 0, 0, 0), 32), ((224, 0, 0, 0), 4), ((100, 64, 0, 0), 10), ((192, 0, 0, 0), 24),
      ((198, 18, 0, 0), 15), ((240, 0, 0, 0), 4)]"

lemma number_div:
  fixes a b c d :: nat
  assumes "b < 256" "c < 256" "d < 256"
  shows "ipv4_number (a, b, c, d) div 256 = (a * 256 + b) * 256 + c"
    and "ipv4_number (a, b, c, d) div 65536 = a * 256 + b"
    and "ipv4_number (a, b, c, d) div 131072 = a * 128 + b div 2"
    and "ipv4_number (a, b, c, d) div 1048576 = a * 16 + b div 16"
    and "ipv4_number (a, b, c, d) div 4194304 = a * 4 + b div 64"
    and "ipv4_number (a, b, c, d) div 16777216 = a"
    and "ipv4_number (a, b, c, d) div 268435456 = a div 16"
proof -
  let ?n = "ipv4_number (a, b, c, d)"
  show c: "?n div 256 = (a * 256 + b) * 256 + c" using assms(3) by (simp add: ipv4_number_def)
  then show b: "?n div 65536 = a * 256 + b" using assms(2) div_mult2_eq [of ?n 256 256] by simp
  then show "?n div 131072 = a * 128 + b div 2" using div_mult2_eq [of ?n 65536 2] by simp
  from b show "?n div 1048576 = a * 16 + b div 16" using div_mult2_eq [of ?n 65536 16] by simp
  from b show "?n div 4194304 = a * 4 + b div 64" using div_mult2_eq [of ?n 65536 64] by simp
  from b show a: "?n div 16777216 = a" using div_mult2_eq [of ?n 65536 256] assms(1) by simp
  then show "?n div 268435456 = a div 16" using div_mult2_eq [of ?n 16777216 16] by simp
qed

lemma digit_pair:
  fixes p q r t k :: nat
  assumes "r < k" "t < k"
  shows "p * k + r = q * k + t \<longleftrightarrow> p = q \<and> r = t"
proof
  assume eq: "p * k + r = q * k + t"
  have "(p * k + r) div k = p" "(q * k + t) div k = q" using assms by simp_all
  with eq show "p = q \<and> r = t" by simp
qed simp

lemma quotient_eq:
  fixes n k q :: nat
  assumes "0 < k"
  shows "n div k = q \<longleftrightarrow> q * k \<le> n \<and> n < q * k + k"
  using assms less_eq_div_iff_mult_less_eq [of k q n] div_less_iff_less_mult [of k n "Suc q"] by (auto simp: less_Suc_eq_le)

lemma block_tests:
  fixes a b c d :: nat
  assumes "b < 256" "c < 256" "d < 256"
  defines "n \<equiv> ipv4_number (a, b, c, d)"
  shows "in_block ((10, 0, 0, 0), 8) n \<longleftrightarrow> a = 10"
    and "in_block ((127, 0, 0, 0), 8) n \<longleftrightarrow> a = 127"
    and "in_block ((172, 16, 0, 0), 12) n \<longleftrightarrow> a = 172 \<and> 16 \<le> b \<and> b \<le> 31"
    and "in_block ((192, 168, 0, 0), 16) n \<longleftrightarrow> a = 192 \<and> b = 168"
    and "in_block ((169, 254, 0, 0), 16) n \<longleftrightarrow> a = 169 \<and> b = 254"
    and "in_block ((192, 0, 2, 0), 24) n \<longleftrightarrow> a = 192 \<and> b = 0 \<and> c = 2"
    and "in_block ((198, 51, 100, 0), 24) n \<longleftrightarrow> a = 198 \<and> b = 51 \<and> c = 100"
    and "in_block ((203, 0, 113, 0), 24) n \<longleftrightarrow> a = 203 \<and> b = 0 \<and> c = 113"
    and "in_block ((192, 0, 0, 0), 24) n \<longleftrightarrow> a = 192 \<and> b = 0 \<and> c = 0"
    and "in_block ((0, 0, 0, 0), 32) n \<longleftrightarrow> a = 0 \<and> b = 0 \<and> c = 0 \<and> d = 0"
    and "in_block ((224, 0, 0, 0), 4) n \<longleftrightarrow> 224 \<le> a \<and> a \<le> 239"
    and "in_block ((240, 0, 0, 0), 4) n \<longleftrightarrow> 240 \<le> a \<and> a \<le> 255"
    and "in_block ((100, 64, 0, 0), 10) n \<longleftrightarrow> a = 100 \<and> 64 \<le> b \<and> b \<le> 127"
    and "in_block ((198, 18, 0, 0), 15) n \<longleftrightarrow> a = 198 \<and> (b = 18 \<or> b = 19)"
proof -
  note simps = in_block_def number_div [OF assms(1-3)] number_div digit_pair
  show "in_block ((10, 0, 0, 0), 8) n \<longleftrightarrow> a = 10" "in_block ((127, 0, 0, 0), 8) n \<longleftrightarrow> a = 127"
    unfolding n_def by (simp_all add: simps)
  have "in_block ((x, y, 0, 0), 16) n \<longleftrightarrow> a = x \<and> b = y" if "y < 256" for x y
  proof -
    have "in_block ((x, y, 0, 0), 16) n \<longleftrightarrow> a * 256 + b = x * 256 + y"
      using number_div(2) [OF assms(1-3)] number_div(2) [OF that, of 0 0 x] by (simp add: in_block_def n_def)
    then show ?thesis by (simp only: digit_pair [OF assms(1) that(1)])
  qed
  then show "in_block ((192, 168, 0, 0), 16) n \<longleftrightarrow> a = 192 \<and> b = 168" "in_block ((169, 254, 0, 0), 16) n \<longleftrightarrow> a = 169 \<and> b = 254"
    by simp_all
  have "in_block ((x, y, z, 0), 24) n \<longleftrightarrow> a = x \<and> b = y \<and> c = z" if "y < 256" "z < 256" for x y z
  proof -
    have "in_block ((x, y, z, 0), 24) n \<longleftrightarrow> (a * 256 + b) * 256 + c = (x * 256 + y) * 256 + z"
      using number_div(1) [OF assms(1-3)] number_div(1) [OF that, of 0 x] by (simp add: in_block_def n_def)
    then show ?thesis by (simp only: digit_pair [OF assms(2) that(2)] digit_pair [OF assms(1) that(1)] conj_assoc)
  qed
  then show "in_block ((192, 0, 2, 0), 24) n \<longleftrightarrow> a = 192 \<and> b = 0 \<and> c = 2"
    "in_block ((198, 51, 100, 0), 24) n \<longleftrightarrow> a = 198 \<and> b = 51 \<and> c = 100"
    "in_block ((203, 0, 113, 0), 24) n \<longleftrightarrow> a = 203 \<and> b = 0 \<and> c = 113"
    "in_block ((192, 0, 0, 0), 24) n \<longleftrightarrow> a = 192 \<and> b = 0 \<and> c = 0"
    by simp_all
  show "in_block ((0, 0, 0, 0), 32) n \<longleftrightarrow> a = 0 \<and> b = 0 \<and> c = 0 \<and> d = 0"
    unfolding n_def by (simp add: in_block_def ipv4_number_def)
  have "a div 16 = 14 \<longleftrightarrow> 224 \<le> a \<and> a \<le> 239" "a div 16 = 15 \<longleftrightarrow> 240 \<le> a \<and> a \<le> 255"
    by (auto simp: quotient_eq)
  then show "in_block ((224, 0, 0, 0), 4) n \<longleftrightarrow> 224 \<le> a \<and> a \<le> 239" "in_block ((240, 0, 0, 0), 4) n \<longleftrightarrow> 240 \<le> a \<and> a \<le> 255"
    unfolding n_def by (simp_all add: simps)
  have "a * 16 + b div 16 = 2753 \<longleftrightarrow> a = 172 \<and> b div 16 = 1" using div_less_iff_less_mult [of 16 b 16] assms(1) digit_pair [of "b div 16" 16 1 a 172] by simp
  also have "b div 16 = 1 \<longleftrightarrow> 16 \<le> b \<and> b \<le> 31" by (auto simp: quotient_eq)
  finally have "a * 16 + b div 16 = 2753 \<longleftrightarrow> a = 172 \<and> 16 \<le> b \<and> b \<le> 31" .
  then show "in_block ((172, 16, 0, 0), 12) n \<longleftrightarrow> a = 172 \<and> 16 \<le> b \<and> b \<le> 31" unfolding n_def by (simp add: simps)
  have "a * 4 + b div 64 = 401 \<longleftrightarrow> a = 100 \<and> b div 64 = 1" using div_less_iff_less_mult [of 64 b 4] assms(1) digit_pair [of "b div 64" 4 1 a 100] by simp
  also have "b div 64 = 1 \<longleftrightarrow> 64 \<le> b \<and> b \<le> 127" by (auto simp: quotient_eq)
  finally have "a * 4 + b div 64 = 401 \<longleftrightarrow> a = 100 \<and> 64 \<le> b \<and> b \<le> 127" .
  then show "in_block ((100, 64, 0, 0), 10) n \<longleftrightarrow> a = 100 \<and> 64 \<le> b \<and> b \<le> 127" unfolding n_def by (simp add: simps)
  have "a * 128 + b div 2 = 25353 \<longleftrightarrow> a = 198 \<and> b div 2 = 9" using div_less_iff_less_mult [of 2 b 128] assms(1) digit_pair [of "b div 2" 128 9 a 198] by simp
  also have "b div 2 = 9 \<longleftrightarrow> b = 18 \<or> b = 19" by (auto simp: quotient_eq)
  finally have "a * 128 + b div 2 = 25353 \<longleftrightarrow> a = 198 \<and> (b = 18 \<or> b = 19)" .
  then show "in_block ((198, 18, 0, 0), 15) n \<longleftrightarrow> a = 198 \<and> (b = 18 \<or> b = 19)" unfolding n_def by (simp add: simps)
qed

lemma octet_eq: "(w :: u8) = v \<longleftrightarrow> unat w = unat v"
  by (simp add: word_unat_eq_iff)

text \<open>C21. The filter of IPv4 addresses is exactly the complement of a list of address blocks: the private,
  loopback, link-local, documentation, shared, benchmarking, protocol, multicast and reserved blocks, and the
  unspecified address.\<close>

theorem public_ipv4_exact:
  "is_public_ipv4 a b c d \<longleftrightarrow> \<not> list_ex (\<lambda>block. in_block block (ipv4_number (unat a, unat b, unat c, unat d))) refused_blocks"
proof -
  have less: "unat b < 256" "unat c < 256" "unat d < 256" "unat a \<le> 255" for a b c d :: u8
    by (simp_all add: unat_u8_less) (use unat_u8_less [of a] in linarith)
  show ?thesis
    unfolding refused_blocks_def is_public_ipv4_def
    by (simp add: block_tests [OF less(1-3)] octet_eq word_le_nat_alt word_less_nat_alt less(4) not_le)
      (rule iffI; elim conjE; intro conjI; (assumption | intro impI, linarith))
qed


text \<open>Addresses that embed a private one in another way than the mapped form count as public.\<close>

lemma embedded_private_addresses_public:
  "is_public_ip (Ipv6 0x64 0xff9b 0 0 0 0 0x7f00 1)" "is_public_ip (Ipv6 0 0 0 0 0 0 0x7f00 1)"
  "is_public_ip (Ipv6 0x2002 0x7f00 1 0 0 0 0 1)" "is_public_ip (Ipv4 0 0 0 1)"
  by (simp_all add: is_public_ip_def to_ipv4_mapped_def is_public_ipv4_def is_ipv6_documentation_def)

section \<open>Remote images\<close>

text \<open>What a request sent over the network must satisfy, and what an accepted image must.\<close>

definition request_allowed :: "remote_policy \<Rightarrow> url \<times> ip_addr list \<Rightarrow> bool" where
  "request_allowed policy = (\<lambda>(u, addresses).
     url_scheme u \<in> {''http'', ''https''} \<and> url_username u = [] \<and> url_password u = None
     \<and> (\<exists>host port. url_host u = Some host \<and> url_port u = Some port \<and> port \<in> rp_allowed_ports policy
         \<and> (rp_allowed_hosts policy = {} \<or> to_ascii_lowercase host \<in> rp_allowed_hosts policy))
     \<and> addresses \<noteq> [] \<and> (rp_allow_private_networks policy \<or> list_all is_public_ip addresses))"

definition verified_input :: "codec \<Rightarrow> image_limits \<Rightarrow> loaded_input \<Rightarrow> bool" where
  "verified_input cd limits img =
     (length (li_bytes img) \<le> unat (il_max_encoded_bytes limits)
      \<and> inspect_image cd (li_bytes img) limits = Inr (li_metadata img))"

lemma sent_request_allowed:
  assumes "validate_url policy u = Inr ()" "pinned_client policy env hop u = Inr addresses"
  shows "request_allowed policy (u, addresses)"
proof -
  from assms(1) obtain host port where "url_scheme u \<in> {''http'', ''https''}" "url_username u = []" "url_password u = None"
    "url_host u = Some host" "url_port u = Some port" "port \<in> rp_allowed_ports policy"
    "rp_allowed_hosts policy = {} \<or> to_ascii_lowercase host \<in> rp_allowed_hosts policy"
    by (auto simp: validate_url_def result_simps split: if_splits)
  moreover from assms(2) have "addresses \<noteq> []" "rp_allow_private_networks policy \<or> list_all is_public_ip addresses"
    by (auto simp: pinned_client_def result_simps list_all_iff list_ex_iff split: if_splits)
  ultimately show ?thesis unfolding request_allowed_def by auto
qed

lemma read_body_bound:
  assumes "read_body limits bytes chunks = Inr body" "length bytes \<le> unat (il_max_encoded_bytes limits)"
  shows "length body \<le> unat (il_max_encoded_bytes limits) \<and> body = bytes @ concat (List.map_filter (\<lambda>c. c) chunks)
    \<and> None \<notin> set chunks"
  using assms
  by (induction limits bytes chunks rule: read_body.induct) (auto simp: List.map_filter_def split: if_splits)

lemma inspected_length:
  "inspect_image cd bytes limits = Inr m \<Longrightarrow> length bytes \<le> unat (il_max_encoded_bytes limits)"
  by (auto simp: inspect_image_Inr dest: probe_image_Inr(2))

lemma accepted_response:
  assumes "accept_response cd limits response = Inr img"
  shows "verified_input cd limits img \<and> read_body limits [] (hr_body response) = Inr (li_bytes img)"
  using assms by (auto simp: accept_response_def result_simps verified_input_def inspected_length split: if_splits)

lemma fetch_hops_sends:
  assumes "fetch_hops policy limits cd env counts u = (sent, r)"
  shows "length sent \<le> length counts \<and> list_all (request_allowed policy) sent
    \<and> (\<forall>img. r = Inr img \<longrightarrow> sent \<noteq> [] \<and> verified_input cd limits img)"
  using assms
proof (induction policy limits cd env counts u arbitrary: sent r rule: fetch_hops.induct)
  case (2 policy limits cd env hop counts u)
  show ?case
  proof (cases "and_then (validate_url policy u) (\<lambda>_. pinned_client policy env hop u)")
    case (Inr addresses)
    then have allowed: "request_allowed policy (u, addresses)"
      by (auto simp: result_simps intro: sent_request_allowed)
    show ?thesis
    proof (cases "re_send env hop u addresses")
      case (Some response)
      show ?thesis
      proof (cases "300 \<le> hr_status response \<and> hr_status response < 400 \<and> hop \<noteq> unat (rp_max_redirects policy)")
        case True
        then show ?thesis using 2 Inr Some allowed by (fastforce split: sum.splits prod.splits)
      next
        case False
        then show ?thesis using "2.prems" Inr Some allowed
          by (auto simp: accepted_response dest: sym [of "Inr _" "accept_response _ _ _"] split: if_splits)
      qed
    qed (use 2 Inr allowed in auto)
  qed (use 2 in auto)
qed auto

text \<open>C19. Whatever a resolver and the peers answer, hop by hop, a fetch sends at most one request more than the
  redirects allowed, and none at all when remote inputs are disabled. Every request it sends, the redirected ones
  included, is over HTTP or HTTPS without credentials, to an allowed host and port, on a connection pinned to a
  nonempty list of addresses all of which were checked to be public unless private networks are allowed. An image
  is accepted only with at most the allowed bytes and after its inspection.\<close>

theorem fetch_connects_only_public:
  "case fetch policy limits cd env v of (sent, r) \<Rightarrow>
     length sent \<le> Suc (unat (rp_max_redirects policy))
     \<and> list_all (request_allowed policy) sent
     \<and> (sent = [] \<or> rp_enabled policy \<and> length v \<le> rp_max_url_bytes policy)
     \<and> (case r of Inl e \<Rightarrow> True | Inr img \<Rightarrow> sent \<noteq> [] \<and> verified_input cd limits img)"
proof -
  obtain sent r where f: "fetch policy limits cd env v = (sent, r)" by fastforce
  show ?thesis
  proof (cases "rp_enabled policy \<and> length v \<le> rp_max_url_bytes policy \<and> re_parse_url env v \<noteq> None")
    case True
    then obtain u where "fetch_hops policy limits cd env [0..<Suc (unat (rp_max_redirects policy))] u = (sent, r)"
      using f by (auto simp: fetch_def not_less [symmetric])
    from fetch_hops_sends [OF this] True show ?thesis by (auto simp: f split: sum.splits)
  qed (use f in \<open>auto simp: fetch_def split: if_splits option.splits\<close>)
qed

section \<open>Local and inline images\<close>

lemma strip_root_Some: "strip_root base p = Some relative \<longleftrightarrow> p = base @ relative"
  unfolding strip_root_def by (metis append_eq_conv_conj append_take_drop_id option.distinct(1) option.inject)

lemma root_only_first: "Root_Dir \<notin> set (tl (path_components p)) \<and> (Root_Dir \<in> set (path_components p) \<longrightarrow> path_is_absolute p)"
proof -
  have "Root_Dir \<notin> set (List.map_filter path_component ss)" for ss
    by (auto simp: List.map_filter_def path_component_def split: if_splits)
  moreover have "set (tl xs) \<subseteq> set xs" for xs :: "path_component list" by (cases xs) auto
  ultimately show ?thesis unfolding path_components_def by (auto dest: subsetD)
qed

lemma sat_add_one:
  assumes "w \<noteq> - 1"
  shows "unat (sat_add (w :: u64) 1) = Suc (unat w)"
proof -
  have "unat (- 1 :: u64) = 2 ^ 64 - 1" by (simp add: unsigned_minus_1_eq_mask mask_eq_exp_minus_1)
  with assms have "unat w \<noteq> 2 ^ 64 - 1" by (metis word_unat_eq_iff)
  moreover have "unat w < 2 ^ 64" by (rule order.strict_trans2 [OF unsigned_less]) simp
  ultimately show ?thesis by (simp add: unat_sat_add)
qed

lemma read_file_Inr:
  assumes "read_file limits f = Inr bytes"
  shows "if_regular f \<and> length bytes \<le> unat (il_max_encoded_bytes limits)
    \<and> (\<exists>content. if_read f = Inr content \<and> prefix bytes content
         \<and> (il_max_encoded_bytes limits = - 1 \<or> bytes = content))"
proof -
  from assms obtain content where c: "if_regular f" "if_read f = Inr content"
    "bytes = take (unat (sat_add (il_max_encoded_bytes limits) 1)) content" "length bytes \<le> unat (il_max_encoded_bytes limits)"
    by (auto simp: read_file_def read_bounded_def Let_def not_less split: option.splits if_splits sum.splits)
  have "bytes = content" if "il_max_encoded_bytes limits \<noteq> - 1"
  proof -
    have "unat (sat_add (il_max_encoded_bytes limits) 1) = Suc (unat (il_max_encoded_bytes limits))"
      using that by (rule sat_add_one)
    with c(3,4) show ?thesis by (simp add: min_def split: if_splits)
  qed
  with c show ?thesis by (auto simp: take_is_prefix)
qed

lemma try_roots_Inr:
  assumes "try_roots limits opener p last_error roots = Inr bytes"
  shows "\<exists>base relative f. base \<in> set roots \<and> opener base relative = Inr f \<and> read_file limits f = Inr bytes
    \<and> path_components p = (if path_is_absolute p then base @ relative else relative)"
  using assms
proof (induction roots arbitrary: last_error)
  case (Cons base roots)
  let ?relative = "if path_is_absolute p then strip_root base (path_components p) else Some (path_components p)"
  show ?case
  proof (cases "\<exists>relative f. ?relative = Some relative \<and> opener base relative = Inr f")
    case True
    with Cons.prems show ?thesis by (fastforce simp: strip_root_Some split: if_splits)
  next
    case False
    with Cons.prems obtain e where "try_roots limits opener p e roots = Inr bytes"
      by (fastforce split: option.splits sum.splits if_splits)
    from Cons.IH [OF this] show ?thesis by (meson list.set_intros(2))
  qed
qed simp

definition confined_file ::
  "image_limits \<Rightarrow> open_in_root \<Rightarrow> path_component list list \<Rightarrow> string \<Rightarrow> string \<Rightarrow> bool" where
  "confined_file limits opener roots p bytes =
   (\<exists>base relative f content. base \<in> set roots \<and> opener base relative = Inr f
     \<and> Parent_Dir \<notin> set relative \<and> Root_Dir \<notin> set relative
     \<and> path_components p = (if path_is_absolute p then base @ relative else relative)
     \<and> if_regular f \<and> if_read f = Inr content \<and> prefix bytes content
     \<and> (il_max_encoded_bytes limits = - 1 \<or> bytes = content))"

lemma load_file_confined:
  assumes "load_file limits opener roots p = Inr bytes" "list_all (\<lambda>base. hd base = Root_Dir \<and> base \<noteq> []) roots"
  shows "confined_file limits opener roots p bytes"
proof -
  from assms(1) have no_parent: "Parent_Dir \<notin> set (path_components p)"
    and tried: "try_roots limits opener p None roots = Inr bytes"
    by (auto simp: load_file_def validate_lexical_path_def result_simps split: if_splits)
  from try_roots_Inr [OF tried] obtain base relative f where f: "base \<in> set roots" "opener base relative = Inr f"
    "read_file limits f = Inr bytes" "path_components p = (if path_is_absolute p then base @ relative else relative)"
    by blast
  from f(1) assms(2) have "base \<noteq> []" by (auto simp: list_all_iff)
  with f(4) root_only_first [of p] have "Root_Dir \<notin> set relative" by (auto split: if_splits)
  moreover from f(4) no_parent have "Parent_Dir \<notin> set relative" by (auto split: if_splits)
  ultimately show ?thesis using f read_file_Inr [OF f(3)] by (unfold confined_file_def, blast)
qed

lemma decode_base64_Inr:
  "decode_base64 cd limits s = Inr bytes \<Longrightarrow> cd_b64_decode cd s = Some bytes"
  by (auto simp: decode_base64_def Let_def result_simps split: if_splits)

lemma decode_data_url_Inr:
  assumes "decode_data_url cd limits s = Inr bytes"
  shows "\<exists>header encoded. split_once CHR '','' s = Some (header, encoded) \<and> cd_b64_decode cd encoded = Some bytes
    \<and> starts_with ''data:image/'' header \<and> ends_with '';base64'' header"
  using assms by (auto simp: decode_data_url_def result_simps split: if_splits dest: decode_base64_Inr)

text \<open>C20. Where the bytes of a loaded image come from. A local file is opened only below a configured root, by a
  relative path that neither climbs nor restarts at the root, must be regular, and is returned whole; inline
  images are the decoded text; a URL is never loaded here. The bytes are within the limit, were inspected, and
  agree with the declared media type.\<close>

theorem loaded_image_confined:
  assumes "load_image cd limits opener roots inp = Inr img"
    and "list_all (\<lambda>base. hd base = Root_Dir \<and> base \<noteq> []) roots"
  shows "verified_input cd limits img
    \<and> (in_media_type inp \<in> {None, Some (media_type (im_format (li_metadata img)))})
    \<and> (case in_source inp of
         Source_File p \<Rightarrow> confined_file limits opener roots p (li_bytes img)
       | Source_Base64 s \<Rightarrow> cd_b64_decode cd s = Some (li_bytes img)
       | Source_Data_Url s \<Rightarrow>
           \<exists>header encoded. split_once CHR '','' s = Some (header, encoded)
             \<and> cd_b64_decode cd encoded = Some (li_bytes img)
             \<and> starts_with ''data:image/'' header \<and> ends_with '';base64'' header
       | Source_Url u \<Rightarrow> False)"
proof -
  from assms(1) have bytes: "input_bytes cd limits opener roots (in_source inp) = Inr (li_bytes img)"
    and "inspect_image cd (li_bytes img) limits = Inr (li_metadata img)"
    and "in_media_type inp \<in> {None, Some (media_type (im_format (li_metadata img)))}"
    by (auto simp: load_image_def result_simps Let_def split: if_splits option.splits)
  then show ?thesis
    by (auto simp: verified_input_def inspected_length input_bytes_def decode_base64_Inr decode_data_url_Inr
        load_file_confined [OF _ assms(2)] split: image_source.splits)
qed

definition demo_opener :: open_in_root where
  "demo_opener base relative =
     (if relative = [Normal ''a'', Normal ''b.png'']
      then Inr \<lparr>if_metadata = None, if_regular = True, if_length = 3, if_read = Inr ''png''\<rparr>
      else Inl ''not found'')"

lemma demo_load:
  "\<exists>img. load_image tiny_codec default_image_limits demo_opener [[Root_Dir, Normal ''srv'']]
     \<lparr>in_source = Source_File ''/srv/./a//b.png'', in_media_type = Some ''image/png'', in_filename = None\<rparr> = Inr img"
proof -
  obtain m where m: "inspect_image tiny_codec ''png'' default_image_limits = Inr m"
    using inspect_tiny [of "''png''"] by auto
  then have "im_format m = Output_Format_Png"
    by (auto simp: inspect_image_Inr probe_image_def tiny_codec_def result_simps image_type_format_def split: if_splits)
  moreover have "load_file default_image_limits demo_opener [[Root_Dir, Normal ''srv'']] ''/srv/./a//b.png'' = Inr ''png''"
    by (simp add: load_file_def validate_lexical_path_def path_components_def path_is_absolute_def path_component_def
        List.map_filter_def strip_root_def demo_opener_def read_file_def read_bounded_def default_image_limits_def
        word_less_nat_alt sat_add_def)
  ultimately show ?thesis using m by (simp add: load_image_def input_bytes_def media_type_def)
qed

theorem loaded_image_confined_witness:
  "\<exists>img. load_image tiny_codec default_image_limits demo_opener [[Root_Dir, Normal ''srv'']]
     \<lparr>in_source = Source_File ''/srv/./a//b.png'', in_media_type = Some ''image/png'', in_filename = None\<rparr> = Inr img
   \<and> length (li_bytes img) \<le> 33554432"
proof -
  obtain img where l: "load_image tiny_codec default_image_limits demo_opener [[Root_Dir, Normal ''srv'']]
     \<lparr>in_source = Source_File ''/srv/./a//b.png'', in_media_type = Some ''image/png'', in_filename = None\<rparr> = Inr img"
    using demo_load by blast
  from loaded_image_confined [OF l] have "verified_input tiny_codec default_image_limits img" by simp
  then have "length (li_bytes img) \<le> 33554432" by (simp add: verified_input_def default_image_limits_def)
  with l show ?thesis by blast
qed

end
