(* ===== verification/Presets.thy ===== *)
theory Presets
  imports Job_Store
begin

text \<open>
  Reusable presets: the template of a request in \<open>crates/core/src/preset.rs\<close>, and their durable store in
  \<open>crates/runtime/src/sqlite_presets.rs\<close>. The table \<open>image_presets\<close> is the list of its rows, as in the job
  store; the JSON encoder of templates is a parameter.
\<close>

section \<open>Templates\<close>

datatype preset_operation = Preset_Generate | Preset_Edit

definition default_preset_operation :: preset_operation where
  "default_preset_operation = Preset_Generate"

record preset_template =
  pt_prompt :: "string option"
  pt_negative_prompt :: "string option"
  pt_operation :: preset_operation
  pt_parameters :: generation_parameters
  pt_routing :: routing_options
  pt_session :: session_options
  pt_output :: output_options
  pt_policies :: request_policies
  pt_timeout_ms :: "u64 option"
  pt_user :: "string option"

definition default_preset_template :: preset_template where
  "default_preset_template =
     \<lparr>pt_prompt = None, pt_negative_prompt = None, pt_operation = Preset_Generate,
      pt_parameters = default_generation_parameters, pt_routing = default_routing_options,
      pt_session = default_session_options, pt_output = default_output_options,
      pt_policies = default_request_policies, pt_timeout_ms = None, pt_user = None\<rparr>"

definition template_from_request :: "image_request \<Rightarrow> preset_template" where
  "template_from_request request =
     \<lparr>pt_prompt = (if req_prompt request = [] then None else Some (req_prompt request)),
      pt_negative_prompt = req_negative_prompt request,
      pt_operation = (case req_operation request of Op_Generate _ \<Rightarrow> Preset_Generate | Op_Edit _ _ _ \<Rightarrow> Preset_Edit),
      pt_parameters = req_parameters request, pt_routing = req_routing request,
      pt_session = req_session request, pt_output = req_output request,
      pt_policies = req_policies request, pt_timeout_ms = req_timeout_ms request,
      pt_user = req_user request\<rparr>"

definition bare_operation :: "preset_operation \<Rightarrow> image_operation" where
  "bare_operation op = (case op of Preset_Generate \<Rightarrow> Op_Generate [] | Preset_Edit \<Rightarrow> Op_Edit [] None [])"

definition template_request :: "preset_template \<Rightarrow> string option \<Rightarrow> image_request result" where
  "template_request template prompt =
     (let candidate = (case prompt of None \<Rightarrow> pt_prompt template | Some p \<Rightarrow> Some p) in
      case (case candidate of None \<Rightarrow> None | Some p \<Rightarrow> if is_blank p then None else Some p) of
        None \<Rightarrow>
          Inl (with_detail ''field'' (JStr ''prompt'')
            (error_new InvalidRequest ''preset application requires a prompt or a stored preset prompt''))
      | Some p \<Rightarrow>
          Inr \<lparr>req_version = contract_version, req_prompt = p, req_negative_prompt = pt_negative_prompt template,
            req_operation = bare_operation (pt_operation template), req_parameters = pt_parameters template,
            req_routing = pt_routing template, req_session = pt_session template,
            req_output = pt_output template, req_policies = pt_policies template,
            req_idempotency_key = None, req_timeout_ms = pt_timeout_ms template, req_user = pt_user template\<rparr>)"

record preset_write =
  pw_description :: "string option"
  pw_template :: preset_template

record preset_create_payload =
  pc_name :: string
  pc_description :: "string option"
  pc_template :: preset_template

record image_preset =
  ip_name :: string
  ip_description :: "string option"
  ip_template :: preset_template
  ip_created :: u64
  ip_updated :: u64

definition preset_name_byte :: "nat \<Rightarrow> char \<Rightarrow> bool" where
  "preset_name_byte index c =
     (if is_ascii_alphanumeric c then True else if c \<in> {CHR ''.'', CHR ''_'', CHR ''-''} then 0 < index else False)"

definition validate_preset_name :: "string \<Rightarrow> unit result" where
  "validate_preset_name name =
     require (1 \<le> length name \<and> length name \<le> 64 \<and> list_all (\<lambda>(index, c). preset_name_byte index c) (enumerate 0 name))
       (with_detail ''field'' (JStr ''name'') (error_new InvalidRequest
         ''preset name must be 1-64 characters using letters, numbers, dot, underscore, or hyphen''))"

definition preset_placeholder :: image_input where
  "preset_placeholder =
     \<lparr>in_source = Source_Base64 ''AA=='', in_media_type = Some ''image/png'', in_filename = Some ''preset-input.png''\<rparr>"

definition with_placeholder :: "image_request \<Rightarrow> image_request" where
  "with_placeholder request =
     request\<lparr>req_operation :=
       (case req_operation request of
          Op_Generate reference_images \<Rightarrow>
            if gp_input_fidelity (req_parameters request) \<noteq> None \<or> gp_action (req_parameters request) = Image_Action_Edit
            then Op_Generate (reference_images @ [preset_placeholder]) else Op_Generate reference_images
        | Op_Edit images m reference_images \<Rightarrow> Op_Edit (images @ [preset_placeholder]) m reference_images)\<rparr>"

definition validate_preset_write :: "preset_write \<Rightarrow> unit result" where
  "validate_preset_write write =
     (if (case pw_description write of None \<Rightarrow> False | Some description \<Rightarrow> 512 < length description \<or> has_control description)
      then Inl (with_detail ''field'' (JStr ''description'')
        (error_new InvalidRequest ''preset description must contain at most 512 bytes and no control characters''))
      else if (case pt_prompt (pw_template write) of None \<Rightarrow> False | Some prompt \<Rightarrow> is_blank prompt)
      then Inl (with_detail ''field'' (JStr ''template.prompt'')
        (error_new InvalidRequest ''stored preset prompt cannot be empty''))
      else
        and_then (template_request (pw_template write) (Some ''preset validation'')) (\<lambda>request.
          validate_request (with_placeholder request) default_request_limits))"

section \<open>The store\<close>

record preset_row =
  ps_name :: string
  ps_description :: "string option"
  ps_template :: string
  ps_created :: int
  ps_updated :: int

type_synonym preset_table = "preset_row list"

record template_codec =
  tc_encode :: "preset_template \<Rightarrow> string option"
  tc_decode :: "string \<Rightarrow> preset_template option"

definition preset_storage_error :: "string \<Rightarrow> bridge_error" where
  "preset_storage_error message = with_detail ''stage'' (JStr ''preset_storage'') (error_new Internal message)"

definition preset_not_found :: bridge_error where
  "preset_not_found = with_detail ''resource'' (JStr ''preset'') (error_new InvalidRequest ''preset was not found'')"

definition encode_template :: "template_codec \<Rightarrow> preset_template \<Rightarrow> string result" where
  "encode_template cd template = ok_or (preset_storage_error ''could not encode preset'') (tc_encode cd template)"

text \<open>A row is read column by column; a negative timestamp is no \<open>u64\<close>.\<close>

definition read_preset_row :: "string \<Rightarrow> preset_row \<Rightarrow> preset_row result" where
  "read_preset_row message r =
     (if 0 \<le> ps_created r \<and> 0 \<le> ps_updated r then Inr r else Inl (preset_storage_error message))"

definition decode_preset_row :: "template_codec \<Rightarrow> preset_row \<Rightarrow> image_preset result" where
  "decode_preset_row cd r =
     and_then (ok_or (preset_storage_error ''stored preset is invalid'') (tc_decode cd (ps_template r))) (\<lambda>template.
       Inr \<lparr>ip_name = ps_name r, ip_description = ps_description r, ip_template = template,
            ip_created = word_of_int (ps_created r), ip_updated = word_of_int (ps_updated r)\<rparr>)"

definition insert_or_ignore :: "preset_row \<Rightarrow> preset_table \<Rightarrow> nat \<times> preset_table" where
  "insert_or_ignore r rows = (if ps_name r \<in> ps_name ` set rows then (0, rows) else (1, rows @ [r]))"

text \<open>Binding an unsigned number fails beyond the signed range of SQLite.\<close>

definition bind_u64 :: "string \<Rightarrow> u64 \<Rightarrow> int result" where
  "bind_u64 message v = (if uint v \<le> i64_max then Inr (uint v) else Inl (preset_storage_error message))"

definition preset_create ::
  "template_codec \<Rightarrow> bool \<Rightarrow> preset_create_payload \<Rightarrow> u64 \<Rightarrow> preset_table \<Rightarrow> image_preset result \<times> preset_table" where
  "preset_create cd io payload now =
     checked (validate_preset_name (pc_name payload)) (\<lambda>_.
     checked (validate_preset_write \<lparr>pw_description = pc_description payload, pw_template = pc_template payload\<rparr>) (\<lambda>_.
     checked (encode_template cd (pc_template payload)) (\<lambda>template.
     db_call io (preset_storage_error ''could not create preset'') (
     checked (bind_u64 ''could not create preset'' now) (\<lambda>stamp st.
       case insert_or_ignore \<lparr>ps_name = pc_name payload, ps_description = pc_description payload,
              ps_template = template, ps_created = stamp, ps_updated = stamp\<rparr> st of
         (inserted, st') \<Rightarrow>
           (if inserted = 0
            then Inl (with_detail ''resource'' (JStr ''preset'') (with_detail ''field'' (JStr ''name'')
                   (error_new IdempotencyConflict ''a preset with this name already exists'')))
            else Inr \<lparr>ip_name = pc_name payload, ip_description = pc_description payload,
                      ip_template = pc_template payload, ip_created = now, ip_updated = now\<rparr>, st'))))))"

definition preset_get :: "template_codec \<Rightarrow> bool \<Rightarrow> string \<Rightarrow> preset_table \<Rightarrow> image_preset result" where
  "preset_get cd io name st =
     and_then (validate_preset_name name) (\<lambda>_.
       if \<not> io then Inl (preset_storage_error ''could not read preset'')
       else
         (case find (\<lambda>r. ps_name r = name) st of
            None \<Rightarrow> Inl preset_not_found
          | Some r \<Rightarrow> and_then (read_preset_row ''could not read preset'' r) (decode_preset_row cd)))"

definition preset_list ::
  "template_codec \<Rightarrow> bool \<Rightarrow> string option \<Rightarrow> usize \<Rightarrow> preset_table \<Rightarrow> image_preset list result" where
  "preset_list cd io after limit st =
     (if \<not> io \<or> i64_max < int limit then Inl (preset_storage_error ''could not list presets'')
      else
        and_then (traverse (read_preset_row ''could not list presets'')
            (take limit (sort_key ps_name
              (filter (\<lambda>r. case after of None \<Rightarrow> True | Some name \<Rightarrow> name < ps_name r) st))))
          (traverse (decode_preset_row cd)))"

text \<open>A replacement reads the row again after its update; others may change the table in between.\<close>

definition preset_replace ::
  "template_codec \<Rightarrow> bool \<Rightarrow> bool \<Rightarrow> (preset_table \<Rightarrow> preset_table) \<Rightarrow> string \<Rightarrow> preset_write \<Rightarrow> u64
   \<Rightarrow> preset_table \<Rightarrow> image_preset result \<times> preset_table" where
  "preset_replace cd io io' others name write now =
     checked (validate_preset_name name) (\<lambda>_.
     checked (validate_preset_write write) (\<lambda>_.
     checked (encode_template cd (pw_template write)) (\<lambda>template.
     db_call io (preset_storage_error ''could not update preset'') (
     checked (bind_u64 ''could not update preset'' now) (\<lambda>stamp st.
       case sql_update (\<lambda>r. ps_name r = name)
              (\<lambda>r. r\<lparr>ps_description := pw_description write, ps_template := template, ps_updated := stamp\<rparr>) st of
         (updated, st') \<Rightarrow>
           if updated = 0 then (Inl preset_not_found, st')
           else (preset_get cd io' name (others st'), others st'))))))"

definition preset_delete :: "bool \<Rightarrow> string \<Rightarrow> preset_table \<Rightarrow> unit result \<times> preset_table" where
  "preset_delete io name =
     checked (validate_preset_name name) (\<lambda>_.
     db_call io (preset_storage_error ''could not delete preset'') (\<lambda>st.
       case sql_delete (\<lambda>r. ps_name r = name) st of
         (deleted, st') \<Rightarrow> (if deleted = 0 then Inl preset_not_found else Inr (), st')))"

end
