(* ===== verification/Presets_Properties.thy ===== *)
theory Presets_Properties
  imports Presets Job_Queries
begin

text \<open>
  What presets promise: templates and requests convert into each other, an accepted preset can be applied, and
  the table of presets is a finite map that is listed in the order of names.
\<close>

section \<open>Templates and requests\<close>

definition prompted_request :: "preset_template \<Rightarrow> string \<Rightarrow> image_request" where
  "prompted_request template p =
     \<lparr>req_version = contract_version, req_prompt = p, req_negative_prompt = pt_negative_prompt template,
      req_operation = bare_operation (pt_operation template), req_parameters = pt_parameters template,
      req_routing = pt_routing template, req_session = pt_session template,
      req_output = pt_output template, req_policies = pt_policies template,
      req_idempotency_key = None, req_timeout_ms = pt_timeout_ms template, req_user = pt_user template\<rparr>"

lemma template_request_Inr:
  "template_request template prompt = Inr r \<longleftrightarrow>
     (\<exists>p. (case prompt of None \<Rightarrow> pt_prompt template | Some p \<Rightarrow> Some p) = Some p \<and> \<not> is_blank p
       \<and> r = prompted_request template p)"
  by (auto simp: template_request_def prompted_request_def Let_def split: option.splits if_splits)

text \<open>Capturing a request as a template and building a request from it again gives the request back, without
  its image inputs and its idempotency key and at the current contract version; building a request and
  capturing it gives the template back, with the prompt that was used.\<close>

lemma preset_round_trip:
  assumes "\<not> is_blank (req_prompt request)"
    and "template_request template prompt = Inr applied"
  shows "template_request (template_from_request request) None =
      Inr (request\<lparr>req_version := contract_version,
        req_operation := bare_operation (pt_operation (template_from_request request)), req_idempotency_key := None\<rparr>)
    \<and> template_from_request applied = template\<lparr>pt_prompt := Some (req_prompt applied)\<rparr>"
proof
  show "template_request (template_from_request request) None =
      Inr (request\<lparr>req_version := contract_version,
        req_operation := bare_operation (pt_operation (template_from_request request)), req_idempotency_key := None\<rparr>)"
    unfolding template_request_Inr using assms(1)
    by (auto simp: template_from_request_def prompted_request_def dest: not_is_blank_nonempty)
  from assms(2) obtain p where "\<not> is_blank p" "applied = prompted_request template p"
    by (auto simp: template_request_Inr)
  then show "template_from_request applied = template\<lparr>pt_prompt := Some (req_prompt applied)\<rparr>"
    by (cases template)
      (auto simp: template_from_request_def prompted_request_def bare_operation_def not_is_blank_nonempty
        split: preset_operation.splits)
qed

lemma preset_round_trip_witness:
  "\<exists>r. template_request default_preset_template (Some ''fox'') = Inr r
     \<and> template_from_request r = default_preset_template\<lparr>pt_prompt := Some ''fox''\<rparr>"
proof -
  have fox: "\<not> is_blank ''fox''" by code_simp
  then have r: "template_request default_preset_template (Some ''fox'') = Inr (prompted_request default_preset_template ''fox'')"
    by (simp add: template_request_Inr)
  have "\<not> is_blank (req_prompt (request_generate ''fox''))" using fox by (simp add: request_generate_def)
  from preset_round_trip [OF this r] r show ?thesis by (simp add: prompted_request_def)
qed

section \<open>Accepted presets\<close>

lemma identifier_default [simp]: "lim_max_identifier_bytes default_request_limits = 256"
  by (simp add: default_request_limits_def)

text \<open>The configured limits may be more generous than the default ones, which the store checks.\<close>

definition limits_cover :: "request_limits \<Rightarrow> bool" where
  "limits_cover limits \<longleftrightarrow>
     (let d = default_request_limits in
      lim_max_prompt_bytes d \<le> lim_max_prompt_bytes limits
      \<and> lim_max_negative_prompt_bytes d \<le> lim_max_negative_prompt_bytes limits
      \<and> lim_max_outputs d \<le> lim_max_outputs limits \<and> lim_max_inputs d \<le> lim_max_inputs limits
      \<and> lim_max_inline_encoded_bytes d \<le> lim_max_inline_encoded_bytes limits
      \<and> lim_max_edge d \<le> lim_max_edge limits \<and> lim_max_timeout_ms d \<le> lim_max_timeout_ms limits
      \<and> lim_max_identifier_bytes d \<le> lim_max_identifier_bytes limits)"

lemma limits_coverD:
  assumes "limits_cover limits"
  shows "131072 \<le> lim_max_prompt_bytes limits" "lim_max_negative_prompt_bytes default_request_limits \<le> lim_max_negative_prompt_bytes limits"
    "lim_max_outputs default_request_limits \<le> lim_max_outputs limits" "lim_max_edge default_request_limits \<le> lim_max_edge limits"
    "lim_max_timeout_ms default_request_limits \<le> lim_max_timeout_ms limits"
    "identifier_ok default_request_limits s \<Longrightarrow> identifier_ok limits s"
  using assms by (auto simp: limits_cover_def Let_def default_request_limits_def identifier_ok_def)

lemma cover_identifiers:
  "limits_cover limits \<Longrightarrow> pred_option (identifier_ok default_request_limits) x \<Longrightarrow> pred_option (identifier_ok limits) x"
  by (cases x) (auto simp: limits_coverD)

lemma cover_parameters:
  assumes "limits_cover limits" "parameters_ok p default_request_limits"
  shows "parameters_ok p limits"
proof -
  note le = limits_coverD(3,4) [OF assms(1)]
  have "pred_option (\<lambda>(w, h). w \<le> lim_max_edge limits \<and> h \<le> lim_max_edge limits) (size_dimensions (gp_size p))"
    using assms(2) order_trans [OF _ le(2)] by (cases "size_dimensions (gp_size p)") (auto simp: parameters_ok_def)
  moreover have "gp_n p \<le> lim_max_outputs limits"
    using assms(2) order_trans [OF _ le(1)] by (auto simp: parameters_ok_def)
  ultimately show ?thesis using assms(2) by (simp add: parameters_ok_def)
qed

lemma cover_session: "limits_cover limits \<Longrightarrow> session_ok s default_request_limits \<Longrightarrow> session_ok s limits"
  using cover_identifiers [of limits] by (auto simp: session_ok_def split: session_mode.splits)

lemma cover_routing: "limits_cover limits \<Longrightarrow> routing_ok r default_request_limits \<Longrightarrow> routing_ok r limits"
  using cover_identifiers [of limits] by (auto simp: routing_ok_def route_ok_def Let_def limits_coverD)

lemma cover_timeout:
  "limits_cover limits \<Longrightarrow> pred_option (\<lambda>t. t \<noteq> 0 \<and> t \<le> lim_max_timeout_ms default_request_limits) x
   \<Longrightarrow> pred_option (\<lambda>t. t \<noteq> 0 \<and> t \<le> lim_max_timeout_ms limits) x"
  by (cases x) (auto dest: limits_coverD(5) intro: order_trans)

lemma cover_negative:
  assumes "limits_cover limits"
    "pred_option (\<lambda>np. \<not> is_blank np \<and> length np \<le> lim_max_negative_prompt_bytes default_request_limits \<and> Q np) x"
  shows "pred_option (\<lambda>np. \<not> is_blank np \<and> length np \<le> lim_max_negative_prompt_bytes limits \<and> Q np) x"
  using assms(2) limits_coverD(2) [OF assms(1)] by (cases x) auto

lemma accepted_request_valid:
  assumes cover: "limits_cover limits" and "validate_preset_write write = Inr ()" and blank: "\<not> is_blank p"
  shows "validate_request (prompted_request (pw_template write) p\<lparr>req_operation := operation\<rparr>) limits = Inr () \<longleftrightarrow>
      length p \<le> lim_max_prompt_bytes limits
      \<and> (embeds (out_metadata (pt_output (pw_template write))) \<longrightarrow>
           length p + option_length (pt_negative_prompt (pw_template write)) \<le> 12288)
      \<and> inputs_ok (prompted_request (pw_template write) p\<lparr>req_operation := operation\<rparr>) limits"
proof -
  let ?t = "pw_template write" and ?d = default_request_limits
  let ?r = "prompted_request ?t p\<lparr>req_operation := operation\<rparr>"
  from assms(2) have ok: "well_formed_request (with_placeholder (prompted_request ?t ''preset validation'')) ?d"
    by (auto simp: validate_preset_write_def template_request_Inr result_simps validate_request_Inr_iff [symmetric]
        split: if_splits)
  note defs = well_formed_request_def with_placeholder_def prompted_request_def Let_def
  have "routing_ok ?r ?d" using ok by (simp add: defs routing_ok_def route_ok_def)
  then have routing: "routing_ok ?r limits" by (rule cover_routing [OF cover])
  have out: "output_ok ?r \<longleftrightarrow>
       (embeds (out_metadata (pt_output ?t)) \<longrightarrow> length p + option_length (pt_negative_prompt ?t) \<le> 12288)"
    using ok by (cases "out_filename (pt_output ?t)") (auto simp: defs output_ok_def)
  have prompts: "prompts_ok ?r limits \<longleftrightarrow> length p \<le> lim_max_prompt_bytes limits"
    using ok blank cover_negative [OF cover, of "\<lambda>np. pol_negative_prompt (pt_policies ?t) \<noteq> Negative_Prompt_Mode_Reject"]
    by (auto simp: defs prompts_ok_def)
  have "parameters_ok (pt_parameters ?t) limits" "session_ok (pt_session ?t) limits"
    "transparency_ok (out_transparency (pt_output ?t))" "pred_option (identifier_ok limits) (pt_user ?t)"
    "pred_option (\<lambda>t. t \<noteq> 0 \<and> t \<le> lim_max_timeout_ms limits) (pt_timeout_ms ?t)"
    using ok cover_parameters [OF cover] cover_session [OF cover] cover_identifiers [OF cover] cover_timeout [OF cover]
    by (auto simp: defs)
  with routing have "validate_request ?r limits = Inr () \<longleftrightarrow>
      prompts_ok ?r limits \<and> output_ok ?r \<and> inputs_ok ?r limits"
    by (simp add: validate_request_Inr_iff well_formed_request_def) (simp add: prompted_request_def)
  then show ?thesis unfolding out prompts .
qed

text \<open>C23. An accepted preset fails to apply only for its prompt or its inputs. With a prompt, supplied by the caller or
  else the stored one, it builds a request unless the prompt is missing or a supplied one is blank; with any
  operation the request is valid under the configured limits, which must not be narrower than the defaults, exactly
  when the prompt is within its limits (alone, and together with the negative prompt when metadata is embedded) and
  the inputs are. The length of a stored prompt is not checked when the preset is accepted, so a stored prompt can
  make every application fail to which the caller adds nothing.\<close>

theorem accepted_preset_applies:
  assumes "validate_preset_write write = Inr ()" and "limits_cover limits"
  shows "case (case prompt of None \<Rightarrow> pt_prompt (pw_template write) | Some p \<Rightarrow> Some p) of
      None \<Rightarrow> \<not> is_ok (template_request (pw_template write) prompt)
    | Some p \<Rightarrow>
        if is_blank p then prompt = Some p \<and> \<not> is_ok (template_request (pw_template write) prompt)
        else \<exists>request. template_request (pw_template write) prompt = Inr request \<and> req_prompt request = p
          \<and> (validate_request (request\<lparr>req_operation := operation\<rparr>) limits = Inr () \<longleftrightarrow>
              length p \<le> lim_max_prompt_bytes limits
              \<and> (embeds (out_metadata (pt_output (pw_template write))) \<longrightarrow>
                   length p + option_length (pt_negative_prompt (pw_template write)) \<le> 12288)
              \<and> inputs_ok (request\<lparr>req_operation := operation\<rparr>) limits)"
proof (cases "case prompt of None \<Rightarrow> pt_prompt (pw_template write) | Some p \<Rightarrow> Some p")
  case None
  then show ?thesis using template_request_Inr [of "pw_template write" prompt]
    by (cases "template_request (pw_template write) prompt") (auto simp: is_ok_def)
next
  case (Some p)
  show ?thesis
  proof (cases "is_blank p")
    case True
    have "\<not> (prompt = None \<and> pt_prompt (pw_template write) = Some p)"
      using assms(1) True by (auto simp: validate_preset_write_def split: if_splits)
    with Some have "prompt = Some p" by (cases prompt) auto
    with Some True show ?thesis using template_request_Inr [of "pw_template write" prompt]
      by (cases "template_request (pw_template write) prompt") (auto simp: is_ok_def)
  next
    case False
    then have "template_request (pw_template write) prompt = Inr (prompted_request (pw_template write) p)"
      using Some by (simp add: template_request_Inr)
    then show ?thesis using Some False accepted_request_valid [OF assms(2,1) False, of operation]
      by (simp add: prompted_request_def)
  qed
qed

lemma default_preset_accepted: "validate_preset_write \<lparr>pw_description = None, pw_template = default_preset_template\<rparr> = Inr ()"
proof -
  let ?r = "prompted_request default_preset_template ''preset validation''"
  have "well_formed_request ?r default_request_limits"
    by (simp add: well_formed_defs prompted_request_def default_preset_template_def bare_operation_def request_defaults)
  moreover have "with_placeholder ?r = ?r"
    by (simp add: with_placeholder_def prompted_request_def default_preset_template_def bare_operation_def request_defaults)
  moreover have "template_request default_preset_template (Some ''preset validation'') = Inr ?r"
    by (simp add: template_request_Inr is_blank_def space1_def space2_def space3_def)
  ultimately show ?thesis
    by (simp add: validate_preset_write_def validate_request_Inr_iff default_preset_template_def)
qed

theorem accepted_preset_applies_witness:
  "\<exists>request. template_request default_preset_template (Some ''fox'') = Inr request
     \<and> validate_request (request\<lparr>req_operation := Op_Generate []\<rparr>) default_request_limits = Inr ()"
proof -
  have blank: "\<not> is_blank ''fox''" by (simp add: is_blank_def space1_def space2_def space3_def)
  have cover: "limits_cover default_request_limits" by (simp add: limits_cover_def Let_def)
  have "inputs_ok (request\<lparr>req_operation := Op_Generate []\<rparr>) default_request_limits"
    if "template_request default_preset_template (Some ''fox'') = Inr request" for request
    using that by (auto simp: template_request_Inr prompted_request_def well_formed_defs default_preset_template_def
        bare_operation_def request_defaults)
  moreover have "length ''fox'' \<le> lim_max_prompt_bytes default_request_limits"
    "\<not> embeds (out_metadata (pt_output default_preset_template))"
    by (simp_all add: default_request_limits_def default_preset_template_def request_defaults well_formed_defs)
  ultimately show ?thesis
    using accepted_preset_applies [OF default_preset_accepted cover, of "Some ''fox''" "Op_Generate []"] blank by auto
qed

text \<open>The length of a stored prompt is not checked: the validation runs on a prompt of its own.\<close>

lemma trim_start_letters: "trim_start (replicate (Suc n) CHR ''a'') \<noteq> []"
  by (cases n; cases "n - 1") (simp_all add: space1_def space2_def space3_def split: nat.splits)

lemma stored_prompt_length_unchecked:
  "\<exists>write request. validate_preset_write write = Inr ()
     \<and> template_request (pw_template write) None = Inr request
     \<and> validate_request request default_request_limits \<noteq> Inr ()"
proof -
  let ?p = "replicate (Suc 131072) CHR ''a''"
  let ?t = "default_preset_template\<lparr>pt_prompt := Some ?p\<rparr>"
  have blank: "\<not> is_blank ?p" unfolding is_blank_def by (rule trim_start_letters)
  have "template_request ?t (Some s) = template_request default_preset_template (Some s)" for s
    by (simp add: template_request_def)
  then have "validate_preset_write \<lparr>pw_description = None, pw_template = ?t\<rparr> = Inr ()"
    using default_preset_accepted blank by (simp add: validate_preset_write_def default_preset_template_def del: replicate_Suc)
  moreover have "template_request ?t None = Inr (prompted_request ?t ?p)"
    using blank by (simp add: template_request_Inr del: replicate_Suc)
  moreover have "validate_request (prompted_request ?t ?p) default_request_limits \<noteq> Inr ()"
    by (simp add: validate_request_Inr_iff well_formed_request_def prompts_ok_def prompted_request_def
        default_request_limits_def del: replicate_Suc)
  ultimately show ?thesis by (metis preset_write.select_convs(2))
qed

section \<open>The table as a map\<close>

definition codec_faithful :: "template_codec \<Rightarrow> preset_template \<Rightarrow> bool" where
  "codec_faithful cd t \<longleftrightarrow> (\<forall>s. tc_encode cd t = Some s \<longrightarrow> tc_decode cd s = Some t)"

definition stamp_ok :: "int \<Rightarrow> bool" where
  "stamp_ok t \<longleftrightarrow> 0 \<le> t \<and> t \<le> i64_max"

definition preset_row_ok :: "template_codec \<Rightarrow> preset_row \<Rightarrow> bool" where
  "preset_row_ok cd r \<longleftrightarrow>
     validate_preset_name (ps_name r) = Inr () \<and> tc_decode cd (ps_template r) \<noteq> None
     \<and> stamp_ok (ps_created r) \<and> stamp_ok (ps_updated r)"

definition preset_table_ok :: "template_codec \<Rightarrow> preset_table \<Rightarrow> bool" where
  "preset_table_ok cd st \<longleftrightarrow> distinct (map ps_name st) \<and> list_all (preset_row_ok cd) st"

definition row_preset :: "template_codec \<Rightarrow> preset_row \<Rightarrow> image_preset" where
  "row_preset cd r =
     \<lparr>ip_name = ps_name r, ip_description = ps_description r, ip_template = the (tc_decode cd (ps_template r)),
      ip_created = word_of_int (ps_created r), ip_updated = word_of_int (ps_updated r)\<rparr>"

definition presets_of :: "template_codec \<Rightarrow> preset_table \<Rightarrow> string \<rightharpoonup> image_preset" where
  "presets_of cd st = map_of (map (\<lambda>r. (ps_name r, row_preset cd r)) st)"

lemma row_read: "preset_row_ok cd r \<Longrightarrow> read_preset_row m r = Inr r"
  by (simp add: preset_row_ok_def read_preset_row_def stamp_ok_def)

lemma row_decode: "preset_row_ok cd r \<Longrightarrow> decode_preset_row cd r = Inr (row_preset cd r)"
  by (auto simp: preset_row_ok_def decode_preset_row_def row_preset_def)

lemma traverse_map: "(\<And>x. x \<in> set xs \<Longrightarrow> f x = Inr (g x)) \<Longrightarrow> traverse f xs = Inr (map g xs)"
  by (induction xs) auto

lemma row_preset_name [simp]: "ip_name (row_preset cd r) = ps_name r"
  by (simp add: row_preset_def)

lemma presets_of_None: "presets_of cd st name = None \<longleftrightarrow> name \<notin> ps_name ` set st"
  by (auto simp: presets_of_def map_of_eq_None_iff image_image)

lemma presets_of_find:
  "presets_of cd st name = map_option (row_preset cd) (find (\<lambda>r. ps_name r = name) st)"
  by (induction st) (auto simp: presets_of_def)

lemma presets_of_append: "presets_of cd (st @ [r]) = presets_of cd [r] ++ presets_of cd st"
  by (simp add: presets_of_def)

lemma presets_of_delete: "presets_of cd (filter (\<lambda>r. ps_name r \<noteq> name) st) = (presets_of cd st)(name := None)"
  by (induction st) (auto simp: presets_of_def fun_eq_iff)

lemma presets_of_update:
  assumes "distinct (map ps_name st)" "r \<in> set st" "ps_name r = name" "\<And>r. ps_name (f r) = ps_name r"
  shows "presets_of cd (map (\<lambda>r. if ps_name r = name then f r else r) st) = (presets_of cd st)(name \<mapsto> row_preset cd (f r))"
proof (rule ext)
  fix x
  let ?update = "\<lambda>r. if ps_name r = name then f r else r"
  show "presets_of cd (map ?update st) x = ((presets_of cd st)(name \<mapsto> row_preset cd (f r))) x"
  proof (cases "x = name")
    case True
    have "distinct (map ps_name (map ?update st))" using assms(1,4) by (simp add: comp_def if_distrib cong: if_cong)
    moreover have "f r \<in> set (map ?update st)" using assms(2,3) by (auto simp: image_iff)
    ultimately have "presets_of cd (map ?update st) (ps_name (f r)) = Some (row_preset cd (f r))"
      unfolding presets_of_def by (intro map_of_is_SomeI) (auto simp: comp_def)
    with True assms(3,4) show ?thesis by simp
  next
    case False
    then show ?thesis by (induction st) (auto simp: presets_of_def assms(4))
  qed
qed

text \<open>What the store accepts: a valid name and payload, a template that can be encoded, a time within the signed
  range, and a database that answers.\<close>

definition storable :: "template_codec \<Rightarrow> bool \<Rightarrow> string \<Rightarrow> preset_write \<Rightarrow> u64 \<Rightarrow> bool" where
  "storable cd io name write now \<longleftrightarrow>
     io \<and> validate_preset_name name = Inr () \<and> validate_preset_write write = Inr ()
     \<and> tc_encode cd (pw_template write) \<noteq> None \<and> uint now \<le> i64_max"

definition payload_write :: "preset_create_payload \<Rightarrow> preset_write" where
  "payload_write payload = \<lparr>pw_description = pc_description payload, pw_template = pc_template payload\<rparr>"

lemma not_storable_create:
  assumes "\<not> storable cd io (pc_name payload) (payload_write payload) now"
  shows "\<exists>e. preset_create cd io payload now st = (Inl e, st)"
proof (cases "validate_preset_name (pc_name payload)")
  case nm: (Inr u)
  show ?thesis
  proof (cases "validate_preset_write (payload_write payload)")
    case wr: (Inr v)
    then show ?thesis
      using assms nm
      by (cases "tc_encode cd (pc_template payload)")
        (auto simp: storable_def payload_write_def preset_create_def encode_template_def db_call_def bind_u64_def)
  qed (use nm in \<open>simp add: preset_create_def payload_write_def\<close>)
qed (simp add: preset_create_def)

lemma preset_create_refines:
  assumes "codec_faithful cd (pc_template payload)" and "preset_table_ok cd st"
    and ok: "storable cd io (pc_name payload) (payload_write payload) now"
  shows "if presets_of cd st (pc_name payload) \<noteq> None
     then \<exists>e. preset_create cd io payload now st = (Inl e, st) \<and> err_code e = IdempotencyConflict
     else \<exists>p st'. preset_create cd io payload now st = (Inr p, st') \<and> preset_table_ok cd st'
       \<and> presets_of cd st' = (presets_of cd st)(pc_name payload \<mapsto> p)
       \<and> p = \<lparr>ip_name = pc_name payload, ip_description = pc_description payload, ip_template = pc_template payload,
              ip_created = now, ip_updated = now\<rparr>"
proof -
  from ok obtain json where json: "tc_encode cd (pc_template payload) = Some json" "tc_decode cd json = Some (pc_template payload)"
    using assms(1) by (auto simp: codec_faithful_def storable_def payload_write_def)
  let ?r = "\<lparr>ps_name = pc_name payload, ps_description = pc_description payload, ps_template = json,
    ps_created = uint now, ps_updated = uint now\<rparr>"
  have row: "preset_row_ok cd ?r" using ok json by (simp add: storable_def preset_row_ok_def stamp_ok_def)
  have run: "preset_create cd io payload now st =
    (if pc_name payload \<in> ps_name ` set st
     then (Inl (with_detail ''resource'' (JStr ''preset'') (with_detail ''field'' (JStr ''name'')
                   (error_new IdempotencyConflict ''a preset with this name already exists''))), st)
     else (Inr \<lparr>ip_name = pc_name payload, ip_description = pc_description payload, ip_template = pc_template payload,
              ip_created = now, ip_updated = now\<rparr>, st @ [?r]))"
    using ok json
    by (simp add: storable_def payload_write_def preset_create_def encode_template_def db_call_def bind_u64_def insert_or_ignore_def)
  show ?thesis
  proof (cases "pc_name payload \<in> ps_name ` set st")
    case False
    have "presets_of cd (st @ [?r]) = (presets_of cd st)(pc_name payload \<mapsto> row_preset cd ?r)"
      using False unfolding presets_of_append presets_of_None [of cd st "pc_name payload", symmetric]
      by (auto simp: fun_eq_iff map_add_def presets_of_def split: option.splits)
    moreover have "preset_table_ok cd (st @ [?r])" using False row assms(2) by (auto simp: preset_table_ok_def)
    ultimately show ?thesis using False json by (simp add: run presets_of_None row_preset_def)
  qed (simp add: run presets_of_None with_detail_def error_new_def)
qed

lemma preset_get_refines:
  assumes "preset_table_ok cd st" "validate_preset_name name = Inr ()"
  shows "preset_get cd True name st = (case presets_of cd st name of None \<Rightarrow> Inl preset_not_found | Some p \<Rightarrow> Inr p)"
proof (cases "find (\<lambda>r. ps_name r = name) st")
  case (Some r)
  then have "preset_row_ok cd r" using assms(1) by (auto simp: preset_table_ok_def list_all_iff find_Some_iff)
  with Some assms(2) show ?thesis by (simp add: preset_get_def presets_of_find row_read row_decode)
qed (use assms in \<open>simp add: preset_get_def presets_of_find\<close>)

lemma not_storable_replace:
  assumes "\<not> storable cd io name write now"
  shows "\<exists>e. preset_replace cd io io' others name write now st = (Inl e, st)"
proof (cases "validate_preset_name name")
  case nm: (Inr u)
  show ?thesis
  proof (cases "validate_preset_write write")
    case wr: (Inr v)
    then show ?thesis
      using assms nm
      by (cases "tc_encode cd (pw_template write)")
        (auto simp: storable_def preset_replace_def encode_template_def db_call_def bind_u64_def)
  qed (use nm in \<open>simp add: preset_replace_def\<close>)
qed (simp add: preset_replace_def)

lemma preset_replace_refines:
  assumes "codec_faithful cd (pw_template write)" and "preset_table_ok cd st" and ok: "storable cd io name write now"
  shows "case presets_of cd st name of
      None \<Rightarrow> preset_replace cd io io' others name write now st = (Inl preset_not_found, st)
    | Some old \<Rightarrow> \<exists>st'. preset_table_ok cd st'
        \<and> presets_of cd st' = (presets_of cd st)(name \<mapsto>
            old\<lparr>ip_description := pw_description write, ip_template := pw_template write, ip_updated := now\<rparr>)
        \<and> preset_replace cd io io' others name write now st = (preset_get cd io' name (others st'), others st')"
proof -
  obtain json where json: "tc_encode cd (pw_template write) = Some json" "tc_decode cd json = Some (pw_template write)"
    using assms(1) ok by (auto simp: codec_faithful_def storable_def)
  let ?f = "\<lambda>r. r\<lparr>ps_description := pw_description write, ps_template := json, ps_updated := uint now\<rparr>"
  let ?st = "map (\<lambda>r. if ps_name r = name then ?f r else r) st"
  have run: "preset_replace cd io io' others name write now st =
      (if filter (\<lambda>r. ps_name r = name) st = [] then (Inl preset_not_found, ?st)
       else (preset_get cd io' name (others ?st), others ?st))"
    using ok json by (simp add: storable_def preset_replace_def encode_template_def db_call_def bind_u64_def sql_update_def)
  show ?thesis
  proof (cases "presets_of cd st name")
    case None
    then have "filter (\<lambda>r. ps_name r = name) st = []" by (auto simp: presets_of_None filter_empty_conv)
    moreover have "?st = st" using None by (intro map_idI) (auto simp: presets_of_None)
    ultimately show ?thesis using None by (simp add: run)
  next
    case (Some old)
    then obtain r where r: "r \<in> set st" "ps_name r = name" "old = row_preset cd r"
      by (auto simp: presets_of_find dest!: find_holds)
    then have "preset_row_ok cd r" using assms(2) by (auto simp: preset_table_ok_def list_all_iff)
    have abs: "presets_of cd ?st = (presets_of cd st)(name \<mapsto> row_preset cd (?f r))"
      using assms(2) r by (intro presets_of_update) (auto simp: preset_table_ok_def)
    have table: "preset_table_ok cd ?st"
      using assms(2) ok json(2)
      by (auto simp: preset_table_ok_def list_all_iff preset_row_ok_def stamp_ok_def storable_def comp_def if_distrib cong: if_cong)
    have "filter (\<lambda>r. ps_name r = name) st \<noteq> []" using r by (auto simp: filter_empty_conv)
    then have eq: "preset_replace cd io io' others name write now st = (preset_get cd io' name (others ?st), others ?st)"
      using run by (simp only: if_False)
    have "row_preset cd (?f r) =
        old\<lparr>ip_description := pw_description write, ip_template := pw_template write, ip_updated := now\<rparr>"
      using json r(3) by (simp add: row_preset_def)
    with abs have "presets_of cd ?st = (presets_of cd st)(name \<mapsto>
        old\<lparr>ip_description := pw_description write, ip_template := pw_template write, ip_updated := now\<rparr>)" by (simp only:)
    with table eq show ?thesis unfolding Some option.case by blast
  qed
qed

lemma preset_delete_refines:
  assumes "preset_table_ok cd st"
  shows "if \<not> io \<or> validate_preset_name name \<noteq> Inr () then \<exists>e. preset_delete io name st = (Inl e, st)
    else if presets_of cd st name = None then preset_delete io name st = (Inl preset_not_found, st)
    else \<exists>st'. preset_delete io name st = (Inr (), st') \<and> preset_table_ok cd st'
      \<and> presets_of cd st' = (presets_of cd st)(name := None)"
proof -
  have "\<exists>e. preset_delete io name st = (Inl e, st)" if "\<not> io \<or> validate_preset_name name \<noteq> Inr ()"
    using that by (cases "validate_preset_name name") (auto simp: preset_delete_def db_call_def)
  moreover have "preset_delete io name st = (if name \<in> ps_name ` set st then Inr () else Inl preset_not_found,
      filter (\<lambda>r. ps_name r \<noteq> name) st)" if "\<not> (\<not> io \<or> validate_preset_name name \<noteq> Inr ())"
    using that by (auto simp: preset_delete_def db_call_def sql_delete_def filter_empty_conv)
  moreover have "filter (\<lambda>r. ps_name r \<noteq> name) st = st" if "name \<notin> ps_name ` set st"
    using that by (auto simp: filter_id_conv)
  moreover have "preset_table_ok cd (filter (\<lambda>r. ps_name r \<noteq> name) st)"
    using assms by (auto simp: preset_table_ok_def list_all_iff distinct_map_filter)
  ultimately show ?thesis by (auto simp: presets_of_delete presets_of_None)
qed

text \<open>C22. The store is a map from names to presets, with its failures. What is not storable (an invalid name or
  payload, a template that cannot be encoded, a time beyond the signed range, a failing database) changes
  nothing and is an error. A storable creation adds an absent name with the given content and refuses a present
  one as a conflict; a lookup reads the map, unless the name is invalid or the database fails. A storable
  replacement of an absent name changes nothing; of a present one it keeps the name and the time of creation and
  sets the rest, and then answers with a second lookup: when that fails, the caller gets an error although the preset
  has been replaced, and in between other callers may change the table. A deletion removes the name, or changes
  nothing. Every operation keeps the names distinct and the rows readable.\<close>

theorem preset_store_refines_map:
  assumes "codec_faithful cd (pc_template payload)" and "codec_faithful cd (pw_template write)"
    and "preset_table_ok cd st"
  shows "(if \<not> storable cd io (pc_name payload) (payload_write payload) now
      then \<exists>e. preset_create cd io payload now st = (Inl e, st)
      else if presets_of cd st (pc_name payload) \<noteq> None
      then \<exists>e. preset_create cd io payload now st = (Inl e, st) \<and> err_code e = IdempotencyConflict
      else \<exists>p st'. preset_create cd io payload now st = (Inr p, st') \<and> preset_table_ok cd st'
        \<and> presets_of cd st' = (presets_of cd st)(pc_name payload \<mapsto> p)
        \<and> p = \<lparr>ip_name = pc_name payload, ip_description = pc_description payload, ip_template = pc_template payload,
               ip_created = now, ip_updated = now\<rparr>)
    \<and> (if \<not> io \<or> validate_preset_name name \<noteq> Inr () then \<not> is_ok (preset_get cd io name st)
       else preset_get cd io name st = (case presets_of cd st name of None \<Rightarrow> Inl preset_not_found | Some p \<Rightarrow> Inr p))
    \<and> (if \<not> storable cd io name write now
       then \<exists>e. preset_replace cd io io' others name write now st = (Inl e, st)
       else case presets_of cd st name of
           None \<Rightarrow> preset_replace cd io io' others name write now st = (Inl preset_not_found, st)
         | Some old \<Rightarrow> \<exists>st'. preset_table_ok cd st'
             \<and> presets_of cd st' = (presets_of cd st)(name \<mapsto>
                 old\<lparr>ip_description := pw_description write, ip_template := pw_template write, ip_updated := now\<rparr>)
             \<and> preset_replace cd io io' others name write now st = (preset_get cd io' name (others st'), others st'))
    \<and> (if \<not> io \<or> validate_preset_name name \<noteq> Inr () then \<exists>e. preset_delete io name st = (Inl e, st)
       else if presets_of cd st name = None then preset_delete io name st = (Inl preset_not_found, st)
       else \<exists>st'. preset_delete io name st = (Inr (), st') \<and> preset_table_ok cd st'
         \<and> presets_of cd st' = (presets_of cd st)(name := None))"
proof (intro conjI)
  show "if \<not> io \<or> validate_preset_name name \<noteq> Inr () then \<not> is_ok (preset_get cd io name st)
    else preset_get cd io name st = (case presets_of cd st name of None \<Rightarrow> Inl preset_not_found | Some p \<Rightarrow> Inr p)"
    using preset_get_refines [OF assms(3), of name]
    by (cases "validate_preset_name name") (auto simp: preset_get_def is_ok_def)
  show "if \<not> storable cd io name write now
       then \<exists>e. preset_replace cd io io' others name write now st = (Inl e, st)
       else case presets_of cd st name of
           None \<Rightarrow> preset_replace cd io io' others name write now st = (Inl preset_not_found, st)
         | Some old \<Rightarrow> \<exists>st'. preset_table_ok cd st'
             \<and> presets_of cd st' = (presets_of cd st)(name \<mapsto>
                 old\<lparr>ip_description := pw_description write, ip_template := pw_template write, ip_updated := now\<rparr>)
             \<and> preset_replace cd io io' others name write now st = (preset_get cd io' name (others st'), others st')"
    using not_storable_replace preset_replace_refines [OF assms(2,3)] by simp
  show "if \<not> storable cd io (pc_name payload) (payload_write payload) now
      then \<exists>e. preset_create cd io payload now st = (Inl e, st)
      else if presets_of cd st (pc_name payload) \<noteq> None
      then \<exists>e. preset_create cd io payload now st = (Inl e, st) \<and> err_code e = IdempotencyConflict
      else \<exists>p st'. preset_create cd io payload now st = (Inr p, st') \<and> preset_table_ok cd st'
        \<and> presets_of cd st' = (presets_of cd st)(pc_name payload \<mapsto> p)
        \<and> p = \<lparr>ip_name = pc_name payload, ip_description = pc_description payload, ip_template = pc_template payload,
               ip_created = now, ip_updated = now\<rparr>"
    using not_storable_create preset_create_refines [OF assms(1,3)] by simp
qed (rule preset_delete_refines [OF assms(3)])

definition demo_template_codec :: template_codec where
  "demo_template_codec = \<lparr>tc_encode = (\<lambda>t. Some ''''), tc_decode = (\<lambda>s. Some default_preset_template)\<rparr>"

definition demo_preset_payload :: preset_create_payload where
  "demo_preset_payload = \<lparr>pc_name = ''fox'', pc_description = None, pc_template = default_preset_template\<rparr>"

definition demo_preset :: image_preset where
  "demo_preset = \<lparr>ip_name = ''fox'', ip_description = None, ip_template = default_preset_template, ip_created = 7, ip_updated = 7\<rparr>"

lemma demo_name: "validate_preset_name ''fox'' = Inr ()"
  by (simp add: validate_preset_name_def require_def preset_name_byte_def is_ascii_alphanumeric_def is_ascii_lowercase_def)

lemma demo_storable:
  "storable demo_template_codec True ''fox'' \<lparr>pw_description = None, pw_template = default_preset_template\<rparr> 7"
  using default_preset_accepted by (simp add: storable_def demo_name demo_template_codec_def i64_max_def)

theorem preset_store_refines_map_witness:
  "\<exists>st'. preset_create demo_template_codec True demo_preset_payload 7 [] = (Inr demo_preset, st')
     \<and> presets_of demo_template_codec st' = [''fox'' \<mapsto> demo_preset]"
proof -
  have codec: "codec_faithful demo_template_codec default_preset_template"
    by (simp add: codec_faithful_def demo_template_codec_def)
  from codec have faithful: "codec_faithful demo_template_codec (pc_template demo_preset_payload)"
    "codec_faithful demo_template_codec (pw_template \<lparr>pw_description = None, pw_template = default_preset_template\<rparr>)"
    by (simp_all add: demo_preset_payload_def)
  have empty: "preset_table_ok demo_template_codec []" "presets_of demo_template_codec [] = Map.empty"
    by (simp_all add: preset_table_ok_def presets_of_def)
  have storable: "storable demo_template_codec True (pc_name demo_preset_payload) (payload_write demo_preset_payload) 7"
    using demo_storable by (simp add: demo_preset_payload_def payload_write_def)
  from preset_store_refines_map [OF faithful empty(1), of True 7 "''fox''" True "\<lambda>st. st"] storable empty(2)
  show ?thesis by (auto simp: demo_preset_def demo_preset_payload_def)
qed

section \<open>The listing\<close>

definition all_presets :: "template_codec \<Rightarrow> preset_table \<Rightarrow> image_preset list" where
  "all_presets cd st = map (row_preset cd) (sort_key ps_name st)"

lemma preset_list_pages:
  assumes "preset_table_ok cd st" "int limit \<le> i64_max"
  shows "preset_list cd True after limit st = Inr (take limit
    (filter (\<lambda>p. case after of None \<Rightarrow> True | Some name \<Rightarrow> name < ip_name p) (all_presets cd st)))"
proof -
  let ?rows = "take limit (sort_key ps_name (filter (\<lambda>r. case after of None \<Rightarrow> True | Some name \<Rightarrow> name < ps_name r) st))"
  have rows: "preset_row_ok cd r" if "r \<in> set ?rows" for r
    using in_set_takeD [OF that] assms(1) by (auto simp: preset_table_ok_def list_all_iff)
  have "traverse (read_preset_row m) ?rows = Inr (map (\<lambda>r. r) ?rows)" for m
    by (intro traverse_map row_read [OF rows])
  moreover have "traverse (decode_preset_row cd) ?rows = Inr (map (row_preset cd) ?rows)"
    by (intro traverse_map row_decode [OF rows])
  moreover have "map (row_preset cd) ?rows = take limit
    (filter (\<lambda>p. case after of None \<Rightarrow> True | Some name \<Rightarrow> name < ip_name p) (all_presets cd st))"
    by (simp add: all_presets_def filter_map comp_def filter_sort take_map cong: option.case_cong)
  ultimately show ?thesis using assms(2) by (simp add: preset_list_def)
qed

lemma all_presets_sorted:
  assumes "preset_table_ok cd st"
  shows "sorted_wrt (\<lambda>a b. ip_name a < ip_name b) (all_presets cd st)"
proof -
  from assms have "sorted_wrt (\<lambda>a b. ps_name a < ps_name b) (sort_key ps_name st)"
    by (intro sort_key_strict) (simp add: preset_table_ok_def)
  then show ?thesis by (simp add: all_presets_def sorted_wrt_map)
qed

end
