(* ===== verification/Http_Server.thy ===== *)
theory Http_Server
  imports Job_Manager Presets Registry
begin

text \<open>
  The HTTP boundary in \<open>crates/server/src\<close>: the projection of errors (\<open>error.rs\<close>), the bearer token and the
  check of browser origins (\<open>auth.rs\<close>), and of \<open>routes.rs\<close> the correlation headers, the cursors and the
  handlers of providers, presets and jobs. A handler takes what the framework extracted, \<open>None\<close> for a rejected
  extraction; the base64 and URI parsers and the UUID library are parameters.
\<close>

section \<open>Errors on the wire\<close>

record bridge_extension =
  be_code :: error_code
  be_retryable :: bool
  be_provider :: "string option"
  be_upstream_request_id :: "string option"
  be_details :: "string \<rightharpoonup> json"
  be_suggestions :: "string list"

record compatible_error =
  ce_message :: string
  ce_type :: string
  ce_param :: "string option"
  ce_code :: string
  ce_extension :: bridge_extension

record api_error =
  ae_status :: nat
  ae_error :: compatible_error
  ae_request_id :: string

definition compatible_type :: "error_code \<Rightarrow> string" where
  "compatible_type code =
     (case code of
        InvalidRequest \<Rightarrow> ''invalid_request_error'' | UnsupportedCapability \<Rightarrow> ''invalid_request_error''
      | Input \<Rightarrow> ''invalid_request_error'' | Session \<Rightarrow> ''invalid_request_error''
      | IdempotencyConflict \<Rightarrow> ''invalid_request_error''
      | Authentication \<Rightarrow> ''authentication_error'' | PermissionDenied \<Rightarrow> ''permission_denied_error''
      | SafetyRejected \<Rightarrow> ''image_generation_user_error'' | RateLimited \<Rightarrow> ''rate_limit_error''
      | Overloaded \<Rightarrow> ''server_overloaded_error''
      | Timeout \<Rightarrow> ''request_timeout_error'' | Cancelled \<Rightarrow> ''request_timeout_error''
      | Configuration \<Rightarrow> ''api_error'' | Upstream \<Rightarrow> ''api_error'' | Protocol \<Rightarrow> ''api_error''
      | Artifact \<Rightarrow> ''api_error'' | Internal \<Rightarrow> ''api_error'')"

definition compatible_code :: "error_code \<Rightarrow> string" where
  "compatible_code code =
     (case code of
        InvalidRequest \<Rightarrow> ''invalid_request'' | UnsupportedCapability \<Rightarrow> ''unsupported_capability''
      | Configuration \<Rightarrow> ''configuration'' | Authentication \<Rightarrow> ''authentication_required''
      | PermissionDenied \<Rightarrow> ''permission_denied'' | SafetyRejected \<Rightarrow> ''moderation_blocked''
      | RateLimited \<Rightarrow> ''rate_limited'' | Overloaded \<Rightarrow> ''overloaded'' | Timeout \<Rightarrow> ''timeout''
      | Cancelled \<Rightarrow> ''cancelled'' | Upstream \<Rightarrow> ''upstream_error'' | Protocol \<Rightarrow> ''protocol_error''
      | Input \<Rightarrow> ''invalid_image_input'' | Artifact \<Rightarrow> ''artifact_error'' | Session \<Rightarrow> ''session_not_found''
      | IdempotencyConflict \<Rightarrow> ''idempotency_conflict'' | Internal \<Rightarrow> ''internal_error'')"

definition status_for :: "error_code \<Rightarrow> nat" where
  "status_for code =
     (case code of
        InvalidRequest \<Rightarrow> 422 | SafetyRejected \<Rightarrow> 422
      | UnsupportedCapability \<Rightarrow> 400 | Input \<Rightarrow> 400
      | Configuration \<Rightarrow> 500 | Internal \<Rightarrow> 500 | Artifact \<Rightarrow> 500
      | Authentication \<Rightarrow> 401 | PermissionDenied \<Rightarrow> 403 | RateLimited \<Rightarrow> 429 | Overloaded \<Rightarrow> 503
      | Timeout \<Rightarrow> 504 | Cancelled \<Rightarrow> 408 | Upstream \<Rightarrow> 502 | Protocol \<Rightarrow> 502
      | Session \<Rightarrow> 404 | IdempotencyConflict \<Rightarrow> 409)"

definition from_bridge :: "bridge_error \<Rightarrow> string \<Rightarrow> api_error" where
  "from_bridge e request_id =
     \<lparr>ae_status = status_for (err_code e),
      ae_error =
        \<lparr>ce_message = err_message e, ce_type = compatible_type (err_code e),
         ce_param = Option.bind (err_details e ''field'') as_str, ce_code = compatible_code (err_code e),
         ce_extension =
           \<lparr>be_code = err_code e, be_retryable = err_retryable e, be_provider = err_provider e,
            be_upstream_request_id = err_upstream_request_id e, be_details = err_details e,
            be_suggestions = err_suggestions e\<rparr>\<rparr>,
      ae_request_id = request_id\<rparr>"

definition bad_request :: "string \<Rightarrow> string \<Rightarrow> api_error" where
  "bad_request message request_id = from_bridge (error_new InvalidRequest message) request_id"

definition authentication_error :: "string \<Rightarrow> api_error" where
  "authentication_error request_id = from_bridge (error_new Authentication ''bridge authentication required'') request_id"

definition browser_origin_forbidden :: "string \<Rightarrow> api_error" where
  "browser_origin_forbidden request_id =
     from_bridge (error_new PermissionDenied ''cross-origin browser requests are not allowed'') request_id"

definition with_status :: "nat \<Rightarrow> api_error \<Rightarrow> api_error" where
  "with_status status e = e\<lparr>ae_status := status\<rparr>"

definition retry_after_seconds :: "api_error \<Rightarrow> u64" where
  "retry_after_seconds e =
     max 1 (case Option.bind (be_details (ce_extension (ae_error e)) ''retry_after_ms'') as_u64 of
              None \<Rightarrow> 1 | Some milliseconds \<Rightarrow> sat_add milliseconds 999 div 1000)"

text \<open>The headers an error response adds.\<close>

definition error_headers :: "api_error \<Rightarrow> (string \<times> string) list" where
  "error_headers e =
     (if ae_status e = 401 then [(''www-authenticate'', ''Bearer realm=\"imagegen-bridge\"'')] else [])
     @ (if ae_status e \<in> {429, 503} then [(''retry-after'', show_nat (unat (retry_after_seconds e)))] else [])"

section \<open>Headers\<close>

text \<open>A header has its bytes and what \<open>to_str\<close> answers of them.\<close>

record header =
  hd_name :: string
  hd_bytes :: string
  hd_text :: "string option"

definition header_get :: "string \<Rightarrow> header list \<Rightarrow> header option" where
  "header_get name headers = find (\<lambda>h. hd_name h = name) headers"

definition header_all :: "string \<Rightarrow> header list \<Rightarrow> header list" where
  "header_all name headers = filter (\<lambda>h. hd_name h = name) headers"

definition header_text :: "string \<Rightarrow> header list \<Rightarrow> string option" where
  "header_text name headers = Option.bind (header_get name headers) hd_text"

fun header_bytes :: "usize \<Rightarrow> header list \<Rightarrow> usize option" where
  "header_bytes n [] = Some n"
| "header_bytes n (h # hs) =
     (let n' = n + length (hd_name h) in
      if usize_max < n' then None
      else let n'' = n' + length (hd_bytes h) in if usize_max < n'' then None else header_bytes n'' hs)"

definition enforce_header_limit :: "usize \<Rightarrow> string \<Rightarrow> header list \<Rightarrow> api_error + unit" where
  "enforce_header_limit maximum request_id headers =
     (if (case header_bytes 0 headers of None \<Rightarrow> True | Some bytes \<Rightarrow> maximum < bytes)
      then Inl (with_status 431 (bad_request ''request headers exceed the byte limit'' request_id)) else Inr ())"

definition valid_correlation_value :: "string \<Rightarrow> usize \<Rightarrow> bool" where
  "valid_correlation_value v maximum =
     (v \<noteq> [] \<and> length v \<le> maximum
      \<and> list_all (\<lambda>c. is_ascii_alphanumeric c \<or> c \<in> {CHR ''-'', CHR ''_'', CHR ''.'', CHR '':''}) v)"

definition request_correlation :: "string \<Rightarrow> header list \<Rightarrow> string" where
  "request_correlation fresh headers =
     (case header_text ''x-request-id'' headers of
        None \<Rightarrow> fresh
      | Some v \<Rightarrow> if valid_correlation_value v 128 then v else fresh)"

definition parse_traceparent :: "string \<Rightarrow> (string \<times> string \<times> string) option" where
  "parse_traceparent v =
     (case split_all CHR ''-'' v of
        version # trace # parent # flags # rest \<Rightarrow>
          if rest \<noteq> [] \<or> version \<noteq> ''00'' \<or> length trace \<noteq> 32 \<or> length parent \<noteq> 16 \<or> length flags \<noteq> 2
             \<or> list_all (\<lambda>c. c = CHR ''0'') trace \<or> list_all (\<lambda>c. c = CHR ''0'') parent
             \<or> \<not> list_all is_ascii_hexdigit (trace @ parent @ flags)
          then None
          else Some (to_ascii_lowercase trace, to_ascii_lowercase parent, to_ascii_lowercase flags)
      | _ \<Rightarrow> None)"

record trace_context =
  tx_trace :: string
  tx_span :: string
  tx_flags :: string
  tx_parent :: "string option"

definition trace_from_headers :: "string \<Rightarrow> string \<Rightarrow> header list \<Rightarrow> trace_context" where
  "trace_from_headers new_trace new_span headers =
     (case Option.bind (header_text ''traceparent'' headers) parse_traceparent of
        None \<Rightarrow> \<lparr>tx_trace = new_trace, tx_span = new_span, tx_flags = ''01'', tx_parent = None\<rparr>
      | Some (trace, parent, flags) \<Rightarrow>
          \<lparr>tx_trace = trace, tx_span = new_span, tx_flags = flags, tx_parent = Some parent\<rparr>)"

definition trace_header_value :: "trace_context \<Rightarrow> string" where
  "trace_header_value t = ''00-'' @ tx_trace t @ ''-'' @ tx_span t @ ''-'' @ tx_flags t"

definition apply_idempotency_header ::
  "header list \<Rightarrow> image_request \<Rightarrow> string \<Rightarrow> api_error + image_request" where
  "apply_idempotency_header headers request request_id =
     (case header_get ''idempotency-key'' headers of
        None \<Rightarrow> Inr request
      | Some h \<Rightarrow>
          and_then (ok_or (bad_request ''Idempotency-Key must be visible ASCII'' request_id) (hd_text h)) (\<lambda>key.
            if key = [] \<or> 512 < length key then Inl (bad_request ''Idempotency-Key length is invalid'' request_id)
            else if (case req_idempotency_key request of None \<Rightarrow> False | Some body \<Rightarrow> body \<noteq> key)
            then Inl (bad_request ''Idempotency-Key conflicts with the request body'' request_id)
            else Inr (request\<lparr>req_idempotency_key := Some key\<rparr>)))"

section \<open>Authorization\<close>

record auth_policy =
  ap_token :: string
  ap_scope :: string

definition new_auth_policy :: "(string \<Rightarrow> string) \<Rightarrow> string \<Rightarrow> auth_policy option" where
  "new_auth_policy sha256_hex token =
     (if token = [] then None else Some \<lparr>ap_token = token, ap_scope = ''bearer:'' @ sha256_hex token\<rparr>)"

text \<open>What the URI library answers of an origin.\<close>

record origin_uri =
  ou_scheme :: "string option"
  ou_has_query :: bool
  ou_path :: string
  ou_authority :: "string option"

definition browser_origin_allowed :: "(string \<Rightarrow> origin_uri option) \<Rightarrow> header list \<Rightarrow> bool" where
  "browser_origin_allowed parse_uri headers =
     ((case header_all ''sec-fetch-site'' headers of
         [] \<Rightarrow> True
       | h # hs \<Rightarrow> hs = [] \<and> (case hd_text h of None \<Rightarrow> False | Some v \<Rightarrow> v \<in> {''same-origin'', ''none''}))
      \<and> (case header_all ''origin'' headers of
           [] \<Rightarrow> True
         | h # hs \<Rightarrow>
             hs = []
             \<and> (case (hd_text h, header_text ''host'' headers) of
                  (Some origin, Some host) \<Rightarrow>
                    (case parse_uri origin of
                       None \<Rightarrow> False
                     | Some u \<Rightarrow>
                         (case ou_scheme u of
                            None \<Rightarrow> False
                          | Some scheme \<Rightarrow>
                              scheme \<in> {''http'', ''https''} \<and> \<not> ou_has_query u \<and> ou_path u \<in> {'''', ''/''}
                              \<and> (case ou_authority u of None \<Rightarrow> False
                                 | Some authority \<Rightarrow> eq_ignore_ascii_case authority host)))
                | _ \<Rightarrow> False)))"

definition authorize ::
  "(string \<Rightarrow> origin_uri option) \<Rightarrow> auth_policy option \<Rightarrow> string \<Rightarrow> header list \<Rightarrow> api_error + string" where
  "authorize parse_uri auth request_id headers =
     (if \<not> browser_origin_allowed parse_uri headers
      then Inl (with_status 403 (browser_origin_forbidden request_id))
      else
        (case auth of
           None \<Rightarrow> Inr ''anonymous-local''
         | Some policy \<Rightarrow>
             if Option.bind (header_text ''authorization'' headers) (strip_prefix ''Bearer '') = Some (ap_token policy)
             then Inr (ap_scope policy)
             else Inl (with_status 401 (authentication_error request_id))))"

section \<open>Cursors\<close>

record url_codec =
  uc_encode :: "string \<Rightarrow> string"
  uc_decode :: "string \<Rightarrow> string option"

definition max_cursor_bytes :: usize where
  "max_cursor_bytes = 256"

definition max_page_size :: usize where
  "max_page_size = 100"

definition encode_cursor :: "url_codec \<Rightarrow> string \<Rightarrow> string" where
  "encode_cursor uc v = uc_encode uc v"

definition decode_cursor :: "url_codec \<Rightarrow> string \<Rightarrow> string + string" where
  "decode_cursor uc v =
     (if v = [] \<or> max_cursor_bytes < length v then Inl ''provider cursor length is invalid''
      else
        and_then (ok_or ''provider cursor is malformed'' (uc_decode uc v)) (\<lambda>decoded.
          if \<not> utf8_valid decoded then Inl ''provider cursor is malformed''
          else if decoded = [] \<or> 64 < length decoded then Inl ''provider cursor is malformed''
          else Inr decoded))"

definition parse_u64 :: "string \<Rightarrow> u64 option" where
  "parse_u64 s =
     (let body = (case s of [] \<Rightarrow> [] | c # cs \<Rightarrow> if c = CHR ''+'' then cs else s) in
      if body = [] then None
      else (case digits_val 0 body of
              None \<Rightarrow> None
            | Some n \<Rightarrow> if n < 2 ^ 64 then Some (of_nat n) else None))"

definition encode_job_cursor :: "url_codec \<Rightarrow> u64 \<Rightarrow> string \<Rightarrow> string" where
  "encode_job_cursor uc created jid = encode_cursor uc (show_nat (unat created) @ '':'' @ jid)"

definition decode_job_cursor :: "url_codec \<Rightarrow> (string \<Rightarrow> bool) \<Rightarrow> string \<Rightarrow> string + u64 \<times> string" where
  "decode_job_cursor uc is_uuid v =
     (let malformed = ''job cursor is malformed'' in
      and_then (case decode_cursor uc v of Inl _ \<Rightarrow> Inl malformed | Inr d \<Rightarrow> Inr d) (\<lambda>decoded.
      and_then (ok_or malformed (split_once CHR '':'' decoded)) (\<lambda>(created, jid).
      and_then (ok_or malformed (parse_u64 created)) (\<lambda>created.
        if \<not> is_uuid jid then Inl malformed else Inr (created, jid)))))"

section \<open>Handlers\<close>

record 'a page =
  pg_items :: "'a list"
  pg_next_cursor :: "string option"

record list_query =
  lq_limit :: usize
  lq_cursor :: "string option"

definition default_page_size :: usize where
  "default_page_size = 20"

text \<open>The end of the three listing handlers: one entry more than the page was asked for.\<close>

definition page_of :: "usize \<Rightarrow> ('a \<Rightarrow> string) \<Rightarrow> 'a list \<Rightarrow> 'a page" where
  "page_of limit token items =
     (let has_more = limit < length items; items' = take limit items in
      \<lparr>pg_items = items',
       pg_next_cursor = (if has_more \<and> items' \<noteq> [] then Some (token (last items')) else None)\<rparr>)"

definition require_page_limit :: "string \<Rightarrow> string \<Rightarrow> usize \<Rightarrow> api_error + unit" where
  "require_page_limit message request_id limit =
     require (\<not> (limit = 0 \<or> max_page_size < limit)) (bad_request message request_id)"

text \<open>\<open>query.cursor.map(decode).transpose()\<close>, with the error for a cursor that does not decode.\<close>

definition cursor_position ::
  "(string \<Rightarrow> string + 'k) \<Rightarrow> (string \<Rightarrow> api_error) \<Rightarrow> string option \<Rightarrow> api_error + 'k option" where
  "cursor_position decode error cursor =
     (case cursor of
        None \<Rightarrow> Inr None
      | Some v \<Rightarrow> (case decode v of Inl message \<Rightarrow> Inl (error message) | Inr k \<Rightarrow> Inr (Some k)))"

definition api :: "(bridge_error \<Rightarrow> api_error) \<Rightarrow> 'a result \<Rightarrow> api_error + 'a" where
  "api f r = (case r of Inl e \<Rightarrow> Inl (f e) | Inr a \<Rightarrow> Inr a)"

definition resource_not_found :: "string \<Rightarrow> bridge_error \<Rightarrow> bool" where
  "resource_not_found resource e =
     (err_code e = InvalidRequest \<and> Option.bind (err_details e ''resource'') as_str = Some resource)"

definition job_api_error :: "string \<Rightarrow> bridge_error \<Rightarrow> api_error" where
  "job_api_error request_id e =
     (if resource_not_found ''job'' e then with_status 404 (from_bridge e request_id) else from_bridge e request_id)"

definition preset_api_error :: "string \<Rightarrow> bridge_error \<Rightarrow> api_error" where
  "preset_api_error request_id e =
     (if resource_not_found ''preset'' e then with_status 404 (from_bridge e request_id) else from_bridge e request_id)"

definition artifact_api_error :: "string \<Rightarrow> bridge_error \<Rightarrow> api_error" where
  "artifact_api_error request_id e = with_status 404 (from_bridge e request_id)"

subsection \<open>Providers\<close>

definition registry_descriptors :: "registry \<Rightarrow> provider_descriptor list" where
  "registry_descriptors reg = map (\<lambda>(_, p). pv_descriptor p) (rg_providers reg)"

definition list_providers ::
  "url_codec \<Rightarrow> string \<Rightarrow> list_query option \<Rightarrow> registry \<Rightarrow> api_error + provider_descriptor page" where
  "list_providers uc request_id query reg =
     and_then (ok_or (bad_request ''provider query parameters are invalid'' request_id) query) (\<lambda>q.
     and_then (require_page_limit ''provider page limit must be between 1 and 100'' request_id (lq_limit q)) (\<lambda>_.
     and_then (cursor_position (decode_cursor uc) (\<lambda>message. bad_request message request_id) (lq_cursor q)) (\<lambda>after.
       Inr (page_of (lq_limit q) (\<lambda>d. encode_cursor uc (pd_name d))
         (filter (\<lambda>d. case after of None \<Rightarrow> True | Some name \<Rightarrow> name < pd_name d) (registry_descriptors reg))))))"

definition provider_capabilities_handler ::
  "string \<Rightarrow> string option option \<Rightarrow> string \<Rightarrow> registry \<Rightarrow> api_error + provider_capabilities" where
  "provider_capabilities_handler request_id query provider reg =
     and_then (ok_or (bad_request ''capability query parameters are invalid'' request_id) query) (\<lambda>model.
       api (\<lambda>e. from_bridge e request_id) (registry_capabilities reg (Some provider) model))"

subsection \<open>Presets\<close>

definition preset_store :: "string \<Rightarrow> 's option \<Rightarrow> api_error + 's" where
  "preset_store request_id store =
     ok_or (from_bridge (error_new Configuration ''preset storage is disabled'') request_id) store"

definition list_presets ::
  "url_codec \<Rightarrow> template_codec \<Rightarrow> bool \<Rightarrow> string \<Rightarrow> list_query option \<Rightarrow> preset_table option
   \<Rightarrow> api_error + image_preset page" where
  "list_presets uc cd io request_id query store =
     and_then (ok_or (bad_request ''preset query parameters are invalid'' request_id) query) (\<lambda>q.
     and_then (require_page_limit ''preset page limit must be between 1 and 100'' request_id (lq_limit q)) (\<lambda>_.
     and_then (cursor_position (decode_cursor uc) (\<lambda>_. bad_request ''preset cursor is malformed'' request_id)
       (lq_cursor q)) (\<lambda>after.
     and_then (preset_store request_id store) (\<lambda>st.
     and_then (api (preset_api_error request_id)
       (preset_list cd io after (usize_sat_add (lq_limit q) 1) st)) (\<lambda>items.
       Inr (page_of (lq_limit q) (\<lambda>p. encode_cursor uc (ip_name p)) items))))))"

definition create_preset ::
  "template_codec \<Rightarrow> bool \<Rightarrow> string \<Rightarrow> preset_create_payload option \<Rightarrow> u64 \<Rightarrow> preset_table option
   \<Rightarrow> (api_error + string \<times> image_preset) \<times> preset_table option" where
  "create_preset cd io request_id payload now store =
     (case payload of
        None \<Rightarrow> (Inl (bad_request ''request body must be valid ImagePresetCreate JSON'' request_id), store)
      | Some create \<Rightarrow>
          (case store of
             None \<Rightarrow> (Inl (from_bridge (error_new Configuration ''preset storage is disabled'') request_id), store)
           | Some st \<Rightarrow>
               (case preset_create cd io create now st of
                  (r, st') \<Rightarrow>
                    (and_then (api (preset_api_error request_id) r) (\<lambda>preset.
                       Inr (''/v1/presets/'' @ ip_name preset, preset)), Some st'))))"

definition get_preset ::
  "template_codec \<Rightarrow> bool \<Rightarrow> string \<Rightarrow> string \<Rightarrow> preset_table option \<Rightarrow> api_error + image_preset" where
  "get_preset cd io request_id name store =
     and_then (preset_store request_id store) (\<lambda>st. api (preset_api_error request_id) (preset_get cd io name st))"

definition replace_preset ::
  "template_codec \<Rightarrow> bool \<Rightarrow> bool \<Rightarrow> (preset_table \<Rightarrow> preset_table) \<Rightarrow> string \<Rightarrow> string \<Rightarrow> preset_write option \<Rightarrow> u64
   \<Rightarrow> preset_table option \<Rightarrow> (api_error + image_preset) \<times> preset_table option" where
  "replace_preset cd io io' others request_id name payload now store =
     (case payload of
        None \<Rightarrow> (Inl (bad_request ''request body must be valid ImagePresetWrite JSON'' request_id), store)
      | Some write \<Rightarrow>
          (case store of
             None \<Rightarrow> (Inl (from_bridge (error_new Configuration ''preset storage is disabled'') request_id), store)
           | Some st \<Rightarrow>
               (case preset_replace cd io io' others name write now st of
                  (r, st') \<Rightarrow> (api (preset_api_error request_id) r, Some st'))))"

definition delete_preset ::
  "bool \<Rightarrow> string \<Rightarrow> string \<Rightarrow> preset_table option \<Rightarrow> (api_error + unit) \<times> preset_table option" where
  "delete_preset io request_id name store =
     (case store of
        None \<Rightarrow> (Inl (from_bridge (error_new Configuration ''preset storage is disabled'') request_id), store)
      | Some st \<Rightarrow>
          (case preset_delete io name st of
             (r, st') \<Rightarrow> (api (preset_api_error request_id) r, Some st')))"

subsection \<open>Jobs\<close>

record job_query =
  jq_limit :: usize
  jq_cursor :: "string option"
  jq_status :: "job_status option"
  jq_visibility :: "job_visibility option"
  jq_favorite :: "bool option"
  jq_search :: "string option"
  jq_include_deleted :: bool

definition default_job_query :: job_query where
  "default_job_query =
     \<lparr>jq_limit = default_page_size, jq_cursor = None, jq_status = None, jq_visibility = None,
      jq_favorite = None, jq_search = None, jq_include_deleted = False\<rparr>"

definition jobs_enabled :: "string \<Rightarrow> 's option \<Rightarrow> api_error + 's" where
  "jobs_enabled request_id jobs =
     ok_or (from_bridge (error_new Configuration ''durable jobs are disabled'') request_id) jobs"

definition trimmed_search :: "string option \<Rightarrow> string option" where
  "trimmed_search search =
     (case search of None \<Rightarrow> None | Some v \<Rightarrow> if trim v = [] then None else Some (trim v))"

definition list_jobs ::
  "url_codec \<Rightarrow> (string \<Rightarrow> bool) \<Rightarrow> job_codec \<Rightarrow> bool \<Rightarrow> string \<Rightarrow> string \<Rightarrow> job_query option \<Rightarrow> job_table option
   \<Rightarrow> api_error + job_summary page" where
  "list_jobs uc is_uuid cd io request_id scope query jobs =
     and_then (ok_or (bad_request ''job query parameters are invalid'' request_id) query) (\<lambda>q.
     and_then (require_page_limit ''job page limit must be between 1 and 100'' request_id (jq_limit q)) (\<lambda>_.
     and_then (require (\<not> (jq_include_deleted q \<and> jq_visibility q \<noteq> None))
       (bad_request ''include_deleted cannot be combined with visibility'' request_id)) (\<lambda>_.
     let search = trimmed_search (jq_search q) in
     and_then (require (case search of None \<Rightarrow> True | Some v \<Rightarrow> \<not> (512 < length v \<or> has_control v))
       (bad_request ''job search must contain at most 512 bytes and no control characters'' request_id)) (\<lambda>_.
     and_then (cursor_position (decode_job_cursor uc is_uuid) (\<lambda>message. bad_request message request_id)
       (jq_cursor q)) (\<lambda>before.
     and_then (jobs_enabled request_id jobs) (\<lambda>t.
     and_then (api (\<lambda>e. from_bridge e request_id)
       (job_list io cd scope
         \<lparr>jf_before = before, jf_limit = usize_sat_add (jq_limit q) 1,
          jf_visibility = (case jq_visibility q of Some v \<Rightarrow> v
                           | None \<Rightarrow> if jq_include_deleted q then Visible_All else Visible_Active),
          jf_status = jq_status q, jf_favorite = jq_favorite q, jf_search = search\<rparr> t)) (\<lambda>items.
       Inr (page_of (jq_limit q) (\<lambda>s. encode_job_cursor uc (js_created s) (js_id s)) items))))))))"

definition get_job ::
  "job_codec \<Rightarrow> bool \<Rightarrow> string \<Rightarrow> string \<Rightarrow> string \<Rightarrow> job_table option \<Rightarrow> api_error + image_job" where
  "get_job cd io request_id scope jid jobs =
     and_then (jobs_enabled request_id jobs) (\<lambda>t. api (job_api_error request_id) (job_get io cd scope jid t))"

definition get_job_partial ::
  "string \<Rightarrow> string \<Rightarrow> string \<Rightarrow> job_manager option \<Rightarrow> api_error + partial_preview" where
  "get_job_partial request_id scope jid jobs =
     and_then (jobs_enabled request_id jobs) (\<lambda>m.
       ok_or (with_status 404 (bad_request ''partial preview is not available'' request_id))
         (mg_partials m (scope, jid)))"

definition update_job ::
  "bool \<Rightarrow> bool \<Rightarrow> bool \<Rightarrow> (job_table \<Rightarrow> job_table) \<Rightarrow> (job_table \<Rightarrow> job_table) \<Rightarrow> job_codec \<Rightarrow> string \<Rightarrow> string
   \<Rightarrow> string \<Rightarrow> job_update option \<Rightarrow> u64 \<Rightarrow> job_table option \<Rightarrow> (api_error + image_job) \<times> job_table option" where
  "update_job io_read io io_get others others_get cd request_id scope jid payload now jobs =
     (case payload of
        None \<Rightarrow> (Inl (bad_request ''request body must be a valid ImageJobUpdate JSON object'' request_id), jobs)
      | Some update \<Rightarrow>
          (case jobs of
             None \<Rightarrow> (Inl (from_bridge (error_new Configuration ''durable jobs are disabled'') request_id), jobs)
           | Some t \<Rightarrow>
               (case update_history io_read io io_get others others_get cd scope jid
                       (ju_favorite update) (ju_deleted update) now t of
                  (r, t') \<Rightarrow> (api (job_api_error request_id) r, Some t'))))"

end
