(* ===== verification/Http_Pages.thy ===== *)
theory Http_Pages
  imports Http_Server Presets_Properties Job_Store_Properties Job_Queries
begin

text \<open>
  Pages and cursors: a listing is cut into pages, and the cursor of a page leads to the next one. The interface
  that the three listings share is a locale, interpreted on the handlers of presets, providers and jobs.
\<close>

section \<open>Following the cursors\<close>

text \<open>A client that asks for one page after the other; \<open>None\<close> when a request fails or the fuel runs out.\<close>

fun follow_pages :: "nat \<Rightarrow> (string option \<Rightarrow> 'e + 'a page) \<Rightarrow> string option \<Rightarrow> 'a list list option" where
  "follow_pages 0 get cursor = None"
| "follow_pages (Suc n) get cursor =
     (case get cursor of
        Inl e \<Rightarrow> None
      | Inr p \<Rightarrow>
          (case pg_next_cursor p of
             None \<Rightarrow> Some [pg_items p]
           | Some next_cursor \<Rightarrow> map_option ((#) (pg_items p)) (follow_pages n get (Some next_cursor))))"

locale cursor_listing =
  fixes ok :: "'s \<Rightarrow> bool"
    and entries :: "'s \<Rightarrow> 'a list"
    and token :: "'s \<Rightarrow> 'a \<Rightarrow> string"
    and request :: "'s \<Rightarrow> usize \<Rightarrow> string option \<Rightarrow> 'e + 'a page"
  assumes first_page: "ok s \<Longrightarrow> 0 < n \<Longrightarrow> n \<le> 100 \<Longrightarrow> request s n None = Inr (page_of n (token s) (take (Suc n) (entries s)))"
    and next_page: "ok s \<Longrightarrow> 0 < n \<Longrightarrow> n \<le> 100 \<Longrightarrow> entries s = xs @ x # ys \<Longrightarrow>
      request s n (Some (token s x)) = Inr (page_of n (token s) (take (Suc n) ys))"
begin

lemma follow_rest:
  assumes "ok s" "0 < n" "n \<le> 100" "entries s = xs @ ys" "length ys < fuel"
    and "request s n cursor = Inr (page_of n (token s) (take (Suc n) ys))"
  shows "\<exists>pages. follow_pages fuel (request s n) cursor = Some pages \<and> concat pages = ys
    \<and> list_all (\<lambda>page. length page \<le> n) pages"
  using assms(4-)
proof (induction fuel arbitrary: xs ys cursor)
  case (Suc fuel)
  show ?case
  proof (cases "n < length ys")
    case True
    then have page: "page_of n (token s) (take (Suc n) ys) =
        \<lparr>pg_items = take n ys, pg_next_cursor = Some (token s (last (take n ys)))\<rparr>"
      using assms(2) by (auto simp: page_of_def min_def Let_def)
    have split: "take n ys = butlast (take n ys) @ [last (take n ys)]"
      using True assms(2) by (intro append_butlast_last_id [symmetric]) auto
    then have rest: "entries s = (xs @ butlast (take n ys)) @ last (take n ys) # drop n ys"
      using Suc.prems(1) append_take_drop_id [of n ys] by (metis append.assoc append_Cons append_Nil)
    have "\<exists>pages. follow_pages fuel (request s n) (Some (token s (last (take n ys)))) = Some pages
        \<and> concat pages = drop n ys \<and> list_all (\<lambda>page. length page \<le> n) pages"
    proof (rule Suc.IH)
      show "entries s = (xs @ take n ys) @ drop n ys" using Suc.prems(1) by simp
      show "length (drop n ys) < fuel" using Suc.prems(2) True assms(2) by simp
      show "request s n (Some (token s (last (take n ys)))) = Inr (page_of n (token s) (take (Suc n) (drop n ys)))"
        using next_page [OF assms(1-3) rest] .
    qed
    then show ?thesis using Suc.prems(3) page by auto
  next
    case False
    then have "page_of n (token s) (take (Suc n) ys) = \<lparr>pg_items = ys, pg_next_cursor = None\<rparr>"
      by (simp add: page_of_def)
    then show ?thesis using Suc.prems(3) False by simp
  qed
qed simp

lemma follow_all:
  assumes "ok s" "0 < n" "n \<le> 100" "length (entries s) < fuel"
  shows "\<exists>pages. follow_pages fuel (request s n) None = Some pages \<and> concat pages = entries s
    \<and> list_all (\<lambda>page. length page \<le> n) pages"
  using follow_rest [of s n "[]" "entries s" fuel None] assms first_page [OF assms(1-3)] by simp

end

section \<open>Cursors\<close>

text \<open>What the handlers rely on in the base64 library, for texts of the length of a cursor.\<close>

definition url_codec_ok :: "url_codec \<Rightarrow> bool" where
  "url_codec_ok uc \<longleftrightarrow>
     (\<forall>s. s \<noteq> [] \<and> length s \<le> 64 \<longrightarrow>
        uc_encode uc s \<noteq> [] \<and> length (uc_encode uc s) \<le> 88 \<and> uc_decode uc (uc_encode uc s) = Some s)"

lemma cursor_round_trip:
  assumes "url_codec_ok uc" "v \<noteq> []" "length v \<le> 64" "utf8_valid v"
  shows "decode_cursor uc (encode_cursor uc v) = Inr v"
  using assms by (auto simp: url_codec_ok_def decode_cursor_def encode_cursor_def max_cursor_bytes_def dest!: spec [of _ v])

lemma ascii_utf8: "list_all (\<lambda>c. byte c < 128) s \<Longrightarrow> utf8_valid s"
  by (induction s rule: utf8_valid.induct) auto

lemma ascii_class_byte:
  "is_ascii_alphanumeric c \<Longrightarrow> byte c < 128" "is_ascii_lowercase c \<Longrightarrow> byte c < 128" "is_ascii_digit c \<Longrightarrow> byte c < 128"
  by (auto simp: is_ascii_alphanumeric_def is_ascii_lowercase_def is_ascii_uppercase_def is_ascii_digit_def)

lemma preset_name_cursor:
  assumes "validate_preset_name name = Inr ()"
  shows "name \<noteq> []" and "length name \<le> 64" and "utf8_valid name"
proof -
  from assms have bytes: "list_all (\<lambda>(index, c). preset_name_byte index c) (enumerate 0 name)"
    and length: "1 \<le> length name" "length name \<le> 64"
    by (simp_all add: validate_preset_name_def)
  have "byte c < 128" if c: "c \<in> set name" for c
  proof -
    from c obtain k where "k < length name" "name ! k = c" by (auto simp: in_set_conv_nth)
    then have "(k, c) \<in> set (enumerate 0 name)" by (simp add: in_set_enumerate_eq)
    with bytes have "preset_name_byte k c" by (auto simp: list_all_iff)
    then show ?thesis by (auto simp: preset_name_byte_def ascii_class_byte split: if_splits)
  qed
  then show "utf8_valid name" by (intro ascii_utf8) (simp add: list_all_iff)
  from length show "name \<noteq> []" "length name \<le> 64" by auto
qed

lemma after_name:
  assumes "sorted_wrt (\<lambda>a b. (k a :: 'k :: linorder) < k b) (xs @ r # ys)"
  shows "filter (\<lambda>x. k r < k x) (xs @ r # ys) = ys"
proof -
  have "\<forall>x \<in> set xs. \<not> k r < k x" "\<forall>x \<in> set ys. k r < k x"
    using assms by (auto simp: sorted_wrt_append dest: less_asym)
  then show ?thesis by (simp add: filter_False filter_True)
qed

lemma cursor_position_simps [simp]:
  "cursor_position decode e None = Inr None"
  "cursor_position decode e (Some v) = (case decode v of Inl message \<Rightarrow> Inl (e message) | Inr k \<Rightarrow> Inr (Some k))"
  by (simp_all add: cursor_position_def)

lemma page_of_take: "page_of n token (take (Suc n) xs) = page_of n token xs"
  by (auto simp: page_of_def min_def)

lemma page_limit_ok: "0 < n \<Longrightarrow> n \<le> 100 \<Longrightarrow> require_page_limit m rid n = Inr ()"
  by (simp add: require_page_limit_def require_def max_page_size_def)

lemma one_more: "n \<le> 100 \<Longrightarrow> usize_sat_add n (Suc 0) = Suc n"
  by (simp add: usize_sat_add_def usize_max_def)

section \<open>Presets\<close>

text \<open>A server that lists presets: the base64 codec, the template codec, the request and the table.\<close>

type_synonym preset_server = "url_codec \<times> template_codec \<times> string \<times> preset_table"

definition preset_server_ok :: "preset_server \<Rightarrow> bool" where
  "preset_server_ok = (\<lambda>(uc, cd, rid, st). url_codec_ok uc \<and> preset_table_ok cd st)"

definition preset_request :: "preset_server \<Rightarrow> usize \<Rightarrow> string option \<Rightarrow> api_error + image_preset page" where
  "preset_request = (\<lambda>(uc, cd, rid, st) n cursor.
     list_presets uc cd True rid (Some \<lparr>lq_limit = n, lq_cursor = cursor\<rparr>) (Some st))"

lemma preset_request_first:
  assumes "url_codec_ok uc" "preset_table_ok cd st" "0 < n" "n \<le> 100"
  shows "list_presets uc cd True rid (Some \<lparr>lq_limit = n, lq_cursor = None\<rparr>) (Some st)
    = Inr (page_of n (\<lambda>p. encode_cursor uc (ip_name p)) (take (Suc n) (all_presets cd st)))"
  using assms preset_list_pages [OF assms(2), of "Suc n" None]
  by (simp add: list_presets_def page_limit_ok one_more preset_store_def api_def i64_max_def)

lemma preset_request_next:
  assumes "url_codec_ok uc" "preset_table_ok cd st" "0 < n" "n \<le> 100" and split: "all_presets cd st = xs @ p # ys"
  shows "list_presets uc cd True rid (Some \<lparr>lq_limit = n, lq_cursor = Some (encode_cursor uc (ip_name p))\<rparr>) (Some st)
    = Inr (page_of n (\<lambda>p. encode_cursor uc (ip_name p)) (take (Suc n) ys))"
proof -
  have "p \<in> set (all_presets cd st)" by (simp add: split)
  then have "validate_preset_name (ip_name p) = Inr ()"
    using assms(2) by (auto simp: all_presets_def preset_table_ok_def list_all_iff preset_row_ok_def)
  note name = preset_name_cursor [OF this]
  have "filter (\<lambda>q. ip_name p < ip_name q) (all_presets cd st) = ys"
    using all_presets_sorted [OF assms(2)] unfolding split by (rule after_name)
  then show ?thesis
    using assms preset_list_pages [OF assms(2), of "Suc n" "Some (ip_name p)"] cursor_round_trip [OF assms(1) name]
    by (simp add: list_presets_def page_limit_ok one_more preset_store_def api_def i64_max_def)
qed

interpretation preset_pages: cursor_listing preset_server_ok "\<lambda>(uc, cd, rid, st). all_presets cd st"
  "\<lambda>(uc, cd, rid, st) p. encode_cursor uc (ip_name p)" preset_request
  by unfold_locales
    (auto simp: preset_server_ok_def preset_request_def preset_request_first preset_request_next)

text \<open>Following the cursors of the preset listing, with any page size the handler admits, returns every
  preset exactly once and in the order of names, in pages that hold no more than was asked for.\<close>

lemma preset_listing_complete:
  assumes "url_codec_ok uc" and "preset_table_ok cd st" and "0 < n" and "n \<le> 100"
  shows "\<exists>pages. follow_pages (Suc (length st))
       (\<lambda>cursor. list_presets uc cd True rid (Some \<lparr>lq_limit = n, lq_cursor = cursor\<rparr>) (Some st)) None = Some pages
     \<and> concat pages = all_presets cd st
     \<and> list_all (\<lambda>page. length page \<le> n) pages"
proof -
  have "preset_server_ok (uc, cd, rid, st)" using assms(1,2) by (simp add: preset_server_ok_def)
  from preset_pages.follow_all [OF this assms(3,4), of "Suc (length st)"] show ?thesis
    by (simp add: preset_request_def all_presets_def)
qed

section \<open>Providers\<close>

lemma provider_name_cursor:
  assumes "valid_provider_name name"
  shows "name \<noteq> []" and "length name \<le> 64" and "utf8_valid name"
proof -
  have "byte c < 128" if "c \<in> set name" for c
    using assms that by (auto simp: valid_provider_name_def list_all_iff dest!: bspec intro: ascii_class_byte)
  then show "utf8_valid name" by (intro ascii_utf8) (simp add: list_all_iff)
  from assms show "name \<noteq> []" "length name \<le> 64" by (auto simp: valid_provider_name_def max_provider_name_bytes_def)
qed

definition provider_server_ok :: "url_codec \<times> string \<times> registry \<Rightarrow> bool" where
  "provider_server_ok = (\<lambda>(uc, rid, reg). url_codec_ok uc \<and> registered_ok (rg_providers reg))"

definition provider_request ::
  "url_codec \<times> string \<times> registry \<Rightarrow> usize \<Rightarrow> string option \<Rightarrow> api_error + provider_descriptor page" where
  "provider_request = (\<lambda>(uc, rid, reg) n cursor. list_providers uc rid (Some \<lparr>lq_limit = n, lq_cursor = cursor\<rparr>) reg)"

lemma descriptors_sorted:
  assumes "registered_ok (rg_providers reg)"
  shows "sorted_wrt (\<lambda>a b. pd_name a < pd_name b) (registry_descriptors reg)"
    and "d \<in> set (registry_descriptors reg) \<Longrightarrow> valid_provider_name (pd_name d)"
proof -
  have "map pd_name (registry_descriptors reg) = map fst (rg_providers reg)"
    using assms by (auto simp: registry_descriptors_def registered_ok_def)
  then have "sorted_wrt (<) (map pd_name (registry_descriptors reg))" using assms by (simp add: registered_ok_def)
  then show "sorted_wrt (\<lambda>a b. pd_name a < pd_name b) (registry_descriptors reg)" by (simp add: sorted_wrt_map)
  show "d \<in> set (registry_descriptors reg) \<Longrightarrow> valid_provider_name (pd_name d)"
    using assms by (fastforce simp: registry_descriptors_def registered_ok_def)
qed

interpretation provider_pages: cursor_listing provider_server_ok "\<lambda>(uc, rid, reg). registry_descriptors reg"
  "\<lambda>(uc, rid, reg) d. encode_cursor uc (pd_name d)" provider_request
proof (unfold_locales, goal_cases)
  case (1 s n)
  then show ?case
    by (cases s) (simp add: provider_server_ok_def provider_request_def list_providers_def page_limit_ok page_of_take)
next
  case (2 s n xs d ys)
  obtain uc rid reg where s: "s = (uc, rid, reg)" by (cases s)
  with 2 have ok: "url_codec_ok uc" "registered_ok (rg_providers reg)" and split: "registry_descriptors reg = xs @ d # ys"
    by (simp_all add: provider_server_ok_def)
  have "valid_provider_name (pd_name d)" using descriptors_sorted(2) [OF ok(2)] by (simp add: split)
  note name = provider_name_cursor [OF this]
  have "filter (\<lambda>e. pd_name d < pd_name e) (registry_descriptors reg) = ys"
    using descriptors_sorted(1) [OF ok(2)] unfolding split by (rule after_name)
  then show ?case using 2 s cursor_round_trip [OF ok(1) name]
    by (simp add: provider_request_def list_providers_def page_limit_ok page_of_take)
qed

lemma provider_listing_complete:
  assumes "url_codec_ok uc" and "registered_ok (rg_providers reg)" and "0 < n" and "n \<le> 100"
  shows "\<exists>pages. follow_pages (Suc (length (rg_providers reg)))
       (\<lambda>cursor. list_providers uc rid (Some \<lparr>lq_limit = n, lq_cursor = cursor\<rparr>) reg) None = Some pages
     \<and> concat pages = registry_descriptors reg \<and> list_all (\<lambda>page. length page \<le> n) pages"
proof -
  have "provider_server_ok (uc, rid, reg)" using assms(1,2) by (simp add: provider_server_ok_def)
  from provider_pages.follow_all [OF this assms(3,4), of "Suc (length (rg_providers reg))"] show ?thesis
    by (simp add: provider_request_def registry_descriptors_def)
qed

section \<open>Jobs\<close>

lemma digit_byte: "is_ascii_digit c \<Longrightarrow> byte c < 128 \<and> c \<noteq> CHR '':''"
  by (auto simp: is_ascii_digit_def)

lemma length_show_nat: "0 < k \<Longrightarrow> n < 10 ^ k \<Longrightarrow> length (show_nat n) \<le> k"
proof (induction n arbitrary: k rule: show_nat.induct)
  case (1 n)
  show ?case
  proof (cases "n < 10")
    case True
    then show ?thesis using 1 by (simp add: show_nat.simps [of n])
  next
    case False
    with 1(3) obtain j where k: "k = Suc j" "0 < j"
      by (cases k; cases "k - 1") auto
    with 1(3) have "n div 10 < 10 ^ j" by (simp add: div_less_iff_less_mult mult.commute)
    from 1(1) [OF False k(2) this] show ?thesis using False k by (simp add: show_nat.simps [of n])
  qed
qed

lemma parse_show_u64: "parse_u64 (show_nat (unat (w :: u64))) = Some w"
proof -
  let ?s = "show_nat (unat w)"
  obtain c cs where s: "?s = c # cs" by (cases ?s) auto
  then have "is_ascii_digit c" using show_nat_digits [of c "unat w"] by simp
  then have "c \<noteq> CHR ''+''" by auto
  with s have "(case ?s of [] \<Rightarrow> [] | c # cs \<Rightarrow> if c = CHR ''+'' then cs else ?s) = ?s" by simp
  moreover have "unat w < 2 ^ 64" by (rule order.strict_trans2 [OF unsigned_less]) simp
  ultimately show ?thesis by (simp add: parse_u64_def Let_def)
qed

text \<open>The identifiers of jobs are UUIDs in their hyphenated form.\<close>

definition uuid_text :: "(string \<Rightarrow> bool) \<Rightarrow> string \<Rightarrow> bool" where
  "uuid_text is_uuid v \<longleftrightarrow> is_uuid v \<and> length v = 36 \<and> list_all (\<lambda>c. byte c < 128) v"

text \<open>The cursor of a job decodes to the creation time and the identifier it was made of.\<close>

lemma job_cursor_round_trip:
  assumes "url_codec_ok uc" and "uuid_text is_uuid jid"
  shows "decode_job_cursor uc is_uuid (encode_job_cursor uc created jid) = Inr (created, jid)"
proof -
  let ?v = "show_nat (unat created) @ '':'' @ jid"
  have "unat created < 10 ^ 20" by (rule order.strict_trans2 [OF unsigned_less]) simp
  then have "length ?v \<le> 64" using length_show_nat [of 20 "unat created"] assms(2) by (simp add: uuid_text_def)
  moreover have "utf8_valid ?v"
    using assms(2) show_nat_digits digit_byte by (intro ascii_utf8) (auto simp: uuid_text_def list_all_iff)
  ultimately have "decode_cursor uc (encode_cursor uc ?v) = Inr ?v"
    using cursor_round_trip [OF assms(1)] by simp
  moreover have "split_once CHR '':'' ?v = Some (show_nat (unat created), jid)"
    using show_nat_digits digit_byte by (auto simp: split_once_Some_iff)
  ultimately show ?thesis
    using assms(2) by (simp add: decode_job_cursor_def encode_job_cursor_def parse_show_u64 uuid_text_def)
qed

definition summary_row :: "job_row \<Rightarrow> job_summary" where
  "summary_row r = (case decode_summary r of Inr s \<Rightarrow> s)"

definition listable_row :: "(string \<Rightarrow> bool) \<Rightarrow> job_row \<Rightarrow> bool" where
  "listable_row is_uuid r \<longleftrightarrow> (\<exists>s. decode_summary r = Inr s) \<and> jr_created r \<le> i64_max \<and> uuid_text is_uuid (jr_id r)"

definition query_filter :: "job_query \<Rightarrow> job_list_filter" where
  "query_filter q =
     \<lparr>jf_before = None, jf_limit = 0,
      jf_visibility = (case jq_visibility q of Some v \<Rightarrow> v
                       | None \<Rightarrow> if jq_include_deleted q then Visible_All else Visible_Active),
      jf_status = jq_status q, jf_favorite = jq_favorite q, jf_search = trimmed_search (jq_search q)\<rparr>"

definition query_ok :: "job_query \<Rightarrow> bool" where
  "query_ok q \<longleftrightarrow> \<not> (jq_include_deleted q \<and> jq_visibility q \<noteq> None)
     \<and> (case trimmed_search (jq_search q) of None \<Rightarrow> True | Some v \<Rightarrow> \<not> (512 < length v \<or> has_control v))"

definition listed_jobs :: "job_codec \<Rightarrow> string \<Rightarrow> job_query \<Rightarrow> job_table \<Rightarrow> job_summary list" where
  "listed_jobs cd scope q t = map summary_row (newest_first (filter (listed cd scope (query_filter q) None) t))"

lemma decoded_summary:
  assumes "listable_row is_uuid r"
  shows "decode_summary r = Inr (summary_row r)" and "js_id (summary_row r) = jr_id r"
    and "to_i64 (js_created (summary_row r)) = Inr (jr_created r)"
proof -
  from assms obtain s where s: "decode_summary r = Inr s" by (auto simp: listable_row_def)
  then show eq: "decode_summary r = Inr (summary_row r)" by (simp add: summary_row_def)
  from s have "from_i64 (jr_created r) = Inr (js_created s)" "js_id s = jr_id r"
    by (auto simp: decode_summary_def result_simps)
  moreover from this(1) have "js_created s = word_of_int (jr_created r)" "0 \<le> jr_created r"
    by (auto simp: from_i64_def split: if_splits)
  ultimately show "js_id (summary_row r) = jr_id r" "to_i64 (js_created (summary_row r)) = Inr (jr_created r)"
    using eq s assms by (auto simp: to_i64_def listable_row_def i64_max_def uint_word_of_int)
qed

lemma job_page:
  assumes rows: "list_all (listable_row is_uuid) t" and scope: "validate_auth_scope scope = Inr ()" and n: "n \<le> 100"
    and before: "case before of None \<Rightarrow> b = None | Some (created, jid) \<Rightarrow> \<exists>c. to_i64 created = Inr c \<and> b = Some (c, jid)"
  shows "job_list True cd scope
      (query_filter q\<lparr>jf_before := before, jf_limit := Suc n\<rparr>) t =
    Inr (take (Suc n) (map summary_row (newest_first (filter (listed cd scope (query_filter q) b) t))))"
proof -
  let ?rows = "take (Suc n) (newest_first (filter (listed cd scope (query_filter q) b) t))"
  have "traverse decode_summary ?rows = Inr (map summary_row ?rows)"
  proof (rule traverse_map)
    fix r assume "r \<in> set ?rows"
    then have "r \<in> set t" by (auto dest: in_set_takeD simp: newest_first_def)
    with rows show "decode_summary r = Inr (summary_row r)" by (auto simp: list_all_iff intro: decoded_summary)
  qed
  moreover have "listed cd scope (query_filter q\<lparr>jf_before := before, jf_limit := Suc n\<rparr>) b = listed cd scope (query_filter q) b"
    by (rule ext) (simp add: listed_def)
  moreover have "transposed (\<lambda>(created, jid). and_then (to_i64 created) (\<lambda>c. Inr (c, jid))) before = Inr b"
    using before by (auto simp: transposed_def split: option.splits)
  moreover have "nat (i64_limit (Suc n)) = Suc n" using n by (simp add: i64_limit_def i64_max_def)
  ultimately show ?thesis using scope by (simp add: job_list_def take_map)
qed

type_synonym job_server = "url_codec \<times> (string \<Rightarrow> bool) \<times> job_codec \<times> string \<times> string \<times> job_query \<times> job_table"

definition job_server_ok :: "job_server \<Rightarrow> bool" where
  "job_server_ok = (\<lambda>(uc, is_uuid, cd, rid, scope, q, t).
     url_codec_ok uc \<and> keys_ok t \<and> list_all (listable_row is_uuid) t \<and> validate_auth_scope scope = Inr () \<and> query_ok q)"

definition job_request :: "job_server \<Rightarrow> usize \<Rightarrow> string option \<Rightarrow> api_error + job_summary page" where
  "job_request = (\<lambda>(uc, is_uuid, cd, rid, scope, q, t) n cursor.
     list_jobs uc is_uuid cd True rid scope (Some (q\<lparr>jq_limit := n, jq_cursor := cursor\<rparr>)) (Some t))"

lemma list_jobs_page:
  assumes ok: "job_server_ok (uc, is_uuid, cd, rid, scope, q, t)" and n: "0 < n" "n \<le> 100"
    and position: "cursor_position (decode_job_cursor uc is_uuid) (\<lambda>message. bad_request message rid) cursor = Inr before"
    and before: "case before of None \<Rightarrow> b = None | Some (created, jid) \<Rightarrow> \<exists>c. to_i64 created = Inr c \<and> b = Some (c, jid)"
  shows "job_request (uc, is_uuid, cd, rid, scope, q, t) n cursor =
    Inr (page_of n (\<lambda>s. encode_job_cursor uc (js_created s) (js_id s))
      (take (Suc n) (map summary_row (newest_first (filter (listed cd scope (query_filter q) b) t)))))"
proof -
  have parts: "list_all (listable_row is_uuid) t" "validate_auth_scope scope = Inr ()" "query_ok q"
    using ok by (simp_all add: job_server_ok_def)
  show ?thesis
    using job_page [OF parts(1,2) n(2) before, of cd q] position parts(3)
    by (cases "jq_visibility q"; cases "jq_include_deleted q")
      (simp_all add: job_request_def list_jobs_def query_ok_def page_limit_ok [OF n] one_more [OF n(2)]
        Let_def jobs_enabled_def api_def require_def query_filter_def)
qed

interpretation job_pages: cursor_listing job_server_ok "\<lambda>(uc, is_uuid, cd, rid, scope, q, t). listed_jobs cd scope q t"
  "\<lambda>(uc, is_uuid, cd, rid, scope, q, t) s. encode_job_cursor uc (js_created s) (js_id s)" job_request
proof (unfold_locales, goal_cases)
  case (1 s n)
  obtain uc is_uuid cd rid scope q t where s: "s = (uc, is_uuid, cd, rid, scope, q, t)" by (cases s)
  from list_jobs_page [OF 1(1) [unfolded s] 1(2,3), of None None None] show ?case by (simp add: s listed_jobs_def)
next
  case (2 s n xs p ys)
  obtain uc is_uuid cd rid scope q t where s: "s = (uc, is_uuid, cd, rid, scope, q, t)" by (cases s)
  let ?rows = "newest_first (filter (listed cd scope (query_filter q) None) t)"
  from 2(4) have "map summary_row ?rows = xs @ p # ys" by (simp add: s listed_jobs_def)
  then obtain xs' r ys' where rows: "?rows = xs' @ r # ys'" "p = summary_row r" "ys = map summary_row ys'"
    by (auto simp: map_eq_append_conv map_eq_Cons_conv)
  have "r \<in> set ?rows" by (simp add: rows)
  then have "r \<in> set t" by (simp add: newest_first_def)
  with 2(1) have listable: "listable_row is_uuid r" and codec: "url_codec_ok uc" and keys: "keys_ok t"
    by (auto simp: s job_server_ok_def list_all_iff)
  note p = decoded_summary [OF listable]
  have "decode_job_cursor uc is_uuid (encode_job_cursor uc (js_created p) (js_id p)) = Inr (js_created p, js_id p)"
    using listable p(2) by (intro job_cursor_round_trip codec) (simp add: rows listable_row_def)
  then have position: "cursor_position (decode_job_cursor uc is_uuid) (\<lambda>message. bad_request message rid)
      (Some (encode_job_cursor uc (js_created p) (js_id p))) = Inr (Some (js_created p, js_id p))" by simp
  have "newest_first (filter (listed cd scope (query_filter q) (Some (job_key r))) t) = ys'"
    by (rule listing_after_cursor [OF keys rows(1)])
  with list_jobs_page [OF 2(1) [unfolded s] 2(2,3) position, of "Some (job_key r)"] p
  show ?case by (simp add: s rows job_key_def)
qed

text \<open>C24. Following the cursors of the job listing returns every job of the scope that the query selects exactly
  once, newest first, in pages of at most the size that was asked for, whatever the table holds.\<close>

theorem job_listing_complete:
  assumes "url_codec_ok uc" and "keys_ok t" and "list_all (listable_row is_uuid) t"
    and "validate_auth_scope scope = Inr ()" and "query_ok q" and "0 < n" and "n \<le> 100"
  shows "\<exists>pages. follow_pages (Suc (length t))
       (\<lambda>cursor. list_jobs uc is_uuid cd True rid scope (Some (q\<lparr>jq_limit := n, jq_cursor := cursor\<rparr>)) (Some t)) None
       = Some pages
     \<and> concat pages = listed_jobs cd scope q t
     \<and> list_all (\<lambda>page. length page \<le> n) pages"
proof -
  let ?s = "(uc, is_uuid, cd, rid, scope, q, t)"
  have ok: "job_server_ok ?s" using assms by (simp add: job_server_ok_def)
  have "length (listed_jobs cd scope q t) < Suc (length t)"
    by (simp add: listed_jobs_def newest_first_def less_Suc_eq_le)
  from job_pages.follow_all [OF ok assms(6,7), of "Suc (length t)"] this show ?thesis
    by (simp add: job_request_def del: follow_pages.simps)
qed

end
