(* ===== verification/Http_Properties.thy ===== *)
theory Http_Properties
  imports Http_Pages
begin

text \<open>
  Properties of the HTTP boundary: what an error tells the client, who is let in, and how requests are
  correlated; with the concrete servers on which the listings were followed.
\<close>

section \<open>Errors\<close>

text \<open>What a client reads back of an error response.\<close>

definition client_error :: "api_error \<Rightarrow> bridge_error" where
  "client_error a =
     (let e = ae_error a; x = ce_extension e in
      \<lparr>err_code = be_code x, err_message = ce_message e, err_retryable = be_retryable x, err_provider = be_provider x,
       err_upstream_request_id = be_upstream_request_id x, err_details = be_details x,
       err_suggestions = be_suggestions x\<rparr>)"

text \<open>The classes of every status, after \<open>docs/api.md\<close>: rejected requests 400 and 422, authentication 401,
  permission 403, unknown sessions 404, cancellation 408, conflicts 409, rate limits 429, capacity 503, deadlines
  504, and upstream and internal failures 502 and 500.\<close>

definition status_classes :: "(nat \<times> error_code set) set" where
  "status_classes =
     {(400, {UnsupportedCapability, Input}), (422, {InvalidRequest, SafetyRejected}), (401, {Authentication}),
      (403, {PermissionDenied}), (404, {Session}), (408, {Cancelled}), (409, {IdempotencyConflict}),
      (429, {RateLimited}), (503, {Overloaded}), (504, {Timeout}), (502, {Upstream, Protocol}),
      (500, {Configuration, Artifact, Internal})}"

lemma status_classified: "(status, codes) \<in> status_classes \<Longrightarrow> status_for code = status \<longleftrightarrow> code \<in> codes"
  by (cases code) (auto simp: status_classes_def status_for_def)

lemma status_covered: "\<exists>codes. (status_for code, codes) \<in> status_classes"
  by (cases code) (simp_all add: status_for_def status_classes_def)

lemma retry_after_covers:
  assumes "Option.bind (err_details e ''retry_after_ms'') as_u64 = Some ms" "unat ms + 999 < 2 ^ 64"
  shows "unat ms \<le> 1000 * unat (retry_after_seconds (from_bridge e rid))
    \<and> (1000 * unat (retry_after_seconds (from_bridge e rid)) < unat ms + 1000 \<or> retry_after_seconds (from_bridge e rid) = 1)"
proof -
  let ?v = "retry_after_seconds (from_bridge e rid)"
  have v: "?v = max 1 (sat_add ms 999 div 1000)"
    using assms(1) by (simp add: retry_after_seconds_def from_bridge_def)
  have "unat (sat_add ms 999) = unat ms + 999" using assms(2) by (simp add: unat_sat_add)
  then have q: "unat (sat_add ms 999 div 1000) = (unat ms + 999) div 1000" by (simp add: unat_div)
  have "unat ?v = max 1 ((unat ms + 999) div 1000)"
    unfolding v by (simp add: max_def word_le_nat_alt q)
  moreover have "unat ms \<le> 1000 * ((unat ms + 999) div 1000)" "1000 * ((unat ms + 999) div 1000) < unat ms + 1000"
    by linarith+
  moreover have "unat ?v = 1 \<longleftrightarrow> ?v = 1" by (simp add: word_unat_eq_iff)
  ultimately show ?thesis by (auto simp: max_def split: if_splits)
qed

lemma retry_after_positive: "1 \<le> retry_after_seconds a"
  by (simp add: retry_after_seconds_def)

lemma compatible_code_inj: "compatible_code c = compatible_code c' \<longleftrightarrow> c = c'"
  by (cases c; cases c'; simp add: compatible_code_def)

text \<open>C26. The projection of an error loses nothing and its status tells the class. For every error: the client
  reads the error back from the response unchanged, with the identifier of the request; the status is that of
  the class of the code, and each class is exactly the errors of its status; the compatible code tells the codes
  apart; a challenge is sent exactly for authentication errors and a waiting time exactly for limited and
  overloaded ones. The time is at least a second; it is one second without a cooldown in the error, and otherwise
  covers the cooldown (up to the last second of the 64-bit range) and exceeds it by less than a second. The
  statement is about errors of the bridge; the handlers that choose a status of their own replace it.\<close>

theorem error_projection_lossless:
  "client_error (from_bridge e rid) = e \<and> ae_request_id (from_bridge e rid) = rid
   \<and> (\<exists>codes. (ae_status (from_bridge e rid), codes) \<in> status_classes)
   \<and> (\<forall>(status, codes) \<in> status_classes. ae_status (from_bridge e rid) = status \<longleftrightarrow> err_code e \<in> codes)
   \<and> (ce_code (ae_error (from_bridge e rid)) = ce_code (ae_error (from_bridge e' rid')) \<longleftrightarrow> err_code e = err_code e')
   \<and> (''www-authenticate'' \<in> fst ` set (error_headers (from_bridge e rid)) \<longleftrightarrow> err_code e = Authentication)
   \<and> (''retry-after'' \<in> fst ` set (error_headers (from_bridge e rid)) \<longleftrightarrow> err_code e \<in> {RateLimited, Overloaded})
   \<and> 1 \<le> retry_after_seconds (from_bridge e rid)
   \<and> (case Option.bind (err_details e ''retry_after_ms'') as_u64 of
        None \<Rightarrow> retry_after_seconds (from_bridge e rid) = 1
      | Some ms \<Rightarrow> unat ms + 999 < 2 ^ 64 \<longrightarrow>
          unat ms \<le> 1000 * unat (retry_after_seconds (from_bridge e rid))
          \<and> (1000 * unat (retry_after_seconds (from_bridge e rid)) < unat ms + 1000
             \<or> retry_after_seconds (from_bridge e rid) = 1))"
proof (intro conjI)
  show "\<forall>(status, codes) \<in> status_classes. ae_status (from_bridge e rid) = status \<longleftrightarrow> err_code e \<in> codes"
    using status_classified by (auto simp: from_bridge_def)
  have status: "ae_status (from_bridge e rid) = status_for (err_code e)" by (simp add: from_bridge_def)
  show "''www-authenticate'' \<in> fst ` set (error_headers (from_bridge e rid)) \<longleftrightarrow> err_code e = Authentication"
    by (cases "err_code e") (simp_all add: error_headers_def status status_for_def)
  show "''retry-after'' \<in> fst ` set (error_headers (from_bridge e rid)) \<longleftrightarrow> err_code e \<in> {RateLimited, Overloaded}"
    by (cases "err_code e") (simp_all add: error_headers_def status status_for_def)
  show "case Option.bind (err_details e ''retry_after_ms'') as_u64 of
      None \<Rightarrow> retry_after_seconds (from_bridge e rid) = 1
    | Some ms \<Rightarrow> unat ms + 999 < 2 ^ 64 \<longrightarrow>
        unat ms \<le> 1000 * unat (retry_after_seconds (from_bridge e rid))
        \<and> (1000 * unat (retry_after_seconds (from_bridge e rid)) < unat ms + 1000
           \<or> retry_after_seconds (from_bridge e rid) = 1)"
    using retry_after_covers [of e _ rid]
    by (cases "Option.bind (err_details e ''retry_after_ms'') as_u64")
      (simp_all add: retry_after_seconds_def from_bridge_def)
qed (simp_all add: client_error_def from_bridge_def Let_def status_covered compatible_code_inj retry_after_positive)

theorem error_projection_lossless_witness:
  "unat (retry_after_seconds (from_bridge (with_detail ''retry_after_ms'' (JUInt 180001) (error_new Overloaded ''circuit open'')) ''r''))
     * 1000 \<in> {180001..<181001}"
proof -
  let ?e = "with_detail ''retry_after_ms'' (JUInt 180001) (error_new Overloaded ''circuit open'')"
  have "Option.bind (err_details ?e ''retry_after_ms'') as_u64 = Some 180001"
    by (simp add: with_detail_def error_new_def as_u64_def)
  with error_projection_lossless [of ?e "''r''" ?e "''r''"] show ?thesis by auto
qed

section \<open>Admission\<close>

definition same_origin_header :: "(string \<Rightarrow> origin_uri option) \<Rightarrow> header list \<Rightarrow> header \<Rightarrow> bool" where
  "same_origin_header parse_uri headers h \<longleftrightarrow>
     (\<exists>origin host u scheme authority. hd_text h = Some origin \<and> header_text ''host'' headers = Some host
       \<and> parse_uri origin = Some u \<and> ou_scheme u = Some scheme \<and> scheme \<in> {''http'', ''https''}
       \<and> \<not> ou_has_query u \<and> ou_path u \<in> {'''', ''/''}
       \<and> ou_authority u = Some authority \<and> eq_ignore_ascii_case authority host)"

lemma origin_allowed:
  assumes "browser_origin_allowed parse_uri headers"
  shows "length (header_all ''origin'' headers) \<le> 1"
    and "list_all (same_origin_header parse_uri headers) (header_all ''origin'' headers)"
    and "list_all (\<lambda>h. hd_text h \<in> {Some ''same-origin'', Some ''none''}) (header_all ''sec-fetch-site'' headers)"
  using assms unfolding browser_origin_allowed_def same_origin_header_def
  by (auto split: list.splits option.splits)

text \<open>A digest as lower case hexadecimal digits.\<close>

definition hex_lower :: "char \<Rightarrow> bool" where
  "hex_lower c \<longleftrightarrow> is_ascii_digit c \<or> 97 \<le> byte c \<and> byte c \<le> 102"

definition hex_digest :: "(string \<Rightarrow> string) \<Rightarrow> bool" where
  "hex_digest sha256_hex \<longleftrightarrow>
     (\<forall>s. length (sha256_hex s) = 64 \<and> list_all hex_lower (sha256_hex s))"

lemma control_ascii: "list_all (\<lambda>c. 32 \<le> byte c \<and> byte c < 127) s \<Longrightarrow> \<not> has_control s"
  by (induction s rule: has_control.induct) auto

lemma bearer_scope_valid:
  assumes "hex_digest sha256_hex"
  shows "validate_auth_scope (''bearer:'' @ sha256_hex token) = Inr ()"
proof -
  have "list_all hex_lower (sha256_hex token)" using assms unfolding hex_digest_def by blast
  then have "list_all (\<lambda>c. 32 \<le> byte c \<and> byte c < 127) (''bearer:'' @ sha256_hex token)"
    by (auto simp: list_all_iff hex_lower_def is_ascii_digit_def dest!: bspec)
  from control_ascii [OF this] show ?thesis
    using assms by (simp add: validate_auth_scope_def hex_digest_def require_def)
qed

text \<open>C25. Only a holder of the configured token passes the authorization, whatever other headers it sends; a browser
  passes only from the same origin. The scope that is granted is that of the token, and the job store accepts it.\<close>

theorem only_token_holder_admitted:
  assumes "new_auth_policy sha256_hex token = Some policy" and "hex_digest sha256_hex"
    and "authorize parse_uri (Some policy) rid headers = Inr scope"
  shows "header_text ''authorization'' headers = Some (''Bearer '' @ token) \<and> token \<noteq> []
    \<and> scope = ''bearer:'' @ sha256_hex token \<and> validate_auth_scope scope = Inr ()
    \<and> length (header_all ''origin'' headers) \<le> 1
    \<and> list_all (same_origin_header parse_uri headers) (header_all ''origin'' headers)
    \<and> list_all (\<lambda>h. hd_text h \<in> {Some ''same-origin'', Some ''none''}) (header_all ''sec-fetch-site'' headers)"
proof -
  from assms(1) have policy: "token \<noteq> []" "policy = \<lparr>ap_token = token, ap_scope = ''bearer:'' @ sha256_hex token\<rparr>"
    by (auto simp: new_auth_policy_def split: if_splits)
  from assms(3) have "browser_origin_allowed parse_uri headers"
    and "Option.bind (header_text ''authorization'' headers) (strip_prefix ''Bearer '') = Some token"
    and "scope = ''bearer:'' @ sha256_hex token"
    by (auto simp: authorize_def policy(2) split: if_splits)
  with origin_allowed policy(1) bearer_scope_valid [OF assms(2)] show ?thesis
    by (auto simp: bind_eq_Some_conv strip_prefix_Some_iff simp del: strip_prefix.simps)
qed

definition demo_headers :: "header list" where
  "demo_headers =
     [\<lparr>hd_name = ''host'', hd_bytes = ''bridge.local:8787'', hd_text = Some ''bridge.local:8787''\<rparr>,
      \<lparr>hd_name = ''origin'', hd_bytes = ''http://bridge.local:8787'', hd_text = Some ''http://bridge.local:8787''\<rparr>,
      \<lparr>hd_name = ''authorization'', hd_bytes = ''Bearer t'', hd_text = Some ''Bearer t''\<rparr>]"

definition demo_parse_uri :: "string \<Rightarrow> origin_uri option" where
  "demo_parse_uri s = Some \<lparr>ou_scheme = Some ''http'', ou_has_query = False, ou_path = ''/'', ou_authority = Some (drop 7 s)\<rparr>"

theorem only_token_holder_admitted_witness:
  "\<exists>policy. new_auth_policy (\<lambda>_. replicate 64 CHR ''0'') ''t'' = Some policy
     \<and> authorize demo_parse_uri (Some policy) ''r'' demo_headers = Inr (ap_scope policy)
     \<and> validate_auth_scope (ap_scope policy) = Inr ()"
proof -
  let ?policy = "\<lparr>ap_token = ''t'', ap_scope = ''bearer:'' @ replicate 64 CHR ''0''\<rparr>"
  have policy: "new_auth_policy (\<lambda>_. replicate 64 CHR ''0'') ''t'' = Some ?policy" by (simp add: new_auth_policy_def)
  have digest: "hex_digest (\<lambda>_. replicate 64 CHR ''0'')"
    unfolding hex_digest_def list_all_length by (simp add: hex_lower_def is_ascii_digit_def)
  have run: "authorize demo_parse_uri (Some ?policy) ''r'' demo_headers = Inr (ap_scope ?policy)"
    by (simp add: authorize_def browser_origin_allowed_def demo_headers_def header_all_def header_text_def header_get_def
        demo_parse_uri_def eq_ignore_ascii_case_def to_ascii_lowercase_def)
  from only_token_holder_admitted [OF policy digest run] policy run show ?thesis by blast
qed

section \<open>Correlation\<close>

definition trace_id_ok :: "nat \<Rightarrow> string \<Rightarrow> bool" where
  "trace_id_ok n s \<longleftrightarrow> length s = n \<and> list_all hex_lower s \<and> \<not> list_all (\<lambda>c. c = CHR ''0'') s"

lemma split_all_first: "sep \<notin> set a \<Longrightarrow> split_all sep (a @ sep # b) = a # split_all sep b"
  by (induction a) auto

lemma hex_lower_dash: "list_all hex_lower s \<Longrightarrow> CHR ''-'' \<notin> set s"
  by (auto simp: list_all_iff hex_lower_def is_ascii_digit_def)

lemma hex_lower_fixed: "list_all hex_lower s \<Longrightarrow> to_ascii_lowercase s = s"
  unfolding to_ascii_lowercase_def
  by (rule map_idI) (auto simp: list_all_iff hex_lower_def is_ascii_digit_def to_ascii_lower_def is_ascii_uppercase_def)

lemma byte_to_lower: "byte (to_ascii_lower c) = (if is_ascii_uppercase c then byte c + 32 else byte c)"
  by (simp add: to_ascii_lower_def is_ascii_uppercase_def)

lemma lower_hexdigit: "is_ascii_hexdigit c \<Longrightarrow> hex_lower (to_ascii_lower c)"
  unfolding hex_lower_def is_ascii_digit_def byte_to_lower
  by (auto simp: is_ascii_hexdigit_def is_ascii_digit_def is_ascii_uppercase_def)

lemma lower_zero: "to_ascii_lower c = CHR ''0'' \<longleftrightarrow> c = CHR ''0''"
proof -
  have "to_ascii_lower c = CHR ''0'' \<longleftrightarrow> byte (to_ascii_lower c) = byte CHR ''0''" by (metis char_of_char)
  also have "\<dots> \<longleftrightarrow> byte c = byte CHR ''0''" unfolding byte_to_lower by (auto simp: is_ascii_uppercase_def)
  also have "\<dots> \<longleftrightarrow> c = CHR ''0''" by (metis char_of_char)
  finally show ?thesis .
qed

lemma lowered_trace_id:
  assumes "length s = n" "list_all is_ascii_hexdigit s" "\<not> list_all (\<lambda>c. c = CHR ''0'') s"
  shows "trace_id_ok n (to_ascii_lowercase s)"
  using assms by (auto simp: trace_id_ok_def to_ascii_lowercase_def list_all_iff lower_hexdigit lower_zero)

lemma parse_traceparent_exact:
  assumes "trace_id_ok 32 trace" "trace_id_ok 16 sid" "length flags = 2" "list_all hex_lower flags"
  shows "parse_traceparent (''00-'' @ trace @ ''-'' @ sid @ ''-'' @ flags) = Some (trace, sid, flags)"
proof -
  from assms have hex: "list_all hex_lower trace" "list_all hex_lower sid" by (simp_all add: trace_id_ok_def)
  have "split_all CHR ''-'' (''00-'' @ trace @ ''-'' @ sid @ ''-'' @ flags) = [''00'', trace, sid, flags]"
    using split_all_first [of "CHR ''-''" "''00''" "trace @ ''-'' @ sid @ ''-'' @ flags"]
      split_all_first [OF hex_lower_dash [OF hex(1)], of "sid @ ''-'' @ flags"]
      split_all_first [OF hex_lower_dash [OF hex(2)], of flags] split_all_single [OF hex_lower_dash [OF assms(4)]]
    by simp
  moreover have "list_all is_ascii_hexdigit (trace @ sid @ flags)"
    using hex assms(4) by (auto simp: list_all_iff hex_lower_def is_ascii_hexdigit_def)
  ultimately show ?thesis
    using assms hex by (simp add: parse_traceparent_def trace_id_ok_def hex_lower_fixed)
qed

lemma parsed_trace:
  assumes "parse_traceparent v = Some (trace, parent, flags)"
  shows "trace_id_ok 32 trace \<and> trace_id_ok 16 parent \<and> length flags = 2 \<and> list_all hex_lower flags"
proof -
  from assms obtain trace' parent' flags' where
    "length trace' = 32" "length parent' = 16" "length flags' = 2"
    "\<not> list_all (\<lambda>c. c = CHR ''0'') trace'" "\<not> list_all (\<lambda>c. c = CHR ''0'') parent'"
    "list_all is_ascii_hexdigit trace'" "list_all is_ascii_hexdigit parent'" "list_all is_ascii_hexdigit flags'"
    "trace = to_ascii_lowercase trace'" "parent = to_ascii_lowercase parent'" "flags = to_ascii_lowercase flags'"
    by (auto simp: parse_traceparent_def split: list.splits if_splits)
  then show ?thesis
    by (auto simp: lowered_trace_id) (auto simp: to_ascii_lowercase_def list_all_iff lower_hexdigit)
qed

text \<open>C27. Whatever trace header a client sends, the one of the response is well formed and says what was recorded; it
  continues the trace of a well-formed header, with its flags and its span as the parent, and otherwise starts
  a trace of its own.\<close>

theorem response_trace_well_formed:
  assumes "trace_id_ok 32 new_trace" and "trace_id_ok 16 new_sid"
  shows "parse_traceparent (trace_header_value (trace_from_headers new_trace new_sid headers)) =
      Some (tx_trace (trace_from_headers new_trace new_sid headers), new_sid,
        tx_flags (trace_from_headers new_trace new_sid headers))
    \<and> (case Option.bind (header_text ''traceparent'' headers) parse_traceparent of
         None \<Rightarrow> trace_from_headers new_trace new_sid headers =
           \<lparr>tx_trace = new_trace, tx_span = new_sid, tx_flags = ''01'', tx_parent = None\<rparr>
       | Some (trace, parent, flags) \<Rightarrow> trace_from_headers new_trace new_sid headers =
           \<lparr>tx_trace = trace, tx_span = new_sid, tx_flags = flags, tx_parent = Some parent\<rparr>)"
proof (cases "Option.bind (header_text ''traceparent'' headers) parse_traceparent")
  case None
  have "list_all hex_lower ''01''" by (simp add: hex_lower_def is_ascii_digit_def)
  then show ?thesis using None parse_traceparent_exact [OF assms, of "''01''"]
    by (simp add: trace_from_headers_def trace_header_value_def)
next
  case (Some parsed)
  then obtain trace parent flags where parsed: "parsed = (trace, parent, flags)" by (cases parsed)
  with Some obtain v where "parse_traceparent v = Some (trace, parent, flags)" by (auto simp: bind_eq_Some_conv)
  from parsed_trace [OF this] have "trace_id_ok 32 trace" "length flags = 2" "list_all hex_lower flags" by simp_all
  from parse_traceparent_exact [OF this(1) assms(2) this(2,3)] show ?thesis
    by (simp add: Some parsed trace_from_headers_def trace_header_value_def)
qed

definition demo_trace_id :: string where
  "demo_trace_id = replicate 32 CHR ''a''"

definition demo_span_id :: string where
  "demo_span_id = replicate 16 CHR ''b''"

lemma demo_ids: "trace_id_ok 32 demo_trace_id" "trace_id_ok 16 demo_span_id"
  by (auto simp: trace_id_ok_def demo_trace_id_def demo_span_id_def hex_lower_def list_all_length is_ascii_digit_def
      intro: exI [of _ 0])

theorem response_trace_well_formed_witness:
  "parse_traceparent (trace_header_value (trace_from_headers demo_trace_id demo_span_id demo_headers)) =
     Some (demo_trace_id, demo_span_id, ''01'')"
  using response_trace_well_formed [OF demo_ids, of demo_headers]
  by (simp add: demo_headers_def header_text_def header_get_def trace_from_headers_def)

section \<open>Listings on concrete servers\<close>

definition demo_url_codec :: url_codec where
  "demo_url_codec = \<lparr>uc_encode = (\<lambda>s. s), uc_decode = Some\<rparr>"

lemma demo_url_codec_ok: "url_codec_ok demo_url_codec"
  by (simp add: url_codec_ok_def demo_url_codec_def)

definition demo_uuid :: string where
  "demo_uuid = replicate 36 CHR ''0''"

lemma demo_uuid_text: "uuid_text (\<lambda>_. True) demo_uuid"
  by (simp add: uuid_text_def demo_uuid_def list_all_length)

lemma job_cursor_round_trip_witness:
  "decode_job_cursor demo_url_codec (\<lambda>_. True) (encode_job_cursor demo_url_codec 1700000000 demo_uuid)
     = Inr (1700000000, demo_uuid)"
  by (rule job_cursor_round_trip [OF demo_url_codec_ok demo_uuid_text])

definition demo_preset_rows :: preset_table where
  "demo_preset_rows = map (\<lambda>name. \<lparr>ps_name = name, ps_description = None, ps_template = '''', ps_created = 1, ps_updated = 1\<rparr>)
     [''b'', ''a'', ''c'']"

lemma demo_preset_rows_ok: "preset_table_ok demo_template_codec demo_preset_rows"
  by (simp add: preset_table_ok_def demo_preset_rows_def preset_row_ok_def validate_preset_name_def require_def
      preset_name_byte_def is_ascii_alphanumeric_def is_ascii_lowercase_def demo_template_codec_def stamp_ok_def i64_max_def)

lemma preset_listing_complete_witness:
  "\<exists>pages. follow_pages 4
       (\<lambda>cursor. list_presets demo_url_codec demo_template_codec True ''r''
          (Some \<lparr>lq_limit = 2, lq_cursor = cursor\<rparr>) (Some demo_preset_rows)) None = Some pages
     \<and> concat pages = all_presets demo_template_codec demo_preset_rows"
proof -
  have size: "length demo_preset_rows = 3" by (simp add: demo_preset_rows_def)
  have "0 < (2 :: nat)" "(2 :: nat) \<le> 100" by simp_all
  from preset_listing_complete [OF demo_url_codec_ok demo_preset_rows_ok this, of "''r''"] show ?thesis
    by (simp add: size eval_nat_numeral del: follow_pages.simps) blast
qed

definition demo_job_rows :: job_table where
  "demo_job_rows = [demo_cancelled\<lparr>jr_id := demo_uuid\<rparr>]"

theorem job_listing_complete_witness:
  "\<exists>pages. follow_pages 2
       (\<lambda>cursor. list_jobs demo_url_codec (\<lambda>_. True) demo_job_codec True ''r'' ''s''
          (Some (default_job_query\<lparr>jq_limit := 20, jq_cursor := cursor\<rparr>)) (Some demo_job_rows)) None = Some pages
     \<and> concat pages = listed_jobs demo_job_codec ''s'' default_job_query demo_job_rows"
proof -
  have keys: "keys_ok demo_job_rows" by (simp add: keys_ok_def demo_job_rows_def)
  have rows: "list_all (listable_row (\<lambda>_. True)) demo_job_rows"
    using demo_uuid_text
    by (simp add: demo_job_rows_def listable_row_def demo_cancelled_def queued_row_def demo_new_job_def decode_summary_def
        parse_status_def from_i64_def transposed_def i64_max_def)
  have query: "query_ok default_job_query" by (simp add: query_ok_def default_job_query_def trimmed_search_def)
  have size: "length demo_job_rows = 1" by (simp add: demo_job_rows_def)
  have "0 < (20 :: nat)" "(20 :: nat) \<le> 100" by simp_all
  from job_listing_complete [OF demo_url_codec_ok keys rows demo_scope query this, of demo_job_codec "''r''"]
  show ?thesis by (simp add: size eval_nat_numeral del: follow_pages.simps) blast
qed

end
