(* ===== verification/Spec2Isabelle.thy ===== *)
theory Spec2Isabelle
  imports Parameters Request Validation Response Capabilities Negotiation Codex_Capabilities
    Negotiation_Properties Circuit_Breaker Idempotency Idempotency_Leaders
    Sse Codex_Events Inspect Codex_Responses Codex_Responses_Properties
    Chroma Transparency Admission Registry Orchestrator Orchestrator_Properties
    Fanout Fanout_Properties
    Job_Store Job_Store_Properties Job_Queries Job_Manager Job_Manager_Properties Job_Queue
    Image_Input Image_Input_Properties Presets Presets_Properties Http_Server Http_Pages Http_Properties
begin

text \<open>
  Verification of imagegen-bridge, a gateway that takes normalized image-generation requests
  over a command line and an HTTP interface, validates and negotiates them against the
  capabilities of a provider, runs them through admission control, idempotency, circuit
  breakers and fallback routes, and materializes verified images.

  \<^bold>\<open>Theories.\<close>
  \<^item> \<open>Prelude\<close>, \<open>Rust_Str\<close>: results as sums, machine integers, and the operations of \<open>str\<close> on
    UTF-8 byte strings.
  \<^item> \<open>Errors\<close>, \<open>Parameters\<close>, \<open>Request\<close>, \<open>Response\<close>, \<open>Capabilities\<close>: the contract types of
    \<open>crates/core/src\<close> with their constructors, parsers, printers, defaults and decoders.
  \<^item> \<open>Validation\<close>: \<open>validation.rs\<close>, the issue-collecting validator, against the predicate
    \<open>well_formed_request\<close>.
  \<^item> \<open>Negotiation\<close>, \<open>Codex_Capabilities\<close>, \<open>Negotiation_Properties\<close>: \<open>negotiation.rs\<close> as a
    sequence of steps with a common contract (the locales \<open>negotiator\<close> and
    \<open>strict_negotiator\<close>, interpreted for each of the ten steps), and the capability documents
    of the two built-in providers. \<open>request_supported\<close> states what a document declares of a request: its
    operation with the numbers of images, masks and references, model, session, user, fidelity and parameters.
  \<^item> \<open>Circuit_Breaker\<close>: \<open>crates/runtime/src/circuit_breaker.rs\<close> as operations on the state
    behind the mutex and a step relation that interleaves their callers.
  \<^item> \<open>Idempotency\<close>: \<open>crates/runtime/src/idempotency.rs\<close> as operations on the table behind the
    async mutex, with watch channels as cells, folded over arbitrary interleavings of calls.
  \<^item> \<open>Idempotency_Leaders\<close>: the requests at work on that table. Only a leader at work completes or fails
    its key, as the orchestrator does, and the runs considered are those in which no leader outlives the in-flight
    period of the configuration; what happens otherwise is shown by \<open>stale_leader_counted_twice\<close>.
  \<^item> \<open>Sse\<close>, \<open>Codex_Events\<close>, \<open>Codex_Responses\<close>, \<open>Codex_Responses_Properties\<close>: the Codex
    Responses provider, \<open>crates/codex-responses/src\<close>: the incremental decoder against a
    reference decoder of whole streams, the event reducer, one call over the observations on
    its response body, the retry loop, and the fan-out over the outputs of a request.
  \<^item> \<open>Inspect\<close>, \<open>Chroma\<close>: \<open>inspect.rs\<close> and \<open>chroma.rs\<close> of \<open>crates/artifacts/src\<close>, the verification of
    encoded images and the removal of a key colour, pixel by pixel.
  \<^item> \<open>Transparency\<close>: \<open>crates/runtime/src/transparency.rs\<close>, the preparation of a request for a
    transparent background.
  \<^item> \<open>Admission\<close>, \<open>Registry\<close>: \<open>admission.rs\<close> as atomic operations with the phases of their callers
    and the abstract pool they refine, and \<open>registry.rs\<close>.
  \<^item> \<open>Orchestrator\<close>, \<open>Orchestrator_Properties\<close>: \<open>orchestrator.rs\<close>, one request through admission,
    circuit breaker, negotiation, provider, delivery and fallback, composed with the idempotency
    table. What the scheduler and the outside decide is a script of the request: how every
    awaited future raced against cancellation, shutdown and deadline, and what other calls did
    to the shared state in between.
  \<^item> \<open>Fanout\<close>, \<open>Fanout_Properties\<close>: \<open>fanout/mod.rs\<close>, the decorator that serves several outputs by
    several calls, for every order of their completion.
  \<^item> \<open>Job_Store\<close>, \<open>Job_Store_Properties\<close>, \<open>Job_Queries\<close>: \<open>sqlite_jobs.rs\<close>, the durable job store. The table is a
    list of rows with the columns of the schema, and every SQL statement is the function on rows that
    it denotes: an \<open>UPDATE\<close> maps the rows its condition selects, a \<open>DELETE\<close> filters. The operator \<open>LIKE\<close>
    is a parameter, with its documented behaviour as the hypothesis \<open>like_laws\<close>. A call of the store is one transaction; whether the database carries it out is an
    argument. Every call is shown to be a sequence of three kinds of moves of the table, from which
    the invariants follow.
  \<^item> \<open>Job_Manager\<close>, \<open>Job_Manager_Properties\<close>, \<open>Job_Queue\<close>: \<open>crates/server/src/jobs.rs\<close>, the queue over that
    store. Each task of the source is a position in its code and each event lets one task run to its
    next await, so that a list of events is an interleaving; the properties hold for every list. A submission may be
    dropped between its insertion and its scheduling, as when the client disconnects.
  \<^item> \<open>Image_Input\<close>, \<open>Image_Input_Properties\<close>: \<open>input.rs\<close> and \<open>remote.rs\<close> of \<open>crates/artifacts/src\<close>, the loading of the
    images a request names. A fetch also returns the requests it sent, each with the addresses its
    connection was pinned to, so that its safety is a statement about everything that left the process.
  \<^item> \<open>Presets\<close>, \<open>Presets_Properties\<close>: \<open>preset.rs\<close> and \<open>sqlite_presets.rs\<close>, templates of requests and their store,
    which is shown to be a finite map listed in the order of names.
  \<^item> \<open>Http_Server\<close>, \<open>Http_Pages\<close>, \<open>Http_Properties\<close>: \<open>error.rs\<close>, \<open>auth.rs\<close> and the handlers in \<open>routes.rs\<close> of
    \<open>crates/server/src\<close>. The three listings share the locale \<open>cursor_listing\<close>, which is interpreted on the
    handlers of providers, presets and jobs.

  \<^bold>\<open>Conventions.\<close> Strings are lists of UTF-8 bytes, integers have the width of the source,
  clocks are arguments in nanoseconds, maps are association lists or partial functions.
  Code outside the repository (serde's derived decoders and encoders, the SHA-256 digest, the \<open>LIKE\<close> operator of SQLite, the image libraries) is a parameter.

  \<^bold>\<open>Bounds.\<close> No definition of the program needs fuel: the loops are structural or have a measure. The client that
  follows the cursors of a listing counts its requests down, and one more than there are entries suffices. The split of
  outputs is a partial function, since its loop does not end for a native maximum of zero; it is
  shown to end for every other one.

  \<^bold>\<open>Not modelled\<close>: the route table and the compatibility endpoints of the HTTP server, the command line, the
  transport of the app-server provider, the session store and the artifact files, which are input and
  output; the scheduler and the clock, which scripts stand for.
\<close>

end
